(* ===== verification/Prelude.thy ===== *)
theory Prelude
  imports Complex_Main "HOL-Library.Multiset"
begin

text \<open>
  What every component of the development shares.

  Numbers.  A JavaScript number is an IEEE double.  \<open>jsnum\<close> keeps what the code tests for (a
  finite value, the two infinities, not-a-number) and the rules of \<open>Math.min\<close>, \<open>Math.max\<close>,
  \<open>Math.trunc\<close> and the comparisons on them; the finite values are exact rationals, so rounding of
  doubles and the sign of zero are not modelled.  Components whose numbers are always finite use
  \<open>rat\<close> (fractions) or \<open>int\<close> (counters, revisions, milliseconds) directly.

  Containers.  A JavaScript \<open>Map\<close> or object keeps its entries in insertion order and replaces in
  place: it is an association list with \<open>assign\<close>, \<open>erase\<close> and \<open>map_of\<close>.
  \<open>[...new Set(xs)]\<close> is \<open>uniq\<close> (the first occurrence of each value stays).

  Interfaces.  \<open>machine\<close> is the contract between a state machine and its invariant,
  \<open>bounded_queue\<close> the one between a buffer with a capacity and its clients, \<open>throttle\<close> the one
  of a component that fires under a cooldown.
\<close>

named_theorems js_num "evaluation rules of the JavaScript number operations"
named_theorems inv_intro "preservation lemmas of component invariants"

section \<open>Numbers\<close>

datatype jsnum = Fin rat | PosInf | NegInf | NaN

fun js_finite :: "jsnum \<Rightarrow> bool" where
  "js_finite (Fin _) = True"
| "js_finite _ = False"

fun js_less :: "jsnum \<Rightarrow> jsnum \<Rightarrow> bool" where
  "js_less NaN _ = False"
| "js_less _ NaN = False"
| "js_less (Fin a) (Fin b) = (a < b)"
| "js_less NegInf y = (y \<noteq> NegInf)"
| "js_less x PosInf = (x \<noteq> PosInf)"
| "js_less _ _ = False"

definition js_le :: "jsnum \<Rightarrow> jsnum \<Rightarrow> bool" where
  "js_le a b = (js_less a b \<or> (a = b \<and> a \<noteq> NaN))"

definition js_max :: "jsnum \<Rightarrow> jsnum \<Rightarrow> jsnum" where
  "js_max a b = (if a = NaN \<or> b = NaN then NaN else if js_less a b then b else a)"

definition js_min :: "jsnum \<Rightarrow> jsnum \<Rightarrow> jsnum" where
  "js_min a b = (if a = NaN \<or> b = NaN then NaN else if js_less b a then b else a)"

text \<open>\<open>Math.trunc\<close> and \<open>Math.round\<close> (halves go up) of a finite number.\<close>

definition trunc_rat :: "rat \<Rightarrow> int" where
  "trunc_rat x = (if x < 0 then \<lceil>x\<rceil> else \<lfloor>x\<rfloor>)"

definition round_rat :: "rat \<Rightarrow> int" where
  "round_rat x = \<lfloor>x + 1 / 2\<rfloor>"

fun js_trunc :: "jsnum \<Rightarrow> jsnum" where
  "js_trunc (Fin a) = Fin (of_int (trunc_rat a))"
| "js_trunc x = x"

fun js_is_integer :: "jsnum \<Rightarrow> bool" where
  "js_is_integer (Fin a) = (of_int \<lfloor>a\<rfloor> = a)"
| "js_is_integer _ = False"

text \<open>The helper \<open>clamp\<close> that most modules define: \<open>Math.min(maximum, Math.max(minimum, value))\<close>.\<close>

definition js_clamp :: "jsnum \<Rightarrow> jsnum \<Rightarrow> jsnum \<Rightarrow> jsnum" where
  "js_clamp v lo hi = js_min hi (js_max lo v)"

definition clamp :: "'a::linorder \<Rightarrow> 'a \<Rightarrow> 'a \<Rightarrow> 'a" where
  "clamp v lo hi = min hi (max lo v)"

lemma clamp_bounds: "lo \<le> hi \<Longrightarrow> lo \<le> clamp v lo hi \<and> clamp v lo hi \<le> hi"
  by (simp add: clamp_def)

lemma clamp_ge [simp]: "lo \<le> hi \<Longrightarrow> lo \<le> clamp v lo hi"
  by (simp add: clamp_def)

lemma clamp_le [simp]: "clamp v lo hi \<le> hi"
  by (simp add: clamp_def)

lemma clamp_id: "lo \<le> v \<Longrightarrow> v \<le> hi \<Longrightarrow> clamp v lo hi = v"
  by (simp add: clamp_def)

lemma clamp_idem [simp]: "lo \<le> hi \<Longrightarrow> clamp (clamp v lo hi) lo hi = clamp v lo hi"
  by (simp add: clamp_def)

lemma clamp_mono: "a \<le> b \<Longrightarrow> clamp a lo hi \<le> clamp b lo hi"
  by (auto simp: clamp_def min_def max_def)

lemma js_clamp_Fin [js_num, simp]: "js_clamp (Fin v) (Fin lo) (Fin hi) = Fin (clamp v lo hi)"
  by (auto simp: js_clamp_def js_min_def js_max_def clamp_def min_def max_def)

lemma js_clamp_NaN [js_num, simp]: "js_clamp NaN lo hi = NaN"
  by (simp add: js_clamp_def js_min_def js_max_def)

lemma js_clamp_PosInf [js_num, simp]: "js_clamp PosInf (Fin lo) (Fin hi) = Fin hi"
  by (simp add: js_clamp_def js_min_def js_max_def)

lemma js_clamp_NegInf [js_num, simp]: "lo \<le> hi \<Longrightarrow> js_clamp NegInf (Fin lo) (Fin hi) = Fin lo"
  by (auto simp: js_clamp_def js_min_def js_max_def)

lemma js_le_Fin [js_num, simp]: "js_le (Fin a) (Fin b) = (a \<le> b)"
  by (auto simp: js_le_def)

lemma js_le_NaN [js_num, simp]: "\<not> js_le NaN b" "\<not> js_le b NaN"
  by (cases b; simp add: js_le_def)+

lemma js_finite_iff: "js_finite x \<longleftrightarrow> (\<exists>r. x = Fin r)"
  by (cases x) auto

lemma round_rat_bounds: "of_int (round_rat x) \<le> x + 1 / 2 \<and> x - 1 / 2 < of_int (round_rat x)"
  unfolding round_rat_def by linarith

lemma round_rat_of_int [simp]: "round_rat (of_int n) = n"
  unfolding round_rat_def by linarith

lemma round_rat_mono: "x \<le> y \<Longrightarrow> round_rat x \<le> round_rat y"
  unfolding round_rat_def by (intro floor_mono) simp

lemma trunc_rat_of_int [simp]: "trunc_rat (of_int n) = n"
  by (simp add: trunc_rat_def)

section \<open>Lists\<close>

text \<open>\<open>[...new Set(xs)]\<close>: the first occurrence of each element, in order.\<close>

fun uniq :: "'a list \<Rightarrow> 'a list" where
  "uniq [] = []"
| "uniq (x # xs) = x # uniq (filter (\<lambda>y. y \<noteq> x) xs)"

lemma length_uniq_le: "length (uniq xs) \<le> length xs"
proof (induction xs rule: uniq.induct)
  case (2 x xs)
  have "length (filter (\<lambda>y. y \<noteq> x) xs) \<le> length xs" by simp
  with 2 show ?case by (simp add: le_trans)
qed simp

lemma set_uniq [simp]: "set (uniq xs) = set xs"
  by (induction xs rule: uniq.induct) auto

lemma distinct_uniq [simp]: "distinct (uniq xs)"
  by (induction xs rule: uniq.induct) auto

lemma uniq_distinct: "distinct xs \<Longrightarrow> uniq xs = xs"
proof (induction xs)
  case (Cons x xs)
  then have "filter (\<lambda>y. y \<noteq> x) xs = xs" by (auto intro: filter_True)
  with Cons show ?case by simp
qed simp

lemma distinct_filter_take [simp]: "distinct xs \<Longrightarrow> distinct (take n (filter P xs))"
  by (simp add: distinct_take)

text \<open>\<open>xs.slice(-n)\<close> for a buffer that keeps its newest entries.\<close>

definition keep_last :: "nat \<Rightarrow> 'a list \<Rightarrow> 'a list" where
  "keep_last n xs = drop (length xs - n) xs"

lemma length_keep_last [simp]: "length (keep_last n xs) = min n (length xs)"
  by (simp add: keep_last_def)

lemma keep_last_id: "length xs \<le> n \<Longrightarrow> keep_last n xs = xs"
  by (simp add: keep_last_def)

lemma set_keep_last: "set (keep_last n xs) \<subseteq> set xs"
  by (simp add: keep_last_def set_drop_subset)

section \<open>Insertion-ordered maps\<close>

text \<open>\<open>Map.prototype.set\<close>: a known key keeps its place, a new one goes to the end.\<close>

fun assign :: "'k \<Rightarrow> 'v \<Rightarrow> ('k \<times> 'v) list \<Rightarrow> ('k \<times> 'v) list" where
  "assign k v [] = [(k, v)]"
| "assign k v ((k', v') # m) = (if k' = k then (k, v) # m else (k', v') # assign k v m)"

definition erase :: "'k \<Rightarrow> ('k \<times> 'v) list \<Rightarrow> ('k \<times> 'v) list" where
  "erase k m = filter (\<lambda>e. fst e \<noteq> k) m"

definition keys :: "('k \<times> 'v) list \<Rightarrow> 'k list" where
  "keys m = map fst m"

definition wf_map :: "('k \<times> 'v) list \<Rightarrow> bool" where
  "wf_map m = distinct (map fst m)"

text \<open>\<open>new Map(entries)\<close>: later entries win, at the place of the first one.\<close>

definition map_from :: "('k \<times> 'v) list \<Rightarrow> ('k \<times> 'v) list" where
  "map_from es = fold (\<lambda>(k, v) m. assign k v m) es []"

lemma map_of_assign [simp]: "map_of (assign k v m) = (map_of m)(k \<mapsto> v)"
  by (induction k v m rule: assign.induct) (auto simp: fun_eq_iff)

lemma set_keys_assign [simp]: "fst ` set (assign k v m) = insert k (fst ` set m)"
  by (induction k v m rule: assign.induct) auto

lemma wf_map_assign [simp, inv_intro]: "wf_map m \<Longrightarrow> wf_map (assign k v m)"
  unfolding wf_map_def by (induction k v m rule: assign.induct) auto

lemma wf_map_Nil [simp]: "wf_map []"
  by (simp add: wf_map_def)

lemma length_assign: "length (assign k v m) = (if k \<in> fst ` set m then length m else Suc (length m))"
  by (induction k v m rule: assign.induct) auto

lemma map_of_erase [simp]: "map_of (erase k m) = (map_of m)(k := None)"
  unfolding erase_def by (induction m) (auto simp: fun_eq_iff)

lemma wf_map_erase [simp, inv_intro]: "wf_map m \<Longrightarrow> wf_map (erase k m)"
  unfolding wf_map_def erase_def by (simp add: distinct_map_filter)

lemma wf_map_fold_assign: "wf_map m \<Longrightarrow> wf_map (fold (\<lambda>(k, v) m. assign k v m) es m)"
  by (induction es arbitrary: m) auto

lemma wf_map_from [simp]: "wf_map (map_from es)"
  by (simp add: map_from_def wf_map_fold_assign)

lemma set_assign_subset: "set (assign k v m) \<subseteq> insert (k, v) (set m)"
  by (induction k v m rule: assign.induct) auto

lemma fold_assign_new:
  "distinct (map fst es) \<Longrightarrow> fst ` set es \<inter> fst ` set m = {} \<Longrightarrow>
   fold (\<lambda>(k, v) m. assign k v m) es m = m @ es"
proof (induction es arbitrary: m)
  case (Cons e es)
  obtain k v where e: "e = (k, v)" by force
  have app: "assign k v m = m @ [(k, v)]" if "k \<notin> fst ` set m"
    using that by (induction m) auto
  from Cons.prems e have "k \<notin> fst ` set m" by auto
  with app have a: "assign k v m = m @ [(k, v)]" by blast
  have "fold (\<lambda>(k, v) m. assign k v m) es (m @ [(k, v)]) = (m @ [(k, v)]) @ es"
    using Cons.prems e by (intro Cons.IH) auto
  with e a show ?case by simp
qed simp

lemma map_from_distinct: "distinct (map fst es) \<Longrightarrow> map_from es = es"
  by (simp add: map_from_def fold_assign_new)

section \<open>Interfaces\<close>

text \<open>
  A component that reacts to events keeps an invariant: it holds in the initial state and every
  event keeps it.  The clients of the machine reason about whole runs.
\<close>

locale machine =
  fixes start :: "'s"
    and step :: "'s \<Rightarrow> 'e \<Rightarrow> 's"
    and inv :: "'s \<Rightarrow> bool"
  assumes inv_start: "inv start"
    and inv_step: "inv s \<Longrightarrow> inv (step s e)"
begin

lemma inv_run_from: "inv s \<Longrightarrow> inv (foldl step s es)"
  by (induction es arbitrary: s) (auto intro: inv_step)

lemma inv_run: "inv (foldl step start es)"
  by (rule inv_run_from [OF inv_start])

lemma inv_prefix: "inv (foldl step start (take n es))"
  by (rule inv_run)

end

text \<open>
  A buffer with a capacity: \<open>push\<close> adds an entry and drops old ones, so that the content never
  exceeds the capacity and what is in it was there or has just been pushed.
\<close>

locale bounded_queue =
  fixes content :: "'q \<Rightarrow> 'a list"
    and push :: "'a \<Rightarrow> 'q \<Rightarrow> 'q"
    and cap :: "nat"
  assumes push_bound: "length (content q) \<le> cap \<Longrightarrow> length (content (push x q)) \<le> cap"
    and push_sub: "set (content (push x q)) \<subseteq> insert x (set (content q))"
    and push_new: "0 < cap \<Longrightarrow> x \<in> set (content (push x q))"
begin

lemma pushes_bound: "length (content q) \<le> cap \<Longrightarrow> length (content (fold push xs q)) \<le> cap"
  by (induction xs arbitrary: q) (auto intro: push_bound)

lemma pushes_sub: "set (content (fold push xs q)) \<subseteq> set xs \<union> set (content q)"
proof (induction xs arbitrary: q)
  case (Cons x xs)
  from Cons [of "push x q"] push_sub [of x q] show ?case by auto
qed simp

end


text \<open>
  A component with a cooldown: it fires at some of its events, never before its deadline, and sets
  the deadline \<open>gap\<close> later when it does.  \<open>run_fires\<close> lists the times it fires at.
\<close>

fun run_fires :: "('s \<Rightarrow> 'e \<Rightarrow> 's \<times> 't option) \<Rightarrow> 's \<Rightarrow> 'e list \<Rightarrow> 't list" where
  "run_fires step s [] = []"
| "run_fires step s (e # es) =
     (case step s e of (s', None) \<Rightarrow> run_fires step s' es | (s', Some t) \<Rightarrow> t # run_fires step s' es)"

locale throttle =
  fixes step :: "'s \<Rightarrow> 'e \<Rightarrow> 's \<times> 't::linordered_ab_group_add option"
    and ok :: "'s \<Rightarrow> bool"
    and deadline :: "'s \<Rightarrow> 't"
    and gap :: "'t"
  assumes gap_nonneg: "0 \<le> gap"
    and ok_step: "ok s \<Longrightarrow> step s e = (s', f) \<Longrightarrow> ok s'"
    and fire: "ok s \<Longrightarrow> step s e = (s', Some t) \<Longrightarrow> deadline s \<le> t \<and> t + gap \<le> deadline s'"
    and idle: "ok s \<Longrightarrow> step s e = (s', None) \<Longrightarrow> deadline s \<le> deadline s'"
begin

lemma fires_after_deadline: "ok s \<Longrightarrow> t \<in> set (run_fires step s es) \<Longrightarrow> deadline s \<le> t"
proof (induction es arbitrary: s)
  case (Cons e es)
  obtain s' f where se: "step s e = (s', f)" by force
  note ok' = ok_step [OF Cons.prems(1) se]
  show ?case
  proof (cases f)
    case None
    with Cons se ok' idle [of s e s'] show ?thesis by (auto intro: order_trans)
  next
    case (Some u)
    with fire [of s e s' u] se Cons.prems(1) have u: "deadline s \<le> u" "u + gap \<le> deadline s'" by auto
    then have "u \<le> deadline s'" using gap_nonneg by (meson le_add_same_cancel1 order_trans)
    with u Cons se ok' Some show ?thesis by (auto intro: order_trans)
  qed
qed simp

lemma fires_spaced: "ok s \<Longrightarrow> sorted_wrt (\<lambda>a b. a + gap \<le> b) (run_fires step s es)"
proof (induction es arbitrary: s)
  case (Cons e es)
  obtain s' f where se: "step s e = (s', f)" by force
  note ok' = ok_step [OF Cons.prems se]
  show ?case
  proof (cases f)
    case None
    with Cons.IH [OF ok'] se show ?thesis by simp
  next
    case (Some u)
    with fire [of s e s' u] se Cons.prems have "u + gap \<le> deadline s'" by auto
    with fires_after_deadline [OF ok'] Cons.IH [OF ok'] se Some show ?thesis by (auto intro: order_trans)
  qed
qed simp

end

end
