(* ===== verification/JsValue.thy ===== *)
theory JsValue
  imports Prelude
begin

text \<open>
  Values of unknown shape, as they come out of \<open>JSON.parse\<close> and account storage, and the tests
  the code makes on them: property access, truthiness, \<open>typeof\<close>, \<open>Number(...)\<close> and the
  regular expressions for identifiers.  A string is the list of its code units, of which only the
  first 256 can be written; every pattern of the code is about ASCII.  An object is an association
  list of its own properties in insertion order; \<open>JUndef\<close> is what reading an absent one gives.
\<close>

datatype jsv =
    JUndef
  | JNull
  | JBool bool
  | JNum jsnum
  | JStr string
  | JArr "jsv list"
  | JObj "(string \<times> jsv) list"

abbreviation JRat :: "rat \<Rightarrow> jsv" where
  "JRat r \<equiv> JNum (Fin r)"

abbreviation JInt :: "int \<Rightarrow> jsv" where
  "JInt n \<equiv> JNum (Fin (of_int n))"

section \<open>Access\<close>

fun is_obj :: "jsv \<Rightarrow> bool" where
  "is_obj (JObj _) = True"
| "is_obj _ = False"

fun is_arr :: "jsv \<Rightarrow> bool" where
  "is_arr (JArr _) = True"
| "is_arr _ = False"

fun is_str :: "jsv \<Rightarrow> bool" where
  "is_str (JStr _) = True"
| "is_str _ = False"

text \<open>\<open>value && typeof value === 'object'\<close>: arrays are objects too.\<close>

definition is_object :: "jsv \<Rightarrow> bool" where
  "is_object v = (is_obj v \<or> is_arr v)"

fun entries :: "jsv \<Rightarrow> (string \<times> jsv) list" where
  "entries (JObj es) = es"
| "entries _ = []"

fun items :: "jsv \<Rightarrow> jsv list" where
  "items (JArr xs) = xs"
| "items _ = []"

text \<open>\<open>value?.key\<close> on an own property.\<close>

definition field :: "jsv \<Rightarrow> string \<Rightarrow> jsv" where
  "field v k = (case map_of (entries v) k of None \<Rightarrow> JUndef | Some x \<Rightarrow> x)"

definition has_own :: "jsv \<Rightarrow> string \<Rightarrow> bool" where
  "has_own v k = (k \<in> set (map fst (entries v)))"

fun truthy :: "jsv \<Rightarrow> bool" where
  "truthy JUndef = False"
| "truthy JNull = False"
| "truthy (JBool b) = b"
| "truthy (JNum n) = (n \<noteq> NaN \<and> n \<noteq> Fin 0)"
| "truthy (JStr s) = (s \<noteq> [])"
| "truthy (JArr _) = True"
| "truthy (JObj _) = True"

text \<open>\<open>a ?? b\<close>.\<close>

fun nullish :: "jsv \<Rightarrow> bool" where
  "nullish JUndef = True"
| "nullish JNull = True"
| "nullish _ = False"

definition or_else :: "jsv \<Rightarrow> jsv \<Rightarrow> jsv" where
  "or_else a b = (if nullish a then b else a)"

text \<open>Object spread \<open>{...base, ...more}\<close> on the property lists.\<close>

definition spread :: "(string \<times> jsv) list \<Rightarrow> (string \<times> jsv) list \<Rightarrow> (string \<times> jsv) list" where
  "spread base more = fold (\<lambda>(k, v) m. assign k v m) more base"

section \<open>Characters and patterns\<close>

definition code :: "char \<Rightarrow> nat" where
  "code c = of_char c"

definition is_digit :: "char \<Rightarrow> bool" where
  "is_digit c = (48 \<le> code c \<and> code c \<le> 57)"

definition is_lower :: "char \<Rightarrow> bool" where
  "is_lower c = (97 \<le> code c \<and> code c \<le> 122)"

definition is_upper :: "char \<Rightarrow> bool" where
  "is_upper c = (65 \<le> code c \<and> code c \<le> 90)"

definition is_alnum :: "char \<Rightarrow> bool" where
  "is_alnum c = (is_digit c \<or> is_lower c \<or> is_upper c)"

text \<open>\<open>[0-9a-f]\<close> and, with the \<open>i\<close> flag, \<open>[0-9a-fA-F]\<close>.\<close>

definition is_hex_lower :: "char \<Rightarrow> bool" where
  "is_hex_lower c = (is_digit c \<or> (97 \<le> code c \<and> code c \<le> 102))"

definition is_hex :: "char \<Rightarrow> bool" where
  "is_hex c = (is_hex_lower c \<or> (65 \<le> code c \<and> code c \<le> 70))"

text \<open>\<open>[A-Za-z0-9._-]\<close>.\<close>

definition is_id_char :: "char \<Rightarrow> bool" where
  "is_id_char c = (is_alnum c \<or> c = CHR ''.'' \<or> c = CHR ''_'' \<or> c = CHR ''-'')"

definition in_class :: "(char \<Rightarrow> bool) \<Rightarrow> nat \<Rightarrow> nat \<Rightarrow> string \<Rightarrow> bool" where
  "in_class P lo hi s = (lo \<le> length s \<and> length s \<le> hi \<and> list_all P s)"

text \<open>\<open>/^[A-Za-z0-9._-]{1,64}$/\<close>, the identifier pattern of cameras, profiles, scenes and sources.\<close>

definition id64 :: "string \<Rightarrow> bool" where
  "id64 s = in_class is_id_char 1 64 s"

definition hex32 :: "string \<Rightarrow> bool" where
  "hex32 s = in_class is_hex_lower 32 32 s"

text \<open>\<open>/^#[0-9a-f]{6}$/i\<close>.\<close>

definition hex_colour :: "string \<Rightarrow> bool" where
  "hex_colour s = (length s = 7 \<and> hd s = CHR ''#'' \<and> list_all is_hex (tl s))"

definition starts_with :: "string \<Rightarrow> string \<Rightarrow> bool" where
  "starts_with p s = (take (length p) s = p)"

definition ends_with :: "string \<Rightarrow> string \<Rightarrow> bool" where
  "ends_with p s = (length p \<le> length s \<and> drop (length s - length p) s = p)"

fun has_sub :: "string \<Rightarrow> string \<Rightarrow> bool" where
  "has_sub p [] = (p = [])"
| "has_sub p (c # s) = (starts_with p (c # s) \<or> has_sub p s)"

text \<open>White space that \<open>trim\<close> and \<open>Number\<close> skip, as far as it is written in one byte.\<close>

definition is_space :: "char \<Rightarrow> bool" where
  "is_space c = ((9 \<le> code c \<and> code c \<le> 13) \<or> code c = 32 \<or> code c = 160)"

definition trim :: "string \<Rightarrow> string" where
  "trim s = rev (dropWhile is_space (rev (dropWhile is_space s)))"

definition lower_char :: "char \<Rightarrow> char" where
  "lower_char c = (if is_upper c then char_of (code c + 32) else c)"

lemma length_trim: "length (trim s) \<le> length s"
  unfolding trim_def by (metis length_dropWhile_le le_trans length_rev)

lemma id64_length: "id64 s \<Longrightarrow> 1 \<le> length s \<and> length s \<le> 64"
  by (simp add: id64_def in_class_def)

section \<open>\<open>Number(...)\<close>\<close>

text \<open>
  The string grammar of \<open>Number\<close>: an empty string is 0, an optional sign before a decimal
  literal or \<open>Infinity\<close>, and unsigned hexadecimal, octal and binary literals.  On arrays and
  objects \<open>Number\<close> goes through \<open>toString\<close>; a stored preference never holds one where a number
  is read, and the model answers not-a-number for them.
\<close>

fun digit_val :: "char \<Rightarrow> nat" where
  "digit_val c = (if is_digit c then code c - 48
     else if is_lower c then code c - 87 else if is_upper c then code c - 55 else 99)"

definition radix_val :: "nat \<Rightarrow> string \<Rightarrow> rat" where
  "radix_val b s = foldl (\<lambda>acc c. acc * of_nat b + of_nat (digit_val c)) 0 s"

definition radix_num :: "nat \<Rightarrow> string \<Rightarrow> jsnum" where
  "radix_num b s = (if s \<noteq> [] \<and> list_all (\<lambda>c. digit_val c < b) s then Fin (radix_val b s) else NaN)"

definition exponent :: "string \<Rightarrow> int option" where
  "exponent s =
     (let (neg, ds) = (case s of c # cs \<Rightarrow> if c = CHR ''-'' then (True, cs)
                         else if c = CHR ''+'' then (False, cs) else (False, s) | [] \<Rightarrow> (False, []))
      in if ds \<noteq> [] \<and> list_all is_digit ds
         then Some (if neg then - \<lfloor>radix_val 10 ds\<rfloor> else \<lfloor>radix_val 10 ds\<rfloor>) else None)"

definition scale10 :: "rat \<Rightarrow> int \<Rightarrow> rat" where
  "scale10 m e = (if 0 \<le> e then m * 10 ^ nat e else m / 10 ^ nat (- e))"

definition decimal_num :: "string \<Rightarrow> jsnum" where
  "decimal_num s =
     (if s = ''Infinity'' then PosInf else
      let is_e = (\<lambda>c. c = CHR ''e'' \<or> c = CHR ''E'');
          mant = takeWhile (\<lambda>c. \<not> is_e c) s;
          rest = dropWhile (\<lambda>c. \<not> is_e c) s;
          whole = takeWhile (\<lambda>c. c \<noteq> CHR ''.'') mant;
          frac = dropWhile (\<lambda>c. c \<noteq> CHR ''.'') mant;
          ds = whole @ tl frac
      in if ds = [] \<or> \<not> list_all is_digit ds then NaN
         else case (if rest = [] then Some 0 else exponent (tl rest)) of
                None \<Rightarrow> NaN
              | Some e \<Rightarrow> Fin (scale10 (radix_val 10 ds) (e - int (length (tl frac)))))"

fun negate :: "jsnum \<Rightarrow> jsnum" where
  "negate (Fin r) = Fin (- r)"
| "negate PosInf = NegInf"
| "negate NegInf = PosInf"
| "negate NaN = NaN"

definition string_num :: "string \<Rightarrow> jsnum" where
  "string_num s =
     (let t = trim s in
      if t = [] then Fin 0
      else if starts_with ''0x'' t \<or> starts_with ''0X'' t then radix_num 16 (drop 2 t)
      else if starts_with ''0o'' t \<or> starts_with ''0O'' t then radix_num 8 (drop 2 t)
      else if starts_with ''0b'' t \<or> starts_with ''0B'' t then radix_num 2 (drop 2 t)
      else if hd t = CHR ''-'' then negate (decimal_num (tl t))
      else if hd t = CHR ''+'' then decimal_num (tl t)
      else decimal_num t)"

fun to_number :: "jsv \<Rightarrow> jsnum" where
  "to_number JUndef = NaN"
| "to_number JNull = Fin 0"
| "to_number (JBool b) = Fin (if b then 1 else 0)"
| "to_number (JNum n) = n"
| "to_number (JStr s) = string_num s"
| "to_number _ = NaN"

text \<open>\<open>Number.isFinite\<close>, \<open>Number.isInteger\<close> and \<open>Number.isSafeInteger\<close> convert nothing.\<close>

fun is_finite_num :: "jsv \<Rightarrow> bool" where
  "is_finite_num (JNum n) = js_finite n"
| "is_finite_num _ = False"

fun as_int :: "jsv \<Rightarrow> int option" where
  "as_int (JNum (Fin r)) = (if of_int \<lfloor>r\<rfloor> = r then Some \<lfloor>r\<rfloor> else None)"
| "as_int _ = None"

definition max_safe :: int where
  "max_safe = 9007199254740991"

definition safe_int :: "jsv \<Rightarrow> int option" where
  "safe_int v = (case as_int v of None \<Rightarrow> None | Some n \<Rightarrow> if \<bar>n\<bar> \<le> max_safe then Some n else None)"

lemma as_int_JInt [simp]: "as_int (JInt n) = Some n"
  by simp

lemma safe_int_Some: "safe_int v = Some n \<longleftrightarrow> as_int v = Some n \<and> \<bar>n\<bar> \<le> max_safe"
  by (auto simp: safe_int_def split: option.splits if_splits)

lemma field_JObj [simp]: "field (JObj es) k = (case map_of es k of None \<Rightarrow> JUndef | Some x \<Rightarrow> x)"
  by (simp add: field_def)

lemma field_not_obj [simp]: "\<not> is_obj v \<Longrightarrow> field v k = JUndef"
  by (cases v) (auto simp: field_def)

lemma field_size: "map_of es k = Some v \<Longrightarrow> size v < size (JObj es)"
proof -
  assume "map_of es k = Some v"
  then have "(k, v) \<in> set es" by (rule map_of_SomeD)
  then have "size_prod (\<lambda>_. 0) size (k, v) \<le> size_list (size_prod (\<lambda>_. 0) size) es"
    by (rule size_list_estimation') simp
  then show ?thesis by simp
qed

section \<open>Laws of the spread\<close>

lemma map_of_spread2:
  "j \<noteq> k \<Longrightarrow> map_of (spread m [(j, x), (k, y)]) j = Some x"
  "map_of (spread m [(j, x), (k, y)]) k = Some y"
  by (simp_all add: spread_def)

lemma assign_same: "map_of m k = Some v \<Longrightarrow> assign k v m = m"
  by (induction m) auto

lemma spread2_same: "map_of m j = Some x \<Longrightarrow> map_of m k = Some y \<Longrightarrow> spread m [(j, x), (k, y)] = m"
  by (simp add: spread_def assign_same)

end
