(* ===== verification/Playback.thy ===== *)
theory Playback
  imports JsValue
begin

text \<open>
  Playback tuning (\<open>playbackOptimization.ts\<close>), the visibility policy (\<open>mediaLifecycle.ts\<close>,
  \<open>pageVisibility.ts\<close>) and the camera profile of \<open>types.ts\<close> they work on.  Times are
  milliseconds and rates are exact fractions; both are finite in the code.
\<close>

section \<open>Camera profiles\<close>

datatype profile_role = MainRole | SubRole | SnapshotRole | AuxiliaryRole

record camera_profile =
  prof_id :: string
  prof_role :: profile_role
  videoCodec :: string
  audioCodec :: string
  prof_width :: int
  prof_height :: int
  fps :: rat
  prof_enabled :: "bool option"

record playback_optimization =
  opt_enabled :: bool
  slowStreamTolerance :: bool
  adaptiveProfiles :: bool
  catchUp :: bool

definition defaultPlaybackOptimization :: playback_optimization where
  "defaultPlaybackOptimization =
     \<lparr>opt_enabled = True, slowStreamTolerance = True, adaptiveProfiles = True, catchUp = True\<rparr>"

text \<open>\<open>value?.field !== false\<close> for every switch.\<close>

definition normalizePlaybackOptimization :: "jsv \<Rightarrow> playback_optimization" where
  "normalizePlaybackOptimization v =
     \<lparr>opt_enabled = (field v ''enabled'' \<noteq> JBool False),
      slowStreamTolerance = (field v ''slowStreamTolerance'' \<noteq> JBool False),
      adaptiveProfiles = (field v ''adaptiveProfiles'' \<noteq> JBool False),
      catchUp = (field v ''catchUp'' \<noteq> JBool False)\<rparr>"

section \<open>Frame cadence\<close>

record frame_cadence =
  last_at :: rat
  gaps :: "rat list"

definition new_cadence :: frame_cadence where
  "new_cadence = \<lparr>last_at = 0, gaps = []\<rparr>"

text \<open>\<open>gaps.push(gap); if (gaps.length > 16) gaps.shift()\<close>.\<close>

definition push_gap :: "rat \<Rightarrow> rat list \<Rightarrow> rat list" where
  "push_gap g gs = (let gs' = gs @ [g] in if length gs' > 16 then tl gs' else gs')"

definition observe :: "frame_cadence \<Rightarrow> rat \<Rightarrow> frame_cadence" where
  "observe c now =
     (let c' = (if last_at c > 0 \<and> now > last_at c
                then c\<lparr>gaps := push_gap (now - last_at c) (gaps c)\<rparr> else c)
      in c'\<lparr>last_at := now\<rparr>)"

definition stallAfterMs :: "frame_cadence \<Rightarrow> bool \<Rightarrow> rat" where
  "stallAfterMs c enabled =
     (if \<not> enabled \<or> gaps c = [] then (if enabled then 45000 else 6000)
      else let sorted = sort (gaps c);
               cadence = sorted ! ((length sorted - 1) * 9 div 10)
           in min 90000 (max 6000 (cadence * 5 + 3000)))"

definition reset_cadence :: "frame_cadence \<Rightarrow> frame_cadence" where
  "reset_cadence c = \<lparr>last_at = 0, gaps = []\<rparr>"

section \<open>Congestion\<close>

record network_sample =
  received :: int
  lost :: int
  jitter :: rat
  freezes :: int
  sample_at :: rat

definition congested :: "network_sample \<Rightarrow> network_sample \<Rightarrow> bool" where
  "congested previous current =
     (let got = received current - received previous;
          gone = max 0 (lost current - lost previous)
      in if sample_at current \<le> sample_at previous \<or> got < 0 then False
         else (got + gone \<ge> 20 \<and> of_int gone / of_int (got + gone) > (5 / 100 :: rat))
              \<or> jitter current > 18 / 100
              \<or> (jitter current > 6 / 100 \<and> freezes current > freezes previous))"

section \<open>A cheaper profile\<close>

text \<open>\<open>profile.fps || 25\<close>: an unknown rate counts as 25.\<close>

definition profile_cost :: "camera_profile \<Rightarrow> rat" where
  "profile_cost p = of_int (max 1 (prof_width p)) * of_int (max 1 (prof_height p))
     * max (1 / 10) (if fps p = 0 then 25 else fps p)"

definition cheaper_candidate :: "camera_profile \<Rightarrow> camera_profile \<Rightarrow> bool" where
  "cheaper_candidate current p =
     (prof_id p \<noteq> prof_id current \<and> prof_enabled p \<noteq> Some False \<and> prof_role p \<noteq> SnapshotRole
      \<and> (audioCodec current = [] \<or> audioCodec p \<noteq> [])
      \<and> prof_width p > 0 \<and> prof_height p > 0 \<and> fps p > 0
      \<and> profile_cost p < profile_cost current * (8 / 10))"

definition lowerBandwidthProfile :: "camera_profile \<Rightarrow> camera_profile list \<Rightarrow> camera_profile option" where
  "lowerBandwidthProfile current candidates =
     (case sort_key (\<lambda>p. - profile_cost p) (filter (cheaper_candidate current) candidates) of
        [] \<Rightarrow> None
      | p # _ \<Rightarrow> Some p)"

section \<open>Visibility\<close>

record page_state =
  doc_hidden :: bool
  androidForeground :: "bool option"

definition isPageVisible :: "page_state \<Rightarrow> bool" where
  "isPageVisible p = (\<not> doc_hidden p \<and> androidForeground p \<noteq> Some False)"

record playback_visibility =
  lowPowerEnabled :: bool
  documentVisible :: bool
  tileIntersecting :: bool
  nativeForeground :: "bool option"

definition shouldRunPlayback :: "playback_visibility \<Rightarrow> bool" where
  "shouldRunPlayback s =
     (nativeForeground s \<noteq> Some False
      \<and> (\<not> lowPowerEnabled s \<or> (documentVisible s \<and> tileIntersecting s)))"

section \<open>The cadence window\<close>

interpretation gap_window: bounded_queue id push_gap 16
  by unfold_locales (auto simp: push_gap_def Let_def tl_append dest: list.set_sel(2) [rotated]
    split: list.splits)

definition cadence_ok :: "frame_cadence \<Rightarrow> bool" where
  "cadence_ok c = (length (gaps c) \<le> 16 \<and> (\<forall>g \<in> set (gaps c). 0 < g))"

lemma cadence_ok_new [simp]: "cadence_ok new_cadence"
  by (simp add: cadence_ok_def new_cadence_def)

lemma gaps_observe:
  "gaps (observe c now) = (if last_at c > 0 \<and> now > last_at c
     then push_gap (now - last_at c) (gaps c) else gaps c)"
  by (simp add: observe_def Let_def)

lemma cadence_ok_observe [inv_intro]: "cadence_ok c \<Longrightarrow> cadence_ok (observe c now)"
  using gap_window.push_bound [of "gaps c"] gap_window.push_sub [of "now - last_at c" "gaps c"]
  by (auto simp: cadence_ok_def gaps_observe)

interpretation cadence: machine new_cadence observe cadence_ok
  by unfold_locales (auto intro: inv_intro)

lemma cadence_index: "0 < n \<Longrightarrow> (n - 1) * 9 div 10 < (n::nat)"
  by simp

lemma cadence_pick_mem:
  "gs \<noteq> [] \<Longrightarrow> sort gs ! ((length (sort gs) - 1) * 9 div 10) \<in> set gs"
  using nth_mem [of "(length gs - 1) * 9 div 10" "sort gs"] cadence_index [of "length gs"] by simp

lemma stallAfterMs_range: "6000 \<le> stallAfterMs c enabled \<and> stallAfterMs c enabled \<le> 90000"
  by (simp add: stallAfterMs_def Let_def)

text \<open>What the 90th percentile protects: a stream whose gaps reach \<open>g\<close> keeps more than \<open>g\<close>.\<close>

lemma stallAfterMs_regular:
  assumes "gaps c \<noteq> []" and "\<forall>x \<in> set (gaps c). x = g" and "0 < g" and "g < 90000"
  shows "g < stallAfterMs c True"
proof -
  have "sort (gaps c) ! ((length (sort (gaps c)) - 1) * 9 div 10) = g"
    using cadence_pick_mem [OF assms(1)] assms(2) by blast
  with assms show ?thesis by (auto simp: stallAfterMs_def Let_def min_def max_def)
qed

section \<open>Downgrades\<close>

lemma profile_cost_pos: "1 / 10 \<le> profile_cost p"
proof -
  have "1 \<le> of_int (max 1 (prof_width p)) * (of_int (max 1 (prof_height p)) :: rat)"
    by (simp flip: of_int_mult add: mult_ge1_I del: of_int_max)
      (metis max.cobounded1 mult_mono' mult.right_neutral zero_le_one)
  then have "1 * (1 / 10) \<le> profile_cost p"
    unfolding profile_cost_def by (intro mult_mono) auto
  then show ?thesis by simp
qed

lemma sort_key_hd:
  "sort_key f xs = y # ys \<Longrightarrow> y \<in> set xs \<and> (\<forall>x \<in> set xs. f y \<le> f x)"
proof -
  assume eq: "sort_key f xs = y # ys"
  have "set (sort_key f xs) = set xs" by simp
  with eq have s: "set xs = insert y (set ys)" by simp
  have "sorted (map f (sort_key f xs))" by simp
  with eq s show ?thesis by auto
qed

lemma lowerBandwidthProfile_Some:
  assumes "lowerBandwidthProfile current cs = Some p"
  shows "p \<in> set cs" and "cheaper_candidate current p"
    and "\<forall>q \<in> set cs. cheaper_candidate current q \<longrightarrow> profile_cost q \<le> profile_cost p"
  using assms by (auto simp: lowerBandwidthProfile_def split: list.splits dest!: sort_key_hd)

lemma lowerBandwidthProfile_None:
  "lowerBandwidthProfile current cs = None \<longleftrightarrow> (\<forall>q \<in> set cs. \<not> cheaper_candidate current q)"
proof -
  have empty: "sort_key f xs = [] \<longleftrightarrow> xs = []" for f :: "camera_profile \<Rightarrow> rat" and xs
    by (metis length_0_conv length_sort)
  show ?thesis
    unfolding lowerBandwidthProfile_def by (simp add: empty filter_empty_conv split: list.split)
      (metis empty filter_empty_conv list.distinct(1))
qed

text \<open>Repeated downgrades over one candidate list, as weak samples keep arriving.\<close>

inductive downgrades :: "camera_profile list \<Rightarrow> camera_profile \<Rightarrow> camera_profile list \<Rightarrow> bool"
  for cs where
  stay: "downgrades cs p []"
| down: "lowerBandwidthProfile p cs = Some q \<Longrightarrow> downgrades cs q qs \<Longrightarrow> downgrades cs p (q # qs)"

inductive_cases downgrades_ConsE: "downgrades cs p (q # qs)"

lemma downgrades_cost:
  "downgrades cs p qs \<Longrightarrow> q \<in> set qs \<Longrightarrow> profile_cost q < profile_cost p"
proof (induction rule: downgrades.induct)
  case (down p q' qs)
  have "profile_cost q' < profile_cost p * (8 / 10)"
    using lowerBandwidthProfile_Some(2) [OF down.hyps(1)] by (simp add: cheaper_candidate_def)
  moreover have "0 < profile_cost p" using profile_cost_pos [of p] by linarith
  ultimately have "profile_cost q' < profile_cost p" by linarith
  with down show ?case by force
qed simp

lemma downgrades_distinct: "downgrades cs p qs \<Longrightarrow> distinct (p # qs) \<and> set qs \<subseteq> set cs"
proof (induction rule: downgrades.induct)
  case (down p q qs)
  have "x \<noteq> p" if "x \<in> set (q # qs)" for x
    using downgrades_cost [OF downgrades.down [OF down.hyps] that] by auto
  with down.IH lowerBandwidthProfile_Some(1) [OF down.hyps(1)] show ?case by auto
qed simp

lemma downgrades_cost_pow:
  "downgrades cs p qs \<Longrightarrow> profile_cost (last (p # qs)) \<le> (8 / 10) ^ length qs * profile_cost p"
proof (induction rule: downgrades.induct)
  case (down p q qs)
  have "profile_cost q \<le> profile_cost p * (8 / 10)"
    using lowerBandwidthProfile_Some(2) [OF down.hyps(1)] by (simp add: cheaper_candidate_def)
  then have step: "(8 / 10) ^ length qs * profile_cost q \<le> (8 / 10) ^ length qs * (profile_cost p * (8 / 10))"
    by (intro mult_left_mono) auto
  have "profile_cost (last (p # q # qs)) = profile_cost (last (q # qs))" by simp
  also note down.IH
  also note step
  also have "(8 / 10) ^ length qs * (profile_cost p * (8 / 10)) = (8 / 10) ^ length (q # qs) * profile_cost p"
    by simp
  finally show ?case .
qed simp

section \<open>A regular stream\<close>

definition ticks :: "rat \<Rightarrow> rat \<Rightarrow> nat \<Rightarrow> rat list" where
  "ticks t g n = map (\<lambda>i. t + of_nat i * g) [0..<n]"

lemma ticks_Suc: "ticks t g (Suc n) = ticks t g n @ [t + of_nat n * g]"
  by (simp add: ticks_def)

lemma push_gap_nonempty: "push_gap g gs \<noteq> []"
  using gap_window.push_new [of g gs] by auto

lemma observe_ticks:
  assumes "0 < t" and "0 < g"
  shows "last_at (foldl observe new_cadence (ticks t g (Suc n))) = t + of_nat n * g
    \<and> (\<forall>x \<in> set (gaps (foldl observe new_cadence (ticks t g (Suc n)))). x = g)
    \<and> (0 < n \<longrightarrow> gaps (foldl observe new_cadence (ticks t g (Suc n))) \<noteq> [])"
proof (induction n)
  case 0
  show ?case by (simp add: ticks_def observe_def new_cadence_def)
next
  case (Suc n)
  let ?c = "foldl observe new_cadence (ticks t g (Suc n))"
  let ?now = "t + of_nat (Suc n) * g"
  have eq: "foldl observe new_cadence (ticks t g (Suc (Suc n))) = observe ?c ?now"
    by (simp only: ticks_Suc [of t g "Suc n"] foldl_append foldl.simps)
  from Suc.IH have last: "last_at ?c = t + of_nat n * g" by blast
  have pos: "0 < last_at ?c" using assms last by (simp add: add_pos_nonneg)
  have gap: "?now - last_at ?c = g" using last by (simp add: algebra_simps)
  with assms have "last_at ?c < ?now" by simp
  with pos gap have gs: "gaps (observe ?c ?now) = push_gap g (gaps ?c)"
    by (simp only: gaps_observe) simp
  have "last_at (observe ?c ?now) = ?now" by (simp add: observe_def Let_def)
  moreover have "\<forall>x \<in> set (gaps (observe ?c ?now)). x = g"
    using Suc.IH gap_window.push_sub [of g "gaps ?c"] unfolding gs id_apply by blast
  ultimately show ?case unfolding eq gs by (simp add: push_gap_nonempty)
qed

text \<open>Whatever frames arrive, the cadence window holds at most sixteen positive gaps and the
  stall threshold stays between 6 and 90 seconds.\<close>

theorem stall_threshold_bounded:
  "length (gaps (foldl observe new_cadence ts)) \<le> 16
   \<and> (\<forall>g \<in> set (gaps (foldl observe new_cadence ts)). 0 < g)
   \<and> 6000 \<le> stallAfterMs (foldl observe new_cadence ts) enabled
   \<and> stallAfterMs (foldl observe new_cadence ts) enabled \<le> 90000"
  using cadence.inv_run [of ts] stallAfterMs_range by (simp add: cadence_ok_def)

theorem stall_threshold_bounded_witness:
  "length (gaps (foldl observe new_cadence [0, 40])) \<le> 16 \<and> stallAfterMs (foldl observe new_cadence [0, 40]) True \<le> 90000"
  using stall_threshold_bounded [of "[0, 40]" True] by blast

text \<open>A stream that delivers a frame every \<open>g\<close> milliseconds, \<open>g\<close> below 90 seconds, is
  never declared stalled between two of its frames: its threshold exceeds \<open>g\<close>.\<close>

theorem regular_stream_never_stalls:
  assumes "0 < t" and "0 < g" and "g < 90000"
  shows "g < stallAfterMs (foldl observe new_cadence (ticks t g (n + 2))) True"
  using observe_ticks [OF assms(1,2), of "Suc n"] assms(2,3)
  by (intro stallAfterMs_regular) auto

theorem regular_stream_never_stalls_witness:
  "(0::rat) < 1 \<and> (0::rat) < 10000 \<and> (10000::rat) < 90000
   \<and> 10000 < stallAfterMs (foldl observe new_cadence (ticks 1 10000 (3 + 2))) True"
  using regular_stream_never_stalls [of 1 10000 3] by simp

text \<open>Following the weak-network downgrade again and again over one list of profiles never
  returns to a profile, stays inside the list and costs at most four fifths of the previous cost at
  every step, so the adaptation cannot oscillate.\<close>

theorem downgrades_never_repeat:
  assumes "downgrades cs p qs"
  shows "distinct (p # qs) \<and> set qs \<subseteq> set cs \<and> length qs \<le> card (set cs)
    \<and> profile_cost (last (p # qs)) \<le> (8 / 10) ^ length qs * profile_cost p"
proof -
  from downgrades_distinct [OF assms] have d: "distinct qs" "set qs \<subseteq> set cs" by auto
  then have "length qs \<le> card (set cs)" by (metis List.finite_set card_mono distinct_card)
  with downgrades_distinct [OF assms] downgrades_cost_pow [OF assms] show ?thesis by blast
qed

definition demo_profile :: "string \<Rightarrow> int \<Rightarrow> int \<Rightarrow> rat \<Rightarrow> camera_profile" where
  "demo_profile i w h f = \<lparr>prof_id = i, prof_role = MainRole, videoCodec = ''h264'', audioCodec = [],
     prof_width = w, prof_height = h, fps = f, prof_enabled = None\<rparr>"

lemma demo_downgrades:
  "downgrades [demo_profile ''hd'' 1280 720 25, demo_profile ''sd'' 640 360 15]
     (demo_profile ''full'' 1920 1080 25)
     [demo_profile ''hd'' 1280 720 25, demo_profile ''sd'' 640 360 15]"
  by (intro downgrades.intros)
    (simp_all add: lowerBandwidthProfile_def cheaper_candidate_def demo_profile_def profile_cost_def)

theorem downgrades_never_repeat_witness:
  "distinct [demo_profile ''full'' 1920 1080 25, demo_profile ''hd'' 1280 720 25, demo_profile ''sd'' 640 360 15]"
  using downgrades_never_repeat [OF demo_downgrades] by blast

end
