(* ===== verification/Scene.thy ===== *)
theory Scene
  imports JsValue
begin

text \<open>
  The scene documents of \<open>types.ts\<close>: sources, items, scenes and the studio that holds them.
  Positions and sizes are fractions of a pixel, revisions and counters are integers.
\<close>

datatype scale_mode = Contain | Cover | Stretch

datatype transport = Tcp | Udp

datatype audio_monitoring = MonitorOff | MonitorOnly | MonitorAndOutput

datatype blend_mode = BlendNormal | BlendAdd | BlendMultiply | BlendScreen

datatype filter_kind = CropPad | OpacityFilter | ColorCorrection | MaskBlend | Lut | Scaling | DelayFilter

record scene_filter =
  filter_id :: string
  filter_of :: filter_kind
  filter_enabled :: bool
  filter_amount :: rat
  filter_value :: string

record scene_canvas =
  canvas_width :: rat
  canvas_height :: rat
  backgroundColor :: string

record audio_input =
  ai_track :: int
  ai_gain :: rat
  ai_muted :: bool
  ai_offset :: "rat option"

datatype source_kind =
    RtspSource string transport
  | CameraSource string string string
  | BrowserSource string rat rat rat string bool bool
  | ImageSource string
  | MediaSource string bool
  | TextSource string string
  | ColorSource string
  | NestedSource string

record scene_source =
  src_id :: string
  src_name :: string
  src_muted :: bool
  src_volume :: rat
  syncOffsetMs :: rat
  monitoring :: audio_monitoring
  audioTrack :: int
  audioInputs :: "audio_input list option"
  src_filters :: "scene_filter list"
  src_kind :: source_kind

record scene_crop =
  crop_top :: rat
  crop_right :: rat
  crop_bottom :: rat
  crop_left :: rat

record scene_item =
  item_id :: string
  item_source :: string
  item_x :: rat
  item_y :: rat
  item_width :: rat
  item_height :: rat
  scaleMode :: scale_mode
  item_crop :: scene_crop
  zIndex :: rat
  item_visible :: bool
  item_locked :: bool
  groupId :: string
  item_rotation :: rat
  item_opacity :: rat
  blendMode :: blend_mode

record scene_document =
  scene_schema :: int
  scene_revision :: int
  scene_id :: string
  scene_name :: string
  scene_canvas :: scene_canvas
  scene_sources :: "scene_source list"
  scene_items :: "scene_item list"

datatype transition_kind = Cut | Fade

record studio_document =
  studio_schema :: int
  studio_revision :: int
  programSceneId :: string
  previewSceneId :: string
  transition_of :: transition_kind
  transition_ms :: rat
  studio_scenes :: "scene_document list"

definition isSupportedSceneSchema :: "jsv \<Rightarrow> bool" where
  "isSupportedSceneSchema v = (v = JInt 5 \<or> v = JInt 6)"

text \<open>Every item shows a source of its own scene, and a nested source shows a scene of the studio.\<close>

definition scene_refs_ok :: "string set \<Rightarrow> scene_document \<Rightarrow> bool" where
  "scene_refs_ok ids s =
     ((\<forall>i \<in> set (scene_items s). item_source i \<in> src_id ` set (scene_sources s))
      \<and> (\<forall>src \<in> set (scene_sources s). \<forall>n. src_kind src = NestedSource n \<longrightarrow> n \<in> ids))"

text \<open>Sample documents for the concrete instances of the theorems.\<close>

definition plain_source :: "string \<Rightarrow> source_kind \<Rightarrow> scene_source" where
  "plain_source i k = \<lparr>src_id = i, src_name = i, src_muted = False, src_volume = 1, syncOffsetMs = 0,
     monitoring = MonitorAndOutput, audioTrack = 1, audioInputs = None, src_filters = [], src_kind = k\<rparr>"

definition plain_item :: "string \<Rightarrow> string \<Rightarrow> scene_item" where
  "plain_item i s = \<lparr>item_id = i, item_source = s, item_x = 0, item_y = 0, item_width = 640,
     item_height = 360, scaleMode = Stretch,
     item_crop = \<lparr>crop_top = 0, crop_right = 0, crop_bottom = 0, crop_left = 0\<rparr>, zIndex = 0,
     item_visible = True, item_locked = False, groupId = [], item_rotation = 0, item_opacity = 1,
     blendMode = BlendNormal\<rparr>"

definition plain_scene :: "string \<Rightarrow> scene_source list \<Rightarrow> scene_item list \<Rightarrow> scene_document" where
  "plain_scene i srcs its = \<lparr>scene_schema = 5, scene_revision = 1, scene_id = i, scene_name = i,
     scene_canvas = \<lparr>canvas_width = 1280, canvas_height = 720, backgroundColor = ''#000000''\<rparr>,
     scene_sources = srcs, scene_items = its\<rparr>"

end
