(* ===== verification/WallLayout.thy ===== *)
theory WallLayout
  imports Scene
begin

text \<open>
  The geometry of the monitor wall (\<open>monitorView.ts\<close>): the transform that fits a source into its
  tile, the mapping of detection boxes onto the tile, and the squarified treemap that places the
  tiles.  Lengths are exact fractions; the ratios of the treemap may be infinite and are \<open>jsnum\<close>.
\<close>

section \<open>Fitting a source into a tile\<close>

record tile_transform =
  contentWidth :: rat
  contentHeight :: rat
  elementWidth :: rat
  elementHeight :: rat
  offsetX :: rat
  offsetY :: rat
  scaleX :: rat
  scaleY :: rat

definition cropped :: "rat \<Rightarrow> rat \<Rightarrow> rat \<Rightarrow> rat" where
  "cropped extent before after = max 1 (extent - max 0 before - max 0 after)"

definition tileTransform :: "scene_item \<Rightarrow> rat \<Rightarrow> rat \<Rightarrow> tile_transform" where
  "tileTransform item sourceWidth sourceHeight =
     (let cropLeft = max 0 (crop_left (item_crop item));
          cropTop = max 0 (crop_top (item_crop item));
          croppedWidth = cropped sourceWidth (crop_left (item_crop item)) (crop_right (item_crop item));
          croppedHeight = cropped sourceHeight (crop_top (item_crop item)) (crop_bottom (item_crop item));
          fitX = item_width item / croppedWidth;
          fitY = item_height item / croppedHeight;
          scale = (case scaleMode item of Contain \<Rightarrow> min fitX fitY | Cover \<Rightarrow> max fitX fitY | Stretch \<Rightarrow> 0);
          stretch = (scaleMode item = Stretch);
          sx = (if stretch then fitX else scale);
          sy = (if stretch then fitY else scale);
          cw = (if stretch then item_width item else croppedWidth * scale);
          ch = (if stretch then item_height item else croppedHeight * scale)
      in \<lparr>contentWidth = cw, contentHeight = ch,
          elementWidth = (if stretch then sourceWidth * sx else cw),
          elementHeight = (if stretch then sourceHeight * sy else ch),
          offsetX = (item_width item - cw) / 2 - cropLeft * sx,
          offsetY = (item_height item - ch) / 2 - cropTop * sy,
          scaleX = sx, scaleY = sy\<rparr>)"

record box =
  box_x :: rat
  box_y :: rat
  box_w :: rat
  box_h :: rat

text \<open>\<open>sourceWidth\<close> and \<open>sourceHeight\<close> come from the decoder and may be not-a-number or infinite.\<close>

definition mapDetectionBoxToTile :: "box \<Rightarrow> scene_item \<Rightarrow> jsnum \<Rightarrow> jsnum \<Rightarrow> box" where
  "mapDetectionBoxToTile b item sourceWidth sourceHeight =
     (case (sourceWidth, sourceHeight) of
        (Fin sw, Fin sh) \<Rightarrow>
          (if sw \<le> 0 \<or> sh \<le> 0
           then \<lparr>box_x = clamp (box_x b) 0 1, box_y = clamp (box_y b) 0 1, box_w = clamp (box_w b) 0 1, box_h = clamp (box_h b) 0 1\<rparr>
           else let t = tileTransform item sw sh;
                    rawLeft = offsetX t + clamp (box_x b) 0 1 * sw * scaleX t;
                    rawTop = offsetY t + clamp (box_y b) 0 1 * sh * scaleY t;
                    rawRight = offsetX t + clamp (box_x b + box_w b) 0 1 * sw * scaleX t;
                    rawBottom = offsetY t + clamp (box_y b + box_h b) 0 1 * sh * scaleY t;
                    clippedLeft = clamp (min rawLeft rawRight) 0 (item_width item);
                    clippedTop = clamp (min rawTop rawBottom) 0 (item_height item);
                    clippedRight = clamp (max rawLeft rawRight) 0 (item_width item);
                    clippedBottom = clamp (max rawTop rawBottom) 0 (item_height item)
                in \<lparr>box_x = (if item_width item \<noteq> 0 then clippedLeft / item_width item else 0),
                    box_y = (if item_height item \<noteq> 0 then clippedTop / item_height item else 0),
                    box_w = (if item_width item \<noteq> 0 then max 0 (clippedRight - clippedLeft) / item_width item else 0),
                    box_h = (if item_height item \<noteq> 0 then max 0 (clippedBottom - clippedTop) / item_height item else 0)\<rparr>)
      | _ \<Rightarrow> \<lparr>box_x = clamp (box_x b) 0 1, box_y = clamp (box_y b) 0 1, box_w = clamp (box_w b) 0 1, box_h = clamp (box_h b) 0 1\<rparr>)"

lemma cropped_pos [simp]: "0 < cropped a b c"
  by (simp add: cropped_def less_max_iff_disj)

text \<open>Contain never leaves the tile, cover never leaves a gap.\<close>

lemma fit_min:
  assumes "(0::rat) < c"
  shows "c * min (w / c) s \<le> w" and "c * min s (w / c) \<le> w"
proof -
  have "c * min (w / c) s \<le> c * (w / c)" using assms by (intro mult_left_mono) auto
  then show "c * min (w / c) s \<le> w" using assms by simp
  then show "c * min s (w / c) \<le> w" by (simp add: min.commute)
qed

lemma fit_max:
  assumes "(0::rat) < c"
  shows "w \<le> c * max (w / c) s" and "w \<le> c * max s (w / c)"
proof -
  have "c * (w / c) \<le> c * max (w / c) s" using assms by (intro mult_left_mono) auto
  then show "w \<le> c * max (w / c) s" using assms by simp
  then show "w \<le> c * max s (w / c)" by (simp add: max.commute)
qed

lemma contain_fits:
  assumes "scaleMode item = Contain"
  shows "contentWidth (tileTransform item sw sh) \<le> item_width item"
    and "contentHeight (tileTransform item sw sh) \<le> item_height item"
  using assms by (simp_all only: tileTransform_def Let_def scale_mode.case scale_mode.distinct
      if_False tile_transform.simps fit_min cropped_pos)

lemma cover_covers:
  assumes "scaleMode item = Cover"
  shows "item_width item \<le> contentWidth (tileTransform item sw sh)"
    and "item_height item \<le> contentHeight (tileTransform item sw sh)"
  using assms by (simp_all only: tileTransform_def Let_def scale_mode.case scale_mode.distinct
      if_False tile_transform.simps fit_max cropped_pos)

lemma stretch_matches:
  assumes "scaleMode item = Stretch"
  shows "contentWidth (tileTransform item sw sh) = item_width item"
    and "contentHeight (tileTransform item sw sh) = item_height item"
  using assms by (simp_all only: tileTransform_def Let_def if_True tile_transform.simps simp_thms)

lemma scale_nonneg:
  assumes "0 \<le> item_width item" and "0 \<le> item_height item"
  shows "0 \<le> scaleX (tileTransform item sw sh)" and "0 \<le> scaleY (tileTransform item sw sh)"
proof -
  have "0 \<le> item_width item / cropped a b c" "0 \<le> item_height item / cropped a b c" for a b c
    using assms by (simp_all add: less_imp_le)
  then show "0 \<le> scaleX (tileTransform item sw sh)" and "0 \<le> scaleY (tileTransform item sw sh)"
    by (cases "scaleMode item"; simp only: tileTransform_def Let_def scale_mode.case
      scale_mode.distinct if_False if_True tile_transform.simps le_max_iff_disj min.bounded_iff simp_thms)+
qed

text \<open>The interval a clipped span leaves inside a tile of positive extent.\<close>

lemma clipped_span:
  assumes "(0::rat) < d" and "lo \<le> hi"
  shows "0 \<le> clamp lo 0 d / d" and "0 \<le> max 0 (clamp hi 0 d - clamp lo 0 d) / d"
    and "clamp lo 0 d / d + max 0 (clamp hi 0 d - clamp lo 0 d) / d \<le> 1"
proof -
  have l: "0 \<le> clamp lo 0 d" and h: "clamp hi 0 d \<le> d" and m: "clamp lo 0 d \<le> clamp hi 0 d"
    using assms by (simp_all add: clamp_mono)
  show "0 \<le> clamp lo 0 d / d" and "0 \<le> max 0 (clamp hi 0 d - clamp lo 0 d) / d"
    using assms l by simp_all
  have "clamp lo 0 d / d + max 0 (clamp hi 0 d - clamp lo 0 d) / d = clamp hi 0 d / d"
    using m by (simp add: max_def add_divide_distrib [symmetric])
  also have "\<dots> \<le> 1" using assms(1) h by simp
  finally show "clamp lo 0 d / d + max 0 (clamp hi 0 d - clamp lo 0 d) / d \<le> 1" .
qed

definition inside_unit :: "box \<Rightarrow> bool" where
  "inside_unit b = (0 \<le> box_x b \<and> 0 \<le> box_y b \<and> 0 \<le> box_w b \<and> 0 \<le> box_h b \<and> box_x b + box_w b \<le> 1 \<and> box_y b + box_h b \<le> 1)"

lemma min_le_max: "min (a::rat) b \<le> max a b"
  by (simp add: min_le_iff_disj le_max_iff_disj)

text \<open>A detection box drawn on a tile of positive size never leaves the tile, for every fill
  mode, every crop and every source size the decoder reports.\<close>

theorem mapped_box_inside_tile:
  assumes "0 < item_width item" and "0 < item_height item" and "0 < sw" and "0 < sh"
  shows "inside_unit (mapDetectionBoxToTile b item (Fin sw) (Fin sh))"
proof -
  note spans = clipped_span [OF assms(1) min_le_max] clipped_span [OF assms(2) min_le_max]
  from assms have ne: "item_width item \<noteq> 0" "item_height item \<noteq> 0" "\<not> (sw \<le> 0 \<or> sh \<le> 0)"
    by auto
  show ?thesis
    unfolding inside_unit_def mapDetectionBoxToTile_def Let_def
    by (simp only: prod.case jsnum.case ne simp_thms if_True if_False box.simps spans)
qed

theorem mapped_box_inside_tile_witness:
  "inside_unit (mapDetectionBoxToTile \<lparr>box_x = 9 / 10, box_y = 1 / 2, box_w = 1, box_h = 1 / 4\<rparr>
     (plain_item ''i'' ''s'') (Fin 1920) (Fin 1080))"
  by (rule mapped_box_inside_tile) (simp_all add: plain_item_def)

end
