(* ===== verification/Treemap.thy ===== *)
theory Treemap
  imports WallLayout
begin

text \<open>
  The squarified treemap of \<open>monitorView.ts\<close> (\<open>squarifiedLayout\<close>, \<open>largeTileSpan\<close>).  The
  index loops over \<open>scaled\<close> are recursions over what is left of the list: \<open>grow_row\<close> is the inner
  \<open>while\<close> that extends a row as long as its worst aspect ratio does not get worse, \<open>strip\<close>
  places one row, \<open>place\<close> is the outer \<open>while\<close>.  It terminates because every row takes at least one
  tile.  The lower bounds \<open>1e-6\<close> of the code are kept; under the resolution hypothesis of the
  theorems they never bind.
\<close>

record rectangle =
  rx :: rat
  ry :: rat
  rw :: rat
  rh :: rat

definition LAYOUT_UNITS :: int where
  "LAYOUT_UNITS = 12"

definition largeTileSpan :: "jsnum \<Rightarrow> int" where
  "largeTileSpan ratio =
     (let safe = clamp (case ratio of Fin r \<Rightarrow> r | _ \<Rightarrow> 1 / 2) (1 / 10) (9 / 10)
      in clamp (round_rat (of_int LAYOUT_UNITS / safe)) LAYOUT_UNITS (LAYOUT_UNITS * 10))"

text \<open>The aspect ratio of one tile in a row of the given thickness.\<close>

definition tile_ratio :: "rat \<Rightarrow> rat \<Rightarrow> jsnum" where
  "tile_ratio thickness s =
     (let len = (if thickness > 0 then s / thickness else 0)
      in if len > 0 then Fin (max (thickness / len) (len / thickness)) else PosInf)"

definition worst_ratio :: "rat \<Rightarrow> rat list \<Rightarrow> jsnum" where
  "worst_ratio thickness row =
     foldl (\<lambda>worst s. if js_less worst (tile_ratio thickness s) then tile_ratio thickness s else worst)
       (Fin 0) row"

fun grow_row :: "rat \<Rightarrow> rat list \<Rightarrow> rat \<Rightarrow> jsnum \<Rightarrow> rat list \<Rightarrow> rat list \<times> rat \<times> rat list" where
  "grow_row side row rowSum best [] = (row, rowSum, [])"
| "grow_row side row rowSum best (s # rest) =
     (let candidate = rowSum + s;
          worst = worst_ratio (candidate / side) (row @ [s])
      in if js_le worst best then grow_row side (row @ [s]) candidate worst rest
         else (row, rowSum, s # rest))"

text \<open>\<open>if (end === start) { end = start + 1; rowSum = scaled[start]; }\<close>.\<close>

definition next_row :: "rat \<Rightarrow> rat list \<Rightarrow> rat list \<times> rat \<times> rat list" where
  "next_row side scaled =
     (case grow_row side [] 0 PosInf scaled of
        (row, rowSum, rest) \<Rightarrow>
          (if row = [] then ([hd scaled], hd scaled, tl scaled) else (row, rowSum, rest)))"

fun strip :: "bool \<Rightarrow> rat \<Rightarrow> rat \<Rightarrow> rat \<Rightarrow> rat \<Rightarrow> rat list \<Rightarrow> rectangle list" where
  "strip vertical x y thickness offset [] = []"
| "strip vertical x y thickness offset (s # row) =
     (let len = s / thickness
      in (if vertical then \<lparr>rx = x, ry = y + offset, rw = thickness, rh = len\<rparr>
          else \<lparr>rx = x + offset, ry = y, rw = len, rh = thickness\<rparr>)
         # strip vertical x y thickness (offset + len) row)"

lemma grow_row_split:
  "grow_row side row rowSum best scaled = (row', rowSum', rest) \<Longrightarrow> row' @ rest = row @ scaled"
  by (induction side row rowSum best scaled rule: grow_row.induct) (auto simp: Let_def split: if_splits)

lemma grow_row_sum:
  "grow_row side row rowSum best scaled = (row', rowSum', rest) \<Longrightarrow> rowSum = sum_list row \<Longrightarrow>
   rowSum' = sum_list row'"
  by (induction side row rowSum best scaled rule: grow_row.induct) (auto simp: Let_def split: if_splits)

lemma next_row_split:
  assumes "next_row side scaled = (row, rowSum, rest)" and "scaled \<noteq> []"
  shows "row @ rest = scaled" and "rowSum = sum_list row" and "row \<noteq> []"
  using assms grow_row_split [of side "[]" 0 PosInf scaled] grow_row_sum [of side "[]" 0 PosInf scaled]
  by (auto simp: next_row_def split: prod.splits if_splits)

lemma next_row_shorter:
  "next_row side (s # ss) = (row, rowSum, rest) \<Longrightarrow> length rest < Suc (length ss)"
  using next_row_split [of side "s # ss" row rowSum rest]
  by (metis length_append length_greater_0_conv length_Cons less_add_same_cancel2 list.distinct(1))

definition eps :: rat where
  "eps = 1 / 1000000"

function place :: "rat \<Rightarrow> rat \<Rightarrow> rat \<Rightarrow> rat \<Rightarrow> rat list \<Rightarrow> rectangle list" where
  "place x y availableWidth availableHeight [] = []"
| "place x y availableWidth availableHeight (s # ss) =
     (let vertical = (availableWidth \<ge> availableHeight);
          shortSide = max eps (if vertical then availableHeight else availableWidth);
          (row, rowSum, rest) = next_row shortSide (s # ss);
          thickness = max eps (rowSum / shortSide)
      in strip vertical x y thickness 0 row
         @ (if vertical then place (x + thickness) y (availableWidth - thickness) availableHeight rest
            else place x (y + thickness) availableWidth (availableHeight - thickness) rest))"
  by pat_completeness auto
termination
  by (relation "measure (\<lambda>(x, y, w, h, ss). length ss)") (auto dest!: next_row_shorter dest: sym)

declare place.simps(2) [simp del]

definition scale_areas :: "rat list \<Rightarrow> rat \<Rightarrow> rat \<Rightarrow> rat list" where
  "scale_areas areas width height =
     map (\<lambda>a. max 0 a * (width * height) / sum_list (map (max 0) areas)) areas"

definition squarifiedLayout :: "rat list \<Rightarrow> rat \<Rightarrow> rat \<Rightarrow> rectangle list" where
  "squarifiedLayout areas width height =
     (if areas = [] then []
      else if sum_list (map (max 0) areas) \<le> 0 \<or> width \<le> 0 \<or> height \<le> 0
      then map (\<lambda>_. \<lparr>rx = 0, ry = 0, rw = width, rh = height\<rparr>) areas
      else place 0 0 width height (scale_areas areas width height))"

section \<open>What the placement promises\<close>

definition lies_in :: "rat \<Rightarrow> rat \<Rightarrow> rat \<Rightarrow> rat \<Rightarrow> rectangle \<Rightarrow> bool" where
  "lies_in x y w h r = (x \<le> rx r \<and> y \<le> ry r \<and> 0 \<le> rw r \<and> 0 \<le> rh r \<and> rx r + rw r \<le> x + w \<and> ry r + rh r \<le> y + h)"

definition apart :: "rectangle \<Rightarrow> rectangle \<Rightarrow> bool" where
  "apart r q = (rx r + rw r \<le> rx q \<or> rx q + rw q \<le> rx r \<or> ry r + rh r \<le> ry q \<or> ry q + rh q \<le> ry r)"

lemma strip_length [simp]: "length (strip v x y t off row) = length row"
  by (induction row arbitrary: off) (auto simp: Let_def)

lemma strip_areas:
  "0 < t \<Longrightarrow> map (\<lambda>r. rw r * rh r) (strip v x y t off row) = row"
  by (induction row arbitrary: off) (auto simp: Let_def)

lemma strip_lies_in:
  assumes "0 < t" and "\<forall>s \<in> set row. 0 \<le> s" and "r \<in> set (strip v x y t off row)"
  shows "(v \<longrightarrow> lies_in x (y + off) t (sum_list row / t) r)
    \<and> (\<not> v \<longrightarrow> lies_in (x + off) y (sum_list row / t) t r)"
  using assms(2,3)
proof (induction row arbitrary: off)
  case (Cons s row)
  have pos: "0 \<le> s / t" "0 \<le> sum_list row / t"
    using Cons.prems(1) assms(1) by (auto intro!: divide_nonneg_nonneg sum_list_nonneg)
  have sum: "sum_list (s # row) / t = s / t + sum_list row / t"
    by (simp add: add_divide_distrib)
  consider "r = hd (strip v x y t off (s # row))" | "r \<in> set (strip v x y t (off + s / t) row)"
    using Cons.prems(2) by (auto simp: Let_def)
  then show ?case
  proof cases
    case 1
    with pos assms(1) show ?thesis unfolding sum by (auto simp: lies_in_def Let_def)
  next
    case 2
    from Cons.IH [OF _ 2] Cons.prems(1)
    have "(v \<longrightarrow> lies_in x (y + (off + s / t)) t (sum_list row / t) r)
      \<and> (\<not> v \<longrightarrow> lies_in (x + (off + s / t)) y (sum_list row / t) t r)" by simp
    with pos show ?thesis unfolding sum by (auto simp: lies_in_def)
  qed
qed simp

lemma strip_apart:
  assumes "0 < t" and "\<forall>s \<in> set row. 0 \<le> s"
  shows "sorted_wrt apart (strip v x y t off row)"
  using assms(2)
proof (induction row arbitrary: off)
  case (Cons s row)
  have "apart (hd (strip v x y t off (s # row))) q" if "q \<in> set (strip v x y t (off + s / t) row)" for q
    using strip_lies_in [OF assms(1) _ that] Cons.prems by (auto simp: apart_def lies_in_def Let_def)
  with Cons show ?case by (auto simp: Let_def)
qed simp

text \<open>
  The invariant of the outer loop: the tiles that are left have exactly the area of the space that
  is left, and each of them is large enough that the lower bounds of the code do not bind.
\<close>

definition fills :: "rat \<Rightarrow> rat \<Rightarrow> rat \<Rightarrow> rat list \<Rightarrow> bool" where
  "fills bound w h ss =
     (sum_list ss = w * h \<and> (\<forall>s \<in> set ss. eps * bound \<le> s) \<and> 0 \<le> w \<and> 0 \<le> h \<and> w \<le> bound \<and> h \<le> bound
      \<and> 0 < bound)"

lemma eps_pos: "0 < eps"
  by (simp add: eps_def)

lemma fills_pos:
  assumes "fills bound w h ss" and "ss \<noteq> []"
  shows "\<forall>s \<in> set ss. 0 < s" and "0 < w" and "0 < h" and "eps \<le> w" and "eps \<le> h"
proof -
  have b: "0 < bound" using assms by (simp add: fills_def)
  have p: "0 < eps * bound" using b eps_pos by simp
  then show pos: "\<forall>s \<in> set ss. 0 < s" using assms(1) by (auto simp: fills_def)
  have "eps * bound \<le> sum_list ss"
    using assms(1) member_le_sum_list [of "hd ss" ss] assms(2) pos
    by (auto simp: fills_def intro: order_trans [of _ "hd ss"] hd_in_set)
      (metis fills_def assms(1) hd_in_set less_imp_le member_le_sum_list order_trans)
  then have wh: "eps * bound \<le> w * h" using assms(1) by (simp add: fills_def)
  have nn: "0 \<le> w" "0 \<le> h" "w \<le> bound" "h \<le> bound" using assms(1) by (simp_all add: fills_def)
  have "w * h \<le> w * bound" "w * h \<le> bound * h"
    using nn by (auto intro: mult_left_mono mult_right_mono)
  with wh have "eps * bound \<le> w * bound" "eps * bound \<le> h * bound"
    by (simp_all add: mult.commute)
  with b show "eps \<le> w" "eps \<le> h" by simp_all
  with eps_pos show "0 < w" "0 < h" by linarith+
qed

text \<open>One round of the outer loop, with the row that \<open>next_row\<close> picks.\<close>

lemma row_step:
  assumes "fills bound w h ss" and "ss \<noteq> []" and "side = (if w \<ge> h then h else w)"
    and "next_row side ss = (row, rowSum, rest)"
  shows "max eps side = side" and "0 < side" and "eps \<le> rowSum / side" and "\<forall>s \<in> set row. 0 < s"
    and "sum_list row / (rowSum / side) = side"
    and "w \<ge> h \<Longrightarrow> rowSum / side \<le> w \<and> fills bound (w - rowSum / side) h rest"
    and "\<not> w \<ge> h \<Longrightarrow> rowSum / side \<le> h \<and> fills bound w (h - rowSum / side) rest"
proof -
  note pos = fills_pos [OF assms(1,2)]
  have sp: "eps \<le> side" "0 < side" "side \<le> bound" using pos assms(1,3) by (auto simp: fills_def)
  then show "max eps side = side" and "0 < side" by simp_all
  note split = next_row_split [OF assms(4,2)]
  have ss: "set ss = set row \<union> set rest" and sum: "sum_list ss = rowSum + sum_list rest"
    by (simp_all flip: split(1) add: split(2))
  show rp: "\<forall>s \<in> set row. 0 < s" using pos(1) ss by blast
  have rest0: "0 \<le> sum_list rest" using pos(1) ss by (intro sum_list_nonneg) (simp add: less_imp_le)
  have "hd row \<le> rowSum"
    unfolding split(2) using rp split(3) by (auto intro!: member_le_sum_list simp: less_imp_le)
  moreover have "eps * bound \<le> hd row" using assms(1) ss split(3) by (auto simp: fills_def)
  moreover have "eps * side \<le> eps * bound" using sp eps_pos by (intro mult_left_mono) auto
  ultimately have lb: "eps * side \<le> rowSum" by linarith
  then show th: "eps \<le> rowSum / side" using sp by (simp add: pos_le_divide_eq)
  have "0 < rowSum" using lb sp eps_pos by (meson mult_pos_pos order_less_le_trans)
  then show "sum_list row / (rowSum / side) = side" using split(2) by simp
  have area: "sum_list ss = w * h" using assms(1) by (simp add: fills_def)
  have nn: "0 < rowSum / side" using th eps_pos by linarith
  { assume v: "w \<ge> h"
    with assms(3) have s: "side = h" by simp
    have "rowSum \<le> w * h" using sum area rest0 by linarith
    then have le: "rowSum / side \<le> w" using sp s by (simp add: pos_divide_le_eq)
    have "(w - rowSum / side) * h = w * h - rowSum" using sp s by (simp add: left_diff_distrib)
    with le nn assms(1) sum area ss show "rowSum / side \<le> w \<and> fills bound (w - rowSum / side) h rest"
      by (auto simp: fills_def) }
  { assume v: "\<not> w \<ge> h"
    with assms(3) have s: "side = w" by simp
    have "rowSum \<le> w * h" using sum area rest0 by linarith
    then have le: "rowSum / side \<le> h" using sp s by (simp add: pos_divide_le_eq mult.commute)
    have "w * (h - rowSum / side) = w * h - rowSum" using sp s by (simp add: right_diff_distrib)
    with le nn assms(1) sum area ss show "rowSum / side \<le> h \<and> fills bound w (h - rowSum / side) rest"
      by (auto simp: fills_def) }
qed

lemma place_unfold:
  assumes "ss \<noteq> []" and "side = (if w \<ge> h then h else w)" and "max eps side = side"
    and "next_row side ss = (row, rowSum, rest)" and "eps \<le> rowSum / side"
  shows "place x y w h ss = strip (w \<ge> h) x y (rowSum / side) 0 row
    @ (if w \<ge> h then place (x + rowSum / side) y (w - rowSum / side) h rest
       else place x (y + rowSum / side) w (h - rowSum / side) rest)"
proof (cases ss)
  case (Cons s ss')
  have m: "max eps (rowSum / side) = rowSum / side" using assms(5) by simp
  show ?thesis
    unfolding Cons place.simps(2) Let_def
    using assms(2,3,4) Cons m by auto
qed (use assms in simp)

definition tiling :: "rat \<Rightarrow> rat \<Rightarrow> rat \<Rightarrow> rat \<Rightarrow> rat list \<Rightarrow> rectangle list \<Rightarrow> bool" where
  "tiling x y w h ss rs =
     (map (\<lambda>r. rw r * rh r) rs = ss \<and> (\<forall>r \<in> set rs. lies_in x y w h r) \<and> sorted_wrt apart rs)"

lemma tiling_beside:
  assumes "tiling x y t h row rs" and "tiling (x + t) y (w - t) h rest qs" and "0 \<le> t" and "t \<le> w"
  shows "tiling x y w h (row @ rest) (rs @ qs)"
  using assms by (fastforce simp: tiling_def sorted_wrt_append lies_in_def apart_def)

lemma tiling_below:
  assumes "tiling x y w t row rs" and "tiling x (y + t) w (h - t) rest qs" and "0 \<le> t" and "t \<le> h"
  shows "tiling x y w h (row @ rest) (rs @ qs)"
  using assms by (fastforce simp: tiling_def sorted_wrt_append lies_in_def apart_def)

lemma strip_tiling:
  assumes "0 < t" and "\<forall>s \<in> set row. 0 < s" and "sum_list row / t = side"
  shows "v \<Longrightarrow> tiling x y t side row (strip v x y t 0 row)"
    and "\<not> v \<Longrightarrow> tiling x y side t row (strip v x y t 0 row)"
proof -
  have nn: "\<forall>s \<in> set row. 0 \<le> s" using assms(2) by (simp add: less_imp_le)
  show "v \<Longrightarrow> tiling x y t side row (strip v x y t 0 row)"
    and "\<not> v \<Longrightarrow> tiling x y side t row (strip v x y t 0 row)"
    using strip_areas [OF assms(1)] strip_lies_in [OF assms(1) nn] strip_apart [OF assms(1) nn] assms(3)
    by (auto simp: tiling_def) (metis add_0_right)+
qed

lemma place_tiling: "fills bound w h ss \<Longrightarrow> tiling x y w h ss (place x y w h ss)"
proof (induction "length ss" arbitrary: x y w h ss rule: less_induct)
  case less
  show ?case
  proof (cases "ss = []")
    case True
    then show ?thesis by (simp add: tiling_def)
  next
    case False
    define side where "side = (if w \<ge> h then h else w)"
    obtain row rowSum rest where nr: "next_row side ss = (row, rowSum, rest)" by (metis prod_cases3)
    note st = row_step [OF less.prems False side_def nr]
    note sp = next_row_split [OF nr False]
    have short: "length rest < length ss" using sp(1,3) by (metis length_append length_greater_0_conv less_add_same_cancel2)
    have t0: "0 < rowSum / side" using st(3) eps_pos by linarith
    note eq = place_unfold [OF False side_def st(1) nr st(3), of x y]
    show ?thesis
    proof (cases "w \<ge> h")
      case True
      have "tiling (x + rowSum / side) y (w - rowSum / side) h rest
          (place (x + rowSum / side) y (w - rowSum / side) h rest)"
        using less.hyps [OF short] st(6) [OF True] by blast
      moreover have "tiling x y (rowSum / side) h row (strip True x y (rowSum / side) 0 row)"
        using strip_tiling(1) [OF t0 st(4,5)] True side_def by simp
      ultimately have "tiling x y w h (row @ rest) (strip True x y (rowSum / side) 0 row
          @ place (x + rowSum / side) y (w - rowSum / side) h rest)"
        using st(6) [OF True] t0 by (intro tiling_beside) auto
      with True sp(1) show ?thesis unfolding eq by simp
    next
      case False
      have "tiling x (y + rowSum / side) w (h - rowSum / side) rest
          (place x (y + rowSum / side) w (h - rowSum / side) rest)"
        using less.hyps [OF short] st(7) [OF False] by blast
      moreover have "tiling x y w (rowSum / side) row (strip False x y (rowSum / side) 0 row)"
        using strip_tiling(2) [OF t0 st(4,5)] False side_def by simp
      ultimately have "tiling x y w h (row @ rest) (strip False x y (rowSum / side) 0 row
          @ place x (y + rowSum / side) w (h - rowSum / side) rest)"
        using st(7) [OF False] t0 by (intro tiling_below) auto
      with False sp(1) show ?thesis unfolding eq by simp
    qed
  qed
qed


lemma place_length [simp]: "length (place x y w h ss) = length ss"
proof (induction "length ss" arbitrary: x y w h ss rule: less_induct)
  case less
  show ?case
  proof (cases ss)
    case (Cons s ss')
    define side where "side = max eps (if w \<ge> h then h else w)"
    obtain row rowSum rest where nr: "next_row side ss = (row, rowSum, rest)" by (metis prod_cases3)
    have sp: "row @ rest = ss" "row \<noteq> []" using next_row_split [OF nr] Cons by auto
    then have "length rest < length ss" "length row + length rest = length ss" by auto
    with less.hyps [of rest] show ?thesis
      using nr unfolding Cons place.simps(2) by (simp add: side_def Let_def)
  qed simp
qed

lemma squarified_length [simp]: "length (squarifiedLayout areas w h) = length areas"
  by (simp add: squarifiedLayout_def scale_areas_def)

lemma sum_scale_areas:
  assumes "0 < sum_list (map (max 0) areas)"
  shows "sum_list (scale_areas areas w h) = w * h"
proof -
  let ?t = "sum_list (map (max 0) areas)"
  have "sum_list (scale_areas areas w h) = ?t * (w * h / ?t)"
    by (simp only: scale_areas_def times_divide_eq_right [symmetric] sum_list_mult_const)
  then show ?thesis using assms by simp
qed

text \<open>The tiles are fine enough when none is thinner than \<open>1e-6\<close> of the longer side.\<close>

definition resolvable :: "rat list \<Rightarrow> rat \<Rightarrow> rat \<Rightarrow> bool" where
  "resolvable areas w h =
     (areas \<noteq> [] \<and> 0 < w \<and> 0 < h \<and> (\<forall>s \<in> set (scale_areas areas w h). eps * max w h \<le> s))"

lemma resolvable_total:
  assumes "resolvable areas w h"
  shows "0 < sum_list (map (max 0) areas)"
proof (rule ccontr)
  assume "\<not> 0 < sum_list (map (max 0) areas)"
  moreover have "0 \<le> sum_list (map (max 0) areas)" by (intro sum_list_nonneg) auto
  ultimately have "set (scale_areas areas w h) \<subseteq> {0}" by (auto simp: scale_areas_def)
  with assms have "eps * max w h \<le> 0"
    by (cases areas) (auto simp: resolvable_def scale_areas_def)
  moreover have "0 < eps * max w h"
    using assms eps_pos by (intro mult_pos_pos) (auto simp: resolvable_def less_max_iff_disj)
  ultimately show False by linarith
qed

lemma squarified_tiling:
  assumes "resolvable areas w h"
  shows "tiling 0 0 w h (scale_areas areas w h) (squarifiedLayout areas w h)"
proof -
  note t = resolvable_total [OF assms]
  have "fills (max w h) w h (scale_areas areas w h)"
    using assms sum_scale_areas [OF t, of w h] by (auto simp: fills_def resolvable_def less_max_iff_disj)
  from place_tiling [OF this, of 0 0] t assms show ?thesis
    by (auto simp: squarifiedLayout_def resolvable_def)
qed

text \<open>C33. The treemap of the wall is a partition of the canvas: one rectangle for each tile, inside
  the canvas, no two of them overlapping, each with exactly its share of the area, and the shares
  add up to the canvas, so no gap is left.\<close>

theorem squarified_partition:
  assumes "resolvable areas w h"
  shows "length (squarifiedLayout areas w h) = length areas
    \<and> (\<forall>r \<in> set (squarifiedLayout areas w h). lies_in 0 0 w h r)
    \<and> sorted_wrt apart (squarifiedLayout areas w h)
    \<and> map (\<lambda>r. rw r * rh r) (squarifiedLayout areas w h) = scale_areas areas w h
    \<and> sum_list (map (\<lambda>r. rw r * rh r) (squarifiedLayout areas w h)) = w * h"
  using squarified_tiling [OF assms] sum_scale_areas [OF resolvable_total [OF assms]]
  by (auto simp: tiling_def)

theorem squarified_partition_witness:
  "sorted_wrt apart (squarifiedLayout [576, 144, 144, 144] 1920 1080)
   \<and> sum_list (map (\<lambda>r. rw r * rh r) (squarifiedLayout [576, 144, 144, 144] 1920 1080)) = 1920 * 1080"
proof -
  have "resolvable [576, 144, 144, 144] 1920 1080"
    by (simp add: resolvable_def scale_areas_def eps_def)
  from squarified_partition [OF this] show ?thesis by blast
qed

end
