(* ===== verification/MonitorView.thy ===== *)
theory MonitorView
  imports Playback WallLayout
begin

text \<open>
  The monitor preferences of an account (\<open>monitorView.ts\<close>): their shape, their defaults, and
  \<open>normalizeMonitorView\<close>, which turns whatever the server or the browser has stored into a
  view.  What is stored is a \<open>jsv\<close>.  A field the code copies without a test keeps its \<open>jsv\<close>
  (\<open>enabled\<close> of the telemetry, say); one that goes through \<open>bounded\<close> is a fraction; one that
  only goes through \<open>clamp\<close> is a \<open>jsnum\<close>, because \<open>clamp\<close> lets not-a-number pass.  Properties
  the code does not know are not kept by the model.
\<close>

section \<open>Enumerations\<close>

datatype telemetry_field = FpsField | BitrateField | CodecField | DecoderField

datatype overlay_position = TopLeft | TopRight | BottomLeft | BottomRight | CustomPos

datatype meter_position = LeftRail | RightRail | Corner overlay_position

datatype meter_orientation = Vertical | Horizontal

datatype canvas_mode = ManualPixels | ManualAspect | AutoFit

datatype pixel_preset = Fhd | P2k | P4k | P8k

datatype stream_quality = LowQ | MediumQ | HighQ

fun telemetry_field_name :: "telemetry_field \<Rightarrow> string" where
  "telemetry_field_name FpsField = ''fps''"
| "telemetry_field_name BitrateField = ''bitrate''"
| "telemetry_field_name CodecField = ''codec''"
| "telemetry_field_name DecoderField = ''decoder''"

fun position_name :: "overlay_position \<Rightarrow> string" where
  "position_name TopLeft = ''top-left''"
| "position_name TopRight = ''top-right''"
| "position_name BottomLeft = ''bottom-left''"
| "position_name BottomRight = ''bottom-right''"
| "position_name CustomPos = ''custom''"

fun meter_position_name :: "meter_position \<Rightarrow> string" where
  "meter_position_name LeftRail = ''left''"
| "meter_position_name RightRail = ''right''"
| "meter_position_name (Corner p) = position_name p"

fun fill_name :: "scale_mode \<Rightarrow> string" where
  "fill_name Contain = ''contain''"
| "fill_name Cover = ''cover''"
| "fill_name Stretch = ''stretch''"

fun canvas_mode_name :: "canvas_mode \<Rightarrow> string" where
  "canvas_mode_name ManualPixels = ''manual-pixels''"
| "canvas_mode_name ManualAspect = ''manual-aspect''"
| "canvas_mode_name AutoFit = ''auto-fit''"

fun preset_name :: "pixel_preset \<Rightarrow> string" where
  "preset_name Fhd = ''fhd''"
| "preset_name P2k = ''2k''"
| "preset_name P4k = ''4k''"
| "preset_name P8k = ''8k''"

fun quality_name :: "stream_quality \<Rightarrow> string" where
  "quality_name LowQ = ''low''"
| "quality_name MediumQ = ''medium''"
| "quality_name HighQ = ''high''"

definition telemetry_field_names :: "telemetry_field list" where
  "telemetry_field_names = [FpsField, BitrateField, CodecField, DecoderField]"

definition overlay_positions :: "overlay_position list" where
  "overlay_positions = [TopLeft, TopRight, BottomLeft, BottomRight, CustomPos]"

definition meter_positions :: "meter_position list" where
  "meter_positions = [LeftRail, RightRail, Corner TopLeft, Corner TopRight, Corner BottomLeft,
     Corner BottomRight, Corner CustomPos]"

text \<open>\<open>names.includes(value)\<close>, answering which name it was.\<close>

definition pick :: "('a \<Rightarrow> string) \<Rightarrow> 'a list \<Rightarrow> jsv \<Rightarrow> 'a option" where
  "pick name xs v = find (\<lambda>x. v = JStr (name x)) xs"

definition pick_or :: "('a \<Rightarrow> string) \<Rightarrow> 'a list \<Rightarrow> 'a \<Rightarrow> jsv \<Rightarrow> 'a" where
  "pick_or name xs d v = (case pick name xs v of None \<Rightarrow> d | Some x \<Rightarrow> x)"

section \<open>The view\<close>

record telemetry_overlay =
  tel_enabled :: jsv
  tel_fields :: "telemetry_field list"
  tel_position :: overlay_position
  tel_customX :: rat
  tel_customY :: rat
  textOpacity :: rat
  backgroundEnabled :: jsv
  tel_backgroundColor :: string
  backgroundOpacity :: rat
  refreshIntervalMs :: rat

record audio_meter =
  met_enabled :: jsv
  met_orientation :: meter_orientation
  met_position :: meter_position
  met_size :: rat
  met_opacity :: rat
  met_customX :: rat
  met_customY :: rat
  thresholdDbfs :: rat
  alertBorderEnabled :: jsv
  alertBorderColor :: string
  alertBorderOpacity :: rat
  alertBorderWidth :: rat

record promotion_kinds =
  pk_audio :: bool
  pk_motion :: bool
  pk_person :: bool

record source_decoration =
  dec_telemetry :: telemetry_overlay
  dec_meter :: audio_meter
  dec_kinds :: promotion_kinds
  dec_fill :: "scale_mode option"

record source_audio =
  sa_volume :: rat
  sa_muted :: bool
  sa_monitor :: bool

record monitor_view =
  manual_mode :: bool
  largeCount :: jsnum
  largeSourceIds :: "string list"
  largeRatio :: rat
  view_telemetry :: telemetry_overlay
  view_fill :: scale_mode
  sourceDecorations :: "(string \<times> source_decoration) list"
  rot_enabled :: jsv
  rot_random :: bool
  intervalSeconds :: jsnum
  pinnedSourceIds :: "string list"
  allowEventPromotion :: jsv
  promo_threshold :: jsnum
  holdSeconds :: jsnum
  cooldownSeconds :: jsnum
  lp_enabled :: jsv
  targetFps :: jsnum
  detailsOpen :: bool
  issueCenterExpanded :: bool
  localMonitorVolume :: rat
  audioMonitorEnabled :: bool
  audioMixerCollapsed :: bool
  view_optimization :: playback_optimization
  audioMeterOnly :: bool
  archiveAudioCameraId :: "string option"
  monitorSwitchProminent :: bool
  canvasMode :: canvas_mode
  canvasAspect :: rat
  canvasPixelPreset :: pixel_preset
  streamQuality :: stream_quality
  showAudioMixer :: bool
  showAllAudioSources :: bool
  projectorPicture :: bool
  sourceAudio :: "(string \<times> source_audio) list"
  showDetectionBoxes :: bool
  showDetectionLabels :: bool
  boxOpacity :: jsnum
  boxLineWidth :: jsnum
  showInferenceStatus :: bool

section \<open>Defaults\<close>

definition defaultTelemetryOverlay :: telemetry_overlay where
  "defaultTelemetryOverlay = \<lparr>tel_enabled = JBool False, tel_fields = telemetry_field_names,
     tel_position = BottomLeft, tel_customX = 0, tel_customY = 1, textOpacity = 9 / 10,
     backgroundEnabled = JBool True, tel_backgroundColor = ''#000000'', backgroundOpacity = 45 / 100,
     refreshIntervalMs = 1000\<rparr>"

definition defaultAudioMeter :: audio_meter where
  "defaultAudioMeter = \<lparr>met_enabled = JBool False, met_orientation = Vertical, met_position = LeftRail,
     met_size = 1, met_opacity = 1, met_customX = 4 / 100, met_customY = 1 / 2, thresholdDbfs = -12,
     alertBorderEnabled = JBool True, alertBorderColor = ''#ff2d2d'', alertBorderOpacity = 1,
     alertBorderWidth = 3\<rparr>"

definition defaultSourceDecoration :: source_decoration where
  "defaultSourceDecoration = \<lparr>dec_telemetry = defaultTelemetryOverlay, dec_meter = defaultAudioMeter,
     dec_kinds = \<lparr>pk_audio = False, pk_motion = False, pk_person = False\<rparr>, dec_fill = None\<rparr>"

definition defaultMonitorView :: monitor_view where
  "defaultMonitorView = \<lparr>manual_mode = False, largeCount = Fin 0, largeSourceIds = [], largeRatio = 1 / 2,
     view_telemetry = defaultTelemetryOverlay, view_fill = Stretch, sourceDecorations = [],
     rot_enabled = JBool False, rot_random = False, intervalSeconds = Fin 30, pinnedSourceIds = [],
     allowEventPromotion = JBool False, promo_threshold = Fin (6 / 10), holdSeconds = Fin 15,
     cooldownSeconds = Fin 30, lp_enabled = JBool False, targetFps = Fin 2, detailsOpen = False,
     issueCenterExpanded = False, localMonitorVolume = 1, audioMonitorEnabled = False,
     audioMixerCollapsed = False, view_optimization = defaultPlaybackOptimization,
     audioMeterOnly = False, archiveAudioCameraId = None, monitorSwitchProminent = True,
     canvasMode = AutoFit, canvasAspect = 16 / 9, canvasPixelPreset = Fhd, streamQuality = MediumQ,
     showAudioMixer = True, showAllAudioSources = False, projectorPicture = False, sourceAudio = [],
     showDetectionBoxes = True, showDetectionLabels = False, boxOpacity = Fin (9 / 10),
     boxLineWidth = Fin 2, showInferenceStatus = True\<rparr>"

section \<open>A view as a JavaScript value\<close>

definition js_of_telemetry :: "telemetry_overlay \<Rightarrow> (string \<times> jsv) list" where
  "js_of_telemetry t =
     [(''enabled'', tel_enabled t), (''fields'', JArr (map (JStr \<circ> telemetry_field_name) (tel_fields t))),
      (''position'', JStr (position_name (tel_position t))), (''customX'', JRat (tel_customX t)),
      (''customY'', JRat (tel_customY t)), (''textOpacity'', JRat (textOpacity t)),
      (''backgroundEnabled'', backgroundEnabled t), (''backgroundColor'', JStr (tel_backgroundColor t)),
      (''backgroundOpacity'', JRat (backgroundOpacity t)), (''refreshIntervalMs'', JRat (refreshIntervalMs t))]"

definition js_of_meter :: "audio_meter \<Rightarrow> (string \<times> jsv) list" where
  "js_of_meter m =
     [(''enabled'', met_enabled m),
      (''orientation'', JStr (case met_orientation m of Vertical \<Rightarrow> ''vertical'' | Horizontal \<Rightarrow> ''horizontal'')),
      (''position'', JStr (meter_position_name (met_position m))), (''size'', JRat (met_size m)),
      (''opacity'', JRat (met_opacity m)), (''customX'', JRat (met_customX m)), (''customY'', JRat (met_customY m)),
      (''thresholdDbfs'', JRat (thresholdDbfs m)), (''alertBorderEnabled'', alertBorderEnabled m),
      (''alertBorderColor'', JStr (alertBorderColor m)), (''alertBorderOpacity'', JRat (alertBorderOpacity m)),
      (''alertBorderWidth'', JRat (alertBorderWidth m))]"

definition js_of_decoration :: "source_decoration \<Rightarrow> jsv" where
  "js_of_decoration d = JObj
     ([(''telemetry'', JObj (js_of_telemetry (dec_telemetry d))), (''audioMeter'', JObj (js_of_meter (dec_meter d))),
       (''promotionKinds'', JObj [(''audio'', JBool (pk_audio (dec_kinds d))),
          (''motion'', JBool (pk_motion (dec_kinds d))), (''person'', JBool (pk_person (dec_kinds d)))])]
      @ (case dec_fill d of None \<Rightarrow> [] | Some f \<Rightarrow> [(''fill'', JStr (fill_name f))]))"

definition js_of_source_audio :: "source_audio \<Rightarrow> jsv" where
  "js_of_source_audio a = JObj [(''volume'', JRat (sa_volume a)), (''muted'', JBool (sa_muted a)),
     (''monitor'', JBool (sa_monitor a))]"

definition js_of_optimization :: "playback_optimization \<Rightarrow> jsv" where
  "js_of_optimization p = JObj [(''enabled'', JBool (opt_enabled p)),
     (''slowStreamTolerance'', JBool (slowStreamTolerance p)),
     (''adaptiveProfiles'', JBool (adaptiveProfiles p)), (''catchUp'', JBool (catchUp p))]"

definition js_of_rotation :: "monitor_view \<Rightarrow> (string \<times> jsv) list" where
  "js_of_rotation v = [(''enabled'', rot_enabled v),
     (''strategy'', JStr (if rot_random v then ''random'' else ''sequential'')),
     (''intervalSeconds'', JNum (intervalSeconds v)), (''pinnedSourceIds'', JArr (map JStr (pinnedSourceIds v)))]"

definition js_of_promotion :: "monitor_view \<Rightarrow> (string \<times> jsv) list" where
  "js_of_promotion v = [(''allowEventPromotion'', allowEventPromotion v), (''threshold'', JNum (promo_threshold v)),
     (''holdSeconds'', JNum (holdSeconds v)), (''cooldownSeconds'', JNum (cooldownSeconds v))]"

definition js_of_low_power :: "monitor_view \<Rightarrow> (string \<times> jsv) list" where
  "js_of_low_power v = [(''enabled'', lp_enabled v), (''targetFps'', JNum (targetFps v))]"

definition js_of_panels :: "monitor_view \<Rightarrow> (string \<times> jsv) list" where
  "js_of_panels v = [(''detailsOpen'', JBool (detailsOpen v)), (''issueCenterExpanded'', JBool (issueCenterExpanded v))]"

definition js_of_analytics :: "monitor_view \<Rightarrow> (string \<times> jsv) list" where
  "js_of_analytics v = [(''showDetectionBoxes'', JBool (showDetectionBoxes v)),
     (''showDetectionLabels'', JBool (showDetectionLabels v)), (''boxOpacity'', JNum (boxOpacity v)),
     (''boxLineWidth'', JNum (boxLineWidth v)), (''showInferenceStatus'', JBool (showInferenceStatus v))]"

definition js_of_view :: "monitor_view \<Rightarrow> jsv" where
  "js_of_view v = JObj
     [(''schemaVersion'', JInt 5), (''mode'', JStr (if manual_mode v then ''manual'' else ''auto'')),
      (''largeCount'', JNum (largeCount v)), (''largeSourceIds'', JArr (map JStr (largeSourceIds v))),
      (''largeRatio'', JRat (largeRatio v)), (''fill'', JStr (fill_name (view_fill v))),
      (''telemetry'', JObj (js_of_telemetry (view_telemetry v))),
      (''sourceDecorations'', JObj (map (\<lambda>(i, d). (i, js_of_decoration d)) (sourceDecorations v))),
      (''rotation'', JObj (js_of_rotation v)), (''promotion'', JObj (js_of_promotion v)),
      (''lowPower'', JObj (js_of_low_power v)), (''panels'', JObj (js_of_panels v)),
      (''localMonitorVolume'', JRat (localMonitorVolume v)),
      (''audioMonitorEnabled'', JBool (audioMonitorEnabled v)), (''audioMixerCollapsed'', JBool (audioMixerCollapsed v)),
      (''playbackOptimization'', js_of_optimization (view_optimization v)),
      (''audioOutput'', JStr (if audioMeterOnly v then ''meter-only'' else ''speaker'')),
      (''archiveAudioCameraId'', (case archiveAudioCameraId v of None \<Rightarrow> JNull | Some i \<Rightarrow> JStr i)),
      (''monitorSwitchProminent'', JBool (monitorSwitchProminent v)),
      (''canvasMode'', JStr (canvas_mode_name (canvasMode v))), (''canvasAspect'', JRat (canvasAspect v)),
      (''canvasPixelPreset'', JStr (preset_name (canvasPixelPreset v))),
      (''streamQuality'', JStr (quality_name (streamQuality v))), (''showAudioMixer'', JBool (showAudioMixer v)),
      (''showAllAudioSources'', JBool (showAllAudioSources v)),
      (''projectorOutput'', JStr (if projectorPicture v then ''picture'' else ''full'')),
      (''sourceAudio'', JObj (map (\<lambda>(i, a). (i, js_of_source_audio a)) (sourceAudio v))),
      (''analytics'', JObj (js_of_analytics v))]"

section \<open>Normalization\<close>

definition finite_or :: "jsv \<Rightarrow> rat \<Rightarrow> rat" where
  "finite_or v fallback = (case to_number v of Fin r \<Rightarrow> r | _ \<Rightarrow> fallback)"

definition bounded :: "jsv \<Rightarrow> rat \<Rightarrow> rat \<Rightarrow> rat \<Rightarrow> rat" where
  "bounded v fallback minimum maximum = clamp (finite_or v fallback) minimum maximum"

text \<open>\<open>/^[A-Za-z0-9._:-]{1,128}$/\<close>.\<close>

definition source_id_ok :: "string \<Rightarrow> bool" where
  "source_id_ok s = in_class (\<lambda>c. is_id_char c \<or> c = CHR '':'') 1 128 s"

fun sourceIdentifier :: "jsv \<Rightarrow> bool" where
  "sourceIdentifier (JStr s) = source_id_ok s"
| "sourceIdentifier _ = False"

fun the_str :: "jsv \<Rightarrow> string" where
  "the_str (JStr s) = s"
| "the_str _ = []"

text \<open>\<open>[...new Set((Array.isArray(v) ? v : []).filter(sourceIdentifier))].slice(0, 16)\<close>.\<close>

definition id_list :: "jsv \<Rightarrow> string list" where
  "id_list v = take 16 (uniq (map the_str (filter sourceIdentifier (items v))))"

definition telemetryFields :: "jsv \<Rightarrow> telemetry_field list" where
  "telemetryFields v =
     (if is_arr v then List.map_filter (pick telemetry_field_name telemetry_field_names) (uniq (items v))
      else telemetry_field_names)"

definition fillMode :: "jsv \<Rightarrow> scale_mode \<Rightarrow> scale_mode" where
  "fillMode v fallback = pick_or fill_name [Stretch, Contain, Cover] fallback v"

definition colour_or :: "jsv \<Rightarrow> string \<Rightarrow> string" where
  "colour_or v fallback = (case v of JStr s \<Rightarrow> if hex_colour s then s else fallback | _ \<Rightarrow> fallback)"

definition normalize_telemetry :: "(string \<times> jsv) list \<Rightarrow> telemetry_overlay" where
  "normalize_telemetry es =
     (let get = field (JObj es) in
      \<lparr>tel_enabled = get ''enabled'', tel_fields = telemetryFields (get ''fields''),
       tel_position = pick_or position_name overlay_positions BottomLeft (get ''position''),
       tel_customX = bounded (get ''customX'') 0 0 1, tel_customY = bounded (get ''customY'') 1 0 1,
       textOpacity = bounded (get ''textOpacity'') (9 / 10) 0 1, backgroundEnabled = get ''backgroundEnabled'',
       tel_backgroundColor = colour_or (get ''backgroundColor'') ''#000000'',
       backgroundOpacity = bounded (get ''backgroundOpacity'') (45 / 100) 0 1,
       refreshIntervalMs = clamp (of_int (trunc_rat (finite_or (get ''refreshIntervalMs'') 1000))) 500 10000\<rparr>)"

definition normalize_meter :: "jsv \<Rightarrow> audio_meter" where
  "normalize_meter raw =
     (let get = field (JObj (spread (js_of_meter defaultAudioMeter) (entries raw)));
          legacyTopLeft = (\<not> has_own raw ''orientation'' \<and> get ''position'' = JStr ''top-left'')
      in \<lparr>met_enabled = get ''enabled'',
          met_orientation = (if get ''orientation'' = JStr ''horizontal'' then Horizontal else Vertical),
          met_position = (if legacyTopLeft then LeftRail
            else pick_or meter_position_name meter_positions LeftRail (get ''position'')),
          met_size = bounded (get ''size'') 1 (3 / 10) 2, met_opacity = bounded (get ''opacity'') 1 (1 / 10) 1,
          met_customX = bounded (get ''customX'') (4 / 100) 0 1, met_customY = bounded (get ''customY'') (1 / 2) 0 1,
          thresholdDbfs = bounded (get ''thresholdDbfs'') (-12) (-120) 0,
          alertBorderEnabled = get ''alertBorderEnabled'',
          alertBorderColor = colour_or (get ''alertBorderColor'') ''#ff2d2d'',
          alertBorderOpacity = bounded (get ''alertBorderOpacity'') 1 0 1,
          alertBorderWidth = clamp (of_int (trunc_rat (finite_or (get ''alertBorderWidth'') 3))) 1 12\<rparr>)"

definition normalize_decoration :: "(string \<times> jsv) list \<Rightarrow> jsv \<Rightarrow> source_decoration" where
  "normalize_decoration telemetry raw =
     \<lparr>dec_telemetry = normalize_telemetry (spread telemetry (entries (field raw ''telemetry''))),
      dec_meter = normalize_meter (field raw ''audioMeter''),
      dec_kinds = \<lparr>pk_audio = truthy (field (field raw ''promotionKinds'') ''audio''),
        pk_motion = truthy (field (field raw ''promotionKinds'') ''motion''),
        pk_person = truthy (field (field raw ''promotionKinds'') ''person'')\<rparr>,
      dec_fill = (if truthy (field raw ''fill'') then Some (fillMode (field raw ''fill'') Stretch) else None)\<rparr>"

text \<open>The loop over \<open>Object.entries(value?.sourceDecorations ?? {})\<close>.\<close>

definition decoration_allowed :: "string list option \<Rightarrow> string \<Rightarrow> jsv \<Rightarrow> bool" where
  "decoration_allowed sourceIds i raw =
     (source_id_ok i \<and> (case sourceIds of None \<Rightarrow> True | Some ids \<Rightarrow> i \<in> set (filter source_id_ok ids))
      \<and> is_object raw)"

definition normalize_decorations ::
  "(string \<times> jsv) list \<Rightarrow> string list option \<Rightarrow> jsv \<Rightarrow> (string \<times> source_decoration) list" where
  "normalize_decorations telemetry sourceIds v =
     map_from (map (\<lambda>(i, raw). (i, normalize_decoration telemetry raw))
       (filter (\<lambda>(i, raw). decoration_allowed sourceIds i raw) (entries v)))"

definition normalize_source_audio :: "jsv \<Rightarrow> (string \<times> source_audio) list" where
  "normalize_source_audio v =
     map_from (map (\<lambda>(i, e). (i, \<lparr>sa_volume = bounded (field e ''volume'') 1 0 (3 / 2),
         sa_muted = (field e ''muted'' = JBool True), sa_monitor = (field e ''monitor'' \<noteq> JBool False)\<rparr>))
       (filter (\<lambda>(i, e). source_id_ok i \<and> is_object e) (entries v)))"

definition normalizeMonitorView :: "jsv \<Rightarrow> int \<Rightarrow> string list option \<Rightarrow> monitor_view" where
  "normalizeMonitorView v sourceCount sourceIds =
     (let d = defaultMonitorView;
          telemetry = spread (js_of_telemetry (view_telemetry d)) (entries (field v ''telemetry''));
          rotation = field (JObj (spread (js_of_rotation d) (entries (field v ''rotation''))));
          promotion = field (JObj (spread (js_of_promotion d) (entries (field v ''promotion''))));
          lowPower = field (JObj (spread (js_of_low_power d) (entries (field v ''lowPower''))));
          panels = field (JObj (spread (js_of_panels d) (entries (field v ''panels''))));
          analytics = field (JObj (spread (js_of_analytics d) (entries (field v ''analytics''))))
      in \<lparr>manual_mode = (field v ''mode'' = JStr ''manual''),
          largeCount = js_clamp (js_trunc (to_number (or_else (field v ''largeCount'') (JInt 0)))) (Fin 0)
            (Fin (of_int (clamp sourceCount 0 16))),
          largeSourceIds = id_list (field v ''largeSourceIds''),
          largeRatio = bounded (field v ''largeRatio'') (1 / 2) (1 / 10) (9 / 10),
          view_telemetry = normalize_telemetry telemetry,
          view_fill = fillMode (field v ''fill'') Stretch,
          sourceDecorations = normalize_decorations telemetry sourceIds (field v ''sourceDecorations''),
          rot_enabled = rotation ''enabled'', rot_random = (rotation ''strategy'' = JStr ''random''),
          intervalSeconds = js_clamp (js_trunc (to_number (rotation ''intervalSeconds''))) (Fin 5) (Fin 86400),
          pinnedSourceIds = id_list (rotation ''pinnedSourceIds''),
          allowEventPromotion = promotion ''allowEventPromotion'',
          promo_threshold = js_clamp (to_number (promotion ''threshold'')) (Fin 0) (Fin 1),
          holdSeconds = js_clamp (js_trunc (to_number (promotion ''holdSeconds''))) (Fin 1) (Fin 3600),
          cooldownSeconds = js_clamp (js_trunc (to_number (promotion ''cooldownSeconds''))) (Fin 0) (Fin 86400),
          lp_enabled = lowPower ''enabled'',
          targetFps = js_clamp (to_number (lowPower ''targetFps'')) (Fin (1 / 2)) (Fin 30),
          detailsOpen = truthy (panels ''detailsOpen''), issueCenterExpanded = truthy (panels ''issueCenterExpanded''),
          localMonitorVolume = bounded (field v ''localMonitorVolume'') 1 0 1,
          audioMonitorEnabled = (field v ''audioMonitorEnabled'' = JBool True),
          audioMixerCollapsed = (field v ''audioMixerCollapsed'' = JBool True),
          view_optimization = normalizePlaybackOptimization (field v ''playbackOptimization''),
          audioMeterOnly = (field v ''audioOutput'' = JStr ''meter-only''),
          archiveAudioCameraId = (case field v ''archiveAudioCameraId'' of JStr s \<Rightarrow>
              if id64 s then Some s else None | _ \<Rightarrow> None),
          monitorSwitchProminent = (field v ''monitorSwitchProminent'' \<noteq> JBool False),
          canvasMode = pick_or canvas_mode_name [AutoFit, ManualAspect, ManualPixels] AutoFit (field v ''canvasMode''),
          canvasAspect = bounded (field v ''canvasAspect'') (16 / 9) (9 / 16) (32 / 9),
          canvasPixelPreset = pick_or preset_name [Fhd, P2k, P4k, P8k] Fhd (field v ''canvasPixelPreset''),
          streamQuality = pick_or quality_name [LowQ, MediumQ, HighQ] MediumQ (field v ''streamQuality''),
          showAudioMixer = (field v ''showAudioMixer'' \<noteq> JBool False),
          showAllAudioSources = (field v ''showAllAudioSources'' = JBool True),
          projectorPicture = (field v ''projectorOutput'' = JStr ''picture''),
          sourceAudio = normalize_source_audio (field v ''sourceAudio''),
          showDetectionBoxes = truthy (analytics ''showDetectionBoxes''),
          showDetectionLabels = truthy (analytics ''showDetectionLabels''),
          boxOpacity = js_clamp (to_number (analytics ''boxOpacity'')) (Fin 0) (Fin 1),
          boxLineWidth = js_clamp (to_number (analytics ''boxLineWidth'')) (Fin 1) (Fin 8),
          showInferenceStatus = truthy (analytics ''showInferenceStatus'')\<rparr>)"

end
