(* ===== verification/ViewOps.thy ===== *)
theory ViewOps
  imports MonitorView
begin

text \<open>
  The operations on a monitor view (\<open>monitorView.ts\<close>): the size of the wall's canvas, the
  effective decoration and fill of one source, changing the default telemetry, the labels of the
  playback topology and of the audio track, and the choice of a low-power stream.
\<close>

section \<open>Canvas size\<close>

fun long_edge :: "pixel_preset \<Rightarrow> int" where
  "long_edge Fhd = 1920"
| "long_edge P2k = 2560"
| "long_edge P4k = 3840"
| "long_edge P8k = 7680"

definition CANVAS_MAX_LONG_EDGE :: int where
  "CANVAS_MAX_LONG_EDGE = 7680"

text \<open>\<open>Math.max(16, Math.min(CANVAS_MAX_LONG_EDGE, Math.round(value / 2) * 2))\<close>.\<close>

definition even_size :: "rat \<Rightarrow> int" where
  "even_size v = max 16 (min CANVAS_MAX_LONG_EDGE (round_rat (v / 2) * 2))"

definition usable_ratio :: "jsnum \<Rightarrow> rat" where
  "usable_ratio r = (case r of Fin x \<Rightarrow> if x \<le> 0 then 16 / 9 else x | _ \<Rightarrow> 16 / 9)"

text \<open>
  The automatic ratio is \<open>Math.exp\<close> of the mean of \<open>Math.log(width / height)\<close>: the geometric
  mean of the source ratios, which a fraction cannot hold.  \<open>mean\<close> stands for it, with any result.
\<close>

definition canvas_ratio :: "(rat list \<Rightarrow> jsnum) \<Rightarrow> monitor_view \<Rightarrow> (rat \<times> rat) list \<Rightarrow> rat" where
  "canvas_ratio mean v sources =
     (if canvasMode v = AutoFit then
        (let usable = filter (\<lambda>(w, h). 0 < w \<and> 0 < h) sources;
             ratio = (if usable \<noteq> [] then mean (map (\<lambda>(w, h). w / h) usable) else Fin (canvasAspect v))
         in min (max (usable_ratio ratio) (9 / 16)) (32 / 9))
      else usable_ratio (Fin (canvasAspect v)))"

definition size_for_ratio :: "int \<Rightarrow> rat \<Rightarrow> int \<times> int" where
  "size_for_ratio longEdge ratio =
     (if 1 \<le> ratio then (even_size (of_int longEdge), even_size (of_int longEdge / ratio))
      else (even_size (of_int longEdge * ratio), even_size (of_int longEdge)))"

definition resolveCanvasSize ::
  "(rat list \<Rightarrow> jsnum) \<Rightarrow> monitor_view \<Rightarrow> (rat \<times> rat) list \<Rightarrow> rat \<Rightarrow> rat \<Rightarrow> int \<times> int" where
  "resolveCanvasSize mean v sources fallbackWidth fallbackHeight =
     (if canvasMode v = ManualPixels then (even_size fallbackWidth, even_size fallbackHeight)
      else size_for_ratio (long_edge (canvasPixelPreset v)) (canvas_ratio mean v sources))"

section \<open>Decorations\<close>

definition sourceDecoration :: "monitor_view \<Rightarrow> string \<Rightarrow> source_decoration" where
  "sourceDecoration v i =
     (case map_of (sourceDecorations v) i of
        None \<Rightarrow> defaultSourceDecoration\<lparr>dec_telemetry := view_telemetry v\<rparr>
      | Some d \<Rightarrow> d)"

text \<open>\<open>Partial<TelemetryOverlayConfig>\<close>: the fields to change.\<close>

record telemetry_change =
  ch_enabled :: "jsv option"
  ch_fields :: "telemetry_field list option"
  ch_position :: "overlay_position option"
  ch_customX :: "rat option"
  ch_customY :: "rat option"
  ch_textOpacity :: "rat option"
  ch_backgroundEnabled :: "jsv option"
  ch_backgroundColor :: "string option"
  ch_backgroundOpacity :: "rat option"
  ch_refreshIntervalMs :: "rat option"

definition opt_else :: "'a option \<Rightarrow> 'a \<Rightarrow> 'a" where
  "opt_else a d = (case a of None \<Rightarrow> d | Some x \<Rightarrow> x)"

text \<open>\<open>{...telemetry, ...change}\<close>.\<close>

definition change_telemetry :: "telemetry_change \<Rightarrow> telemetry_overlay \<Rightarrow> telemetry_overlay" where
  "change_telemetry c t = \<lparr>tel_enabled = opt_else (ch_enabled c) (tel_enabled t),
     tel_fields = opt_else (ch_fields c) (tel_fields t), tel_position = opt_else (ch_position c) (tel_position t),
     tel_customX = opt_else (ch_customX c) (tel_customX t), tel_customY = opt_else (ch_customY c) (tel_customY t),
     textOpacity = opt_else (ch_textOpacity c) (textOpacity t),
     backgroundEnabled = opt_else (ch_backgroundEnabled c) (backgroundEnabled t),
     tel_backgroundColor = opt_else (ch_backgroundColor c) (tel_backgroundColor t),
     backgroundOpacity = opt_else (ch_backgroundOpacity c) (backgroundOpacity t),
     refreshIntervalMs = opt_else (ch_refreshIntervalMs c) (refreshIntervalMs t)\<rparr>"

definition updateDefaultTelemetry :: "monitor_view \<Rightarrow> telemetry_change \<Rightarrow> monitor_view" where
  "updateDefaultTelemetry v c = v\<lparr>view_telemetry := change_telemetry c (view_telemetry v),
     sourceDecorations := map (\<lambda>(i, d). (i, d\<lparr>dec_telemetry := change_telemetry c (dec_telemetry d)\<rparr>))
       (sourceDecorations v)\<rparr>"

definition resolveFillMode :: "monitor_view \<Rightarrow> string \<Rightarrow> scale_mode \<Rightarrow> scale_mode" where
  "resolveFillMode v i manualScaleMode =
     (case Option.bind (map_of (sourceDecorations v) i) dec_fill of
        Some f \<Rightarrow> f
      | None \<Rightarrow> if manual_mode v then manualScaleMode else view_fill v)"

section \<open>Labels\<close>

text \<open>The captions themselves are Chinese; the model keeps which one is shown.\<close>

datatype topology_label =
  TrueDirectLabel | HybridLabel | GatewayForwardLabel | CompositeLabel | GatewayDirectLabel | NoLabel

definition playbackTopologyLabel :: "string \<Rightarrow> string \<Rightarrow> topology_label" where
  "playbackTopologyLabel topology deliveryMode =
     (if topology = ''true-direct'' then TrueDirectLabel
      else if topology = ''hybrid'' then HybridLabel
      else if topology = ''gateway-direct'' then GatewayForwardLabel
      else if topology = ''composite'' then CompositeLabel
      else if deliveryMode = ''direct'' then GatewayDirectLabel
      else if deliveryMode = ''hybrid'' then HybridLabel
      else if deliveryMode = ''composite'' then CompositeLabel
      else NoLabel)"

datatype track_state = TrackAvailable | TrackNone | TrackUnprobed

record audio_track_input =
  at_kind :: string
  liveAudioTracks :: "int option"
  streamBound :: bool
  at_audioCodec :: string
  at_probeState :: "string option"
  probeHasAudioTrack :: bool
  capabilityKnown :: bool

definition probed :: "string option \<Rightarrow> bool" where
  "probed p = (p = Some ''ready'' \<or> p = Some ''cached'')"

definition sourceAudioTrackState :: "audio_track_input \<Rightarrow> track_state" where
  "sourceAudioTrackState i =
     (let live = opt_else (liveAudioTracks i) 0;
          probe = (if probeHasAudioTrack i then TrackAvailable else TrackNone)
      in if probed (at_probeState i) then probe
         else if streamBound i then (if 0 < live then TrackAvailable else TrackNone)
         else if 0 < live then TrackAvailable
         else if at_kind i \<in> {''color'', ''text'', ''image'', ''nested''} then TrackNone
         else if at_audioCodec i \<noteq> [] \<and> at_audioCodec i \<noteq> ''none'' then TrackAvailable
         else if at_probeState i \<noteq> None then (if probed (at_probeState i) then probe else TrackUnprobed)
         else if capabilityKnown i then TrackNone
         else TrackUnprobed)"

section \<open>Low power\<close>

fun quality_cap :: "stream_quality \<Rightarrow> rat \<times> rat" where
  "quality_cap LowQ = (1280, 720)"
| "quality_cap MediumQ = (1920, 1080)"
| "quality_cap HighQ = (3840, 2160)"

datatype low_power_reason = TargetReached | NoProfile | NoLowFrameRateProfile

record low_power_selection =
  lps_profile :: "camera_profile option"
  targetMet :: bool
  lps_reason :: low_power_reason

definition lp_cost :: "camera_profile \<Rightarrow> rat" where
  "lp_cost p = of_int (if prof_width p = 0 then 1 else prof_width p)
     * of_int (if prof_height p = 0 then 1 else prof_height p) * max (fps p) (1 / 10)"

definition under_cap :: "stream_quality \<Rightarrow> camera_profile \<Rightarrow> bool" where
  "under_cap q p = (0 < fps p \<and> of_int (prof_width p) \<le> fst (quality_cap q) * (115 / 100)
     \<and> of_int (prof_height p) \<le> snd (quality_cap q) * (115 / 100))"

definition lp_pool :: "stream_quality \<Rightarrow> camera_profile list \<Rightarrow> camera_profile list" where
  "lp_pool q ps = (if filter (under_cap q) ps \<noteq> [] then filter (under_cap q) ps else ps)"

definition lp_eligible :: "stream_quality \<Rightarrow> rat \<Rightarrow> camera_profile list \<Rightarrow> camera_profile list" where
  "lp_eligible q target ps = filter (\<lambda>p. 0 < fps p \<and> fps p \<le> target) (lp_pool q ps)"

text \<open>
  \<open>sort\<close> is stable, so the comparison by frame rate and then by cost is two stable sorts.
\<close>

definition selectLowPowerProfile ::
  "camera_profile list \<Rightarrow> rat \<Rightarrow> stream_quality \<Rightarrow> low_power_selection" where
  "selectLowPowerProfile profiles wanted quality =
     (if profiles = [] then \<lparr>lps_profile = None, targetMet = False, lps_reason = NoProfile\<rparr>
      else let target = clamp wanted (1 / 2) 30;
               suitable = sort_key (\<lambda>p. - lp_cost p) (lp_eligible quality target profiles)
           in if suitable \<noteq> [] then \<lparr>lps_profile = Some (hd suitable), targetMet = True, lps_reason = TargetReached\<rparr>
              else \<lparr>lps_profile = Some (hd (sort_key (\<lambda>p. if fps p = 0 then 999 else fps p) (sort_key lp_cost profiles))),
                targetMet = False, lps_reason = NoLowFrameRateProfile\<rparr>)"


section \<open>Facts\<close>

lemma even_size_range: "16 \<le> even_size v \<and> even_size v \<le> 7680 \<and> even (even_size v)"
  by (simp add: even_size_def CANVAS_MAX_LONG_EDGE_def min_def max_def)

lemma even_size_mono: "a \<le> b \<Longrightarrow> even_size a \<le> even_size b"
  unfolding even_size_def using round_rat_mono [of "a / 2" "b / 2"] by (simp add: max_def min_def)

lemma even_size_edge: "even_size (of_int (long_edge p)) = long_edge p"
proof -
  have "even_size (of_int n) = n" if "even n" "16 \<le> n" "n \<le> 7680" for n
  proof -
    from that(1) obtain k where k: "n = 2 * k" by blast
    have "round_rat (of_int n / 2) = k" by (simp add: k)
    with that show ?thesis by (simp add: even_size_def CANVAS_MAX_LONG_EDGE_def k)
  qed
  note of_size = this
  have "even (long_edge p)" "16 \<le> long_edge p" "long_edge p \<le> 7680" by (cases p; simp)+
  then show ?thesis by (rule of_size)
qed

lemma usable_ratio_pos: "0 < usable_ratio r"
  by (auto simp: usable_ratio_def split: jsnum.split)

lemma canvas_ratio_pos: "0 < canvas_ratio mean v sources"
  by (simp add: canvas_ratio_def Let_def usable_ratio_pos less_max_iff_disj)

lemma size_for_ratio_long_edge:
  assumes "0 < r"
  shows "max (fst (size_for_ratio (long_edge p) r)) (snd (size_for_ratio (long_edge p) r)) = long_edge p"
proof -
  have pos: "0 < long_edge p" by (cases p) simp_all
  have "of_int (long_edge p) / r \<le> of_int (long_edge p)" if "1 \<le> r"
    using that pos assms by (simp add: divide_le_eq mult_left_le)
  moreover have "of_int (long_edge p) * r \<le> of_int (long_edge p)" if "r < 1"
    using that pos by simp
  ultimately show ?thesis
    using even_size_mono even_size_edge [of p] by (fastforce simp: size_for_ratio_def max_def)
qed

text \<open>Whatever the stored preferences, the source sizes and the geometric mean, the canvas has
  even sides between 16 and 7680 pixels, and outside the manual-pixel mode its longer side is
  exactly the long edge of the chosen preset.\<close>

theorem canvas_size_bounds:
  "even (fst (resolveCanvasSize mean v srcs fw fh)) \<and> even (snd (resolveCanvasSize mean v srcs fw fh))
   \<and> fst (resolveCanvasSize mean v srcs fw fh) \<in> {16..7680}
   \<and> snd (resolveCanvasSize mean v srcs fw fh) \<in> {16..7680}
   \<and> (canvasMode v = ManualPixels \<or>
      max (fst (resolveCanvasSize mean v srcs fw fh)) (snd (resolveCanvasSize mean v srcs fw fh))
        = long_edge (canvasPixelPreset v))"
  using even_size_range size_for_ratio_long_edge [OF canvas_ratio_pos]
  by (auto simp: resolveCanvasSize_def size_for_ratio_def)

text \<open>Changing a default telemetry control changes it on every tile, those with a decoration of
  their own and those that follow the default, and changes nothing else of any tile.\<close>

theorem default_telemetry_reaches_every_tile:
  "sourceDecoration (updateDefaultTelemetry v c) i
   = (sourceDecoration v i)\<lparr>dec_telemetry := change_telemetry c (dec_telemetry (sourceDecoration v i))\<rparr>"
proof -
  have "map_of (map (\<lambda>(i, d). (i, f d)) ds) i = map_option f (map_of ds i)"
    for f :: "source_decoration \<Rightarrow> source_decoration" and ds
    by (induction ds) auto
  then show ?thesis
    by (simp add: sourceDecoration_def updateDefaultTelemetry_def split: option.split)
qed

lemma change_telemetry_idem: "change_telemetry c (change_telemetry c t) = change_telemetry c t"
  by (simp add: change_telemetry_def opt_else_def split: option.split)

lemma resolveFillMode_update: "resolveFillMode (updateDefaultTelemetry v c) i m = resolveFillMode v i m"
proof -
  have "Option.bind (map_of (map (\<lambda>(i, d). (i, f d)) ds) i) dec_fill = Option.bind (map_of ds i) dec_fill"
    if "\<And>d. dec_fill (f d) = dec_fill d" for f :: "source_decoration \<Rightarrow> source_decoration" and ds
    using that by (induction ds) auto
  then show ?thesis by (simp add: resolveFillMode_def updateDefaultTelemetry_def split: option.split)
qed

text \<open>The audio badge never claims more than is known: a ready probe decides alone; without
  one, tracks on the wire mean available, and a source is called silent only when a bound stream has no
  track, when its kind cannot have one, or when its capabilities are known.\<close>

theorem audio_track_state_truthful:
  "(sourceAudioTrackState i = TrackNone) =
     (if probed (at_probeState i) then \<not> probeHasAudioTrack i
      else \<not> (0 < opt_else (liveAudioTracks i) 0)
        \<and> (streamBound i \<or> at_kind i \<in> {''color'', ''text'', ''image'', ''nested''}
           \<or> ((at_audioCodec i = [] \<or> at_audioCodec i = ''none'') \<and> at_probeState i = None \<and> capabilityKnown i)))"
  unfolding sourceAudioTrackState_def Let_def by (simp split: if_split)

lemma hd_sort_key:
  assumes "xs \<noteq> []"
  shows "hd (sort_key f xs) \<in> set xs \<and> (\<forall>x \<in> set xs. f (hd (sort_key f xs)) \<le> f x)"
proof -
  obtain y ys where s: "sort_key f xs = y # ys"
    by (cases "sort_key f xs") (use assms in \<open>auto dest: arg_cong [of _ _ set]\<close>)
  then have "set xs = insert y (set ys)" by (metis list.set(2) set_sort)
  moreover have "sorted (map f (y # ys))" by (metis s sorted_sort_key)
  ultimately show ?thesis by (simp add: s)
qed

text \<open>The low-power stream is the best one that still meets the frame-rate target: when some
  stream of the pool does, the chosen one does and none of them has more pixels per second; otherwise
  the answer says that the target is missed and carries a stream with the lowest frame rate.\<close>

theorem low_power_choice_optimal:
  assumes "profiles \<noteq> []"
  shows "\<exists>p \<in> set profiles. lps_profile (selectLowPowerProfile profiles wanted q) = Some p
    \<and> (if lp_eligible q (clamp wanted (1 / 2) 30) profiles = []
       then \<not> targetMet (selectLowPowerProfile profiles wanted q)
         \<and> (\<forall>r \<in> set profiles. (if fps p = 0 then 999 else fps p) \<le> (if fps r = 0 then 999 else fps r))
       else targetMet (selectLowPowerProfile profiles wanted q)
         \<and> p \<in> set (lp_eligible q (clamp wanted (1 / 2) 30) profiles)
         \<and> (\<forall>r \<in> set (lp_eligible q (clamp wanted (1 / 2) 30) profiles). lp_cost r \<le> lp_cost p))"
proof (cases "lp_eligible q (clamp wanted (1 / 2) 30) profiles = []")
  case True
  let ?f = "\<lambda>p. if fps p = 0 then 999 else fps p"
  let ?p = "hd (sort_key ?f (sort_key lp_cost profiles))"
  have ne: "sort_key lp_cost profiles \<noteq> []" using assms by (metis set_empty set_sort)
  have h: "?p \<in> set profiles" "\<forall>r \<in> set profiles. ?f ?p \<le> ?f r"
    using hd_sort_key [OF ne, of ?f] by simp_all
  have "selectLowPowerProfile profiles wanted q =
      \<lparr>lps_profile = Some ?p, targetMet = False, lps_reason = NoLowFrameRateProfile\<rparr>"
    using True assms by (simp add: selectLowPowerProfile_def)
  with True h show ?thesis by (intro bexI [of _ ?p]) simp_all
next
  case False
  let ?e = "lp_eligible q (clamp wanted (1 / 2) 30) profiles"
  let ?p = "hd (sort_key (\<lambda>p. - lp_cost p) ?e)"
  have ne: "sort_key (\<lambda>p. - lp_cost p) ?e \<noteq> []" using False by (metis set_empty set_sort)
  have sub: "set ?e \<subseteq> set profiles" by (auto simp: lp_eligible_def lp_pool_def split: if_splits)
  have h: "?p \<in> set ?e" "\<forall>r \<in> set ?e. lp_cost r \<le> lp_cost ?p"
    using hd_sort_key [OF False, of "\<lambda>p. - lp_cost p"] by simp_all
  have "selectLowPowerProfile profiles wanted q =
      \<lparr>lps_profile = Some ?p, targetMet = True, lps_reason = TargetReached\<rparr>"
    using ne assms by (simp add: selectLowPowerProfile_def)
  with False h sub show ?thesis by (intro bexI [of _ ?p]) auto
qed

theorem low_power_choice_optimal_witness:
  "\<exists>p \<in> set [demo_profile ''hd'' 1280 720 25, demo_profile ''sd'' 640 360 15].
     lps_profile (selectLowPowerProfile [demo_profile ''hd'' 1280 720 25, demo_profile ''sd'' 640 360 15] 20 LowQ) = Some p"
  using low_power_choice_optimal
    [of "[demo_profile ''hd'' 1280 720 25, demo_profile ''sd'' 640 360 15]" 20 LowQ] by auto

end
