(* ===== verification/ViewNormal.thy ===== *)
theory ViewNormal
  imports MonitorView
begin

text \<open>
  What \<open>normalizeMonitorView\<close> guarantees: the predicate \<open>view_ok\<close> says that every number of a
  view lies in the range its control has (or is not a number, for the fields that only go through
  \<open>clamp\<close>), every identifier list is duplicate-free and short, every colour is a colour.
  Whatever was stored, the result satisfies it, and a view that satisfies it is left as it is,
  so that storing and loading preferences again never changes them.
\<close>

section \<open>Building blocks\<close>

lemma map_of_spread: "wf_map ext \<Longrightarrow> map_of (spread base ext) = map_of base ++ map_of ext"
proof (induction ext arbitrary: base)
  case (Cons e ext)
  obtain k v where e: "e = (k, v)" by force
  from Cons.prems e have k: "k \<notin> fst ` set ext" and wf: "wf_map ext" by (auto simp: wf_map_def)
  have "map_of (spread base (e # ext)) = map_of (spread (assign k v base) ext)"
    by (simp add: spread_def e)
  also have "\<dots> = (map_of base)(k \<mapsto> v) ++ map_of ext" by (simp add: Cons.IH [OF wf] fun_upd_def)
  also have "\<dots> = map_of base ++ map_of (e # ext)"
    using k by (auto simp: e fun_eq_iff map_add_def map_of_eq_None_iff [THEN iffD2] split: option.splits)
  finally show ?case .
qed (simp add: spread_def)

lemma field_spread:
  "wf_map ext \<Longrightarrow> field (JObj (spread base ext)) k =
     (case map_of ext k of Some x \<Rightarrow> x | None \<Rightarrow> field (JObj base) k)"
  by (simp add: map_of_spread map_add_def split: option.splits)

lemma bounded_range: "lo \<le> hi \<Longrightarrow> lo \<le> bounded v d lo hi \<and> bounded v d lo hi \<le> hi"
  by (simp add: bounded_def)

lemma bounded_id: "lo \<le> r \<Longrightarrow> r \<le> hi \<Longrightarrow> bounded (JRat r) d lo hi = r"
  by (simp add: bounded_def finite_or_def clamp_id)

definition in_range :: "rat \<Rightarrow> rat \<Rightarrow> rat \<Rightarrow> bool" where
  "in_range lo hi r = (lo \<le> r \<and> r \<le> hi)"

text \<open>A number that has only gone through \<open>clamp\<close>, and one that was truncated first.\<close>

definition num_ok :: "rat \<Rightarrow> rat \<Rightarrow> jsnum \<Rightarrow> bool" where
  "num_ok lo hi n = (case n of Fin r \<Rightarrow> in_range lo hi r | NaN \<Rightarrow> True | _ \<Rightarrow> False)"

definition whole_ok :: "int \<Rightarrow> int \<Rightarrow> jsnum \<Rightarrow> bool" where
  "whole_ok lo hi n = (n = NaN \<or> (\<exists>k. n = Fin (of_int k) \<and> lo \<le> k \<and> k \<le> hi))"

definition whole_in :: "int \<Rightarrow> int \<Rightarrow> rat \<Rightarrow> bool" where
  "whole_in lo hi r = (r = of_int \<lfloor>r\<rfloor> \<and> of_int lo \<le> r \<and> r \<le> of_int hi)"

lemma clamp_of_int: "clamp (of_int v) (of_int lo) (of_int hi) = (of_int (clamp v lo hi) :: rat)"
  by (simp add: clamp_def min_def max_def)

lemma num_ok_clamp: "lo \<le> hi \<Longrightarrow> num_ok lo hi (js_clamp n (Fin lo) (Fin hi))"
  by (cases n) (simp_all add: num_ok_def in_range_def)

lemma num_ok_id: "num_ok lo hi n \<Longrightarrow> js_clamp n (Fin lo) (Fin hi) = n"
  by (cases n) (simp_all add: num_ok_def in_range_def clamp_id)

lemma whole_ok_clamp:
  "lo \<le> hi \<Longrightarrow> whole_ok lo hi (js_clamp (js_trunc n) (Fin (of_int lo)) (Fin (of_int hi)))"
proof (cases n)
  case (Fin r)
  assume "lo \<le> hi"
  then show ?thesis
    using Fin by (auto simp: whole_ok_def clamp_of_int intro!: exI [of _ "clamp (trunc_rat r) lo hi"])
qed (auto simp: whole_ok_def)

lemma whole_ok_id:
  "whole_ok lo hi n \<Longrightarrow> js_clamp (js_trunc n) (Fin (of_int lo)) (Fin (of_int hi)) = n"
  by (auto simp: whole_ok_def clamp_of_int clamp_id)

lemma whole_in_clamp: "lo \<le> hi \<Longrightarrow> whole_in lo hi (clamp (of_int k) (of_int lo) (of_int hi))"
  by (simp add: whole_in_def clamp_of_int)

lemma whole_in_id:
  "whole_in lo hi r \<Longrightarrow> clamp (of_int (trunc_rat r)) (of_int lo) (of_int hi) = r"
  by (metis whole_in_def clamp_id trunc_rat_of_int)

lemma colour_or_ok: "hex_colour d \<Longrightarrow> hex_colour (colour_or v d)"
  by (auto simp: colour_or_def split: jsv.split)

lemma colour_or_id: "hex_colour s \<Longrightarrow> colour_or (JStr s) d = s"
  by (simp add: colour_or_def)

section \<open>Lists and names\<close>

lemma id_list_ok: "distinct (id_list v) \<and> length (id_list v) \<le> 16 \<and> list_all source_id_ok (id_list v)"
proof -
  have "source_id_ok s" if "s \<in> set (id_list v)" for s
  proof -
    from that have "s \<in> the_str ` {x. sourceIdentifier x}"
      unfolding id_list_def by (fastforce dest: in_set_takeD)
    then obtain x where "sourceIdentifier x" "s = the_str x" by blast
    then show ?thesis by (cases x; simp)
  qed
  then show ?thesis by (auto simp: id_list_def list_all_iff distinct_take)
qed

lemma id_list_id:
  assumes "distinct ids" "length ids \<le> 16" "list_all source_id_ok ids"
  shows "id_list (JArr (map JStr ids)) = ids"
proof -
  have "filter sourceIdentifier (map JStr ids) = map JStr ids"
    using assms(3) by (auto simp: list_all_iff filter_id_conv)
  then show ?thesis using assms by (simp add: id_list_def comp_def uniq_distinct)
qed

lemma map_filter_distinct:
  assumes "distinct xs" "\<And>x a y. f x = Some a \<Longrightarrow> f y = Some a \<Longrightarrow> x = y"
  shows "distinct (List.map_filter f xs)"
  using assms(1)
proof (induction xs)
  case (Cons x xs)
  then have d: "distinct (List.map_filter f xs)" by simp
  have "a \<notin> set (List.map_filter f xs)" if "f x = Some a" for a
  proof
    assume "a \<in> set (List.map_filter f xs)"
    then obtain y where "y \<in> set xs" "f y = Some a" by (auto simp: List.map_filter_def)
    with assms(2) [of x a y] that Cons.prems show False by auto
  qed
  with d show ?case by (auto simp: List.map_filter_simps split: option.split)
qed (simp add: List.map_filter_simps)

lemma pick_name: "pick name xs v = Some x \<Longrightarrow> v = JStr (name x)"
  by (auto simp: pick_def find_Some_iff)

lemma distinct_telemetryFields: "distinct (telemetryFields v)"
proof -
  have "distinct (List.map_filter (pick telemetry_field_name telemetry_field_names) (uniq (items v)))"
    by (intro map_filter_distinct) (auto dest!: pick_name)
  then show ?thesis by (simp add: telemetryFields_def telemetry_field_names_def)
qed

lemma telemetry_field_name_inj: "inj telemetry_field_name"
proof (rule injI)
  fix a b :: telemetry_field
  assume "telemetry_field_name a = telemetry_field_name b"
  then show "a = b" by (cases a; cases b; simp)
qed

lemma pick_telemetry_field: "pick telemetry_field_name telemetry_field_names (JStr (telemetry_field_name f)) = Some f"
  by (cases f) (simp_all add: pick_def telemetry_field_names_def)

lemma telemetryFields_id:
  "distinct fs \<Longrightarrow> telemetryFields (JArr (map (JStr \<circ> telemetry_field_name) fs)) = fs"
proof -
  assume "distinct fs"
  moreover have "inj (JStr \<circ> telemetry_field_name)"
    using telemetry_field_name_inj by (auto simp: inj_def)
  ultimately have "uniq (map (JStr \<circ> telemetry_field_name) fs) = map (JStr \<circ> telemetry_field_name) fs"
    by (intro uniq_distinct) (simp add: distinct_map inj_on_def inj_def)
  moreover have "List.map_filter (pick telemetry_field_name telemetry_field_names)
      (map (JStr \<circ> telemetry_field_name) gs) = gs" for gs
    by (induction gs) (simp_all add: List.map_filter_simps pick_telemetry_field)
  ultimately show ?thesis by (simp add: telemetryFields_def)
qed

lemma pick_or_position: "pick_or position_name overlay_positions d (JStr (position_name p)) = p"
  by (cases p) (simp_all add: pick_or_def pick_def overlay_positions_def)

lemma pick_or_meter: "pick_or meter_position_name meter_positions d (JStr (meter_position_name p)) = p"
proof (cases p)
  case (Corner q)
  then show ?thesis by (cases q) (simp_all add: pick_or_def pick_def meter_positions_def)
qed (simp_all add: pick_or_def pick_def meter_positions_def)

lemma fillMode_id: "fillMode (JStr (fill_name f)) d = f"
  by (cases f) (simp_all add: fillMode_def pick_or_def pick_def)

lemma pick_or_canvas:
  "pick_or canvas_mode_name [AutoFit, ManualAspect, ManualPixels] d (JStr (canvas_mode_name m)) = m"
  by (cases m) (simp_all add: pick_or_def pick_def)

lemma pick_or_preset: "pick_or preset_name [Fhd, P2k, P4k, P8k] d (JStr (preset_name p)) = p"
  by (cases p) (simp_all add: pick_or_def pick_def)

lemma pick_or_quality: "pick_or quality_name [LowQ, MediumQ, HighQ] d (JStr (quality_name q)) = q"
  by (cases q) (simp_all add: pick_or_def pick_def)


section \<open>Overlays and decorations\<close>

definition telemetry_ok :: "telemetry_overlay \<Rightarrow> bool" where
  "telemetry_ok t = (distinct (tel_fields t) \<and> in_range 0 1 (tel_customX t) \<and> in_range 0 1 (tel_customY t)
     \<and> in_range 0 1 (textOpacity t) \<and> in_range 0 1 (backgroundOpacity t)
     \<and> whole_in 500 10000 (refreshIntervalMs t) \<and> hex_colour (tel_backgroundColor t))"

definition meter_ok :: "audio_meter \<Rightarrow> bool" where
  "meter_ok m = (in_range (3 / 10) 2 (met_size m) \<and> in_range (1 / 10) 1 (met_opacity m)
     \<and> in_range 0 1 (met_customX m) \<and> in_range 0 1 (met_customY m) \<and> in_range (-120) 0 (thresholdDbfs m)
     \<and> in_range 0 1 (alertBorderOpacity m) \<and> whole_in 1 12 (alertBorderWidth m)
     \<and> hex_colour (alertBorderColor m))"

definition decoration_ok :: "source_decoration \<Rightarrow> bool" where
  "decoration_ok d = (telemetry_ok (dec_telemetry d) \<and> meter_ok (dec_meter d))"

definition audio_ok :: "source_audio \<Rightarrow> bool" where
  "audio_ok a = in_range 0 (3 / 2) (sa_volume a)"

lemma in_range_bounded: "lo \<le> hi \<Longrightarrow> in_range lo hi (bounded v d lo hi)"
  by (simp add: in_range_def bounded_range)

lemma bounded_in_range: "in_range lo hi r \<Longrightarrow> bounded (JRat r) d lo hi = r"
  by (simp add: in_range_def bounded_id)

lemma finite_or_JRat: "finite_or (JRat r) d = r"
  by (simp add: finite_or_def)

lemma normalize_telemetry_ok: "telemetry_ok (normalize_telemetry es)"
proof -
  have w: "whole_in 500 10000 (clamp (of_int k) 500 10000)" for k
    using whole_in_clamp [of 500 10000 k] by simp
  have c: "hex_colour (colour_or v ''#000000'')" for v
    by (intro colour_or_ok) code_simp
  show ?thesis
    unfolding telemetry_ok_def normalize_telemetry_def Let_def
    by (simp add: in_range_bounded w c distinct_telemetryFields)
qed

lemma normalize_meter_ok: "meter_ok (normalize_meter raw)"
proof -
  have w: "whole_in 1 12 (clamp (of_int k) 1 12)" for k
    using whole_in_clamp [of 1 12 k] by simp
  have c: "hex_colour (colour_or v ''#ff2d2d'')" for v
    by (intro colour_or_ok) code_simp
  show ?thesis
    unfolding meter_ok_def normalize_meter_def Let_def
    by (simp add: in_range_bounded w c)
qed

text \<open>A stored overlay is complete: it hides whatever it is spread over.\<close>

lemma wf_js_telemetry: "wf_map (js_of_telemetry t)"
  by (simp add: js_of_telemetry_def wf_map_def)

lemma wf_js_meter: "wf_map (js_of_meter m)"
  by (simp add: js_of_meter_def wf_map_def)

lemma field_js_telemetry:
  fixes base :: "(string \<times> jsv) list"
  defines "f \<equiv> \<lambda>t k. field (JObj (spread base (js_of_telemetry t))) k"
  shows "f t ''enabled'' = tel_enabled t"
    and "f t ''fields'' = JArr (map (JStr \<circ> telemetry_field_name) (tel_fields t))"
    and "f t ''position'' = JStr (position_name (tel_position t))"
    and "f t ''customX'' = JRat (tel_customX t)" and "f t ''customY'' = JRat (tel_customY t)"
    and "f t ''textOpacity'' = JRat (textOpacity t)" and "f t ''backgroundEnabled'' = backgroundEnabled t"
    and "f t ''backgroundColor'' = JStr (tel_backgroundColor t)"
    and "f t ''backgroundOpacity'' = JRat (backgroundOpacity t)"
    and "f t ''refreshIntervalMs'' = JRat (refreshIntervalMs t)"
  unfolding f_def field_spread [OF wf_js_telemetry] by (simp_all add: js_of_telemetry_def)

lemma normalize_telemetry_id:
  assumes "telemetry_ok t"
  shows "normalize_telemetry (spread base (js_of_telemetry t)) = t"
proof -
  have w: "clamp (of_int (trunc_rat (refreshIntervalMs t))) 500 10000 = refreshIntervalMs t"
    using assms whole_in_id [of 500 10000] by (simp add: telemetry_ok_def)
  show ?thesis
    unfolding normalize_telemetry_def Let_def field_js_telemetry finite_or_JRat w
    using assms
    by (simp add: telemetry_ok_def pick_or_position telemetryFields_id bounded_in_range colour_or_id)
qed

lemma normalize_meter_id:
  assumes "meter_ok m"
  shows "normalize_meter (JObj (js_of_meter m)) = m"
proof -
  have w: "clamp (of_int (trunc_rat (alertBorderWidth m))) 1 12 = alertBorderWidth m"
    using assms whole_in_id [of 1 12] by (simp add: meter_ok_def)
  have own: "has_own (JObj (js_of_meter m)) ''orientation''"
    by (simp add: has_own_def js_of_meter_def)
  have f: "field (JObj (spread base (entries (JObj (js_of_meter m))))) k =
      (case map_of (js_of_meter m) k of Some x \<Rightarrow> x | None \<Rightarrow> field (JObj base) k)" for base k
    by (simp only: entries.simps field_spread [OF wf_js_meter])
  show ?thesis
    unfolding normalize_meter_def Let_def f
    using assms w own
    by (simp add: js_of_meter_def meter_ok_def pick_or_meter bounded_in_range colour_or_id finite_or_JRat
        split: meter_orientation.split)
qed

lemma normalize_decoration_ok: "decoration_ok (normalize_decoration tel raw)"
  by (simp add: decoration_ok_def normalize_decoration_def normalize_telemetry_ok normalize_meter_ok)

lemma normalize_decoration_id:
  assumes "decoration_ok d"
  shows "normalize_decoration tel (js_of_decoration d) = d"
proof -
  have t: "field (js_of_decoration d) ''telemetry'' = JObj (js_of_telemetry (dec_telemetry d))"
    and m: "field (js_of_decoration d) ''audioMeter'' = JObj (js_of_meter (dec_meter d))"
    and k: "field (js_of_decoration d) ''promotionKinds'' = JObj [(''audio'', JBool (pk_audio (dec_kinds d))),
          (''motion'', JBool (pk_motion (dec_kinds d))), (''person'', JBool (pk_person (dec_kinds d)))]"
    and f: "field (js_of_decoration d) ''fill'' = (case dec_fill d of None \<Rightarrow> JUndef | Some f \<Rightarrow> JStr (fill_name f))"
    by (simp_all add: js_of_decoration_def split: option.split)
  have fill: "(if truthy (case dec_fill d of None \<Rightarrow> JUndef | Some f \<Rightarrow> JStr (fill_name f))
      then Some (fillMode (case dec_fill d of None \<Rightarrow> JUndef | Some f \<Rightarrow> JStr (fill_name f)) Stretch) else None) = dec_fill d"
    by (cases "dec_fill d"; cases "the (dec_fill d)"; simp add: fillMode_def pick_or_def pick_def)
  show ?thesis
    unfolding normalize_decoration_def t m k f fill
    using assms by (simp add: decoration_ok_def normalize_telemetry_id normalize_meter_id)
qed


section \<open>The whole view\<close>

definition decorations_ok :: "string list option \<Rightarrow> (string \<times> source_decoration) list \<Rightarrow> bool" where
  "decorations_ok ids ds = (wf_map ds \<and> list_all (\<lambda>(i, d). source_id_ok i
     \<and> (case ids of None \<Rightarrow> True | Some xs \<Rightarrow> i \<in> set xs) \<and> decoration_ok d) ds)"

definition audios_ok :: "(string \<times> source_audio) list \<Rightarrow> bool" where
  "audios_ok as = (wf_map as \<and> list_all (\<lambda>(i, a). source_id_ok i \<and> audio_ok a) as)"

definition ids_ok :: "string list \<Rightarrow> bool" where
  "ids_ok xs = (distinct xs \<and> length xs \<le> 16 \<and> list_all source_id_ok xs)"

definition view_ok :: "int \<Rightarrow> string list option \<Rightarrow> monitor_view \<Rightarrow> bool" where
  "view_ok n ids v = (whole_ok 0 (clamp n 0 16) (largeCount v) \<and> ids_ok (largeSourceIds v)
     \<and> in_range (1 / 10) (9 / 10) (largeRatio v) \<and> telemetry_ok (view_telemetry v)
     \<and> decorations_ok ids (sourceDecorations v) \<and> whole_ok 5 86400 (intervalSeconds v)
     \<and> ids_ok (pinnedSourceIds v) \<and> num_ok 0 1 (promo_threshold v) \<and> whole_ok 1 3600 (holdSeconds v)
     \<and> whole_ok 0 86400 (cooldownSeconds v) \<and> num_ok (1 / 2) 30 (targetFps v)
     \<and> in_range 0 1 (localMonitorVolume v) \<and> in_range (9 / 16) (32 / 9) (canvasAspect v)
     \<and> audios_ok (sourceAudio v) \<and> num_ok 0 1 (boxOpacity v) \<and> num_ok 1 8 (boxLineWidth v)
     \<and> (case archiveAudioCameraId v of None \<Rightarrow> True | Some i \<Rightarrow> id64 i))"

lemma set_map_from: "(k, x) \<in> set (map_from es) \<Longrightarrow> (k, x) \<in> set es"
proof -
  have "set (fold (\<lambda>(k, v) m. assign k v m) es m) \<subseteq> set es \<union> set m" for m :: "('a \<times> 'b) list"
  proof (induction es arbitrary: m)
    case (Cons e es)
    obtain k v where "e = (k, v)" by force
    with Cons.IH [of "assign k v m"] set_assign_subset [of k v m] show ?case by auto
  qed simp
  then show "(k, x) \<in> set (map_from es) \<Longrightarrow> (k, x) \<in> set es" by (fastforce simp: map_from_def)
qed

lemma normalize_decorations_ok: "decorations_ok ids (normalize_decorations tel ids v)"
  unfolding decorations_ok_def normalize_decorations_def list_all_iff
  by (auto dest!: set_map_from simp: normalize_decoration_ok decoration_allowed_def split: option.splits)

lemma normalize_source_audio_ok: "audios_ok (normalize_source_audio v)"
  unfolding audios_ok_def normalize_source_audio_def list_all_iff
  by (auto dest!: set_map_from simp: audio_ok_def in_range_bounded)

lemma is_object_decoration: "is_object (js_of_decoration d)"
  by (simp add: is_object_def js_of_decoration_def)

lemma filter_all: "list_all P xs \<Longrightarrow> filter P xs = xs"
  by (simp add: list_all_iff filter_id_conv)

lemma normalize_decorations_id:
  assumes "decorations_ok ids ds"
  shows "normalize_decorations tel ids (JObj (map (\<lambda>(i, d). (i, js_of_decoration d)) ds)) = ds"
proof -
  let ?es = "map (\<lambda>(i, d). (i, js_of_decoration d)) ds"
  have wf: "distinct (map fst ds)" using assms by (simp add: decorations_ok_def wf_map_def)
  have "list_all (\<lambda>(i, raw). decoration_allowed ids i raw) ?es"
    using assms by (auto simp: decorations_ok_def list_all_iff decoration_allowed_def is_object_decoration
        split: option.splits)
  then have f: "filter (\<lambda>(i, raw). decoration_allowed ids i raw) ?es = ?es" by (rule filter_all)
  have "map (\<lambda>(i, raw). (i, normalize_decoration tel raw)) ?es = ds"
    using assms by (auto simp: decorations_ok_def list_all_iff normalize_decoration_id intro!: map_idI)
  then show ?thesis by (simp add: normalize_decorations_def f map_from_distinct wf)
qed

lemma normalize_source_audio_id:
  assumes "audios_ok as"
  shows "normalize_source_audio (JObj (map (\<lambda>(i, a). (i, js_of_source_audio a)) as)) = as"
proof -
  let ?es = "map (\<lambda>(i, a). (i, js_of_source_audio a)) as"
  have wf: "distinct (map fst as)" using assms by (simp add: audios_ok_def wf_map_def)
  have "list_all (\<lambda>(i, e). source_id_ok i \<and> is_object e) ?es"
    using assms by (auto simp: audios_ok_def list_all_iff is_object_def js_of_source_audio_def)
  then have f: "filter (\<lambda>(i, e). source_id_ok i \<and> is_object e) ?es = ?es" by (rule filter_all)
  have "map (\<lambda>(i, e). (i, \<lparr>sa_volume = bounded (field e ''volume'') 1 0 (3 / 2),
         sa_muted = (field e ''muted'' = JBool True), sa_monitor = (field e ''monitor'' \<noteq> JBool False)\<rparr>)) ?es = as"
    using assms
    by (auto simp: audios_ok_def audio_ok_def list_all_iff js_of_source_audio_def bounded_in_range intro!: map_idI)
  then show ?thesis by (simp add: normalize_source_audio_def f map_from_distinct wf)
qed

lemma ids_ok_id_list: "ids_ok (id_list v)"
  by (simp add: ids_ok_def id_list_ok)

lemma ids_ok_id: "ids_ok xs \<Longrightarrow> id_list (JArr (map JStr xs)) = xs"
  by (simp add: ids_ok_def id_list_id)

lemma normalized_view_ok': "view_ok n ids (normalizeMonitorView v n ids)"
proof -
  have lc: "whole_ok 0 (clamp n 0 16) (js_clamp (js_trunc x) (Fin 0) (Fin (of_int (clamp n 0 16))))" for x
    using whole_ok_clamp [of 0 "clamp n 0 16" x] by simp
  have s5: "whole_ok 5 86400 (js_clamp (js_trunc x) (Fin 5) (Fin 86400))" for x
    using whole_ok_clamp [of 5 86400 x] by simp
  have s1: "whole_ok 1 3600 (js_clamp (js_trunc x) (Fin 1) (Fin 3600))" for x
    using whole_ok_clamp [of 1 3600 x] by simp
  have s0: "whole_ok 0 86400 (js_clamp (js_trunc x) (Fin 0) (Fin 86400))" for x
    using whole_ok_clamp [of 0 86400 x] by simp
  show ?thesis
    unfolding view_ok_def normalizeMonitorView_def Let_def
    by (simp add: lc s5 s1 s0 ids_ok_id_list in_range_bounded normalize_telemetry_ok
        normalize_decorations_ok normalize_source_audio_ok num_ok_clamp split: jsv.split)
qed

lemma field_view:
  shows "field (js_of_view v) ''mode'' = JStr (if manual_mode v then ''manual'' else ''auto'')"
    and "field (js_of_view v) ''largeCount'' = JNum (largeCount v)"
    and "field (js_of_view v) ''largeSourceIds'' = JArr (map JStr (largeSourceIds v))"
    and "field (js_of_view v) ''largeRatio'' = JRat (largeRatio v)"
    and "field (js_of_view v) ''fill'' = JStr (fill_name (view_fill v))"
    and "field (js_of_view v) ''telemetry'' = JObj (js_of_telemetry (view_telemetry v))"
    and "field (js_of_view v) ''sourceDecorations'' = JObj (map (\<lambda>(i, d). (i, js_of_decoration d)) (sourceDecorations v))"
    and "field (js_of_view v) ''rotation'' = JObj (js_of_rotation v)"
    and "field (js_of_view v) ''promotion'' = JObj (js_of_promotion v)"
    and "field (js_of_view v) ''lowPower'' = JObj (js_of_low_power v)"
    and "field (js_of_view v) ''panels'' = JObj (js_of_panels v)"
    and "field (js_of_view v) ''localMonitorVolume'' = JRat (localMonitorVolume v)"
    and "field (js_of_view v) ''audioMonitorEnabled'' = JBool (audioMonitorEnabled v)"
    and "field (js_of_view v) ''audioMixerCollapsed'' = JBool (audioMixerCollapsed v)"
    and "field (js_of_view v) ''playbackOptimization'' = js_of_optimization (view_optimization v)"
    and "field (js_of_view v) ''audioOutput'' = JStr (if audioMeterOnly v then ''meter-only'' else ''speaker'')"
    and "field (js_of_view v) ''archiveAudioCameraId'' = (case archiveAudioCameraId v of None \<Rightarrow> JNull | Some i \<Rightarrow> JStr i)"
    and "field (js_of_view v) ''monitorSwitchProminent'' = JBool (monitorSwitchProminent v)"
    and "field (js_of_view v) ''canvasMode'' = JStr (canvas_mode_name (canvasMode v))"
    and "field (js_of_view v) ''canvasAspect'' = JRat (canvasAspect v)"
    and "field (js_of_view v) ''canvasPixelPreset'' = JStr (preset_name (canvasPixelPreset v))"
    and "field (js_of_view v) ''streamQuality'' = JStr (quality_name (streamQuality v))"
    and "field (js_of_view v) ''showAudioMixer'' = JBool (showAudioMixer v)"
    and "field (js_of_view v) ''showAllAudioSources'' = JBool (showAllAudioSources v)"
    and "field (js_of_view v) ''projectorOutput'' = JStr (if projectorPicture v then ''picture'' else ''full'')"
    and "field (js_of_view v) ''sourceAudio'' = JObj (map (\<lambda>(i, a). (i, js_of_source_audio a)) (sourceAudio v))"
    and "field (js_of_view v) ''analytics'' = JObj (js_of_analytics v)"
  by (simp_all add: js_of_view_def)

lemma field_parts:
  shows "field (JObj (spread base (js_of_rotation v))) ''enabled'' = rot_enabled v"
    and "field (JObj (spread base (js_of_rotation v))) ''strategy'' = JStr (if rot_random v then ''random'' else ''sequential'')"
    and "field (JObj (spread base (js_of_rotation v))) ''intervalSeconds'' = JNum (intervalSeconds v)"
    and "field (JObj (spread base (js_of_rotation v))) ''pinnedSourceIds'' = JArr (map JStr (pinnedSourceIds v))"
    and "field (JObj (spread base (js_of_promotion v))) ''allowEventPromotion'' = allowEventPromotion v"
    and "field (JObj (spread base (js_of_promotion v))) ''threshold'' = JNum (promo_threshold v)"
    and "field (JObj (spread base (js_of_promotion v))) ''holdSeconds'' = JNum (holdSeconds v)"
    and "field (JObj (spread base (js_of_promotion v))) ''cooldownSeconds'' = JNum (cooldownSeconds v)"
    and "field (JObj (spread base (js_of_low_power v))) ''enabled'' = lp_enabled v"
    and "field (JObj (spread base (js_of_low_power v))) ''targetFps'' = JNum (targetFps v)"
    and "field (JObj (spread base (js_of_panels v))) ''detailsOpen'' = JBool (detailsOpen v)"
    and "field (JObj (spread base (js_of_panels v))) ''issueCenterExpanded'' = JBool (issueCenterExpanded v)"
    and "field (JObj (spread base (js_of_analytics v))) ''showDetectionBoxes'' = JBool (showDetectionBoxes v)"
    and "field (JObj (spread base (js_of_analytics v))) ''showDetectionLabels'' = JBool (showDetectionLabels v)"
    and "field (JObj (spread base (js_of_analytics v))) ''boxOpacity'' = JNum (boxOpacity v)"
    and "field (JObj (spread base (js_of_analytics v))) ''boxLineWidth'' = JNum (boxLineWidth v)"
    and "field (JObj (spread base (js_of_analytics v))) ''showInferenceStatus'' = JBool (showInferenceStatus v)"
proof -
  have wf: "wf_map (js_of_rotation v)" "wf_map (js_of_promotion v)" "wf_map (js_of_low_power v)"
      "wf_map (js_of_panels v)" "wf_map (js_of_analytics v)"
    by (simp_all add: wf_map_def js_of_rotation_def js_of_promotion_def js_of_low_power_def
        js_of_panels_def js_of_analytics_def)
  note look = field_spread [OF wf(1)] field_spread [OF wf(2)] field_spread [OF wf(3)]
    field_spread [OF wf(4)] field_spread [OF wf(5)]
  show "field (JObj (spread base (js_of_rotation v))) ''enabled'' = rot_enabled v"
    "field (JObj (spread base (js_of_rotation v))) ''strategy'' = JStr (if rot_random v then ''random'' else ''sequential'')"
    "field (JObj (spread base (js_of_rotation v))) ''intervalSeconds'' = JNum (intervalSeconds v)"
    "field (JObj (spread base (js_of_rotation v))) ''pinnedSourceIds'' = JArr (map JStr (pinnedSourceIds v))"
    unfolding look by (simp_all add: js_of_rotation_def)
  show "field (JObj (spread base (js_of_promotion v))) ''allowEventPromotion'' = allowEventPromotion v"
    "field (JObj (spread base (js_of_promotion v))) ''threshold'' = JNum (promo_threshold v)"
    "field (JObj (spread base (js_of_promotion v))) ''holdSeconds'' = JNum (holdSeconds v)"
    "field (JObj (spread base (js_of_promotion v))) ''cooldownSeconds'' = JNum (cooldownSeconds v)"
    unfolding look by (simp_all add: js_of_promotion_def)
  show "field (JObj (spread base (js_of_low_power v))) ''enabled'' = lp_enabled v"
    "field (JObj (spread base (js_of_low_power v))) ''targetFps'' = JNum (targetFps v)"
    "field (JObj (spread base (js_of_panels v))) ''detailsOpen'' = JBool (detailsOpen v)"
    "field (JObj (spread base (js_of_panels v))) ''issueCenterExpanded'' = JBool (issueCenterExpanded v)"
    unfolding look by (simp_all add: js_of_low_power_def js_of_panels_def)
  show "field (JObj (spread base (js_of_analytics v))) ''showDetectionBoxes'' = JBool (showDetectionBoxes v)"
    "field (JObj (spread base (js_of_analytics v))) ''showDetectionLabels'' = JBool (showDetectionLabels v)"
    "field (JObj (spread base (js_of_analytics v))) ''boxOpacity'' = JNum (boxOpacity v)"
    "field (JObj (spread base (js_of_analytics v))) ''boxLineWidth'' = JNum (boxLineWidth v)"
    "field (JObj (spread base (js_of_analytics v))) ''showInferenceStatus'' = JBool (showInferenceStatus v)"
    unfolding look by (simp_all add: js_of_analytics_def)
qed

lemma normalizePlaybackOptimization_id: "normalizePlaybackOptimization (js_of_optimization p) = p"
  by (cases p) (simp add: normalizePlaybackOptimization_def js_of_optimization_def)

lemma normalize_ok_id:
  assumes "view_ok n ids v"
  shows "normalizeMonitorView (js_of_view v) n ids = v"
proof -
  have lc: "js_clamp (js_trunc (largeCount v)) (Fin 0) (Fin (of_int (clamp n 0 16))) = largeCount v"
    using assms whole_ok_id [of 0 "clamp n 0 16"] by (simp add: view_ok_def)
  have s5: "js_clamp (js_trunc (intervalSeconds v)) (Fin 5) (Fin 86400) = intervalSeconds v"
    using assms whole_ok_id [of 5 86400] by (simp add: view_ok_def)
  have s1: "js_clamp (js_trunc (holdSeconds v)) (Fin 1) (Fin 3600) = holdSeconds v"
    using assms whole_ok_id [of 1 3600] by (simp add: view_ok_def)
  have s0: "js_clamp (js_trunc (cooldownSeconds v)) (Fin 0) (Fin 86400) = cooldownSeconds v"
    using assms whole_ok_id [of 0 86400] by (simp add: view_ok_def)
  have mode: "(JStr (if manual_mode v then ''manual'' else ''auto'') = JStr ''manual'') = manual_mode v"
    "(JStr (if rot_random v then ''random'' else ''sequential'') = JStr ''random'') = rot_random v"
    "(JStr (if audioMeterOnly v then ''meter-only'' else ''speaker'') = JStr ''meter-only'') = audioMeterOnly v"
    "(JStr (if projectorPicture v then ''picture'' else ''full'') = JStr ''picture'') = projectorPicture v"
    by simp_all
  have cam: "(case case archiveAudioCameraId v of None \<Rightarrow> JNull | Some i \<Rightarrow> JStr i of
      JStr s \<Rightarrow> if id64 s then Some s else None | _ \<Rightarrow> None) = archiveAudioCameraId v"
    using assms by (auto simp: view_ok_def split: option.split)
  note vals = pick_or_canvas pick_or_preset pick_or_quality fillMode_id normalizePlaybackOptimization_id
  show ?thesis
    unfolding normalizeMonitorView_def Let_def field_view entries.simps field_parts mode cam vals
      or_else_def nullish.simps if_False to_number.simps lc s5 s1 s0
    using assms
    by (simp add: view_ok_def normalize_telemetry_id normalize_decorations_id normalize_source_audio_id
        ids_ok_id bounded_in_range num_ok_id)
qed



text \<open>The view of an account that has stored nothing is the default view.\<close>

lemma normalize_nothing: "normalizeMonitorView JUndef 16 None = defaultMonitorView"
  by code_simp

end
