(* ===== verification/AutoLayout.thy ===== *)
theory AutoLayout
  imports ViewOps ViewNormal Treemap
begin

text \<open>
  \<open>applyAutomaticLayout\<close> of \<open>monitorView.ts\<close>: the visible items of a scene (at most sixteen) get
  the rectangles of a treemap of the canvas, the focused sources first and larger.
\<close>

text \<open>\<open>slice(0, n)\<close> and the comparison \<open>length < n\<close> with a normalized count: a count that is not
  a number selects nothing.\<close>

definition count_of :: "jsnum \<Rightarrow> nat" where
  "count_of n = (case n of Fin r \<Rightarrow> nat \<lfloor>r\<rfloor> | _ \<Rightarrow> 0)"

text \<open>The loop that fills the focused sources up to the count.\<close>

fun fill_large :: "nat \<Rightarrow> string list \<Rightarrow> string list \<Rightarrow> string list" where
  "fill_large n chosen [] = chosen"
| "fill_large n chosen (i # ids) =
     (if length chosen < n \<and> i \<notin> set chosen then fill_large n (chosen @ [i]) ids
      else fill_large n chosen ids)"

definition choose_large :: "monitor_view \<Rightarrow> string list \<Rightarrow> string list" where
  "choose_large v ids = fill_large (count_of (largeCount v))
     (take (count_of (largeCount v)) (filter (\<lambda>i. i \<in> set ids) (largeSourceIds v))) ids"

definition tile_order :: "monitor_view \<Rightarrow> string list \<Rightarrow> string list \<times> string list" where
  "tile_order v ids = (let large = choose_large v ids in (large, filter (\<lambda>i. i \<notin> set large) ids))"

definition tile_areas :: "monitor_view \<Rightarrow> nat \<Rightarrow> nat \<Rightarrow> rat list" where
  "tile_areas v larges smalls =
     (let bigSpan = of_int (largeTileSpan (Fin (largeRatio v)))
      in replicate larges (bigSpan * bigSpan) @ replicate smalls (of_int (LAYOUT_UNITS * LAYOUT_UNITS)))"

definition set_rectangle :: "rectangle \<Rightarrow> scene_item \<Rightarrow> scene_item" where
  "set_rectangle r it = it\<lparr>item_x := rx r, item_y := ry r, item_width := rw r, item_height := rh r\<rparr>"

definition visible_items :: "scene_document \<Rightarrow> scene_item list" where
  "visible_items s = take 16 (filter item_visible (scene_items s))"

definition layout_rectangles :: "scene_document \<Rightarrow> monitor_view \<Rightarrow> (string \<times> rectangle) list" where
  "layout_rectangles s v =
     (let (large, small) = tile_order v (map item_source (visible_items s));
          rects = squarifiedLayout (tile_areas v (length large) (length small))
            (canvas_width (scene_canvas s)) (canvas_height (scene_canvas s))
      in map_from (zip (large @ small) rects))"

definition place_item :: "monitor_view \<Rightarrow> (string \<times> rectangle) list \<Rightarrow> scene_item \<Rightarrow> scene_item" where
  "place_item v rects it =
     (case map_of rects (item_source it) of
        None \<Rightarrow> it
      | Some r \<Rightarrow> (set_rectangle r it)\<lparr>scaleMode := resolveFillMode v (item_source it) (scaleMode it)\<rparr>)"

definition layout_view :: "scene_document \<Rightarrow> jsv \<Rightarrow> monitor_view" where
  "layout_view s viewValue = normalizeMonitorView viewValue (int (length (visible_items s)))
     (Some (map src_id (scene_sources s)))"

definition applyAutomaticLayout :: "scene_document \<Rightarrow> jsv \<Rightarrow> scene_document" where
  "applyAutomaticLayout s viewValue =
     (if visible_items s = [] then s
      else let v = layout_view s viewValue
           in if manual_mode v then s
              else s\<lparr>scene_items := map (place_item v (layout_rectangles s v)) (scene_items s)\<rparr>)"

section \<open>The order of the tiles\<close>

lemma fill_large_distinct: "distinct chosen \<Longrightarrow> distinct (fill_large n chosen ids)"
  by (induction n chosen ids rule: fill_large.induct) auto

lemma fill_large_subset: "set (fill_large n chosen ids) \<subseteq> set chosen \<union> set ids"
  by (induction n chosen ids rule: fill_large.induct) auto

lemma fill_large_length: "length chosen \<le> n \<Longrightarrow> length (fill_large n chosen ids) \<le> n"
  by (induction n chosen ids rule: fill_large.induct) auto

lemma fill_large_prefix: "\<exists>zs. fill_large n chosen ids = chosen @ zs"
  by (induction n chosen ids rule: fill_large.induct) auto

lemma choose_large_props:
  assumes "distinct (largeSourceIds v)"
  shows "distinct (choose_large v ids)" "set (choose_large v ids) \<subseteq> set ids"
    "length (choose_large v ids) \<le> count_of (largeCount v)"
proof -
  let ?c = "take (count_of (largeCount v)) (filter (\<lambda>i. i \<in> set ids) (largeSourceIds v))"
  show "distinct (choose_large v ids)"
    unfolding choose_large_def using assms by (intro fill_large_distinct distinct_take distinct_filter)
  show "set (choose_large v ids) \<subseteq> set ids"
    unfolding choose_large_def using fill_large_subset [of "count_of (largeCount v)" ?c ids] set_take_subset [of _ "filter (\<lambda>i. i \<in> set ids) (largeSourceIds v)"]
    by fastforce
  show "length (choose_large v ids) \<le> count_of (largeCount v)"
    unfolding choose_large_def by (intro fill_large_length) simp
qed

lemma tile_order_permutes:
  assumes "distinct (largeSourceIds v)" "distinct ids" "tile_order v ids = (large, small)"
  shows "distinct (large @ small)" "set (large @ small) = set ids"
  using choose_large_props [OF assms(1), of ids] assms(2,3) by (auto simp: tile_order_def Let_def)

lemma largeTileSpan_range: "12 \<le> largeTileSpan r \<and> largeTileSpan r \<le> 120"
  by (simp add: largeTileSpan_def LAYOUT_UNITS_def Let_def)

lemma tile_areas_range:
  assumes "a \<in> set (tile_areas v m n)"
  shows "144 \<le> a \<and> a \<le> 14400"
proof -
  have b: "12 \<le> rat_of_int (largeTileSpan r)" "rat_of_int (largeTileSpan r) \<le> 120" for r
    using largeTileSpan_range [of r] by (metis of_int_le_iff of_int_numeral)+
  have "144 \<le> rat_of_int (largeTileSpan r) * rat_of_int (largeTileSpan r)"
       "rat_of_int (largeTileSpan r) * rat_of_int (largeTileSpan r) \<le> 14400" for r
    using mult_mono [OF b(1) b(1), of r r] mult_mono [OF b(2) b(2), of r r] b(1) [of r] by auto
  then show ?thesis using assms
    by (auto simp: tile_areas_def Let_def LAYOUT_UNITS_def)
qed

text \<open>With at most sixteen tiles and a canvas between one and a hundred thousand pixels a side the tiles
  are far from the treemap's guard of \<open>1e-6\<close>.\<close>

definition canvas_ok :: "scene_document \<Rightarrow> bool" where
  "canvas_ok s = (1 \<le> canvas_width (scene_canvas s) \<and> canvas_width (scene_canvas s) \<le> 100000
     \<and> 1 \<le> canvas_height (scene_canvas s) \<and> canvas_height (scene_canvas s) \<le> 100000)"

lemma area_resolvable:
  assumes "areas \<noteq> []" "length areas \<le> 16" "\<forall>a \<in> set areas. 144 \<le> a \<and> a \<le> 14400"
    and "1 \<le> w" "1 \<le> h" "w \<le> 100000" "h \<le> 100000"
  shows "resolvable areas w h"
proof -
  let ?t = "sum_list (map (max 0) areas)"
  have "map (max 0) areas = areas" using assms(3) by (intro map_idI) (auto simp: max_def)
  then have t: "?t = sum_list areas" by simp
  have "sum_list areas \<le> of_nat (length areas) * 14400"
    using assms(3) by (induction areas) (auto simp: algebra_simps)
  also have "\<dots> \<le> 16 * 14400" using assms(2) by (intro mult_right_mono) auto
  finally have hi: "?t \<le> 230400" using t by simp
  have lo: "0 < ?t" unfolding t using assms(1,3) by (cases areas) (auto intro!: add_pos_nonneg sum_list_nonneg)
  have "eps * max w h \<le> max 0 a * (w * h) / ?t" if a: "a \<in> set areas" for a
  proof -
    have a1: "144 \<le> a" using a assms(3) by auto
    have "max w h \<le> w * h"
      using assms(4,5) mult_left_mono [of 1 h w] mult_right_mono [of 1 w h] by auto
    then have "144 * max w h \<le> a * (w * h)"
      using a1 assms(4,5) by (intro mult_mono) auto
    moreover have "eps * max w h * ?t \<le> eps * max w h * 230400"
      using hi assms(4) by (intro mult_left_mono) (auto simp: eps_def)
    moreover have "eps * max w h * 230400 \<le> 144 * max w h"
      using assms(4) by (simp add: eps_def max_def)
    ultimately show ?thesis using lo a1 by (simp add: le_divide_eq)
  qed
  then show ?thesis using assms by (auto simp: resolvable_def scale_areas_def)
qed


section \<open>The wall is covered\<close>

definition item_rect :: "scene_item \<Rightarrow> rectangle" where
  "item_rect it = \<lparr>rx = item_x it, ry = item_y it, rw = item_width it, rh = item_height it\<rparr>"

lemma item_rect_set [simp]: "item_rect ((set_rectangle r it)\<lparr>scaleMode := m\<rparr>) = r"
  by (simp add: item_rect_def set_rectangle_def)

lemma apart_sym: "apart a b = apart b a"
  by (auto simp: apart_def)

lemma lookup_apart:
  assumes "sorted_wrt apart rs" "distinct ks" "length ks = length rs"
    and "map_of (zip ks rs) i = Some r" "map_of (zip ks rs) j = Some q" "i \<noteq> j"
  shows "apart r q"
proof -
  obtain m where m: "m < length ks" "ks ! m = i" "rs ! m = r"
    using assms(3,4) by (auto dest!: map_of_SomeD simp: in_set_zip)
  obtain n where n: "n < length ks" "ks ! n = j" "rs ! n = q"
    using assms(3,5) by (auto dest!: map_of_SomeD simp: in_set_zip)
  from m n assms(6) consider "m < n" | "n < m" by fastforce
  then show ?thesis
  proof cases
    case 1 then show ?thesis using assms(1,3) m n sorted_wrt_nth_less by fastforce
  next
    case 2 then have "apart q r" using assms(1,3) m n sorted_wrt_nth_less by fastforce
    then show ?thesis by (simp add: apart_sym)
  qed
qed

lemma sum_lookup:
  fixes f :: "rectangle \<Rightarrow> rat"
  assumes "distinct ks" "length ks = length rs" "mset is = mset ks"
  shows "sum_list (map (\<lambda>i. f (the (map_of (zip ks rs) i))) is) = sum_list (map f rs)"
proof -
  let ?g = "\<lambda>i. f (the (map_of (zip ks rs) i))"
  have "map ?g ks = map f rs"
    using assms(1,2) by (intro nth_equalityI) (auto simp: map_of_zip_nth)
  moreover have "sum_list (map ?g is) = sum_list (map ?g ks)"
    using assms(3) by (metis mset_map sum_mset_sum_list)
  ultimately show ?thesis by simp
qed

lemma layout_view_large: "distinct (largeSourceIds (layout_view s val))"
  using normalized_view_ok' [of "int (length (visible_items s))" "Some (map src_id (scene_sources s))" val]
  by (simp add: layout_view_def view_ok_def ids_ok_def)

text \<open>The rectangles of the visible items, as the treemap hands them out.\<close>

lemma layout_rectangles_tiling:
  assumes ok: "canvas_ok s" and ne: "visible_items s \<noteq> []"
    and d: "distinct (map item_source (visible_items s))"
    and large: "distinct (largeSourceIds v)"
  obtains ks rs where "layout_rectangles s v = zip ks rs" "distinct ks" "length ks = length rs"
    "set ks = item_source ` set (visible_items s)" "sorted_wrt apart rs"
    "\<forall>r \<in> set rs. lies_in 0 0 (canvas_width (scene_canvas s)) (canvas_height (scene_canvas s)) r"
    "sum_list (map (\<lambda>r. rw r * rh r) rs) = canvas_width (scene_canvas s) * canvas_height (scene_canvas s)"
proof -
  let ?ids = "map item_source (visible_items s)"
  obtain lg sm where o: "tile_order v ?ids = (lg, sm)" by force
  note perm = tile_order_permutes [OF large d o]
  let ?areas = "tile_areas v (length lg) (length sm)"
  let ?w = "canvas_width (scene_canvas s)" and ?h = "canvas_height (scene_canvas s)"
  have len: "length (lg @ sm) = length (visible_items s)"
    using perm d by (metis distinct_card length_map)
  have al: "length ?areas = length (lg @ sm)" by (simp add: tile_areas_def Let_def)
  have "length (visible_items s) \<le> 16" by (simp add: visible_items_def)
  moreover have "?areas \<noteq> []" using al len ne by (metis length_0_conv)
  ultimately have "resolvable ?areas ?w ?h"
    using ok al len tile_areas_range by (intro area_resolvable) (auto simp: canvas_ok_def)
  note part = squarified_tiling [OF this] sum_scale_areas [OF resolvable_total [OF this], of ?w ?h]
  let ?rs = "squarifiedLayout ?areas ?w ?h"
  have lr: "layout_rectangles s v = zip (lg @ sm) ?rs"
    using perm al by (simp add: layout_rectangles_def o map_from_distinct)
  show thesis
    by (rule that [OF lr perm(1)]) (use part al perm(2) in \<open>auto simp: tiling_def\<close>)
qed

text \<open>C34. An automatic wall is fully covered: when the (at most sixteen) visible tiles show
  different sources, their rectangles lie on the canvas, do not overlap, and their areas add up to the
  canvas.  No item is added, removed or reordered.\<close>

theorem automatic_layout_covers_wall:
  assumes ok: "canvas_ok s" and ne: "visible_items s \<noteq> []"
    and d: "distinct (map item_source (visible_items s))"
    and auto: "\<not> manual_mode (layout_view s val)"
  defines "placed \<equiv> map (place_item (layout_view s val) (layout_rectangles s (layout_view s val)))"
  shows "scene_items (applyAutomaticLayout s val) = placed (scene_items s)
    \<and> map item_id (scene_items (applyAutomaticLayout s val)) = map item_id (scene_items s)
    \<and> sorted_wrt apart (map item_rect (placed (visible_items s)))
    \<and> (\<forall>it \<in> set (placed (visible_items s)).
         lies_in 0 0 (canvas_width (scene_canvas s)) (canvas_height (scene_canvas s)) (item_rect it))
    \<and> sum_list (map (\<lambda>it. item_width it * item_height it) (placed (visible_items s)))
        = canvas_width (scene_canvas s) * canvas_height (scene_canvas s)"
proof -
  let ?v = "layout_view s val" and ?vis = "visible_items s"
  obtain ks rs where kr: "layout_rectangles s ?v = zip ks rs" "distinct ks" "length ks = length rs"
    "set ks = item_source ` set ?vis" "sorted_wrt apart rs"
    "\<forall>r \<in> set rs. lies_in 0 0 (canvas_width (scene_canvas s)) (canvas_height (scene_canvas s)) r"
    "sum_list (map (\<lambda>r. rw r * rh r) rs) = canvas_width (scene_canvas s) * canvas_height (scene_canvas s)"
    using layout_rectangles_tiling [OF ok ne d layout_view_large] by blast
  let ?look = "map_of (zip ks rs)"
  have some: "\<exists>r. ?look (item_source it) = Some r" if "it \<in> set ?vis" for it
    using that kr(3,4) by (metis imageI map_of_zip_is_Some)
  have rect: "item_rect (place_item ?v (zip ks rs) it) = the (?look (item_source it))" if "it \<in> set ?vis" for it
    using some [OF that] by (auto simp: place_item_def)
  have items: "scene_items (applyAutomaticLayout s val) = placed (scene_items s)"
    using ne auto by (simp add: applyAutomaticLayout_def Let_def placed_def)
  have "item_id (place_item ?v R it) = item_id it" for R it
    by (simp add: place_item_def set_rectangle_def split: option.split)
  then have ids: "map item_id (placed (scene_items s)) = map item_id (scene_items s)"
    by (simp add: placed_def)
  have "sorted_wrt (\<lambda>a b. apart (item_rect (place_item ?v (zip ks rs) a)) (item_rect (place_item ?v (zip ks rs) b))) ?vis"
  proof (rule sorted_wrt_mono_rel [of _ "\<lambda>a b. item_source a \<noteq> item_source b"])
    fix a b assume "a \<in> set ?vis" "b \<in> set ?vis" "item_source a \<noteq> item_source b"
    with some [of a] some [of b] rect show
      "apart (item_rect (place_item ?v (zip ks rs) a)) (item_rect (place_item ?v (zip ks rs) b))"
      by (metis lookup_apart kr(2,3,5) option.sel)
  next
    show "sorted_wrt (\<lambda>a b. item_source a \<noteq> item_source b) ?vis"
      using d by (simp add: distinct_conv_nth sorted_wrt_iff_nth_less)
  qed
  then have apart: "sorted_wrt apart (map item_rect (placed ?vis))"
    by (simp add: sorted_wrt_map placed_def kr(1))
  have inside: "\<forall>it \<in> set (placed ?vis). lies_in 0 0 (canvas_width (scene_canvas s)) (canvas_height (scene_canvas s)) (item_rect it)"
  proof -
    have "the (?look (item_source it)) \<in> set rs" if "it \<in> set ?vis" for it
    proof -
      from some [OF that] obtain r where r: "?look (item_source it) = Some r" by blast
      then have "(item_source it, r) \<in> set (zip ks rs)" by (rule map_of_SomeD)
      then show ?thesis using r by (auto dest: set_zip_rightD)
    qed
    then show ?thesis using kr(6) by (auto simp: placed_def kr(1) rect)
  qed
  have "mset (map item_source ?vis) = mset ks"
    using d kr(2,4) by (metis set_eq_iff_mset_eq_distinct image_set)
  then have "sum_list (map (\<lambda>i. (\<lambda>r. rw r * rh r) (the (?look i))) (map item_source ?vis)) = sum_list (map (\<lambda>r. rw r * rh r) rs)"
    by (rule sum_lookup [OF kr(2,3)])
  moreover have "map (\<lambda>it. item_width it * item_height it) (placed ?vis) =
      map (\<lambda>i. (\<lambda>r. rw r * rh r) (the (?look i))) (map item_source ?vis)"
    using rect by (auto simp: placed_def kr(1) item_rect_def) (metis rectangle.select_convs)+
  ultimately show ?thesis using items ids apart inside kr(7) by simp
qed

definition demo_scene :: scene_document where
  "demo_scene = plain_scene ''wall'' [plain_source ''a'' (ColorSource ''#000000''), plain_source ''b'' (ColorSource ''#ffffff'')]
     [plain_item ''i'' ''a'', plain_item ''j'' ''b'']"

theorem automatic_layout_covers_wall_witness:
  "map item_id (scene_items (applyAutomaticLayout demo_scene (JObj [(''largeCount'', JInt 1)]))) = [''i'', ''j'']"
proof -
  have "canvas_ok demo_scene" by (simp add: canvas_ok_def demo_scene_def plain_scene_def)
  moreover have "visible_items demo_scene \<noteq> []" "distinct (map item_source (visible_items demo_scene))"
    by (simp_all add: visible_items_def demo_scene_def plain_scene_def plain_item_def)
  moreover have "\<not> manual_mode (layout_view demo_scene (JObj [(''largeCount'', JInt 1)]))"
    by (simp add: layout_view_def normalizeMonitorView_def Let_def)
  moreover have "map item_id (scene_items demo_scene) = [''i'', ''j'']"
    by (simp add: demo_scene_def plain_scene_def plain_item_def)
  ultimately show ?thesis
    using automatic_layout_covers_wall [of demo_scene "JObj [(''largeCount'', JInt 1)]"] by metis
qed

end
