(* ===== verification/Promotion.thy ===== *)
theory Promotion
  imports ViewOps
begin

text \<open>
  Event promotion (\<open>monitorView.ts\<close>): the shape of a detection signal, and the policy that decides
  whether a signal may take over the focus of the wall.  Times are milliseconds; thresholds and
  confidences are \<open>jsnum\<close>, since a stored threshold may be not-a-number.
\<close>

record detection_signal =
  sig_schema :: int
  signalId :: "string option"
  sig_camera :: string
  sig_profile :: string
  sig_kind :: string
  occurredAt :: jsnum
  confidence :: jsnum
  sig_boxes :: "(jsnum \<times> jsnum \<times> jsnum \<times> jsnum) list option"
  sig_source :: string
  modelId :: "string option"
  modelVersion :: "string option"
  modelSha256 :: "string option"

definition unit_num :: "jsnum \<Rightarrow> bool" where
  "unit_num n = (case n of Fin r \<Rightarrow> 0 \<le> r \<and> r \<le> 1 | _ \<Rightarrow> False)"

fun js_plus :: "jsnum \<Rightarrow> jsnum \<Rightarrow> jsnum" where
  "js_plus (Fin a) (Fin b) = Fin (a + b)"
| "js_plus NaN _ = NaN"
| "js_plus _ NaN = NaN"
| "js_plus PosInf NegInf = NaN"
| "js_plus NegInf PosInf = NaN"
| "js_plus PosInf _ = PosInf"
| "js_plus _ PosInf = PosInf"
| "js_plus NegInf _ = NegInf"
| "js_plus _ NegInf = NegInf"

definition valid_box :: "jsnum \<times> jsnum \<times> jsnum \<times> jsnum \<Rightarrow> bool" where
  "valid_box b = (case b of (x, y, w, h) \<Rightarrow>
     unit_num x \<and> unit_num y \<and> unit_num w \<and> unit_num h
     \<and> js_le (js_plus x w) (Fin 1) \<and> js_le (js_plus y h) (Fin 1))"

definition signal_id_ok :: "string \<Rightarrow> bool" where
  "signal_id_ok s = in_class (\<lambda>c. is_id_char c \<or> c = CHR '':'') 8 128 s"

text \<open>\<open>!value || pattern.test(value)\<close>: an empty string counts as absent.\<close>

definition absent_or :: "(string \<Rightarrow> bool) \<Rightarrow> string option \<Rightarrow> bool" where
  "absent_or P v = (case v of None \<Rightarrow> True | Some s \<Rightarrow> s = [] \<or> P s)"

definition validDetectionSignal :: "detection_signal \<Rightarrow> bool" where
  "validDetectionSignal g =
     (let boxesValid = (case sig_boxes g of None \<Rightarrow> True
          | Some bs \<Rightarrow> sig_kind g = ''person'' \<and> length bs \<le> 16 \<and> list_all valid_box bs)
      in (sig_schema g = 1 \<or> sig_schema g = 2) \<and> id64 (sig_camera g) \<and> id64 (sig_profile g)
       \<and> sig_kind g \<in> {''motion'', ''scene-change'', ''person''}
       \<and> sig_source g \<in> {''camera'', ''browser'', ''server'', ''external''}
       \<and> js_is_integer (occurredAt g) \<and> js_less (Fin 0) (occurredAt g)
       \<and> js_le (Fin 0) (confidence g) \<and> js_le (confidence g) (Fin 1) \<and> boxesValid
       \<and> (sig_schema g = 1 \<or> (case signalId g of None \<Rightarrow> False | Some i \<Rightarrow> signal_id_ok i))
       \<and> absent_or signal_id_ok (signalId g)
       \<and> absent_or id64 (modelId g)
       \<and> absent_or (in_class is_id_char 1 32) (modelVersion g)
       \<and> absent_or (in_class is_hex 64 64) (modelSha256 g))"

record promotion_policy =
  pol_allow :: bool
  promotionThreshold :: jsnum
  promotionHoldSeconds :: rat
  promotionCooldownSeconds :: rat
  forceAnalyticsAlwaysOn :: bool

record promotion_options =
  po_enabled :: bool
  po_threshold :: jsnum
  po_hold :: rat
  po_cooldown :: rat
  lowPowerEnabled :: bool

datatype promotion_reason =
  PromotionDisabled | InvalidSignal | BelowThreshold | LowPowerDisabled | CooldownActive

text \<open>The result: rejected for a reason with the old cooldown, or accepted with two deadlines.\<close>

datatype promotion_result = Rejected promotion_reason rat | Accepted rat rat

definition hold_of :: "promotion_policy \<Rightarrow> promotion_options \<Rightarrow> rat" where
  "hold_of p opts = max (po_hold opts) (promotionHoldSeconds p)"

definition cooldown_of :: "promotion_policy \<Rightarrow> promotion_options \<Rightarrow> rat" where
  "cooldown_of p opts = max (po_cooldown opts) (promotionCooldownSeconds p)"

definition evaluatePromotion ::
  "detection_signal \<Rightarrow> promotion_policy option \<Rightarrow> promotion_options \<Rightarrow> rat \<Rightarrow> rat \<Rightarrow> promotion_result" where
  "evaluatePromotion g policy opts now cooldownUntil =
     (case policy of
        None \<Rightarrow> Rejected PromotionDisabled cooldownUntil
      | Some p \<Rightarrow>
          if \<not> po_enabled opts \<or> \<not> pol_allow p then Rejected PromotionDisabled cooldownUntil
          else if \<not> validDetectionSignal g then Rejected InvalidSignal cooldownUntil
          else if js_less (confidence g) (js_max (po_threshold opts) (promotionThreshold p))
            then Rejected BelowThreshold cooldownUntil
          else if lowPowerEnabled opts \<and> sig_source g \<noteq> ''camera'' \<and> \<not> forceAnalyticsAlwaysOn p
            then Rejected LowPowerDisabled cooldownUntil
          else if cooldownUntil > now then Rejected CooldownActive cooldownUntil
          else Accepted (now + hold_of p opts * 1000) (now + (hold_of p opts + cooldown_of p opts) * 1000))"

text \<open>A wall that receives signals: it keeps the cooldown and reports when it promotes.\<close>

definition promote_step :: "promotion_policy option \<Rightarrow> promotion_options \<Rightarrow>
    rat \<Rightarrow> rat \<times> detection_signal \<Rightarrow> rat \<times> rat option" where
  "promote_step policy opts cooldown e =
     (case evaluatePromotion (snd e) policy opts (fst e) cooldown of
        Rejected _ c \<Rightarrow> (c, None)
      | Accepted _ c \<Rightarrow> (c, Some (fst e)))"

section \<open>Facts\<close>

definition gap_of :: "promotion_policy option \<Rightarrow> promotion_options \<Rightarrow> rat" where
  "gap_of policy opts =
     (case policy of None \<Rightarrow> 0 | Some p \<Rightarrow> max 0 ((hold_of p opts + cooldown_of p opts) * 1000))"

lemma accepted_iff:
  "(\<exists>h c. evaluatePromotion g (Some p) opts now cooldownUntil = Accepted h c) \<longleftrightarrow>
   po_enabled opts \<and> pol_allow p \<and> validDetectionSignal g
   \<and> \<not> js_less (confidence g) (js_max (po_threshold opts) (promotionThreshold p))
   \<and> (lowPowerEnabled opts \<longrightarrow> sig_source g = ''camera'' \<or> forceAnalyticsAlwaysOn p) \<and> cooldownUntil \<le> now"
  by (auto simp: evaluatePromotion_def)

lemma accepted_times:
  "evaluatePromotion g (Some p) opts now cd = Accepted h c \<Longrightarrow>
   cd \<le> now \<and> c = now + (hold_of p opts + cooldown_of p opts) * 1000"
  by (auto simp: evaluatePromotion_def split: if_splits)

lemma rejected_keeps: "evaluatePromotion g p opts now cd = Rejected r c \<Longrightarrow> c = cd"
  by (auto simp: evaluatePromotion_def split: if_splits option.splits)

lemma no_policy_rejects: "evaluatePromotion g None opts now cd = Rejected PromotionDisabled cd"
  by (simp add: evaluatePromotion_def)

definition nonneg_waits :: "promotion_policy option \<Rightarrow> promotion_options \<Rightarrow> bool" where
  "nonneg_waits policy opts =
     (0 \<le> po_hold opts \<and> 0 \<le> po_cooldown opts)"

lemma promotion_throttle:
  assumes "nonneg_waits policy opts"
  shows "throttle (promote_step policy opts) (\<lambda>_. True) (\<lambda>c. c) (gap_of policy opts)"
proof
  show "0 \<le> gap_of policy opts" by (simp add: gap_of_def split: option.split)
next
  show True ..
next
  fix s e s' t assume "promote_step policy opts s e = (s', Some t)"
  moreover from this obtain p where "policy = Some p"
    by (cases policy) (auto simp: promote_step_def no_policy_rejects)
  moreover have "gap_of (Some p) opts = (hold_of p opts + cooldown_of p opts) * 1000" for p
    using assms by (simp add: gap_of_def nonneg_waits_def hold_of_def cooldown_of_def max_def)
  ultimately show "s \<le> t \<and> t + gap_of policy opts \<le> s'"
    by (auto simp: promote_step_def dest!: accepted_times split: promotion_result.splits)
next
  fix s e s' assume "promote_step policy opts s e = (s', None)"
  then show "s \<le> s'"
    by (auto simp: promote_step_def dest!: rejected_keeps split: promotion_result.splits)
qed

text \<open>Promotions cannot flap: over any sequence of signals, whatever their order and content, two
  promotions are at least the hold time plus the cooldown apart.\<close>

theorem promotions_spaced:
  assumes "nonneg_waits policy opts"
  shows "sorted_wrt (\<lambda>a b. a + gap_of policy opts \<le> b) (run_fires (promote_step policy opts) 0 es)"
  by (rule throttle.fires_spaced [OF promotion_throttle [OF assms] TrueI])

definition demo_signal :: "string \<Rightarrow> jsnum \<Rightarrow> detection_signal" where
  "demo_signal i c = \<lparr>sig_schema = 2, signalId = Some i, sig_camera = ''door'', sig_profile = ''main'',
     sig_kind = ''motion'', occurredAt = Fin 1, confidence = c, sig_boxes = None, sig_source = ''camera'',
     modelId = None, modelVersion = None, modelSha256 = None\<rparr>"

definition demo_policy :: promotion_policy where
  "demo_policy = \<lparr>pol_allow = True, promotionThreshold = Fin (1 / 2), promotionHoldSeconds = 15,
     promotionCooldownSeconds = 30, forceAnalyticsAlwaysOn = False\<rparr>"

definition demo_options :: "jsnum \<Rightarrow> promotion_options" where
  "demo_options t = \<lparr>po_enabled = True, po_threshold = t, po_hold = 10, po_cooldown = 30, lowPowerEnabled = False\<rparr>"

lemma demo_signal_valid: "unit_num c \<Longrightarrow> validDetectionSignal (demo_signal ''signal-1'' c)"
proof -
  assume "unit_num c"
  then have "js_le (Fin 0) c \<and> js_le c (Fin 1)" by (cases c) (auto simp: unit_num_def)
  moreover have "id64 ''door''" "id64 ''main''" "signal_id_ok ''signal-1''" by code_simp+
  ultimately show ?thesis
    by (simp add: validDetectionSignal_def demo_signal_def absent_or_def)
qed

theorem promotions_spaced_witness:
  "sorted_wrt (\<lambda>a b. a + gap_of (Some demo_policy) (demo_options (Fin (1 / 2))) \<le> b)
     (run_fires (promote_step (Some demo_policy) (demo_options (Fin (1 / 2)))) 0
       (map (\<lambda>t. (t, demo_signal ''signal-1'' (Fin 1))) [1000, 2000, 46000]))
   \<and> run_fires (promote_step (Some demo_policy) (demo_options (Fin (1 / 2)))) 0
       (map (\<lambda>t. (t, demo_signal ''signal-1'' (Fin 1))) [1000, 2000, 46000]) = [1000, 46000]"
proof -
  have v: "validDetectionSignal (demo_signal ''signal-1'' (Fin 1))"
    by (rule demo_signal_valid) (simp add: unit_num_def)
  have c: "confidence (demo_signal ''signal-1'' (Fin 1)) = Fin 1" by (simp add: demo_signal_def)
  have "nonneg_waits (Some demo_policy) (demo_options (Fin (1 / 2)))"
    by (simp add: nonneg_waits_def demo_options_def)
  note spaced = promotions_spaced [OF this]
  show ?thesis
    by (rule conjI [OF spaced]) (simp add: promote_step_def evaluatePromotion_def v c demo_options_def
        demo_policy_def hold_of_def cooldown_of_def js_max_def)
qed

text \<open>A threshold that is not a number (which the view's normalization lets through) switches the
  confidence test off: every valid signal passes it, however low its confidence and however strict
  the policy.\<close>

theorem nan_threshold_accepts_all:
  assumes "po_threshold opts = NaN"
  shows "evaluatePromotion g (Some p) opts now cd \<noteq> Rejected BelowThreshold c"
  using assms by (simp add: evaluatePromotion_def js_max_def) (cases "confidence g"; simp)

theorem nan_threshold_accepts_all_witness:
  "evaluatePromotion (demo_signal ''signal-1'' (Fin 0)) (Some demo_policy) (demo_options NaN) 0 0 = Accepted 15000 45000
   \<and> evaluatePromotion (demo_signal ''signal-1'' (Fin 0)) (Some demo_policy) (demo_options NaN) 0 0 \<noteq> Rejected BelowThreshold 0"
proof -
  have v: "validDetectionSignal (demo_signal ''signal-1'' (Fin 0))"
    by (rule demo_signal_valid) (simp add: unit_num_def)
  have "evaluatePromotion (demo_signal ''signal-1'' (Fin 0)) (Some demo_policy) (demo_options NaN) 0 0 = Accepted 15000 45000"
    using v by (simp add: evaluatePromotion_def demo_options_def demo_policy_def hold_of_def cooldown_of_def
        demo_signal_def js_max_def)
  moreover have "po_threshold (demo_options NaN) = NaN" by (simp add: demo_options_def)
  ultimately show ?thesis using nan_threshold_accepts_all by blast
qed

end
