(* ===== verification/Rotation.thy ===== *)
theory Rotation
  imports Prelude
begin

text \<open>
  The rotation of the focused sources (\<open>createShuffleBag\<close> and \<open>nextRotationWindow\<close> of
  \<open>monitorView.ts\<close>).  The random generator is a sequence of draws \<open>rnd\<close> and the number \<open>k\<close> of
  draws already used; \<open>Math.random\<close> answers in \<open>[0, 1)\<close>.  The loop of the random strategy does
  not end when a source has the empty identifier (the code skips a falsy name without counting
  it), so it is a partial function and its termination is proved for non-empty identifiers.
\<close>

section \<open>The shuffle bag\<close>

definition swap_at :: "nat \<Rightarrow> nat \<Rightarrow> 'a list \<Rightarrow> 'a list" where
  "swap_at i j xs = xs[i := xs ! j, j := xs ! i]"

definition draw_index :: "rat \<Rightarrow> nat \<Rightarrow> nat" where
  "draw_index r n = nat \<lfloor>r * of_nat n\<rfloor>"

fun shuffle_from :: "(nat \<Rightarrow> rat) \<Rightarrow> nat \<Rightarrow> nat \<Rightarrow> 'a list \<Rightarrow> 'a list" where
  "shuffle_from rnd k 0 bag = bag"
| "shuffle_from rnd k (Suc i) bag =
     shuffle_from rnd (Suc k) i (swap_at (Suc i) (draw_index (rnd k) (Suc (Suc i))) bag)"

definition createShuffleBag :: "(nat \<Rightarrow> rat) \<Rightarrow> nat \<Rightarrow> 'a list \<Rightarrow> 'a list" where
  "createShuffleBag rnd k its = shuffle_from rnd k (length its - 1) its"

text \<open>The documented range of \<open>Math.random\<close>.\<close>

definition random_ok :: "(nat \<Rightarrow> rat) \<Rightarrow> bool" where
  "random_ok rnd = (\<forall>k. 0 \<le> rnd k \<and> rnd k < 1)"

lemma draw_index_less:
  assumes "random_ok rnd" "0 < n"
  shows "draw_index (rnd k) n < n"
proof -
  have "rnd k * of_nat n < of_nat n" "0 \<le> rnd k * of_nat n"
    using assms by (simp_all add: random_ok_def)
  then have "\<lfloor>rnd k * of_nat n\<rfloor> < int n" by (simp add: floor_less_iff)
  then show ?thesis using assms(2) by (simp add: draw_index_def nat_less_iff)
qed

lemma mset_swap_at: "i < length xs \<Longrightarrow> j < length xs \<Longrightarrow> mset (swap_at i j xs) = mset xs"
  by (simp add: swap_at_def mset_swap)

lemma length_swap_at [simp]: "length (swap_at i j xs) = length xs"
  by (simp add: swap_at_def)

lemma mset_shuffle_from:
  assumes "random_ok rnd"
  shows "i < length bag \<or> i = 0 \<Longrightarrow> mset (shuffle_from rnd k i bag) = mset bag"
proof (induction i arbitrary: k bag)
  case (Suc i)
  let ?j = "draw_index (rnd k) (Suc (Suc i))"
  have j: "?j < length bag" using draw_index_less [OF assms, of "Suc (Suc i)" k] Suc.prems by simp
  have "mset (shuffle_from rnd (Suc k) i (swap_at (Suc i) ?j bag)) = mset (swap_at (Suc i) ?j bag)"
    using Suc.prems by (intro Suc.IH) simp
  then show ?case using Suc.prems j by (simp add: mset_swap_at)
qed simp

lemma mset_createShuffleBag: "random_ok rnd \<Longrightarrow> mset (createShuffleBag rnd k its) = mset its"
  unfolding createShuffleBag_def by (rule mset_shuffle_from) auto

section \<open>The window\<close>

fun index_of :: "'a \<Rightarrow> 'a list \<Rightarrow> nat" where
  "index_of x [] = 0"
| "index_of x (y # ys) = (if x = y then 0 else Suc (index_of x ys))"

definition pinned_of :: "string list \<Rightarrow> nat \<Rightarrow> string list \<Rightarrow> string list" where
  "pinned_of sources largeCount pins = take largeCount (filter (\<lambda>i. i \<in> set sources) (uniq pins))"

definition candidates_of :: "string list \<Rightarrow> nat \<Rightarrow> string list \<Rightarrow> string list" where
  "candidates_of sources largeCount pins =
     filter (\<lambda>i. i \<notin> set (pinned_of sources largeCount pins)) sources"

definition window_start :: "string list \<Rightarrow> string list \<Rightarrow> nat" where
  "window_start candidates current =
     (let previous = filter (\<lambda>i. i \<in> set candidates) current
      in if previous = [] then 0 else (index_of (last previous) candidates + 1) mod max (length candidates) 1)"

definition window :: "string list \<Rightarrow> nat \<Rightarrow> nat \<Rightarrow> string list" where
  "window candidates start places =
     filter (\<lambda>i. i \<noteq> []) (map (\<lambda>k. candidates ! ((start + k) mod length candidates)) [0..<places])"

definition sequential_window :: "string list \<Rightarrow> string list \<Rightarrow> nat \<Rightarrow> string list" where
  "sequential_window candidates current places = window candidates (window_start candidates current) places"

text \<open>The loop \<open>while (selected.length < places && candidates.length)\<close>.\<close>

partial_function (option) draw_loop ::
  "(nat \<Rightarrow> rat) \<Rightarrow> string list \<Rightarrow> nat \<Rightarrow> nat \<Rightarrow> string list \<Rightarrow> string list \<Rightarrow> (string list \<times> string list) option" where
  "draw_loop rnd candidates places k selected remaining =
     (if \<not> (length selected < places \<and> candidates \<noteq> []) then Some (selected, remaining)
      else
        let fresh = filter (\<lambda>i. i \<notin> set selected) candidates;
            bag = (if remaining = [] then createShuffleBag rnd k fresh else remaining);
            k' = (if remaining = [] then k + (length fresh - 1) else k)
        in case bag of
             [] \<Rightarrow> draw_loop rnd candidates places k' selected []
           | next # rest \<Rightarrow>
               (if next \<noteq> [] \<and> next \<notin> set selected
                then draw_loop rnd candidates places k' (selected @ [next]) rest
                else draw_loop rnd candidates places k' selected rest))"

datatype strategy = Sequential | Random

definition nextRotationWindow ::
  "(nat \<Rightarrow> rat) \<Rightarrow> string list \<Rightarrow> string list \<Rightarrow> nat \<Rightarrow> string list \<Rightarrow> strategy \<Rightarrow> string list
   \<Rightarrow> (string list \<times> string list) option" where
  "nextRotationWindow rnd sourceIds current largeCount pinnedIds strategy bag =
     (let uniqueSources = uniq sourceIds;
          pinned = pinned_of uniqueSources largeCount pinnedIds;
          candidates = candidates_of uniqueSources largeCount pinnedIds;
          places = min (largeCount - length pinned) (length candidates)
      in case strategy of
           Sequential \<Rightarrow> Some (pinned @ sequential_window candidates current places, [])
         | Random \<Rightarrow>
             (case draw_loop rnd candidates places 0 [] (filter (\<lambda>i. i \<in> set candidates) bag) of
                None \<Rightarrow> None
              | Some (selected, remaining) \<Rightarrow> Some (pinned @ selected, remaining)))"

section \<open>The random strategy ends and draws without repetition\<close>

lemma draw_loop_ok:
  assumes rnd: "random_ok rnd" and d: "distinct cs" and ne: "[] \<notin> set cs" and cnt: "places \<le> length cs"
  shows "distinct sel \<Longrightarrow> set sel \<subseteq> set cs \<Longrightarrow> length sel \<le> places \<Longrightarrow> set rem \<subseteq> set cs \<Longrightarrow>
    \<exists>sel' rem'. draw_loop rnd cs places k sel rem = Some (sel', rem') \<and> length sel' = places
      \<and> distinct sel' \<and> set sel' \<subseteq> set cs \<and> set rem' \<subseteq> set cs"
proof (induction "(places - length sel, length rem)" arbitrary: k sel rem
    rule: wf_induct_rule [OF wf_lex_prod [OF wf_less_than wf_less_than]])
  case (1 sel rem k)
  show ?case
  proof (cases "length sel < places")
    case False
    then show ?thesis using 1 by (subst draw_loop.simps) auto
  next
    case True
    let ?fresh = "filter (\<lambda>i. i \<notin> set sel) cs"
    have "card (set sel) < card (set cs)"
      using True cnt 1(2) d by (simp add: distinct_card)
    then have "\<not> set cs \<subseteq> set sel" by (meson card_mono List.finite_set not_le)
    then have fne: "?fresh \<noteq> []" by (auto simp: filter_empty_conv)
    define bag where "bag = (if rem = [] then createShuffleBag rnd k ?fresh else rem)"
    define k' where "k' = (if rem = [] then k + (length ?fresh - 1) else k)"
    have shuffled: "set (createShuffleBag rnd k ?fresh) = set ?fresh"
      by (rule mset_eq_setD [OF mset_createShuffleBag [OF rnd]])
    have bset: "set bag \<subseteq> set cs" using shuffled 1(5) by (simp add: bag_def)
    have bfresh: "rem = [] \<Longrightarrow> set bag = set ?fresh" using shuffled by (simp add: bag_def)
    have bne: "bag \<noteq> []" using bfresh fne by (metis bag_def set_empty)
    obtain nxt rest where b: "bag = nxt # rest" using bne by (cases bag) auto
    have nonempty: "nxt \<noteq> []" using b bset ne by auto
    have step: "draw_loop rnd cs places k sel rem =
        (if nxt \<notin> set sel then draw_loop rnd cs places k' (sel @ [nxt]) rest
         else draw_loop rnd cs places k' sel rest)"
      using True cnt b nonempty
      by (subst draw_loop.simps) (auto simp: Let_def bag_def [symmetric] k'_def [symmetric])
    show ?thesis
    proof (cases "nxt \<in> set sel")
      case False
      have "\<exists>sel' rem'. draw_loop rnd cs places k' (sel @ [nxt]) rest = Some (sel', rem') \<and> length sel' = places
          \<and> distinct sel' \<and> set sel' \<subseteq> set cs \<and> set rem' \<subseteq> set cs"
        using True False 1(2-5) b bset by (intro 1(1)) auto
      then show ?thesis using False by (simp add: step)
    next
      case old: True
      then have "rem \<noteq> []" using bfresh b by auto
      then have "length rest < length rem" using b by (simp add: bag_def)
      then have "\<exists>sel' rem'. draw_loop rnd cs places k' sel rest = Some (sel', rem') \<and> length sel' = places
          \<and> distinct sel' \<and> set sel' \<subseteq> set cs \<and> set rem' \<subseteq> set cs"
        using 1(2-5) b bset by (intro 1(1)) auto
      then show ?thesis using old by (simp add: step)
    qed
  qed
qed

lemma pinned_props: "distinct (pinned_of us n ps)" "set (pinned_of us n ps) \<subseteq> set us" "length (pinned_of us n ps) \<le> n"
  by (auto simp: pinned_of_def distinct_take dest: in_set_takeD)

lemma candidates_split:
  assumes "distinct us"
  shows "length us = length (pinned_of us n ps) + length (candidates_of us n ps)"
proof -
  have "set (candidates_of us n ps) = set us - set (pinned_of us n ps)" by (auto simp: candidates_of_def)
  moreover have "card (set us) = card (set (pinned_of us n ps)) + card (set us - set (pinned_of us n ps))"
    using pinned_props(2) by (metis card_Diff_subset card_mono List.finite_set add_diff_inverse_nat not_le)
  ultimately show ?thesis
    using assms pinned_props(1) [of us n ps] by (simp add: distinct_card [symmetric] candidates_of_def)
qed




section \<open>The sequential strategy shows every source\<close>

text \<open>Without pinned sources and with at most as many places as candidates, the rotation moves a window
  of \<open>n\<close> neighbours around the circle of the candidates.\<close>

definition arc :: "'a list \<Rightarrow> nat \<Rightarrow> nat \<Rightarrow> 'a list" where
  "arc cs start n = map (\<lambda>k. cs ! ((start + k) mod length cs)) [0..<n]"

lemma window_arc: "[] \<notin> set cs \<Longrightarrow> cs \<noteq> [] \<Longrightarrow> window cs start n = arc cs start n"
  by (auto simp: window_def arc_def filter_id_conv) (metis length_greater_0_conv mod_less_divisor nth_mem)

lemma index_of_nth: "distinct xs \<Longrightarrow> i < length xs \<Longrightarrow> index_of (xs ! i) xs = i"
  by (induction xs arbitrary: i) (auto simp: nth_Cons' split: nat.splits)

lemma window_start_arc:
  assumes "distinct cs" "cs \<noteq> []" "0 < n"
  shows "window_start cs (arc cs start n) = (start + n) mod length cs"
proof -
  have sub: "filter (\<lambda>i. i \<in> set cs) (arc cs start n) = arc cs start n"
    using assms(2) by (auto simp: arc_def filter_id_conv)
  have "arc cs start n \<noteq> []" using assms(3) by (simp add: arc_def)
  moreover have "last (arc cs start n) = cs ! ((start + (n - 1)) mod length cs)"
    using assms(3) by (simp add: arc_def last_map last_conv_nth)
  moreover have "index_of (cs ! ((start + (n - 1)) mod length cs)) cs = (start + (n - 1)) mod length cs"
    using assms(1,2) by (intro index_of_nth) simp_all
  moreover have "max (length cs) 1 = length cs" using assms(2) by (cases cs) auto
  ultimately have "window_start cs (arc cs start n) = ((start + (n - 1)) mod length cs + 1) mod length cs"
    using sub by (simp add: window_start_def Let_def)
  then show ?thesis using assms(3) by (simp add: mod_simps)
qed

text \<open>\<open>m\<close> rotations in a row, from the window that starts at \<open>start\<close>.\<close>

fun rotations :: "string list \<Rightarrow> nat \<Rightarrow> string list \<Rightarrow> nat \<Rightarrow> string list list" where
  "rotations cs n current 0 = []"
| "rotations cs n current (Suc m) =
     (let w = sequential_window cs current n in w # rotations cs n w m)"

lemma rotations_arcs:
  assumes "distinct cs" "cs \<noteq> []" "0 < n" "[] \<notin> set cs"
  shows "rotations cs n current m = map (\<lambda>j. arc cs (window_start cs current + j * n) n) [0..<m]"
proof (induction m arbitrary: current)
  case (Suc m)
  let ?s = "window_start cs current"
  have shift: "arc cs (a mod length cs) n = arc cs a n" for a
    by (simp add: arc_def mod_simps)
  have w: "sequential_window cs current n = arc cs ?s n"
    using assms by (simp add: sequential_window_def window_arc)
  have "rotations cs n (arc cs ?s n) m = map (\<lambda>j. arc cs ((?s + n) mod length cs + j * n) n) [0..<m]"
    unfolding Suc.IH window_start_arc [OF assms(1-3)] by simp
  also have "\<dots> = map (\<lambda>j. arc cs (?s + Suc j * n) n) [0..<m]"
    by (rule map_cong) (simp_all, metis shift add.assoc mod_add_left_eq add.commute)
  finally have "rotations cs n (arc cs ?s n) m = map (\<lambda>j. arc cs (?s + Suc j * n) n) [0..<m]" .
  then show ?case
    by (simp add: w Let_def upt_conv_Cons del: upt_Suc) (simp add: map_Suc_upt [symmetric] comp_def del: upt_Suc)
qed simp

lemma arcs_cover:
  assumes "0 < n" "cs \<noteq> []" "length cs \<le> m * n"
  shows "set cs \<subseteq> (\<Union>j<m. set (arc cs (s + j * n) n))"
proof
  fix x assume "x \<in> set cs"
  then obtain i where i: "i < length cs" "cs ! i = x" by (auto simp: in_set_conv_nth)
  define d where "d = (i + (length cs - s mod length cs)) mod length cs"
  have small: "s mod length cs < length cs" using assms(2) by simp
  have d: "d < length cs" using assms(2) by (simp add: d_def)
  have "(s + d) mod length cs = (s mod length cs + (i + (length cs - s mod length cs))) mod length cs"
    by (simp add: d_def mod_simps)
  also have "s mod length cs + (i + (length cs - s mod length cs)) = i + length cs"
    using small by linarith
  finally have sd: "(s + d) mod length cs = i" using i(1) by simp
  have "d div n < m" using d assms by (simp add: div_less_iff_less_mult)
  moreover have "x \<in> set (arc cs (s + d div n * n) n)"
  proof -
    have "(s + d div n * n + d mod n) mod length cs = i"
      using sd by (metis add.assoc div_mult_mod_eq)
    then have x: "x = cs ! ((s + d div n * n + d mod n) mod length cs)" using i(2) by simp
    have "d mod n \<in> set [0..<n]" using assms(1) by simp
    then show ?thesis unfolding arc_def set_map x by (rule imageI)
  qed
  ultimately show "x \<in> (\<Union>j<m. set (arc cs (s + j * n) n))" by blast
qed

text \<open>The sequential rotation starves no source: after as many rotations as it takes to fit all
  candidates (\<open>length / n\<close>, rounded up), every candidate has been shown, from any current selection.\<close>

theorem sequential_rotation_shows_all:
  assumes "distinct cs" "cs \<noteq> []" "0 < n" "[] \<notin> set cs" "length cs \<le> m * n"
  shows "set cs = (\<Union>w \<in> set (rotations cs n current m). set w)"
proof
  have "set (arc cs s n) \<subseteq> set cs" for s
    using assms(2) by (auto simp: arc_def)
  then show "(\<Union>w \<in> set (rotations cs n current m). set w) \<subseteq> set cs"
    by (auto simp: rotations_arcs [OF assms(1-4)])
  show "set cs \<subseteq> (\<Union>w \<in> set (rotations cs n current m). set w)"
    using arcs_cover [OF assms(3,2,5), of "window_start cs current"]
    by (fastforce simp: rotations_arcs [OF assms(1-4)])
qed

theorem sequential_rotation_shows_all_witness:
  "set [''a'', ''b'', ''c''] = (\<Union>w \<in> set (rotations [''a'', ''b'', ''c''] 2 [''b''] 2). set w)
   \<and> rotations [''a'', ''b'', ''c''] 2 [''b''] 2 = [[''c'', ''a''], [''b'', ''c'']]"
proof -
  have "rotations [''a'', ''b'', ''c''] 2 [''b''] 2 = [[''c'', ''a''], [''b'', ''c'']]" by code_simp
  moreover have "set [''a'', ''b'', ''c''] = (\<Union>w \<in> set (rotations [''a'', ''b'', ''c''] 2 [''b''] 2). set w)"
    by (rule sequential_rotation_shows_all) simp_all
  ultimately show ?thesis by blast
qed

end
