(* ===== verification/AnalyticsBudget.thy ===== *)
theory AnalyticsBudget
  imports Prelude
begin

text \<open>
  The process-wide budget of browser analytics (\<open>analyticsScheduler.ts\<close>): at most eight frame
  reads and four person inferences start in any second, whatever the number of tiles.  The two
  module-level windows are the state; a request names its kind, its priority and the clock.
\<close>

datatype analytics_priority = Focus | Large | Normal

datatype analytics_work = FrameWork | PersonWork

fun LIMITS :: "analytics_work \<Rightarrow> nat" where
  "LIMITS FrameWork = 8"
| "LIMITS PersonWork = 4"

type_synonym starts = "(rat \<times> analytics_priority) list"

record scheduler =
  frame_starts :: starts
  person_starts :: starts

definition resetAnalyticsScheduler :: scheduler where
  "resetAnalyticsScheduler = \<lparr>frame_starts = [], person_starts = []\<rparr>"

fun starts_of :: "analytics_work \<Rightarrow> scheduler \<Rightarrow> starts" where
  "starts_of FrameWork s = frame_starts s"
| "starts_of PersonWork s = person_starts s"

fun with_starts :: "analytics_work \<Rightarrow> starts \<Rightarrow> scheduler \<Rightarrow> scheduler" where
  "with_starts FrameWork w s = s\<lparr>frame_starts := w\<rparr>"
| "with_starts PersonWork w s = s\<lparr>person_starts := w\<rparr>"

text \<open>\<open>while (window.length && at - window[0].at >= 1000) window.shift()\<close>.\<close>

definition expire :: "rat \<Rightarrow> starts \<Rightarrow> starts" where
  "expire now w = dropWhile (\<lambda>e. now - fst e \<ge> 1000) w"

definition requestAnalyticsSlot ::
  "analytics_work \<Rightarrow> analytics_priority \<Rightarrow> rat \<Rightarrow> scheduler \<Rightarrow> bool \<times> scheduler" where
  "requestAnalyticsSlot work priority now s =
     (let w = expire now (starts_of work s)
      in if length w \<ge> LIMITS work then (False, with_starts work w s)
         else (True, with_starts work (w @ [(now, priority)]) s))"

definition analyticsSchedulerSnapshot :: "rat \<Rightarrow> scheduler \<Rightarrow> (nat \<times> nat) \<times> scheduler" where
  "analyticsSchedulerSnapshot now s =
     (let s' = s\<lparr>frame_starts := expire now (frame_starts s), person_starts := expire now (person_starts s)\<rparr>
      in ((length (frame_starts s'), length (person_starts s')), s'))"

text \<open>A run of requests, with the times of the granted ones by kind.\<close>

type_synonym request = "analytics_work \<times> analytics_priority \<times> rat"

definition serve :: "scheduler \<times> (analytics_work \<times> rat) list \<Rightarrow> request \<Rightarrow> scheduler \<times> (analytics_work \<times> rat) list" where
  "serve st r = (case st of (s, granted) \<Rightarrow> case r of (work, priority, now) \<Rightarrow>
     (case requestAnalyticsSlot work priority now s of (ok, s') \<Rightarrow>
        (s', if ok then granted @ [(work, now)] else granted)))"

definition grants :: "analytics_work \<Rightarrow> (analytics_work \<times> rat) list \<Rightarrow> rat list" where
  "grants work gs = map snd (filter (\<lambda>g. fst g = work) gs)"

section \<open>Facts\<close>

lemma starts_of_with [simp]: "starts_of work (with_starts work' w s) = (if work = work' then w else starts_of work s)"
  by (cases work; cases work') simp_all

lemma expire_suffix: "\<exists>k. expire now w = drop k w \<and> k \<le> length w \<and> (\<forall>j < k. fst (w ! j) + 1000 \<le> now)"
proof (induction w)
  case (Cons e w)
  show ?case
  proof (cases "now - fst e \<ge> 1000")
    case True
    from Cons obtain k where k: "expire now w = drop k w" "k \<le> length w" "\<forall>j<k. fst (w ! j) + 1000 \<le> now" by blast
    have "fst ((e # w) ! j) + 1000 \<le> now" if "j < Suc k" for j
      using that True k(3) by (cases j) (auto simp: algebra_simps)
    with k(1,2) True show ?thesis by (intro exI [of _ "Suc k"]) (simp add: expire_def)
  next
    case False
    then show ?thesis by (intro exI [of _ 0]) (simp add: expire_def)
  qed
qed (simp add: expire_def)

text \<open>The window of a kind is the tail of its grants; what it has dropped is a second old.\<close>

definition budget_inv :: "rat \<Rightarrow> scheduler \<times> (analytics_work \<times> rat) list \<Rightarrow> bool" where
  "budget_inv now st = (\<forall>work. \<exists>k.
     map fst (starts_of work (fst st)) = drop k (grants work (snd st))
     \<and> (\<forall>j < k. j < length (grants work (snd st)) \<longrightarrow> grants work (snd st) ! j + 1000 \<le> now)
     \<and> (\<forall>i. i + LIMITS work < length (grants work (snd st)) \<longrightarrow>
          grants work (snd st) ! i + 1000 \<le> grants work (snd st) ! (i + LIMITS work)))"

lemma budget_inv_later:
  assumes "budget_inv now st" "now \<le> now'"
  shows "budget_inv now' st"
  unfolding budget_inv_def
proof
  fix work
  from assms(1) obtain k where "map fst (starts_of work (fst st)) = drop k (grants work (snd st))"
    "\<forall>j < k. j < length (grants work (snd st)) \<longrightarrow> grants work (snd st) ! j + 1000 \<le> now"
    "\<forall>i. i + LIMITS work < length (grants work (snd st)) \<longrightarrow>
          grants work (snd st) ! i + 1000 \<le> grants work (snd st) ! (i + LIMITS work)"
    unfolding budget_inv_def by blast
  with assms(2) show "\<exists>k. map fst (starts_of work (fst st)) = drop k (grants work (snd st))
     \<and> (\<forall>j < k. j < length (grants work (snd st)) \<longrightarrow> grants work (snd st) ! j + 1000 \<le> now')
     \<and> (\<forall>i. i + LIMITS work < length (grants work (snd st)) \<longrightarrow>
          grants work (snd st) ! i + 1000 \<le> grants work (snd st) ! (i + LIMITS work))"
    by (meson order_trans)
qed

lemma grants_append [simp]: "grants work (gs @ [(work', t)]) = grants work gs @ (if work = work' then [t] else [])"
  by (simp add: grants_def)

lemma expired_window:
  assumes "map fst w = drop k gs" "\<forall>j < k. j < length gs \<longrightarrow> gs ! j + 1000 \<le> now"
  obtains k' where "map fst (expire now w) = drop k' gs"
    "\<forall>j < k'. j < length gs \<longrightarrow> gs ! j + 1000 \<le> (now::rat)"
proof -
  obtain m where m: "expire now w = drop m w" "m \<le> length w" "\<forall>j < m. fst (w ! j) + 1000 \<le> now"
    using expire_suffix by blast
  have "map fst (expire now w) = drop (m + k) gs" by (simp add: m(1) drop_map [symmetric] assms(1) add.commute)
  moreover have "gs ! j + 1000 \<le> now" if j: "j < m + k" "j < length gs" for j
  proof (cases "j < k")
    case True with assms(2) j show ?thesis by blast
  next
    case False
    have "j - k < length w" using m(2) j False by linarith
    then have "fst (w ! (j - k)) = map fst w ! (j - k)" by simp
    also have "\<dots> = gs ! j" using False j(2) by (simp add: assms(1))
    finally have "fst (w ! (j - k)) = gs ! j" .
    moreover have "fst (w ! (j - k)) + 1000 \<le> now" using m(3) j(1) False by simp
    ultimately show ?thesis by simp
  qed
  ultimately show thesis by (intro that [of "m + k"]) auto
qed

lemma serve_inv:
  assumes "budget_inv now st"
  shows "budget_inv now (serve st (work, priority, now))"
  unfolding budget_inv_def
proof
  fix w
  obtain s gs where st: "st = (s, gs)" by force
  from assms obtain k where k: "map fst (starts_of w s) = drop k (grants w gs)"
    "\<forall>j < k. j < length (grants w gs) \<longrightarrow> grants w gs ! j + 1000 \<le> now"
    "\<forall>i. i + LIMITS w < length (grants w gs) \<longrightarrow> grants w gs ! i + 1000 \<le> grants w gs ! (i + LIMITS w)"
    unfolding budget_inv_def st fst_conv snd_conv by blast
  let ?st = "serve st (work, priority, now)"
  show "\<exists>k. map fst (starts_of w (fst ?st)) = drop k (grants w (snd ?st))
     \<and> (\<forall>j < k. j < length (grants w (snd ?st)) \<longrightarrow> grants w (snd ?st) ! j + 1000 \<le> now)
     \<and> (\<forall>i. i + LIMITS w < length (grants w (snd ?st)) \<longrightarrow>
          grants w (snd ?st) ! i + 1000 \<le> grants w (snd ?st) ! (i + LIMITS w))"
  proof (cases "w = work")
    case False
    with k show ?thesis by (auto simp: serve_def st requestAnalyticsSlot_def Let_def)
  next
    case [simp]: True
    obtain k' where k': "map fst (expire now (starts_of work s)) = drop k' (grants work gs)"
      "\<forall>j < k'. j < length (grants work gs) \<longrightarrow> grants work gs ! j + 1000 \<le> now"
      using expired_window k(1,2) by (metis True)
    show ?thesis
    proof (cases "LIMITS work \<le> length (expire now (starts_of work s))")
      case full: True
      with k(3) k' show ?thesis by (auto simp: serve_def st requestAnalyticsSlot_def Let_def intro!: exI [of _ k'])
    next
      case free: False
      let ?g = "grants work gs"
      let ?k = "min k' (length ?g)"
      have len: "length ?g - k' < LIMITS work"
        using free k'(1) by (metis length_drop length_map not_le)
      have w': "map fst (expire now (starts_of work s)) @ [now] = drop ?k (?g @ [now])"
        using k'(1) by (simp add: min_def)
      have old: "\<forall>j < ?k. j < Suc (length ?g) \<longrightarrow> (?g @ [now]) ! j + 1000 \<le> now"
        using k'(2) by (simp add: nth_append)
      have gap: "(?g @ [now]) ! i + 1000 \<le> (?g @ [now]) ! (i + LIMITS work)"
        if "i + LIMITS work < Suc (length ?g)" for i
      proof (cases "i + LIMITS work < length ?g")
        case True with k(3) show ?thesis by (auto simp: nth_append)
      next
        case False
        with that have i: "i + LIMITS work = length ?g" by linarith
        with len have "i < k'" by linarith
        moreover have "i < length ?g" using i by (cases work) auto
        ultimately show ?thesis using k'(2) i by (simp add: nth_append)
      qed
      show ?thesis
        using free w' old gap
        by (intro exI [of _ ?k]) (simp add: serve_def st requestAnalyticsSlot_def Let_def)
    qed
  qed
qed

text \<open>C38. The budget is a hard rate bound: on a clock that does not run backwards, for every mix of
  tiles, priorities and kinds of work, the grant that follows eight others (four for person inference)
  is at least a second later than the first of them.\<close>

theorem analytics_rate_bound:
  assumes "sorted (map (\<lambda>r. snd (snd r)) reqs)"
    and "i + LIMITS work < length (grants work (snd (foldl serve (resetAnalyticsScheduler, []) reqs)))"
  shows "grants work (snd (foldl serve (resetAnalyticsScheduler, []) reqs)) ! i + 1000
    \<le> grants work (snd (foldl serve (resetAnalyticsScheduler, []) reqs)) ! (i + LIMITS work)"
proof -
  have "budget_inv (if reqs = [] then 0 else snd (snd (last reqs))) (foldl serve (resetAnalyticsScheduler, []) reqs)"
    using assms(1)
  proof (induction reqs rule: rev_induct)
    case Nil
    have "starts_of work resetAnalyticsScheduler = []" for work
      by (cases work) (simp_all add: resetAnalyticsScheduler_def)
    then show ?case by (simp add: budget_inv_def grants_def)
  next
    case (snoc r reqs)
    obtain w p t where r: "r = (w, p, t)" by (cases r) auto
    let ?st = "foldl serve (resetAnalyticsScheduler, []) reqs"
    have "budget_inv t ?st"
    proof (cases reqs rule: rev_cases)
      case Nil
      have "starts_of work resetAnalyticsScheduler = []" for work
        by (cases work) (simp_all add: resetAnalyticsScheduler_def)
      then show ?thesis by (simp add: Nil budget_inv_def grants_def)
    next
      case (snoc rs q)
      then have "snd (snd (last reqs)) \<le> t" using snoc.prems r by (simp add: sorted_append)
      moreover have "budget_inv (snd (snd (last reqs))) ?st"
        using snoc.IH snoc.prems snoc by (simp add: sorted_append)
      ultimately show ?thesis by (rule budget_inv_later [rotated])
    qed
    from serve_inv [OF this] show ?case by (simp add: r)
  qed
  with assms(2) show ?thesis unfolding budget_inv_def by blast
qed


definition burst :: "request list" where
  "burst = map (\<lambda>t. (PersonWork, Normal, of_nat t * 100)) [0..<12]"

theorem analytics_rate_bound_witness:
  "grants PersonWork (snd (foldl serve (resetAnalyticsScheduler, []) burst)) ! 0 + 1000
   \<le> grants PersonWork (snd (foldl serve (resetAnalyticsScheduler, []) burst)) ! 4"
proof -
  have "sorted (map (\<lambda>r. snd (snd r)) burst)" by (simp add: burst_def upt_rec)
  moreover have "length (grants PersonWork (snd (foldl serve (resetAnalyticsScheduler, []) burst))) = 6"
    by code_simp
  ultimately show ?thesis using analytics_rate_bound [of burst 0 PersonWork] by simp
qed

end
