(* ===== verification/MotionEngine.thy ===== *)
theory MotionEngine
  imports JsValue
begin

text \<open>
  The motion and scene-change detector of the browser (\<open>analyticsEngine.ts\<close>).  Pixels are bytes,
  given as \<open>int\<close>; the background average and the scores are fractions (the code keeps the
  background in 32-bit floats).  The engine's state is the record \<open>engine\<close>; \<open>evaluate\<close> takes a
  frame and returns the result with the next state, or the error of an invalid frame.  The clock is
  the frame's own timestamp, which the runtime always sets.
\<close>

datatype zone_mode = IncludeZone | ExcludeZone | PrivacyZone

record zone =
  zone_mode :: zone_mode
  polygon :: "jsnum list list"

record analytics_frame =
  af_width :: nat
  af_height :: nat
  pixels :: "int list"
  af_timestamp :: rat

record motion_options =
  mo_sensitivity :: "rat option"
  mo_debounceMs :: "rat option"
  mo_cooldownMs :: "rat option"
  mo_sceneThreshold :: "rat option"
  mo_sceneConfirmFrames :: "rat option"
  mo_sceneCooldownMs :: "rat option"
  mo_zones :: "zone list option"

record histogram =
  bins :: "nat list"
  activePixels :: nat

record engine =
  previous_frame :: "int list option"
  background :: "rat list option"
  previousHistogram :: "nat list option"
  previousActivePixels :: nat
  zoneSignature :: "(zone list \<times> zone list) option"
  previousAt :: rat
  pendingMotionAt :: rat
  motionCooldownUntil :: rat
  sceneConfirmations :: nat
  sceneCooldownUntil :: rat

datatype signal_kind = MotionSignal | SceneChangeSignal

text \<open>A signal without the identifiers, which the code copies from its argument and the generator.\<close>

record engine_signal =
  es_kind :: signal_kind
  es_at :: rat
  es_confidence :: rat

record engine_result =
  motion :: rat
  sceneChange :: rat
  signals :: "engine_signal list"

section \<open>Zones\<close>

definition coord :: "jsnum list \<Rightarrow> nat \<Rightarrow> jsnum" where
  "coord p i = (if i < length p then p ! i else NaN)"

definition epsilon :: rat where
  "epsilon = 1 / 4503599627370496"

definition crosses :: "rat \<Rightarrow> rat \<Rightarrow> jsnum list \<Rightarrow> jsnum list \<Rightarrow> bool" where
  "crosses x y current prior =
     (case (coord current 0, coord current 1, coord prior 0, coord prior 1) of
        (Fin cx, Fin cy, Fin px, Fin py) \<Rightarrow>
          (cy > y) \<noteq> (py > y)
          \<and> x < (px - cx) * (y - cy) / (if py - cy = 0 then epsilon else py - cy) + cx
      | _ \<Rightarrow> False)"

text \<open>The edges are walked with the vertex before, the last one first.\<close>

definition pointInPolygon :: "rat \<Rightarrow> rat \<Rightarrow> jsnum list list \<Rightarrow> bool" where
  "pointInPolygon x y poly =
     (if poly = [] then False
      else odd (length (filter (\<lambda>(c, p). crosses x y c p) (zip poly (last poly # butlast poly)))))"

definition in_zones :: "zone list \<Rightarrow> zone list \<Rightarrow> nat \<Rightarrow> nat \<Rightarrow> nat \<Rightarrow> bool" where
  "in_zones includes_ex excluded width height index =
     (let x = (of_nat (index mod width) + 1 / 2) / of_nat width;
          y = (of_nat (index div width) + 1 / 2) / of_nat height
      in (includes_ex = [] \<or> list_ex (\<lambda>z. pointInPolygon x y (polygon z)) includes_ex)
         \<and> \<not> list_ex (\<lambda>z. pointInPolygon x y (polygon z)) excluded)"

definition active_indices :: "zone list \<Rightarrow> zone list \<Rightarrow> nat \<Rightarrow> nat \<Rightarrow> nat \<Rightarrow> nat list" where
  "active_indices inc exc width height n = filter (in_zones inc exc width height) [0..<n]"

section \<open>Histograms\<close>

definition bin_of :: "int \<Rightarrow> nat" where
  "bin_of v = min 15 (nat (v div 16))"

definition bin_counts :: "int list \<Rightarrow> nat list \<Rightarrow> nat list" where
  "bin_counts px idx = map (\<lambda>b. length (filter (\<lambda>i. bin_of (px ! i) = b) idx)) [0..<16]"

definition histogram_of :: "int list \<Rightarrow> nat \<Rightarrow> nat \<Rightarrow> zone list \<Rightarrow> zone list \<Rightarrow> histogram" where
  "histogram_of px width height inc exc =
     (let idx = active_indices inc exc width height (length px)
      in \<lparr>bins = bin_counts px idx, activePixels = length idx\<rparr>)"

definition histogram_distance :: "nat list \<Rightarrow> nat \<Rightarrow> nat list \<Rightarrow> nat \<Rightarrow> rat" where
  "histogram_distance now_bins now_n old_bins old_n =
     sum_list (map2 (\<lambda>a b. \<bar>of_nat a / of_nat now_n - of_nat b / of_nat old_n\<bar>) now_bins old_bins) / 2"

section \<open>The engine\<close>

definition fresh_engine :: engine where
  "fresh_engine = \<lparr>previous_frame = None, background = None, previousHistogram = None, previousActivePixels = 0,
     zoneSignature = None, previousAt = 0, pendingMotionAt = 0, motionCooldownUntil = 0,
     sceneConfirmations = 0, sceneCooldownUntil = 0\<rparr>"

text \<open>\<open>reset()\<close> forgets everything.\<close>

definition reset_engine :: "engine \<Rightarrow> engine" where
  "reset_engine e = fresh_engine"

definition opt_num :: "rat option \<Rightarrow> rat \<Rightarrow> rat" where
  "opt_num v d = (case v of None \<Rightarrow> d | Some x \<Rightarrow> x)"

definition frame_valid :: "analytics_frame \<Rightarrow> bool" where
  "frame_valid f = (2 \<le> af_width f \<and> 2 \<le> af_height f \<and> af_width f * af_height f \<le> 262144
     \<and> length (pixels f) = af_width f * af_height f)"

definition include_zones :: "motion_options \<Rightarrow> zone list" where
  "include_zones o' = filter (\<lambda>z. zone_mode z = IncludeZone \<and> 3 \<le> length (polygon z))
     (case mo_zones o' of None \<Rightarrow> [] | Some zs \<Rightarrow> zs)"

definition excluded_zones :: "motion_options \<Rightarrow> zone list" where
  "excluded_zones o' = filter (\<lambda>z. (zone_mode z = ExcludeZone \<or> zone_mode z = PrivacyZone) \<and> 3 \<le> length (polygon z))
     (case mo_zones o' of None \<Rightarrow> [] | Some zs \<Rightarrow> zs)"

text \<open>A change of the zones forgets the reference frame, not the cooldowns.\<close>

definition apply_zones :: "motion_options \<Rightarrow> engine \<Rightarrow> engine" where
  "apply_zones o' e =
     (let sig = Some (include_zones o', excluded_zones o')
      in if zoneSignature e = sig then e
         else e\<lparr>zoneSignature := sig, previous_frame := None, background := None,
           previousHistogram := None, previousActivePixels := 0\<rparr>)"

definition has_baseline :: "engine \<Rightarrow> nat \<Rightarrow> bool" where
  "has_baseline e n = (case (background e, previous_frame e) of
     (Some b, Some p) \<Rightarrow> length b = n \<and> length p = n | _ \<Rightarrow> False)"

definition take_baseline :: "motion_options \<Rightarrow> analytics_frame \<Rightarrow> engine \<Rightarrow> engine" where
  "take_baseline o' f e =
     (let h = histogram_of (pixels f) (af_width f) (af_height f) (include_zones o') (excluded_zones o')
      in e\<lparr>background := Some (map of_int (pixels f)), previous_frame := Some (pixels f),
           previousHistogram := Some (bins h), previousActivePixels := activePixels h,
           previousAt := af_timestamp f\<rparr>)"

definition pixel_delta :: "int list \<Rightarrow> rat list \<Rightarrow> nat \<Rightarrow> rat" where
  "pixel_delta px bg i = \<bar>of_int (px ! i) - bg ! i\<bar>"

definition motion_score :: "int list \<Rightarrow> rat list \<Rightarrow> nat list \<Rightarrow> rat" where
  "motion_score px bg idx =
     (if idx = [] then 0
      else of_nat (length (filter (\<lambda>i. pixel_delta px bg i \<ge> 24) idx)) / of_nat (length idx))"

definition scene_score :: "engine \<Rightarrow> int list \<Rightarrow> rat list \<Rightarrow> nat list \<Rightarrow> rat" where
  "scene_score e px bg idx =
     (if idx = [] then 0
      else max (sum_list (map (\<lambda>i. pixel_delta px bg i / 255) idx) / of_nat (length idx))
        (case previousHistogram e of
           None \<Rightarrow> 0
         | Some old \<Rightarrow> if previousActivePixels e = 0 then 0
             else histogram_distance (bin_counts px idx) (length idx) old (previousActivePixels e)))"

definition blend_background :: "int list \<Rightarrow> rat list \<Rightarrow> nat list \<Rightarrow> rat list" where
  "blend_background px bg idx =
     map (\<lambda>i. if i \<in> set idx then bg ! i * (92 / 100) + of_int (px ! i) * (8 / 100) else bg ! i) [0..<length bg]"

definition motion_gap :: "motion_options \<Rightarrow> rat" where
  "motion_gap o' = clamp (of_int (trunc_rat (opt_num (mo_cooldownMs o') 5000))) 0 3600000"

definition scene_gap :: "motion_options \<Rightarrow> rat" where
  "scene_gap o' = clamp (of_int (trunc_rat (opt_num (mo_sceneCooldownMs o') 30000))) 0 3600000"

text \<open>The debounce, confirmation and cooldown logic that turns scores into signals.\<close>

definition motion_signal :: "motion_options \<Rightarrow> rat \<Rightarrow> rat \<Rightarrow> engine \<Rightarrow> engine_signal list \<times> engine" where
  "motion_signal o' now score e =
     (let sensitivity = clamp (opt_num (mo_sensitivity o') (15 / 100)) (1 / 100) 1;
          debounceMs = clamp (of_int (trunc_rat (opt_num (mo_debounceMs o') 500))) 0 60000;
          cooldownMs = motion_gap o'
      in if score \<ge> sensitivity then
           (let pending = (if pendingMotionAt e = 0 then now else pendingMotionAt e)
            in if now - pending \<ge> debounceMs \<and> now \<ge> motionCooldownUntil e
               then ([\<lparr>es_kind = MotionSignal, es_at = now, es_confidence = clamp score 0 1\<rparr>],
                     e\<lparr>motionCooldownUntil := now + cooldownMs, pendingMotionAt := 0\<rparr>)
               else ([], e\<lparr>pendingMotionAt := pending\<rparr>))
         else ([], e\<lparr>pendingMotionAt := 0\<rparr>))"

definition scene_signal :: "motion_options \<Rightarrow> int list \<Rightarrow> rat \<Rightarrow> rat \<Rightarrow> engine \<Rightarrow> engine_signal list \<times> engine" where
  "scene_signal o' px now score e =
     (let sceneThreshold = clamp (opt_num (mo_sceneThreshold o') (55 / 100)) (5 / 100) 1;
          confirmFrames = clamp (trunc_rat (opt_num (mo_sceneConfirmFrames o') 2)) 1 5;
          sceneCooldownMs = scene_gap o';
          confirmations = (if score \<ge> sceneThreshold then sceneConfirmations e + 1 else 0)
      in if int confirmations \<ge> confirmFrames \<and> now \<ge> sceneCooldownUntil e
         then ([\<lparr>es_kind = SceneChangeSignal, es_at = now, es_confidence = clamp score 0 1\<rparr>],
               e\<lparr>sceneConfirmations := 0, sceneCooldownUntil := now + sceneCooldownMs,
                 background := Some (map of_int px)\<rparr>)
         else ([], e\<lparr>sceneConfirmations := confirmations\<rparr>))"

definition compare_frame :: "motion_options \<Rightarrow> analytics_frame \<Rightarrow> rat list \<Rightarrow> engine \<Rightarrow> engine_result \<times> engine" where
  "compare_frame o' f bg e =
     (let now = af_timestamp f; px = pixels f;
          idx = active_indices (include_zones o') (excluded_zones o') (af_width f) (af_height f) (length px);
          m = motion_score px bg idx;
          sc = scene_score e px bg idx;
          e1 = e\<lparr>background := Some (blend_background px bg idx), previous_frame := Some px,
                 previousHistogram := Some (bin_counts px idx), previousActivePixels := length idx\<rparr>;
          (ms, e2) = motion_signal o' now m e1;
          (ss, e3) = scene_signal o' px now sc e2
      in (\<lparr>motion = m, sceneChange = sc, signals = ms @ ss\<rparr>, e3\<lparr>previousAt := now\<rparr>))"

datatype engine_error = FrameInvalid

definition evaluate :: "motion_options \<Rightarrow> analytics_frame \<Rightarrow> engine \<Rightarrow> engine_error + engine_result \<times> engine" where
  "evaluate o' f e =
     (if \<not> frame_valid f then Inl FrameInvalid
      else let e' = apply_zones o' e
           in case background e' of
                Some bg \<Rightarrow> (if has_baseline e' (length (pixels f)) then Inr (compare_frame o' f bg e')
                  else Inr (\<lparr>motion = 0, sceneChange = 0, signals = []\<rparr>, take_baseline o' f e'))
              | None \<Rightarrow> Inr (\<lparr>motion = 0, sceneChange = 0, signals = []\<rparr>, take_baseline o' f e'))"

text \<open>\<open>grayscaleFromRgba\<close>: the bytes of one frame, four channels a pixel.\<close>

fun luma :: "int list \<Rightarrow> int list" where
  "luma (r # g # b # a # rest) =
     round_rat (of_int r * (299 / 1000) + of_int g * (587 / 1000) + of_int b * (114 / 1000)) # luma rest"
| "luma _ = []"

definition grayscaleFromRgba :: "int list \<Rightarrow> nat \<Rightarrow> nat \<Rightarrow> rat \<Rightarrow> analytics_frame option" where
  "grayscaleFromRgba rgba width height now =
     (if length rgba \<noteq> width * height * 4 then None
      else Some \<lparr>af_width = width, af_height = height, pixels = luma rgba, af_timestamp = now\<rparr>)"


section \<open>Cooldowns\<close>

text \<open>The engine over a stream of frames, each with the zones in force, watched for one kind of
  signal; an invalid frame leaves it as it is.\<close>

definition first_at :: "signal_kind \<Rightarrow> engine_signal list \<Rightarrow> rat option" where
  "first_at k ss = map_option es_at (find (\<lambda>x. es_kind x = k) ss)"

definition signal_step ::
  "signal_kind \<Rightarrow> motion_options \<Rightarrow> engine \<Rightarrow> zone list option \<times> analytics_frame \<Rightarrow> engine \<times> rat option" where
  "signal_step k o' e zf = (case evaluate (o'\<lparr>mo_zones := fst zf\<rparr>) (snd zf) e of
     Inl _ \<Rightarrow> (e, None) | Inr (r, e') \<Rightarrow> (e', first_at k (signals r)))"

lemma baseline_deadlines:
  "motionCooldownUntil (take_baseline o' f (apply_zones o' e)) = motionCooldownUntil e"
  "sceneCooldownUntil (take_baseline o' f (apply_zones o' e)) = sceneCooldownUntil e"
  "motionCooldownUntil (apply_zones o' e) = motionCooldownUntil e"
  "sceneCooldownUntil (apply_zones o' e) = sceneCooldownUntil e"
  by (simp_all add: take_baseline_def apply_zones_def Let_def)

lemma motion_signal_cases:
  assumes "motion_signal o' now score e = (ms, e')"
  obtains "ms = []" "motionCooldownUntil e' = motionCooldownUntil e" "sceneCooldownUntil e' = sceneCooldownUntil e"
  | x where "ms = [x]" "es_kind x = MotionSignal" "es_at x = now" "motionCooldownUntil e \<le> now"
    "motionCooldownUntil e' = now + motion_gap o'" "sceneCooldownUntil e' = sceneCooldownUntil e"
  using assms by (auto simp: motion_signal_def Let_def split: if_splits)

lemma scene_signal_cases:
  assumes "scene_signal o' px now score e = (ss, e')"
  obtains "ss = []" "motionCooldownUntil e' = motionCooldownUntil e" "sceneCooldownUntil e' = sceneCooldownUntil e"
  | x where "ss = [x]" "es_kind x = SceneChangeSignal" "es_at x = now" "sceneCooldownUntil e \<le> now"
    "sceneCooldownUntil e' = now + scene_gap o'" "motionCooldownUntil e' = motionCooldownUntil e"
  using assms by (auto simp: scene_signal_def Let_def split: if_splits)

lemma compare_frame_cases:
  assumes "compare_frame o' f bg e = (r, e')"
  obtains m s e1 e2 e3 where
    "motion_signal o' (af_timestamp f) (motion r) e1 = (m, e2)"
    "scene_signal o' (pixels f) (af_timestamp f) (sceneChange r) e2 = (s, e3)"
    "signals r = m @ s" "motionCooldownUntil e1 = motionCooldownUntil e" "sceneCooldownUntil e1 = sceneCooldownUntil e"
    "motionCooldownUntil e' = motionCooldownUntil e3" "sceneCooldownUntil e' = sceneCooldownUntil e3"
  using assms unfolding compare_frame_def Let_def by (auto split: prod.splits)

lemma gaps_nonneg: "0 \<le> motion_gap o'" "0 \<le> scene_gap o'"
  by (simp_all add: motion_gap_def scene_gap_def)

definition deadlines_ok :: "motion_options \<Rightarrow> engine \<Rightarrow> engine_result \<Rightarrow> engine \<Rightarrow> bool" where
  "deadlines_ok o' e r e' =
     ((case first_at MotionSignal (signals r) of
        None \<Rightarrow> motionCooldownUntil e' = motionCooldownUntil e
      | Some t \<Rightarrow> motionCooldownUntil e \<le> t \<and> motionCooldownUntil e' = t + motion_gap o')
      \<and> (case first_at SceneChangeSignal (signals r) of
        None \<Rightarrow> sceneCooldownUntil e' = sceneCooldownUntil e
      | Some t \<Rightarrow> sceneCooldownUntil e \<le> t \<and> sceneCooldownUntil e' = t + scene_gap o'))"

lemma compare_deadlines:
  assumes "compare_frame o' f bg e = (r, e')"
  shows "deadlines_ok o' e r e'"
proof -
  obtain m s e1 e2 e3 where m: "motion_signal o' (af_timestamp f) (motion r) e1 = (m, e2)"
    and s: "scene_signal o' (pixels f) (af_timestamp f) (sceneChange r) e2 = (s, e3)"
    and c: "signals r = m @ s" "motionCooldownUntil e1 = motionCooldownUntil e"
      "sceneCooldownUntil e1 = sceneCooldownUntil e"
      "motionCooldownUntil e' = motionCooldownUntil e3" "sceneCooldownUntil e' = sceneCooldownUntil e3"
    by (rule compare_frame_cases [OF assms])
  from m show ?thesis
  proof (cases rule: motion_signal_cases)
    case 1
    from s show ?thesis
      by (cases rule: scene_signal_cases) (use 1 c in \<open>auto simp: deadlines_ok_def first_at_def\<close>)
  next
    case (2 x)
    from s show ?thesis
      by (cases rule: scene_signal_cases) (use 2 c in \<open>auto simp: deadlines_ok_def first_at_def\<close>)
  qed
qed

lemma deadline_step:
  assumes "evaluate o' f e = Inr (r, e')"
  shows "deadlines_ok o' e r e'"
proof -
  consider (base) "r = \<lparr>motion = 0, sceneChange = 0, signals = []\<rparr>" "e' = take_baseline o' f (apply_zones o' e)"
    | (compared) bg where "compare_frame o' f bg (apply_zones o' e) = (r, e')"
    using assms by (auto simp: evaluate_def Let_def split: if_splits option.splits)
  then show ?thesis
  proof cases
    case base
    then show ?thesis by (simp add: deadlines_ok_def first_at_def baseline_deadlines)
  next
    case compared
    from compare_deadlines [OF this] show ?thesis
      by (auto simp: deadlines_ok_def baseline_deadlines split: option.splits)
  qed
qed

lemma gap_zones [simp]: "motion_gap (o'\<lparr>mo_zones := z\<rparr>) = motion_gap o'" "scene_gap (o'\<lparr>mo_zones := z\<rparr>) = scene_gap o'"
  by (simp_all add: motion_gap_def scene_gap_def)

lemma signal_step_cases:
  assumes "signal_step k o' e zf = (e', t)"
  obtains "e' = e" "t = None"
  | r where "deadlines_ok (o'\<lparr>mo_zones := fst zf\<rparr>) e r e'" "t = first_at k (signals r)"
  using assms deadline_step unfolding signal_step_def by (fastforce split: sum.splits)

interpretation motion_cooldown: throttle "signal_step MotionSignal o'" "\<lambda>_. True" motionCooldownUntil "motion_gap o'"
proof
  show "0 \<le> motion_gap o'" by (rule gaps_nonneg)
next
  show True ..
next
  fix s e s' t assume "signal_step MotionSignal o' s e = (s', Some t)"
  then show "motionCooldownUntil s \<le> t \<and> t + motion_gap o' \<le> motionCooldownUntil s'"
    by (cases rule: signal_step_cases) (auto simp: deadlines_ok_def split: option.splits)
next
  fix s e s' assume "signal_step MotionSignal o' s e = (s', None)"
  then show "motionCooldownUntil s \<le> motionCooldownUntil s'"
    by (cases rule: signal_step_cases) (auto simp: deadlines_ok_def split: option.splits)
qed

interpretation scene_cooldown: throttle "signal_step SceneChangeSignal o'" "\<lambda>_. True" sceneCooldownUntil "scene_gap o'"
proof
  show "0 \<le> scene_gap o'" by (rule gaps_nonneg)
next
  show True ..
next
  fix s e s' t assume "signal_step SceneChangeSignal o' s e = (s', Some t)"
  then show "sceneCooldownUntil s \<le> t \<and> t + scene_gap o' \<le> sceneCooldownUntil s'"
    by (cases rule: signal_step_cases) (auto simp: deadlines_ok_def split: option.splits)
next
  fix s e s' assume "signal_step SceneChangeSignal o' s e = (s', None)"
  then show "sceneCooldownUntil s \<le> sceneCooldownUntil s'"
    by (cases rule: signal_step_cases) (auto simp: deadlines_ok_def split: option.splits)
qed

text \<open>The detector cannot flood: over any stream of frames, valid or not, with zones that change
  and any clock, two motion signals are at least the motion cooldown apart and two scene-change
  signals at least the scene cooldown.\<close>

theorem detector_cooldowns:
  "sorted_wrt (\<lambda>a b. a + motion_gap o' \<le> b) (run_fires (signal_step MotionSignal o') e frames)
   \<and> sorted_wrt (\<lambda>a b. a + scene_gap o' \<le> b) (run_fires (signal_step SceneChangeSignal o') e frames)"
  by (rule conjI [OF motion_cooldown.fires_spaced [OF TrueI] scene_cooldown.fires_spaced [OF TrueI]])


section \<open>Scores\<close>

definition byte_list :: "int list \<Rightarrow> bool" where
  "byte_list px = (\<forall>v \<in> set px. 0 \<le> v \<and> v \<le> 255)"

definition engine_ok :: "engine \<Rightarrow> bool" where
  "engine_ok e =
     ((case background e of None \<Rightarrow> True | Some bg \<Rightarrow> \<forall>b \<in> set bg. 0 \<le> b \<and> b \<le> 255)
      \<and> (case previousHistogram e of None \<Rightarrow> True
         | Some h \<Rightarrow> length h = 16 \<and> sum_list h = previousActivePixels e))"

definition unit :: "rat \<Rightarrow> bool" where
  "unit r = (0 \<le> r \<and> r \<le> 1)"

lemma sum_bins_one:
  assumes "v < 16"
  shows "sum_list (map (\<lambda>b. if v = b then Suc (f b) else f b) [0..<16]) = Suc (sum_list (map f [0..<16]))"
proof -
  have split: "[0..<16] = [0..<v] @ v # [Suc v..<16]"
    using assms by (metis upt_add_eq_append upt_conv_Cons le_add_diff_inverse less_imp_le le0 add_0)
  let ?g = "\<lambda>b. if v = b then Suc (f b) else f b"
  have eq: "map ?g [0..<v] = map f [0..<v]" "map ?g [Suc v..<16] = map f [Suc v..<16]" by auto
  show ?thesis unfolding split map_append list.map sum_list_append sum_list.Cons eq by simp
qed

lemma sum_bin_counts: "sum_list (bin_counts px idx) = length idx"
proof (induction idx)
  case Nil
  then show ?case by (simp add: bin_counts_def)
next
  case (Cons i idx)
  have "bin_counts px (i # idx) = map (\<lambda>b. if bin_of (px ! i) = b then Suc (length (filter (\<lambda>i. bin_of (px ! i) = b) idx))
      else length (filter (\<lambda>i. bin_of (px ! i) = b) idx)) [0..<16]"
    by (simp add: bin_counts_def)
  also have "sum_list \<dots> = Suc (sum_list (bin_counts px idx))"
    unfolding bin_counts_def by (rule sum_bins_one) (simp add: bin_of_def)
  finally show ?case using Cons.IH by simp
qed

lemma length_bin_counts [simp]: "length (bin_counts px idx) = 16"
  by (simp add: bin_counts_def)

lemma sum_list_div: "sum_list (map (\<lambda>a. of_nat a / n) xs) = (of_nat (sum_list xs) / n :: rat)"
  by (induction xs) (simp_all add: add_divide_distrib)

lemma histogram_distance_unit:
  assumes "length a = length b" "sum_list a = n" "sum_list b = m" "0 < n" "0 < m"
  shows "unit (histogram_distance a n b m)"
proof -
  let ?f = "\<lambda>a b. \<bar>of_nat a / rat_of_nat n - of_nat b / rat_of_nat m\<bar>"
  have "sum_list (map2 ?f a b) \<le> sum_list (map (\<lambda>a. of_nat a / of_nat n) a) + sum_list (map (\<lambda>b. of_nat b / of_nat m) b)"
    using assms(1)
  proof (induction a b rule: list_induct2)
    case (Cons x xs y ys)
    have nn: "0 \<le> of_nat x / rat_of_nat n" "0 \<le> of_nat y / rat_of_nat m" by simp_all
    have "?f x y \<le> of_nat x / rat_of_nat n + of_nat y / rat_of_nat m"
      using nn by (simp only: abs_le_iff) linarith
    with Cons.IH show ?case by (simp only: list.map zip_Cons_Cons prod.case sum_list.Cons)
  qed simp
  also have "\<dots> = 2" using assms by (simp add: sum_list_div)
  finally have "sum_list (map2 ?f a b) \<le> 2" .
  moreover have "0 \<le> sum_list (map2 ?f a b)" by (intro sum_list_nonneg) auto
  ultimately show ?thesis by (simp add: unit_def histogram_distance_def)
qed

lemma ratio_unit: "a \<le> b \<Longrightarrow> unit (of_nat a / of_nat b)"
  by (cases "b = 0") (auto simp: unit_def divide_le_eq)

lemma motion_score_unit: "unit (motion_score px bg idx)"
proof (cases "idx = []")
  case False
  have "length (filter (\<lambda>i. pixel_delta px bg i \<ge> 24) idx) \<le> length idx" by simp
  from ratio_unit [OF this] False show ?thesis by (simp add: motion_score_def)
qed (simp add: motion_score_def unit_def)

lemma mean_unit: "(\<And>x. x \<in> set xs \<Longrightarrow> unit (f x)) \<Longrightarrow> xs \<noteq> [] \<Longrightarrow> unit (sum_list (map f xs) / of_nat (length xs))"
proof -
  assume u: "\<And>x. x \<in> set xs \<Longrightarrow> unit (f x)" and ne: "xs \<noteq> []"
  have "0 \<le> sum_list (map f xs) \<and> sum_list (map f xs) \<le> of_nat (length xs)"
    using u by (induction xs) (auto simp: unit_def add_mono)
  moreover have "0 < rat_of_nat (length xs)" using ne by simp
  ultimately show ?thesis by (simp add: unit_def divide_le_eq)
qed

lemma active_in_range: "i \<in> set (active_indices inc exc w h n) \<Longrightarrow> i < n"
  by (simp add: active_indices_def)

lemma pixel_delta_unit:
  assumes "byte_list px" "\<forall>b \<in> set bg. 0 \<le> b \<and> b \<le> 255" "length bg = length px" "i < length px"
  shows "unit (pixel_delta px bg i / 255)"
proof -
  have "0 \<le> px ! i" "px ! i \<le> 255" using assms(1,4) by (auto simp: byte_list_def)
  then have p: "0 \<le> rat_of_int (px ! i)" "rat_of_int (px ! i) \<le> 255"
    by (metis of_int_0_le_iff, metis of_int_le_iff of_int_numeral)
  have b: "0 \<le> bg ! i" "bg ! i \<le> 255" using assms(2,3,4) by auto
  have "\<bar>rat_of_int (px ! i) - bg ! i\<bar> \<le> 255" using p b by (simp only: abs_le_iff) linarith
  then show ?thesis by (simp add: unit_def pixel_delta_def)
qed

lemma scene_score_unit:
  assumes "engine_ok e" "byte_list px" "\<forall>b \<in> set bg. 0 \<le> b \<and> b \<le> 255" "length bg = length px"
    "\<And>i. i \<in> set idx \<Longrightarrow> i < length px"
  shows "unit (scene_score e px bg idx)"
proof (cases "idx = []")
  case False
  let ?m = "sum_list (map (\<lambda>i. pixel_delta px bg i / 255) idx) / of_nat (length idx)"
  let ?h = "case previousHistogram e of None \<Rightarrow> 0
     | Some old \<Rightarrow> if previousActivePixels e = 0 then 0
         else histogram_distance (bin_counts px idx) (length idx) old (previousActivePixels e)"
  have m: "unit ?m" using pixel_delta_unit [OF assms(2-4)] assms(5) False by (intro mean_unit) auto
  have h: "unit ?h"
  proof (cases "previousHistogram e")
    case (Some old)
    then have "length old = 16" "sum_list old = previousActivePixels e"
      using assms(1) by (simp_all add: engine_ok_def)
    with Some False show ?thesis
      by (auto simp: sum_bin_counts unit_def [of 0] intro!: histogram_distance_unit)
  qed (simp add: unit_def)
  from m h have "unit (max ?m ?h)" by (simp add: unit_def max_def)
  then show ?thesis using False by (simp add: scene_score_def)
qed (simp add: scene_score_def unit_def)

lemma bytes_to_background: "byte_list px \<Longrightarrow> \<forall>b \<in> set (map rat_of_int px). 0 \<le> b \<and> b \<le> 255"
  by (auto simp: byte_list_def)

lemma blend_in_range:
  assumes "byte_list px" "\<forall>b \<in> set bg. 0 \<le> b \<and> b \<le> 255" "length bg = length px"
  shows "\<forall>b \<in> set (blend_background px bg idx). 0 \<le> b \<and> b \<le> 255"
proof -
  have "0 \<le> bg ! i * (92 / 100) + rat_of_int (px ! i) * (8 / 100) \<and> bg ! i * (92 / 100) + rat_of_int (px ! i) * (8 / 100) \<le> 255"
    if "i < length bg" for i
  proof -
    have "rat_of_int (px ! i) \<in> set (map rat_of_int px)" using that assms(3) by simp
    then have "0 \<le> rat_of_int (px ! i)" "rat_of_int (px ! i) \<le> 255" using bytes_to_background [OF assms(1)] by blast+
    moreover have "0 \<le> bg ! i" "bg ! i \<le> 255" using assms(2) that by auto
    ultimately show ?thesis by linarith
  qed
  moreover have "0 \<le> bg ! i \<and> bg ! i \<le> 255" if "i < length bg" for i using assms(2) that by auto
  ultimately show ?thesis by (auto simp: blend_background_def)
qed

lemma engine_ok_update [simp]:
  "engine_ok (e\<lparr>pendingMotionAt := p\<rparr>) = engine_ok e" "engine_ok (e\<lparr>motionCooldownUntil := p\<rparr>) = engine_ok e"
  "engine_ok (e\<lparr>sceneConfirmations := c\<rparr>) = engine_ok e" "engine_ok (e\<lparr>sceneCooldownUntil := p\<rparr>) = engine_ok e"
  "engine_ok (e\<lparr>previousAt := p\<rparr>) = engine_ok e"
  by (simp_all add: engine_ok_def split: option.split)

lemma engine_ok_background:
  "engine_ok e \<Longrightarrow> \<forall>b \<in> set bg. 0 \<le> b \<and> b \<le> 255 \<Longrightarrow> engine_ok (e\<lparr>background := Some bg\<rparr>)"
  by (simp add: engine_ok_def split: option.splits)

lemma unit_clamp: "unit (clamp r 0 1)"
  by (simp add: unit_def)

lemma motion_signal_keeps:
  assumes "motion_signal o' now score e = (ms, e')" "engine_ok e"
  shows "engine_ok e' \<and> (\<forall>x \<in> set ms. unit (es_confidence x))"
  using assms unfolding motion_signal_def Let_def by (auto simp: unit_clamp split: if_splits)

lemma scene_signal_keeps:
  assumes "scene_signal o' px now score e = (ss, e')" "engine_ok e" "byte_list px"
  shows "engine_ok e' \<and> (\<forall>x \<in> set ss. unit (es_confidence x))"
  using assms engine_ok_background [OF _ bytes_to_background [OF assms(3)]]
  unfolding scene_signal_def Let_def by (auto simp: unit_clamp split: if_splits)

definition result_ok :: "engine_result \<Rightarrow> bool" where
  "result_ok r = (unit (motion r) \<and> unit (sceneChange r) \<and> (\<forall>x \<in> set (signals r). unit (es_confidence x)))"

lemma compare_frame_keeps:
  assumes "compare_frame o' f bg e = (r, e')" "engine_ok e" "byte_list (pixels f)" "background e = Some bg"
    "length bg = length (pixels f)"
  shows "engine_ok e' \<and> result_ok r"
proof -
  let ?px = "pixels f"
  define idx where "idx = active_indices (include_zones o') (excluded_zones o') (af_width f) (af_height f) (length ?px)"
  define e1 where "e1 = e\<lparr>background := Some (blend_background ?px bg idx), previous_frame := Some ?px,
                 previousHistogram := Some (bin_counts ?px idx), previousActivePixels := length idx\<rparr>"
  obtain ms e2 where m: "motion_signal o' (af_timestamp f) (motion_score ?px bg idx) e1 = (ms, e2)" by force
  obtain ss e3 where s: "scene_signal o' ?px (af_timestamp f) (scene_score e ?px bg idx) e2 = (ss, e3)" by force
  have r: "r = \<lparr>motion = motion_score ?px bg idx, sceneChange = scene_score e ?px bg idx, signals = ms @ ss\<rparr>"
    and e': "e' = e3\<lparr>previousAt := af_timestamp f\<rparr>"
    using assms(1) m s unfolding compare_frame_def Let_def idx_def [symmetric] e1_def [symmetric] by auto
  have bgr: "\<forall>b \<in> set bg. 0 \<le> b \<and> b \<le> 255" using assms(2,4) by (simp add: engine_ok_def)
  have "engine_ok e1"
    using blend_in_range [OF assms(3) bgr assms(5)] by (simp add: engine_ok_def e1_def sum_bin_counts)
  with motion_signal_keeps [OF m] have k2: "engine_ok e2" "\<forall>x \<in> set ms. unit (es_confidence x)" by auto
  with scene_signal_keeps [OF s k2(1) assms(3)] have k3: "engine_ok e3" "\<forall>x \<in> set ss. unit (es_confidence x)" by auto
  have "unit (scene_score e ?px bg idx)"
    by (rule scene_score_unit [OF assms(2,3) bgr assms(5)]) (simp add: idx_def active_in_range)
  with k2 k3 motion_score_unit show ?thesis by (auto simp: r e' result_ok_def)
qed

text \<open>The detector's scores are scores: on frames of bytes the motion score, the scene score and
  the confidence of every signal lie between 0 and 1, and the engine keeps the ranges of its background
  and histogram that this rests on.\<close>

theorem detector_scores_unit:
  assumes "engine_ok e" "byte_list (pixels f)" "evaluate o' f e = Inr (r, e')"
  shows "result_ok r \<and> engine_ok e'"
proof -
  have z: "engine_ok (apply_zones o' e)" using assms(1) by (simp add: apply_zones_def Let_def engine_ok_def)
  consider (base) "r = \<lparr>motion = 0, sceneChange = 0, signals = []\<rparr>" "e' = take_baseline o' f (apply_zones o' e)"
    | (compared) bg where "compare_frame o' f bg (apply_zones o' e) = (r, e')"
        "background (apply_zones o' e) = Some bg" "has_baseline (apply_zones o' e) (length (pixels f))"
    using assms(3) by (auto simp: evaluate_def Let_def split: if_splits option.splits)
  then show ?thesis
  proof cases
    case base
    then show ?thesis
      using bytes_to_background [OF assms(2)]
      by (simp add: result_ok_def unit_def take_baseline_def engine_ok_def histogram_of_def Let_def sum_bin_counts)
  next
    case (compared bg)
    then have "length bg = length (pixels f)" by (auto simp: has_baseline_def split: option.splits)
    with compare_frame_keeps [OF compared(1) z assms(2) compared(2)] show ?thesis by blast
  qed
qed

lemma engine_ok_fresh: "engine_ok fresh_engine"
  by (simp add: engine_ok_def fresh_engine_def)

definition demo_frame :: "int \<Rightarrow> rat \<Rightarrow> analytics_frame" where
  "demo_frame v t = \<lparr>af_width = 2, af_height = 2, pixels = [v, v, v, v], af_timestamp = t\<rparr>"

definition no_options :: motion_options where
  "no_options = \<lparr>mo_sensitivity = None, mo_debounceMs = Some 0, mo_cooldownMs = None, mo_sceneThreshold = None,
     mo_sceneConfirmFrames = None, mo_sceneCooldownMs = None, mo_zones = None\<rparr>"

theorem detector_scores_unit_witness:
  "\<exists>r e'. evaluate no_options (demo_frame 200 1) fresh_engine = Inr (r, e') \<and> result_ok r \<and> engine_ok e'"
proof -
  have "frame_valid (demo_frame 200 1)" by (simp add: frame_valid_def demo_frame_def)
  moreover have "background (apply_zones no_options fresh_engine) = None"
    by (simp add: apply_zones_def fresh_engine_def Let_def)
  ultimately obtain r e' where ev: "evaluate no_options (demo_frame 200 1) fresh_engine = Inr (r, e')"
    by (auto simp: evaluate_def Let_def)
  have "byte_list (pixels (demo_frame 200 1))" by (simp add: byte_list_def demo_frame_def)
  from detector_scores_unit [OF engine_ok_fresh this ev] ev show ?thesis by blast
qed

end
