(* ===== verification/PersonDetector.thy ===== *)
theory PersonDetector
  imports JsValue
begin

text \<open>
  The person detector (\<open>personDetector.ts\<close>): the check of the model's manifest and digest, the
  letterboxed input tensor of 300 by 300 pixels, and the decoding of the network's outputs into boxes
  of the source frame.  The network itself (ONNX Runtime) and the transport are not modelled: the
  responses, the cache and the digest function are arguments, and the output tensors hold finite
  numbers.
\<close>

section \<open>Model loading\<close>

definition approved_id :: string where "approved_id = ''ssd-mobilenet-v1-12-person''"
definition approved_version :: string where "approved_version = ''onnx-model-zoo-4c46cd00''"
definition approved_file :: string where "approved_file = ''/models/ssd_mobilenet_v1_12.onnx''"
definition approved_sha256 :: string where
  "approved_sha256 = ''b8fba5e404077d4048d27fcd1667e85e27e192eb9bf51e696c46a3acd7d21058''"
definition approved_commit :: string where
  "approved_commit = ''4c46cd00fbdb7cd30b6c1c17ab54f2e1f4f7b177''"
definition approved_source :: string where
  "approved_source = ''https://media.githubusercontent.com/media/onnx/models/4c46cd00fbdb7cd30b6c1c17ab54f2e1f4f7b177/validated/vision/object_detection_segmentation/ssd-mobilenetv1/model/ssd_mobilenet_v1_12.onnx''"

definition str_lower :: "string \<Rightarrow> string" where
  "str_lower s = map lower_char s"

fun sha_ok :: "jsv \<Rightarrow> bool" where
  "sha_ok (JStr s) = (str_lower s = approved_sha256 \<and> in_class is_hex 64 64 s)"
| "sha_ok _ = False"

definition manifest_ok :: "jsv \<Rightarrow> bool" where
  "manifest_ok m =
     (field m ''schemaVersion'' = JInt 1 \<and> field m ''class'' = JStr ''person''
      \<and> field m ''id'' = JStr approved_id \<and> field m ''version'' = JStr approved_version
      \<and> field m ''file'' = JStr approved_file \<and> field m ''sourceCommit'' = JStr approved_commit
      \<and> field m ''source'' = JStr approved_source \<and> sha_ok (field m ''sha256'')
      \<and> field (field m ''input'') ''width'' = JInt 300 \<and> field (field m ''input'') ''height'' = JInt 300
      \<and> field (field m ''input'') ''layout'' = JStr ''NHWC'' \<and> field (field m ''input'') ''type'' = JStr ''uint8''
      \<and> field m ''license'' = JStr ''MIT'')"

datatype model_error = ManifestUnavailable | ManifestInvalid | ModelUnavailable | IntegrityFailed

text \<open>
  One load: the manifest response (\<open>None\<close> when it is not ok), the model response, the cached copy
  when the browser has a cache (\<open>Some None\<close>: a cache without the file) and the digest in
  lower-case hexadecimal.  The result carries the next content of the cache.
\<close>

definition loadVerifiedPersonModel ::
  "('b \<Rightarrow> string) \<Rightarrow> jsv option \<Rightarrow> 'b option \<Rightarrow> 'b option option
   \<Rightarrow> (model_error + 'b) \<times> 'b option option" where
  "loadVerifiedPersonModel sha256 manifest response cache =
     (case manifest of
        None \<Rightarrow> (Inl ManifestUnavailable, cache)
      | Some m \<Rightarrow>
          if \<not> manifest_ok m then (Inl ManifestInvalid, cache)
          else case (case response of Some b \<Rightarrow> Some b | None \<Rightarrow> Option.bind cache (\<lambda>c. c)) of
                 None \<Rightarrow> (Inl ModelUnavailable, cache)
               | Some bytes \<Rightarrow>
                   if str_lower (sha256 bytes) \<noteq> approved_sha256
                   then (Inl IntegrityFailed, map_option (\<lambda>_. None) cache)
                   else (Inr bytes, map_option (\<lambda>_. Some bytes) cache))"

text \<open>No model runs that is not the approved one: a successful load returns bytes with the approved
  digest, and after any load the cache holds nothing that failed the check, whatever the server or the
  cache delivered.\<close>

theorem model_integrity:
  "(\<forall>bytes. fst (loadVerifiedPersonModel sha256 manifest response cache) = Inr bytes
      \<longrightarrow> str_lower (sha256 bytes) = approved_sha256)
   \<and> (fst (loadVerifiedPersonModel sha256 manifest response cache) = Inl IntegrityFailed
      \<longrightarrow> Option.bind (snd (loadVerifiedPersonModel sha256 manifest response cache)) (\<lambda>c. c) = None)"
  by (cases cache) (auto simp: loadVerifiedPersonModel_def split: option.splits if_splits)

definition good_manifest :: jsv where
  "good_manifest = JObj [(''schemaVersion'', JInt 1), (''class'', JStr ''person''), (''id'', JStr approved_id),
     (''version'', JStr approved_version), (''file'', JStr approved_file), (''sourceCommit'', JStr approved_commit),
     (''source'', JStr approved_source), (''sha256'', JStr approved_sha256), (''license'', JStr ''MIT''),
     (''input'', JObj [(''width'', JInt 300), (''height'', JInt 300), (''layout'', JStr ''NHWC''), (''type'', JStr ''uint8'')])]"

lemma good_manifest_ok: "manifest_ok good_manifest"
  by code_simp

theorem model_integrity_witness:
  "fst (loadVerifiedPersonModel (\<lambda>b. if b = (7::nat) then approved_sha256 else []) (Some good_manifest) (Some 7) (Some None)) = Inr 7
   \<and> Option.bind (snd (loadVerifiedPersonModel (\<lambda>b. if b = (7::nat) then approved_sha256 else []) (Some good_manifest) (Some 8) (Some (Some 8)))) (\<lambda>c. c) = None"
proof -
  have s: "str_lower approved_sha256 = approved_sha256" by code_simp
  have e: "str_lower [] \<noteq> approved_sha256" by code_simp
  let ?sha = "\<lambda>b. if b = (7::nat) then approved_sha256 else []"
  have "fst (loadVerifiedPersonModel ?sha (Some good_manifest) (Some 8) (Some (Some 8))) = Inl IntegrityFailed"
    using e by (simp add: loadVerifiedPersonModel_def good_manifest_ok)
  with model_integrity [of ?sha "Some good_manifest" "Some 8" "Some (Some 8)"]
  have "Option.bind (snd (loadVerifiedPersonModel ?sha (Some good_manifest) (Some 8) (Some (Some 8)))) (\<lambda>c. c) = None"
    by blast
  moreover have "fst (loadVerifiedPersonModel ?sha (Some good_manifest) (Some 7) (Some None)) = Inr 7"
    by (simp add: loadVerifiedPersonModel_def good_manifest_ok s)
  ultimately show ?thesis by blast
qed

section \<open>The input tensor\<close>

definition MODEL_SIZE :: int where "MODEL_SIZE = 300"

record letterbox =
  lb_scale :: rat
  lb_offsetX :: rat
  lb_offsetY :: rat
  lb_width :: int
  lb_height :: int

definition scaled_side :: "int \<Rightarrow> rat \<Rightarrow> int" where
  "scaled_side n scale = max 1 (round_rat (of_int n * scale))"

definition letterboxTransform :: "int \<Rightarrow> int \<Rightarrow> letterbox option" where
  "letterboxTransform width height =
     (if width < 1 \<or> height < 1 then None
      else let scale = min (of_int MODEL_SIZE / of_int width) (of_int MODEL_SIZE / of_int height);
               w = scaled_side width scale; h = scaled_side height scale
           in Some \<lparr>lb_scale = scale, lb_offsetX = of_int (MODEL_SIZE - w) / 2,
                lb_offsetY = of_int (MODEL_SIZE - h) / 2, lb_width = w, lb_height = h\<rparr>)"

text \<open>The index pairs of the copying loop, row by row: where a pixel goes and where it comes from.\<close>

definition target_index :: "letterbox \<Rightarrow> int \<Rightarrow> int \<Rightarrow> int" where
  "target_index t x y =
     ((round_rat (lb_offsetY t) + y) * MODEL_SIZE + (round_rat (lb_offsetX t) + x)) * 3"

definition source_index :: "letterbox \<Rightarrow> int \<Rightarrow> int \<Rightarrow> int \<Rightarrow> int \<Rightarrow> int" where
  "source_index t width height x y =
     (min (height - 1) (y * height div lb_height t) * width + min (width - 1) (x * width div lb_width t)) * 4"

definition pixel_copies :: "letterbox \<Rightarrow> int \<Rightarrow> int \<Rightarrow> (int \<times> int) list" where
  "pixel_copies t width height =
     concat (map (\<lambda>y. map (\<lambda>x. (target_index t x y, source_index t width height x y)) [0..lb_width t - 1])
       [0..lb_height t - 1])"

definition copy_pixel :: "int list \<Rightarrow> int \<times> int \<Rightarrow> int list \<Rightarrow> int list" where
  "copy_pixel rgba c data = (case c of (t, s) \<Rightarrow>
     data[nat t := rgba ! nat s, nat (t + 1) := rgba ! nat (s + 1), nat (t + 2) := rgba ! nat (s + 2)])"

definition inputTensor :: "int list \<Rightarrow> int \<Rightarrow> int \<Rightarrow> (int list \<times> letterbox) option" where
  "inputTensor rgba width height =
     (case letterboxTransform width height of
        None \<Rightarrow> None
      | Some t \<Rightarrow> Some (fold (copy_pixel rgba) (pixel_copies t width height)
          (replicate (nat (MODEL_SIZE * MODEL_SIZE * 3)) 114), t))"

section \<open>Decoding\<close>

record person_box =
  pb_x :: rat
  pb_y :: rat
  pb_width :: rat
  pb_height :: rat
  pb_confidence :: rat

definition at0 :: "rat list \<Rightarrow> nat \<Rightarrow> rat" where
  "at0 xs i = (if i < length xs then xs ! i else 0)"

definition decode_box :: "letterbox \<Rightarrow> rat list \<Rightarrow> rat \<Rightarrow> nat \<Rightarrow> person_box" where
  "decode_box t bs score i =
     (let top = clamp (at0 bs (i * 4)) 0 1 * of_int MODEL_SIZE;
          left = clamp (at0 bs (i * 4 + 1)) 0 1 * of_int MODEL_SIZE;
          bottom = clamp (at0 bs (i * 4 + 2)) 0 1 * of_int MODEL_SIZE;
          right = clamp (at0 bs (i * 4 + 3)) 0 1 * of_int MODEL_SIZE;
          sourceLeft = clamp ((left - lb_offsetX t) / of_int (lb_width t)) 0 1;
          sourceTop = clamp ((top - lb_offsetY t) / of_int (lb_height t)) 0 1;
          sourceRight = clamp ((right - lb_offsetX t) / of_int (lb_width t)) sourceLeft 1;
          sourceBottom = clamp ((bottom - lb_offsetY t) / of_int (lb_height t)) sourceTop 1
      in \<lparr>pb_x = sourceLeft, pb_y = sourceTop, pb_width = sourceRight - sourceLeft,
          pb_height = sourceBottom - sourceTop, pb_confidence = clamp score 0 1\<rparr>)"

text \<open>The loop stops at the limit, right after the box that reaches it.\<close>

fun collect :: "letterbox \<Rightarrow> rat list \<Rightarrow> rat list \<Rightarrow> rat list \<Rightarrow> rat \<Rightarrow> nat \<Rightarrow> nat list \<Rightarrow> person_box list \<Rightarrow> person_box list" where
  "collect t bs scores classes threshold limit [] acc = acc"
| "collect t bs scores classes threshold limit (i # is) acc =
     (if at0 classes i \<noteq> 1 \<or> at0 scores i < threshold then collect t bs scores classes threshold limit is acc
      else let acc' = acc @ [decode_box t bs (at0 scores i) i]
           in if length acc' \<ge> limit then acc' else collect t bs scores classes threshold limit is acc')"

definition normal_name :: "string \<Rightarrow> string" where
  "normal_name s = map (\<lambda>c. if c = CHR ''-'' then CHR ''_'' else c) (str_lower s)"

definition outputName :: "string list \<Rightarrow> string list \<Rightarrow> string option" where
  "outputName names parts = find (\<lambda>n. list_ex (\<lambda>p. has_sub p (normal_name n)) parts) names"

definition tensor_of :: "(string \<times> rat list) list \<Rightarrow> string \<Rightarrow> rat list" where
  "tensor_of outputs name = (case map_of outputs name of None \<Rightarrow> [] | Some xs \<Rightarrow> xs)"

definition decode_count :: "rat list \<Rightarrow> nat" where
  "decode_count counts = nat \<lceil>min (at0 counts 0) 100\<rceil>"

definition box_limit :: "jsv \<Rightarrow> nat" where
  "box_limit maxBoxes = (case as_int maxBoxes of Some m \<Rightarrow> nat (min 16 (max 1 m)) | None \<Rightarrow> 16)"

text \<open>\<open>None\<close> is the error of a frame without dimensions; an empty name is a missing one.\<close>

definition decodePersonOutputs ::
  "(string \<times> rat list) list \<Rightarrow> string list \<Rightarrow> int \<Rightarrow> int \<Rightarrow> rat \<Rightarrow> jsv \<Rightarrow> person_box list option" where
  "decodePersonOutputs outputs names width height threshold maxBoxes =
     (case (outputName names [''num_detections'', ''detection_count'', ''count''],
            outputName names [''detection_boxes'', ''boxes''],
            outputName names [''detection_scores'', ''scores''],
            outputName names [''detection_classes'', ''classes'']) of
        (Some cn, Some bn, Some sn, Some kn) \<Rightarrow>
          if cn = [] \<or> bn = [] \<or> sn = [] \<or> kn = [] then Some []
          else (case letterboxTransform width height of
            None \<Rightarrow> None
          | Some t \<Rightarrow>
              Some (collect t (tensor_of outputs bn) (tensor_of outputs sn) (tensor_of outputs kn)
                threshold (box_limit maxBoxes) [0..<decode_count (tensor_of outputs cn)] []))
      | _ \<Rightarrow> Some [])"

text \<open>The guard of \<open>inferPersonsWithSession\<close> before the network runs.\<close>

definition person_policy_ok :: "jsnum \<Rightarrow> jsv \<Rightarrow> bool" where
  "person_policy_ok threshold maxBoxes =
     ((case threshold of Fin r \<Rightarrow> 5 / 100 \<le> r \<and> r \<le> 1 | _ \<Rightarrow> False)
      \<and> (case as_int maxBoxes of Some m \<Rightarrow> 1 \<le> m \<and> m \<le> 16 | None \<Rightarrow> False))"


section \<open>Facts\<close>

lemma scaled_side_range:
  assumes "1 \<le> n" "0 \<le> scale" "scale \<le> of_int MODEL_SIZE / of_int n"
  shows "1 \<le> scaled_side n scale \<and> scaled_side n scale \<le> 300"
proof -
  have "of_int n * scale \<le> of_int 300"
    using assms by (simp add: MODEL_SIZE_def le_divide_eq mult.commute)
  then have "round_rat (of_int n * scale) \<le> 300"
    using round_rat_mono round_rat_of_int by metis
  then show ?thesis by (simp add: scaled_side_def)
qed

lemma letterbox_ranges:
  assumes "letterboxTransform width height = Some t"
  shows "1 \<le> width" "1 \<le> height" "1 \<le> lb_width t" "lb_width t \<le> 300" "1 \<le> lb_height t" "lb_height t \<le> 300"
    "lb_offsetX t = of_int (300 - lb_width t) / 2" "lb_offsetY t = of_int (300 - lb_height t) / 2"
proof -
  have w: "1 \<le> width" "1 \<le> height" using assms by (auto simp: letterboxTransform_def split: if_splits)
  then show "1 \<le> width" "1 \<le> height" .
  define scale where "scale = min (rat_of_int MODEL_SIZE / of_int width) (of_int MODEL_SIZE / of_int height)"
  have s0: "0 \<le> scale" using w by (simp add: scale_def MODEL_SIZE_def)
  have t: "t = \<lparr>lb_scale = scale, lb_offsetX = of_int (MODEL_SIZE - scaled_side width scale) / 2,
      lb_offsetY = of_int (MODEL_SIZE - scaled_side height scale) / 2,
      lb_width = scaled_side width scale, lb_height = scaled_side height scale\<rparr>"
    using assms w by (simp add: letterboxTransform_def scale_def [symmetric] Let_def)
  have "scale \<le> of_int MODEL_SIZE / of_int width" "scale \<le> of_int MODEL_SIZE / of_int height"
    by (simp_all add: scale_def)
  with scaled_side_range [OF w(1) s0] scaled_side_range [OF w(2) s0]
  show "1 \<le> lb_width t" "lb_width t \<le> 300" "1 \<le> lb_height t" "lb_height t \<le> 300" by (simp_all add: t)
  show "lb_offsetX t = of_int (300 - lb_width t) / 2" "lb_offsetY t = of_int (300 - lb_height t) / 2"
    by (simp_all add: t MODEL_SIZE_def)
qed

text \<open>A centred run of \<open>n\<close> cells in 300, its offset rounded half up, stays in range.\<close>

lemma centred_range:
  assumes "1 \<le> n" "n \<le> 300" "0 \<le> x" "x < n"
  shows "0 \<le> round_rat (of_int (300 - n) / 2) + x \<and> round_rat (of_int (300 - n) / 2) + x \<le> 299"
proof -
  have "round_rat (of_int (300 - n) / 2) = (301 - n) div 2"
  proof -
    have "round_rat (of_int (300 - n) / 2) = \<lfloor>rat_of_int (301 - n) / rat_of_int 2\<rfloor>"
      by (simp add: round_rat_def add_divide_distrib [symmetric])
    then show ?thesis by (simp only: floor_divide_of_int_eq)
  qed
  then show ?thesis using assms by linarith
qed

lemma source_range:
  assumes "1 \<le> n" "1 \<le> m" "0 \<le> x"
  shows "0 \<le> min (n - 1) (x * n div m) \<and> min (n - 1) (x * n div m) \<le> n - (1::int)"
  using assms by (auto simp: pos_imp_zdiv_nonneg_iff)

text \<open>The letterboxing never reads or writes out of bounds: for every frame size each copied pixel
  lands inside the 300 by 300 tensor and comes from inside the frame's four-channel buffer.\<close>

theorem letterbox_indices_in_bounds:
  assumes "letterboxTransform width height = Some t" "(d, s) \<in> set (pixel_copies t width height)"
  shows "0 \<le> d \<and> d + 2 < MODEL_SIZE * MODEL_SIZE * 3 \<and> 0 \<le> s \<and> s + 3 < width * height * 4"
proof -
  note r = letterbox_ranges [OF assms(1)]
  obtain x y where xy: "0 \<le> x" "x < lb_width t" "0 \<le> y" "y < lb_height t"
    and d: "d = target_index t x y" and s: "s = source_index t width height x y"
    using assms(2) by (auto simp: pixel_copies_def)
  define c where "c = round_rat (lb_offsetX t) + x"
  define e where "e = round_rat (lb_offsetY t) + y"
  have c: "0 \<le> c \<and> c \<le> 299" unfolding c_def r(7) using centred_range [OF r(3,4) xy(1,2)] by simp
  have e: "0 \<le> e \<and> e \<le> 299" unfolding e_def r(8) using centred_range [OF r(5,6) xy(3,4)] by simp
  have dd: "d = (e * 300 + c) * 3" by (simp add: d target_index_def MODEL_SIZE_def c_def e_def)
  define p where "p = min (width - 1) (x * width div lb_width t)"
  define q where "q = min (height - 1) (y * height div lb_height t)"
  have p: "0 \<le> p" "p \<le> width - 1" unfolding p_def using source_range [OF r(1,3) xy(1)] by blast+
  have q: "0 \<le> q" "q \<le> height - 1" unfolding q_def using source_range [OF r(2,5) xy(3)] by blast+
  have ss: "s = (q * width + p) * 4" by (simp add: s source_index_def p_def q_def)
  have "q * width \<le> (height - 1) * width" using q r(1) by (intro mult_right_mono) auto
  then have "q * width + p \<le> (height - 1) * width + (width - 1)" using p by linarith
  also have "\<dots> = width * height - 1" by (simp add: algebra_simps)
  finally have "q * width + p \<le> width * height - 1" .
  moreover have "0 \<le> q * width + p" using p q r(1) by simp
  ultimately show ?thesis using c e by (simp add: dd ss MODEL_SIZE_def)
qed

theorem letterbox_indices_in_bounds_witness:
  "\<exists>t. letterboxTransform 640 480 = Some t \<and>
     0 \<le> target_index t 3 2 \<and> target_index t 3 2 + 2 < MODEL_SIZE * MODEL_SIZE * 3"
proof -
  obtain t where t: "letterboxTransform 640 480 = Some t" "lb_width t = 300" "lb_height t = 225"
    by (simp add: letterboxTransform_def scaled_side_def MODEL_SIZE_def round_rat_def Let_def floor_eq_iff)
  then have "(target_index t 3 2, source_index t 640 480 3 2) \<in> set (pixel_copies t 640 480)"
    by (auto simp: pixel_copies_def intro!: bexI [of _ 2] image_eqI [of _ _ 3])
  from letterbox_indices_in_bounds [OF t(1) this] t(1) show ?thesis by blast
qed

definition person_box_ok :: "person_box \<Rightarrow> bool" where
  "person_box_ok b = (0 \<le> pb_x b \<and> 0 \<le> pb_y b \<and> 0 \<le> pb_width b \<and> 0 \<le> pb_height b
     \<and> pb_x b + pb_width b \<le> 1 \<and> pb_y b + pb_height b \<le> 1
     \<and> 0 \<le> pb_confidence b \<and> pb_confidence b \<le> 1)"

lemma decode_box_ok: "person_box_ok (decode_box t bs score i)"
proof -
  have span: "0 \<le> clamp a 0 1 \<and> 0 \<le> clamp b (clamp a 0 1) 1 - clamp a 0 1
      \<and> clamp a 0 1 + (clamp b (clamp a 0 1) 1 - clamp a 0 1) \<le> 1" for a b :: rat
    using clamp_bounds [of 0 1 a] clamp_bounds [of "clamp a 0 1" 1 b] by simp
  show ?thesis
    unfolding person_box_ok_def decode_box_def Let_def person_box.select_convs
    using span by (meson clamp_bounds zero_le_one)
qed

definition kept_box :: "rat \<Rightarrow> person_box \<Rightarrow> bool" where
  "kept_box threshold b = (person_box_ok b \<and> min threshold 1 \<le> pb_confidence b)"

lemma decode_kept: "threshold \<le> score \<Longrightarrow> kept_box threshold (decode_box t bs score i)"
  unfolding kept_box_def by (simp add: decode_box_ok) (simp add: decode_box_def Let_def clamp_def min_def max_def)

lemma collect_props:
  assumes "length acc < limit" "\<forall>b \<in> set acc. kept_box threshold b"
  shows "length (collect t bs scores classes threshold limit is acc) \<le> limit
    \<and> (\<forall>b \<in> set (collect t bs scores classes threshold limit is acc). kept_box threshold b)"
  using assms
proof (induction "is" arbitrary: acc)
  case (Cons i "is")
  let ?acc = "acc @ [decode_box t bs (at0 scores i) i]"
  show ?case
  proof (cases "at0 classes i \<noteq> 1 \<or> at0 scores i < threshold")
    case True
    with Cons.IH [OF Cons.prems] show ?thesis by simp
  next
    case False
    then have ok: "\<forall>b \<in> set ?acc. kept_box threshold b" using Cons.prems(2) decode_kept by auto
    show ?thesis
    proof (cases "length ?acc \<ge> limit")
      case True
      have "collect t bs scores classes threshold limit (i # is) acc = ?acc"
        using False True by (simp add: Let_def)
      with ok Cons.prems(1) show ?thesis by simp
    next
      case less: False
      have "collect t bs scores classes threshold limit (i # is) acc = collect t bs scores classes threshold limit is ?acc"
        using False less by (simp add: Let_def)
      moreover have "length ?acc < limit" using less by simp
      ultimately show ?thesis using Cons.IH [OF _ ok] by simp
    qed
  qed
qed simp

text \<open>Whatever the network answers, the detector reports at most sixteen boxes (or the smaller limit
  asked for), each inside the frame, with a confidence between 0 and 1 that reaches the threshold.\<close>

theorem person_boxes_ok:
  assumes "decodePersonOutputs outputs names width height threshold maxBoxes = Some boxes"
  shows "length boxes \<le> box_limit maxBoxes \<and> box_limit maxBoxes \<le> 16
    \<and> (\<forall>b \<in> set boxes. person_box_ok b \<and> min threshold 1 \<le> pb_confidence b)"
proof -
  have lim: "0 < box_limit maxBoxes" "box_limit maxBoxes \<le> 16" by (auto simp: box_limit_def split: option.split)
  consider "boxes = []" | t bs ss ks "is" where "boxes = collect t bs ss ks threshold (box_limit maxBoxes) is []"
    using assms unfolding decodePersonOutputs_def by (simp split: option.splits if_splits) blast+
  then have "length boxes \<le> box_limit maxBoxes \<and> (\<forall>b \<in> set boxes. kept_box threshold b)"
    using collect_props [of "[]" "box_limit maxBoxes" threshold] lim(1) by cases auto
  with lim(2) show ?thesis by (auto simp: kept_box_def)
qed

definition demo_outputs :: "(string \<times> rat list) list" where
  "demo_outputs = [(''num_detections'', [1]), (''detection_boxes'', [1 / 4, 1 / 4, 3 / 4, 3 / 4]),
     (''detection_scores'', [9 / 10]), (''detection_classes'', [1])]"

theorem person_boxes_ok_witness:
  "\<exists>boxes. decodePersonOutputs demo_outputs (map fst demo_outputs) 300 300 (6 / 10) (JInt 16) = Some boxes
     \<and> length boxes = 1 \<and> box_limit (JInt 16) \<le> 16 \<and> (\<forall>b \<in> set boxes. person_box_ok b)"
proof -
  let ?d = "decodePersonOutputs demo_outputs (map fst demo_outputs) 300 300 (6 / 10) (JInt 16)"
  have "map_option length ?d = Some 1" by code_simp
  then obtain boxes where b: "?d = Some boxes" "length boxes = 1" by auto
  from person_boxes_ok [OF b(1)] b show ?thesis by blast
qed

end
