(* ===== verification/AnalyticsRuntime.thy ===== *)
theory AnalyticsRuntime
  imports AnalyticsBudget MotionEngine
begin

text \<open>
  The analytics runtime of one tile (\<open>analyticsRuntime.ts\<close>): it starts and stops its workers,
  samples the video and posts frames to them under the shared budget.  The browser's answers (is the
  video ready, is the tile visible, which pixels were read) are the fields of \<open>capture_env\<close>; what
  it does to the workers and its callbacks is the list of effects.  Timers are a flag: whether one is
  armed.
\<close>

datatype analytics_state = IdleState | RunningState | UnsupportedState | ErrorState | SuspendedState

datatype status_reason =
    NoReason | Disabled | WorkerUnavailable | CredentialedMedia | BrowserWorker | WorkerMessage string
  | WorkerFailed | PersonWorkerFailed | StoppedReason | LowPowerReason | CanvasUnavailable
  | PixelAccessDenied | FrameCaptureFailed

record analytics_policy =
  motionEnabled :: bool
  sceneChangeEnabled :: bool
  personEnabled :: bool
  force_always :: bool
  motionFps :: "rat option"
  personFps :: "rat option"
  frame_options :: motion_options
  personThreshold :: "rat option"
  personMaxBoxes :: "nat option"

record analytics_status =
  st_state :: analytics_state
  st_reason :: status_reason
  st_sampleFps :: rat
  st_lastSignalAt :: rat

record runtime =
  rt_worker :: bool
  rt_personWorker :: bool
  personBusy :: bool
  rt_canvas :: bool
  rt_timer :: bool
  frameCallback :: bool
  videoFrameCallback :: bool
  captureIntervalMs :: rat
  stopped :: bool
  lastFrameAt :: rat
  lastPersonFrameAt :: rat
  lastSignalAt :: rat
  rt_status :: analytics_status

datatype effect =
    PostFrame int "int list" motion_options
  | PostPersonFrame int "int list" rat nat
  | ResetWorkers
  | EmitSignal engine_signal
  | EmitStatus analytics_status

definition new_runtime :: runtime where
  "new_runtime = \<lparr>rt_worker = False, rt_personWorker = False, personBusy = False, rt_canvas = False,
     rt_timer = False, frameCallback = False, videoFrameCallback = False, captureIntervalMs = 500,
     stopped = True, lastFrameAt = 0, lastPersonFrameAt = 0, lastSignalAt = 0,
     rt_status = \<lparr>st_state = IdleState, st_reason = NoReason, st_sampleFps = 0, st_lastSignalAt = 0\<rparr>\<rparr>"

definition update_status ::
  "analytics_policy \<Rightarrow> analytics_state \<Rightarrow> status_reason \<Rightarrow> runtime \<Rightarrow> runtime \<times> effect list" where
  "update_status p st reason r =
     (let configured = (if motionEnabled p then opt_num (motionFps p) 2 else opt_num (personFps p) 1);
          status = \<lparr>st_state = st, st_reason = reason, st_sampleFps = clamp configured (1 / 10) 5,
            st_lastSignalAt = lastSignalAt r\<rparr>
      in (r\<lparr>rt_status := status\<rparr>, [EmitStatus status]))"

definition stop :: "analytics_policy \<Rightarrow> runtime \<Rightarrow> runtime \<times> effect list" where
  "stop p r =
     (let resets = (if rt_worker r \<or> rt_personWorker r then [ResetWorkers] else []);
          r' = r\<lparr>stopped := True, rt_timer := False, frameCallback := False, videoFrameCallback := False,
            lastPersonFrameAt := 0, rt_worker := False, rt_canvas := False, rt_personWorker := False,
            personBusy := False\<rparr>
      in if st_state (rt_status r') = RunningState
         then (case update_status p IdleState StoppedReason r' of (r'', es) \<Rightarrow> (r'', resets @ es))
         else (r', resets))"

text \<open>What one capture finds: the pixels are \<open>Inr\<close>, or the read failed (\<open>Inl True\<close> for a security error).\<close>

record capture_env =
  video_ready :: bool
  tile_visible :: bool
  tile_lowPower :: bool
  capture_now :: rat
  has_context :: bool
  video_width :: rat
  video_height :: rat
  pixel_read :: "bool + int list"
  tile_zones :: "zone list option"

definition MAX_DIMENSION :: int where "MAX_DIMENSION = 160"

definition capture_height :: "capture_env \<Rightarrow> int" where
  "capture_height env =
     (let aspect = (if 0 < video_width env \<and> 0 < video_height env then video_width env / video_height env else 16 / 9)
      in max 2 (min MAX_DIMENSION (round_rat (of_int MAX_DIMENSION / aspect))))"

definition sent_options :: "analytics_policy \<Rightarrow> capture_env \<Rightarrow> motion_options" where
  "sent_options p env = \<lparr>mo_sensitivity = Some (opt_num (mo_sensitivity (frame_options p)) (15 / 100)),
     mo_debounceMs = Some (opt_num (mo_debounceMs (frame_options p)) 500),
     mo_cooldownMs = Some (opt_num (mo_cooldownMs (frame_options p)) 5000),
     mo_sceneThreshold = Some (opt_num (mo_sceneThreshold (frame_options p)) (55 / 100)),
     mo_sceneConfirmFrames = Some (opt_num (mo_sceneConfirmFrames (frame_options p)) 2),
     mo_sceneCooldownMs = Some (opt_num (mo_sceneCooldownMs (frame_options p)) 30000),
     mo_zones = tile_zones env\<rparr>"

text \<open>Posting to the person worker, after the frame went to the motion worker.\<close>

definition capture_person ::
  "analytics_policy \<Rightarrow> analytics_priority \<Rightarrow> capture_env \<Rightarrow> int list \<Rightarrow> runtime \<Rightarrow> scheduler
   \<Rightarrow> runtime \<times> scheduler \<times> effect list" where
  "capture_person p prio env rgba r s =
     (let now = capture_now env; personInterval = 1000 / clamp (opt_num (personFps p) 1) (1 / 10) 5
      in if rt_personWorker r \<and> \<not> personBusy r \<and> now - lastPersonFrameAt r \<ge> personInterval - 4 then
           (case requestAnalyticsSlot PersonWork prio now s of
              (False, s') \<Rightarrow> (r, s', [])
            | (True, s') \<Rightarrow> (r\<lparr>personBusy := True, lastPersonFrameAt := now\<rparr>, s',
                [PostPersonFrame (capture_height env) rgba (opt_num (personThreshold p) (6 / 10))
                   (case personMaxBoxes p of None \<Rightarrow> 16 | Some m \<Rightarrow> m)]))
         else (r, s, []))"

definition capture_frame ::
  "analytics_policy \<Rightarrow> analytics_priority \<Rightarrow> capture_env \<Rightarrow> runtime \<Rightarrow> scheduler
   \<Rightarrow> runtime \<times> scheduler \<times> effect list" where
  "capture_frame p prio env r s =
     (let now = capture_now env in
      if now - lastFrameAt r < max 50 (captureIntervalMs r - 4) then (r, s, [])
      else case requestAnalyticsSlot FrameWork prio now s of
        (False, s') \<Rightarrow> (r, s', [])
      | (True, s') \<Rightarrow>
          (let r1 = r\<lparr>lastFrameAt := now\<rparr> in
           if \<not> has_context env then
             (case update_status p UnsupportedState CanvasUnavailable r1 of (r2, es) \<Rightarrow> (r2, s', es))
           else case pixel_read env of
             Inl security \<Rightarrow>
               (case update_status p UnsupportedState (if security then PixelAccessDenied else FrameCaptureFailed) r1 of
                  (r2, es) \<Rightarrow> (r2, s', es))
           | Inr rgba \<Rightarrow>
               (case capture_person p prio env rgba r1 s' of
                  (r2, s2, es) \<Rightarrow>
                    (r2, s2, (if rt_worker r1 then [PostFrame (capture_height env) (luma rgba) (sent_options p env)] else []) @ es))))"

definition capture ::
  "analytics_policy \<Rightarrow> analytics_priority \<Rightarrow> capture_env \<Rightarrow> runtime \<Rightarrow> scheduler
   \<Rightarrow> runtime \<times> scheduler \<times> effect list" where
  "capture p prio env r s =
     (if stopped r \<or> \<not> rt_canvas r \<or> \<not> video_ready env \<or> \<not> tile_visible env then (r, s, [])
      else if tile_lowPower env \<and> \<not> force_always p then
        (if st_state (rt_status r) \<noteq> SuspendedState
         then (case update_status p SuspendedState LowPowerReason r of (r', es) \<Rightarrow> (r', s, es))
         else (r, s, []))
      else (case (if st_state (rt_status r) = SuspendedState then update_status p RunningState BrowserWorker r else (r, [])) of
              (r1, es) \<Rightarrow> (case capture_frame p prio env r1 s of (r2, s', es') \<Rightarrow> (r2, s', es @ es'))))"

record start_env =
  worker_available :: bool
  credentialed :: bool
  has_frame_callback :: bool

text \<open>\<open>queue()\<close>: ask for one video frame per sample, or try again later while the tile is hidden.\<close>

definition queue_frame :: "bool \<Rightarrow> runtime \<Rightarrow> runtime" where
  "queue_frame visible r =
     (if stopped r \<or> \<not> videoFrameCallback r \<or> frameCallback r then r
      else if \<not> visible then r\<lparr>rt_timer := True\<rparr> else r\<lparr>frameCallback := True\<rparr>)"

definition sample_interval :: "analytics_policy \<Rightarrow> rat" where
  "sample_interval p =
     1000 / clamp (if personEnabled p \<and> \<not> motionEnabled p then opt_num (personFps p) 1 else opt_num (motionFps p) 2) (1 / 2) 5"

definition start ::
  "analytics_policy \<Rightarrow> analytics_priority \<Rightarrow> start_env \<Rightarrow> capture_env \<Rightarrow> runtime \<Rightarrow> scheduler
   \<Rightarrow> runtime \<times> scheduler \<times> effect list" where
  "start p prio senv env r s =
     (case stop p r of (r0, es0) \<Rightarrow>
        if \<not> motionEnabled p \<and> \<not> sceneChangeEnabled p \<and> \<not> personEnabled p then
          (case update_status p IdleState Disabled r0 of (r1, es1) \<Rightarrow> (r1, s, es0 @ es1))
        else if \<not> worker_available senv then
          (case update_status p UnsupportedState WorkerUnavailable r0 of (r1, es1) \<Rightarrow> (r1, s, es0 @ es1))
        else if credentialed senv then
          (case update_status p UnsupportedState CredentialedMedia r0 of (r1, es1) \<Rightarrow> (r1, s, es0 @ es1))
        else
          (case update_status p RunningState BrowserWorker
                  (r0\<lparr>rt_worker := (motionEnabled p \<or> sceneChangeEnabled p), rt_personWorker := personEnabled p,
                      rt_canvas := True, stopped := False\<rparr>) of
             (r1, es1) \<Rightarrow>
               (let r2 = r1\<lparr>captureIntervalMs := sample_interval p, videoFrameCallback := has_frame_callback senv\<rparr>;
                    r3 = (if has_frame_callback senv then queue_frame (tile_visible env) r2 else r2\<lparr>rt_timer := True\<rparr>)
                in case capture p prio env r3 s of (r4, s', es2) \<Rightarrow> (r4, s', es0 @ es1 @ es2))))"

definition video_frame ::
  "analytics_policy \<Rightarrow> analytics_priority \<Rightarrow> capture_env \<Rightarrow> runtime \<Rightarrow> scheduler
   \<Rightarrow> runtime \<times> scheduler \<times> effect list" where
  "video_frame p prio env r s =
     (if \<not> frameCallback r then (r, s, [])
      else case capture p prio env (r\<lparr>frameCallback := False\<rparr>) s of
        (r', s', es) \<Rightarrow> (if stopped r' then r' else r'\<lparr>rt_timer := True\<rparr>, s', es))"

definition wanted_signal :: "analytics_policy \<Rightarrow> engine_signal \<Rightarrow> bool" where
  "wanted_signal p x = (case es_kind x of MotionSignal \<Rightarrow> motionEnabled p | SceneChangeSignal \<Rightarrow> sceneChangeEnabled p)"

text \<open>Messages of the motion worker and of the person worker.\<close>

definition worker_result :: "analytics_policy \<Rightarrow> engine_signal list \<Rightarrow> runtime \<Rightarrow> runtime \<times> effect list" where
  "worker_result p xs r =
     (let kept = filter (wanted_signal p) xs
      in (if kept = [] then r else r\<lparr>lastSignalAt := es_at (last kept)\<rparr>, map EmitSignal kept))"

definition worker_error :: "analytics_policy \<Rightarrow> status_reason \<Rightarrow> runtime \<Rightarrow> runtime \<times> effect list" where
  "worker_error p reason r = update_status p ErrorState reason r"

definition person_error :: "analytics_policy \<Rightarrow> status_reason \<Rightarrow> runtime \<Rightarrow> runtime \<times> effect list" where
  "person_error p reason r = update_status p ErrorState reason (r\<lparr>personBusy := False\<rparr>)"

definition person_result :: "runtime \<Rightarrow> runtime \<times> effect list" where
  "person_result r = (r\<lparr>personBusy := False\<rparr>, [])"

text \<open>Everything that can happen to a runtime.\<close>

datatype rt_event =
    Start start_env capture_env | Stop | CaptureTick capture_env | QueueTick bool | VideoFrame capture_env
  | MotionResult "engine_signal list" | WorkerErr status_reason | PersonResult | PersonErr status_reason

fun rt_step :: "analytics_policy \<Rightarrow> analytics_priority \<Rightarrow> runtime \<times> scheduler \<Rightarrow> rt_event
    \<Rightarrow> (runtime \<times> scheduler) \<times> effect list" where
  "rt_step p prio (r, s) (Start se env) = (case start p prio se env r s of (r', s', es) \<Rightarrow> ((r', s'), es))"
| "rt_step p prio (r, s) Stop = (case stop p r of (r', es) \<Rightarrow> ((r', s), es))"
| "rt_step p prio (r, s) (CaptureTick env) = (case capture p prio env r s of (r', s', es) \<Rightarrow> ((r', s'), es))"
| "rt_step p prio (r, s) (QueueTick v) = ((queue_frame v r, s), [])"
| "rt_step p prio (r, s) (VideoFrame env) = (case video_frame p prio env r s of (r', s', es) \<Rightarrow> ((r', s'), es))"
| "rt_step p prio (r, s) (MotionResult xs) = (case worker_result p xs r of (r', es) \<Rightarrow> ((r', s), es))"
| "rt_step p prio (r, s) (WorkerErr reason) = (case worker_error p reason r of (r', es) \<Rightarrow> ((r', s), es))"
| "rt_step p prio (r, s) PersonResult = (case person_result r of (r', es) \<Rightarrow> ((r', s), es))"
| "rt_step p prio (r, s) (PersonErr reason) = (case person_error p reason r of (r', es) \<Rightarrow> ((r', s), es))"

section \<open>Invariant\<close>

text \<open>A stopped runtime holds no worker, no canvas and no callback; a running one samples at the
  interval of its policy; it never posts to a worker it does not have.\<close>

definition rt_inv :: "analytics_policy \<Rightarrow> runtime \<Rightarrow> bool" where
  "rt_inv p r = ((if stopped r then \<not> rt_worker r \<and> \<not> rt_personWorker r \<and> \<not> rt_canvas r \<and> \<not> frameCallback r
         \<and> \<not> videoFrameCallback r
       else captureIntervalMs r = sample_interval p \<and> rt_worker r = (motionEnabled p \<or> sceneChangeEnabled p)
         \<and> rt_personWorker r = personEnabled p)
     \<and> (personBusy r \<longrightarrow> rt_personWorker r))"

definition frames_of :: "effect list \<Rightarrow> effect list" where
  "frames_of es = filter (\<lambda>e. case e of PostFrame _ _ _ \<Rightarrow> True | PostPersonFrame _ _ _ _ \<Rightarrow> True | _ \<Rightarrow> False) es"

lemma frames_of_append [simp]: "frames_of (a @ b) = frames_of a @ frames_of b"
  by (simp add: frames_of_def)

lemma update_status_frames: "update_status p st reason r = (r', es) \<Longrightarrow> frames_of es = [] \<and> r' = r\<lparr>rt_status := rt_status r'\<rparr>"
  by (auto simp: update_status_def Let_def frames_of_def)

lemma stop_inv: "stop p r = (r', es) \<Longrightarrow> rt_inv p r' \<and> stopped r' \<and> frames_of es = [] \<and> lastFrameAt r' = lastFrameAt r"
  by (auto simp: stop_def Let_def rt_inv_def update_status_def frames_of_def split: if_splits)

lemma capture_person_inv:
  assumes "capture_person p prio env rgba r s = (r', s', es)" "rt_inv p r"
  shows "rt_inv p r' \<and> lastFrameAt r' = lastFrameAt r \<and> stopped r' = stopped r \<and> rt_timer r' = rt_timer r"
  using assms unfolding capture_person_def Let_def
  by (auto simp: rt_inv_def split: if_splits prod.splits bool.splits)


definition frame_gap :: "analytics_policy \<Rightarrow> rat" where
  "frame_gap p = max 50 (sample_interval p - 4)"

definition posts_frame :: "effect list \<Rightarrow> bool" where
  "posts_frame es = list_ex (\<lambda>e. case e of PostFrame _ _ _ \<Rightarrow> True | _ \<Rightarrow> False) es"

lemma posts_frame_append [simp]: "posts_frame (a @ b) = (posts_frame a \<or> posts_frame b)"
  by (simp add: posts_frame_def)

lemma posts_frame_Nil [simp]: "\<not> posts_frame []"
  by (simp add: posts_frame_def)

lemma update_status_facts:
  assumes "update_status p st reason r = (r', es)"
  shows "rt_inv p r' = rt_inv p r" "stopped r' = stopped r" "lastFrameAt r' = lastFrameAt r" "\<not> posts_frame es"
    "captureIntervalMs r' = captureIntervalMs r" "rt_canvas r' = rt_canvas r" "frameCallback r' = frameCallback r"
  using assms by (auto simp: update_status_def Let_def rt_inv_def posts_frame_def)

lemma rt_inv_timer [simp]: "rt_inv p (r\<lparr>rt_timer := b\<rparr>) = rt_inv p r"
  by (simp add: rt_inv_def)

text \<open>What one capture can do to the sampling clock.\<close>

definition clock_step :: "analytics_policy \<Rightarrow> rat \<Rightarrow> runtime \<Rightarrow> runtime \<Rightarrow> effect list \<Rightarrow> bool" where
  "clock_step p now r r' es =
     ((lastFrameAt r' = lastFrameAt r \<and> \<not> posts_frame es)
      \<or> (lastFrameAt r + frame_gap p \<le> now \<and> lastFrameAt r' = now))"

lemma capture_frame_facts:
  assumes "capture_frame p prio env r s = (r', s', es)" "rt_inv p r" "\<not> stopped r"
  shows "rt_inv p r' \<and> \<not> stopped r' \<and> clock_step p (capture_now env) r r' es"
proof -
  let ?now = "capture_now env" and ?r1 = "r\<lparr>lastFrameAt := capture_now env\<rparr>"
  have inv1: "rt_inv p ?r1" "\<not> stopped ?r1" using assms(2,3) by (auto simp: rt_inv_def)
  have gap: "max 50 (captureIntervalMs r - 4) = frame_gap p" using assms(2,3) by (simp add: rt_inv_def frame_gap_def)
  show ?thesis
  proof (cases "?now - lastFrameAt r < frame_gap p")
    case True
    then have "r' = r" "es = []" using assms(1) by (simp_all add: capture_frame_def gap)
    then show ?thesis using assms(2,3) by (simp add: clock_step_def)
  next
    case False
    then have due: "lastFrameAt r + frame_gap p \<le> ?now" by linarith
    obtain ok s1 where slot: "requestAnalyticsSlot FrameWork prio ?now s = (ok, s1)" by force
    show ?thesis
    proof (cases ok)
      case no: False
      then have "r' = r" "es = []" using assms(1) False slot by (simp_all add: capture_frame_def gap)
      then show ?thesis using assms(2,3) by (simp add: clock_step_def)
    next
      case yes: True
      have "rt_inv p r' \<and> \<not> stopped r' \<and> lastFrameAt r' = ?now"
      proof (cases "has_context env")
        case no_context: False
        then have "update_status p UnsupportedState CanvasUnavailable ?r1 = (r', es)"
          using assms(1) False slot yes by (simp add: capture_frame_def gap split: prod.splits)
        from update_status_facts [OF this] inv1 show ?thesis by simp
      next
        case True
        show ?thesis
        proof (cases "pixel_read env")
          case (Inl security)
          then obtain reason where "update_status p UnsupportedState reason ?r1 = (r', es)"
            using assms(1) False slot yes True by (cases security) (auto simp: capture_frame_def gap split: prod.splits)
          from update_status_facts [OF this] inv1 show ?thesis by simp
        next
          case (Inr rgba)
          obtain r2 s2 es2 where cp: "capture_person p prio env rgba ?r1 s1 = (r2, s2, es2)"
            by (metis prod_cases3)
          then have "r' = r2" using assms(1) False slot yes True Inr by (simp add: capture_frame_def gap)
          with capture_person_inv [OF cp inv1(1)] inv1 show ?thesis by simp
        qed
      qed
      with due show ?thesis by (simp add: clock_step_def)
    qed
  qed
qed

lemma capture_facts:
  assumes "capture p prio env r s = (r', s', es)" "rt_inv p r"
  shows "rt_inv p r' \<and> stopped r' = stopped r \<and> clock_step p (capture_now env) r r' es \<and> (stopped r \<longrightarrow> es = [])"
proof (cases "stopped r \<or> \<not> rt_canvas r \<or> \<not> video_ready env \<or> \<not> tile_visible env")
  case True
  then have "r' = r" "es = []" using assms(1) by (auto simp: capture_def)
  then show ?thesis using assms(2) by (simp add: clock_step_def)
next
  case active: False
  show ?thesis
  proof (cases "tile_lowPower env \<and> \<not> force_always p")
    case True
    then have "(r' = r \<and> es = []) \<or> update_status p SuspendedState LowPowerReason r = (r', es)"
      using assms(1) active by (auto simp: capture_def split: if_splits prod.splits)
    then show ?thesis
      using update_status_facts [of p SuspendedState LowPowerReason r r' es] assms(2) active
      by (auto simp: clock_step_def)
  next
    case False
    obtain r1 es1 where r1: "(if st_state (rt_status r) = SuspendedState then update_status p RunningState BrowserWorker r else (r, [])) = (r1, es1)"
      by force
    have f1: "rt_inv p r1" "\<not> stopped r1" "lastFrameAt r1 = lastFrameAt r" "\<not> posts_frame es1"
      using r1 update_status_facts [of p RunningState BrowserWorker r r1 es1] assms(2) active
      by (auto split: if_splits)
    obtain es2 where cf: "capture_frame p prio env r1 s = (r', s', es2)" "es = es1 @ es2"
      using assms(1) active False r1 by (auto simp: capture_def split: prod.splits)
    from capture_frame_facts [OF cf(1) f1(1,2)] f1 cf(2) active show ?thesis by (auto simp: clock_step_def)
  qed
qed

lemma queue_frame_facts: "rt_inv p r \<Longrightarrow> rt_inv p (queue_frame v r)" "lastFrameAt (queue_frame v r) = lastFrameAt r"
  "stopped (queue_frame v r) = stopped r"
  by (auto simp: queue_frame_def rt_inv_def)

definition event_now :: "rt_event \<Rightarrow> rat" where
  "event_now e = (case e of Start _ env \<Rightarrow> capture_now env | CaptureTick env \<Rightarrow> capture_now env
     | VideoFrame env \<Rightarrow> capture_now env | _ \<Rightarrow> 0)"

lemma start_facts:
  assumes "start p prio senv env r s = (r', s', es)" "rt_inv p r"
  shows "rt_inv p r' \<and> clock_step p (capture_now env) r r' es"
proof -
  obtain r0 es0 where st: "stop p r = (r0, es0)" by force
  from stop_inv [OF st] have s0: "rt_inv p r0" "stopped r0" "frames_of es0 = []" "lastFrameAt r0 = lastFrameAt r" by auto
  from s0(3) have n0: "\<not> posts_frame es0"
    by (auto simp: frames_of_def posts_frame_def list_ex_iff filter_empty_conv split: effect.splits)
  have early: ?thesis if "update_status p sst reason r0 = (r', es1)" "es = es0 @ es1" for sst reason es1
    using update_status_facts [OF that(1)] s0 n0 that(2) by (simp add: clock_step_def)
  show ?thesis
  proof (cases "\<not> motionEnabled p \<and> \<not> sceneChangeEnabled p \<and> \<not> personEnabled p \<or> \<not> worker_available senv \<or> credentialed senv")
    case True
    then show ?thesis using assms(1) st early by (auto simp: start_def split: prod.splits if_splits)
  next
    case False
    let ?r = "r0\<lparr>rt_worker := (motionEnabled p \<or> sceneChangeEnabled p), rt_personWorker := personEnabled p,
                      rt_canvas := True, stopped := False\<rparr>"
    obtain r1 es1 where u: "update_status p RunningState BrowserWorker ?r = (r1, es1)" by force
    let ?r2 = "r1\<lparr>captureIntervalMs := sample_interval p, videoFrameCallback := has_frame_callback senv\<rparr>"
    let ?r3 = "if has_frame_callback senv then queue_frame (tile_visible env) ?r2 else ?r2\<lparr>rt_timer := True\<rparr>"
    have r1: "r1 = ?r\<lparr>rt_status := rt_status r1\<rparr>" using update_status_frames [OF u] by simp
    have "stopped r1 = stopped ?r" "rt_worker r1 = rt_worker ?r" "rt_personWorker r1 = rt_personWorker ?r" "personBusy r1 = personBusy ?r"
      by (subst r1, simp)+
    then have i2: "rt_inv p ?r2" using s0 by (auto simp: rt_inv_def)
    have i3: "rt_inv p ?r3" "lastFrameAt ?r3 = lastFrameAt r"
      using queue_frame_facts(1) [OF i2] i2 queue_frame_facts(2) [of _ ?r2] update_status_facts(3) [OF u] s0(4)
      by (cases "has_frame_callback senv"; simp)+
    obtain es2 where c: "capture p prio env ?r3 s = (r', s', es2)" "es = es0 @ es1 @ es2"
      using assms(1) False st u by (auto simp: start_def Let_def split: prod.splits)
    from capture_facts [OF c(1) i3(1)] i3(2) n0 update_status_facts(4) [OF u] c(2) show ?thesis
      by (simp add: clock_step_def)
  qed
qed

lemma video_frame_facts:
  assumes "video_frame p prio env r s = (r', s', es)" "rt_inv p r"
  shows "rt_inv p r' \<and> clock_step p (capture_now env) r r' es"
proof (cases "frameCallback r")
  case False
  then show ?thesis using assms by (auto simp: video_frame_def clock_step_def)
next
  case True
  let ?r = "r\<lparr>frameCallback := False\<rparr>"
  have i: "rt_inv p ?r" using assms(2) by (simp add: rt_inv_def)
  obtain r1 where c: "capture p prio env ?r s = (r1, s', es)" "r' = (if stopped r1 then r1 else r1\<lparr>rt_timer := True\<rparr>)"
    using assms(1) True by (auto simp: video_frame_def split: prod.splits)
  from capture_facts [OF c(1) i] c(2) show ?thesis by (auto simp: clock_step_def rt_inv_def)
qed

lemma rt_inv_fields [simp]:
  "rt_inv p (r\<lparr>lastSignalAt := t\<rparr>) = rt_inv p r"
  by (simp add: rt_inv_def)

lemma rt_inv_idle: "rt_inv p r \<Longrightarrow> rt_inv p (r\<lparr>personBusy := False\<rparr>)"
  by (simp add: rt_inv_def)

lemma emits_no_frame: "\<not> posts_frame (map EmitSignal xs)"
  by (induction xs) (simp_all add: posts_frame_def)

lemma message_facts:
  "worker_result p xs r = (r', es) \<Longrightarrow> rt_inv p r \<Longrightarrow> rt_inv p r' \<and> clock_step p now r r' es"
  "worker_error p reason r = (r', es) \<Longrightarrow> rt_inv p r \<Longrightarrow> rt_inv p r' \<and> clock_step p now r r' es"
  "person_error p reason r = (r', es) \<Longrightarrow> rt_inv p r \<Longrightarrow> rt_inv p r' \<and> clock_step p now r r' es"
  "person_result r = (r', es) \<Longrightarrow> rt_inv p r \<Longrightarrow> rt_inv p r' \<and> clock_step p now r r' es"
proof -
  show "worker_result p xs r = (r', es) \<Longrightarrow> rt_inv p r \<Longrightarrow> rt_inv p r' \<and> clock_step p now r r' es"
    using emits_no_frame by (auto simp: worker_result_def Let_def clock_step_def split: if_splits)
  show "worker_error p reason r = (r', es) \<Longrightarrow> rt_inv p r \<Longrightarrow> rt_inv p r' \<and> clock_step p now r r' es"
    unfolding worker_error_def using update_status_facts by (fastforce simp: clock_step_def)
  show "person_error p reason r = (r', es) \<Longrightarrow> rt_inv p r \<Longrightarrow> rt_inv p r' \<and> clock_step p now r r' es"
    unfolding person_error_def using update_status_facts [of p ErrorState reason "r\<lparr>personBusy := False\<rparr>" r' es]
    by (simp add: clock_step_def rt_inv_idle)
  show "person_result r = (r', es) \<Longrightarrow> rt_inv p r \<Longrightarrow> rt_inv p r' \<and> clock_step p now r r' es"
    by (auto simp: person_result_def clock_step_def rt_inv_idle posts_frame_def)
qed

lemma stop_facts:
  assumes "stop p r = (r', es)"
  shows "rt_inv p r' \<and> clock_step p now r r' es"
proof -
  from stop_inv [OF assms] have f: "rt_inv p r'" "frames_of es = []" "lastFrameAt r' = lastFrameAt r" by auto
  from f(2) have "\<not> posts_frame es"
    by (auto simp: frames_of_def posts_frame_def list_ex_iff filter_empty_conv split: effect.splits)
  with f show ?thesis by (simp add: clock_step_def)
qed

lemma rt_step_facts:
  assumes "rt_step p prio st e = (st', es)" "rt_inv p (fst st)"
  shows "rt_inv p (fst st') \<and> clock_step p (event_now e) (fst st) (fst st') es"
proof -
  obtain r s where st: "st = (r, s)" by force
  obtain r' s' where st': "st' = (r', s')" by force
  have i: "rt_inv p r" using assms(2) st by simp
  have "rt_inv p r' \<and> clock_step p (event_now e) r r' es"
  proof (cases e)
    case (Start se env)
    with assms(1) st st' have "start p prio se env r s = (r', s', es)" by (auto split: prod.splits)
    from start_facts [OF this i] show ?thesis by (simp add: Start event_now_def)
  next
    case Stop
    with assms(1) st st' have "stop p r = (r', es)" by (auto split: prod.splits)
    then show ?thesis by (rule stop_facts)
  next
    case (CaptureTick env)
    with assms(1) st st' have "capture p prio env r s = (r', s', es)" by (auto split: prod.splits)
    from capture_facts [OF this i] show ?thesis by (simp add: CaptureTick event_now_def)
  next
    case (QueueTick v)
    with assms(1) st st' have "r' = queue_frame v r" "es = []" by auto
    with queue_frame_facts i show ?thesis by (simp add: clock_step_def)
  next
    case (VideoFrame env)
    with assms(1) st st' have "video_frame p prio env r s = (r', s', es)" by (auto split: prod.splits)
    from video_frame_facts [OF this i] show ?thesis by (simp add: VideoFrame event_now_def)
  next
    case (MotionResult xs)
    with assms(1) st st' have "worker_result p xs r = (r', es)" by (auto split: prod.splits)
    from message_facts(1) [OF this i] show ?thesis .
  next
    case (WorkerErr reason)
    with assms(1) st st' have "worker_error p reason r = (r', es)" by (auto split: prod.splits)
    from message_facts(2) [OF this i] show ?thesis .
  next
    case PersonResult
    with assms(1) st st' have "person_result r = (r', es)" by (auto split: prod.splits)
    from message_facts(4) [OF this i] show ?thesis .
  next
    case (PersonErr reason)
    with assms(1) st st' have "person_error p reason r = (r', es)" by (auto split: prod.splits)
    from message_facts(3) [OF this i] show ?thesis .
  qed
  then show ?thesis by (simp add: st st')
qed

text \<open>The instants at which a frame is posted to the motion worker.\<close>

definition post_step :: "analytics_policy \<Rightarrow> analytics_priority \<Rightarrow> runtime \<times> scheduler \<Rightarrow> rt_event
    \<Rightarrow> (runtime \<times> scheduler) \<times> rat option" where
  "post_step p prio st e = (case rt_step p prio st e of (st', es) \<Rightarrow>
     (st', if posts_frame es then Some (event_now e) else None))"

lemma post_step_cases:
  assumes "post_step p prio st e = (st', f)" "rt_inv p (fst st)"
  obtains es where "f = (if posts_frame es then Some (event_now e) else None)" "rt_inv p (fst st')"
    "clock_step p (event_now e) (fst st) (fst st') es"
proof -
  obtain es where es: "rt_step p prio st e = (st', es)" "f = (if posts_frame es then Some (event_now e) else None)"
    using assms(1) by (auto simp: post_step_def split: prod.splits)
  from that [OF es(2)] rt_step_facts [OF es(1) assms(2)] show thesis by blast
qed

lemma frame_gap_nonneg: "0 \<le> frame_gap p"
  by (simp add: frame_gap_def)

interpretation sampling: throttle "post_step p prio" "\<lambda>st. rt_inv p (fst st)"
  "\<lambda>st. lastFrameAt (fst st) + frame_gap p" "frame_gap p"
proof
  show "0 \<le> frame_gap p" by (rule frame_gap_nonneg)
next
  fix st e st' f assume "rt_inv p (fst st)" "post_step p prio st e = (st', f)"
  then show "rt_inv p (fst st')" by (metis post_step_cases)
next
  fix st e st' t assume a: "rt_inv p (fst st)" "post_step p prio st e = (st', Some t)"
  show "lastFrameAt (fst st) + frame_gap p \<le> t \<and> t + frame_gap p \<le> lastFrameAt (fst st') + frame_gap p"
    by (rule post_step_cases [OF a(2,1)]) (auto simp: clock_step_def split: if_splits)
next
  fix st e st' assume a: "rt_inv p (fst st)" "post_step p prio st e = (st', None)"
  show "lastFrameAt (fst st) + frame_gap p \<le> lastFrameAt (fst st') + frame_gap p"
    by (rule post_step_cases [OF a(2,1)]) (use frame_gap_nonneg [of p] in \<open>auto simp: clock_step_def\<close>)
qed

lemma rt_inv_new: "rt_inv p new_runtime"
  by (simp add: rt_inv_def new_runtime_def)

text \<open>A tile samples at its configured rate at most: over any sequence of starts, stops, timer and
  video callbacks, hidden or visible, and worker messages, frames are posted to the worker at least the
  sampling interval (less four milliseconds, and never less than fifty) apart.\<close>

theorem frames_sampled_at_rate:
  "sorted_wrt (\<lambda>a b. a + frame_gap p \<le> b) (run_fires (post_step p prio) (new_runtime, s) events)"
  by (rule sampling.fires_spaced) (simp add: rt_inv_new)

text \<open>A stopped tile reads nothing: after \<open>stop()\<close> no timer or video callback that still fires
  reads a pixel, takes a slot of the shared budget or posts to a worker.\<close>

theorem stopped_runtime_is_silent:
  assumes "stop p r = (r', es)"
  shows "rt_step p prio (r', s) (CaptureTick env) = ((r', s), [])
    \<and> rt_step p prio (r', s) (VideoFrame env) = ((r', s), []) \<and> rt_step p prio (r', s) (QueueTick v) = ((r', s), [])
    \<and> \<not> rt_worker r' \<and> \<not> rt_personWorker r'"
  using stop_inv [OF assms] by (auto simp: capture_def video_frame_def queue_frame_def rt_inv_def)

theorem stopped_runtime_is_silent_witness:
  "\<forall>p prio s env. \<exists>r' es. stop p new_runtime = (r', es) \<and> rt_step p prio (r', s) (CaptureTick env) = ((r', s), [])"
proof (intro allI)
  fix p prio s env
  obtain r' es where "stop p new_runtime = (r', es)" by force
  from stopped_runtime_is_silent [OF this] this
  show "\<exists>r' es. stop p new_runtime = (r', es) \<and> rt_step p prio (r', s) (CaptureTick env) = ((r', s), [])" by blast
qed

end
