(* ===== verification/Cbor.thy ===== *)
theory Cbor
  imports Prelude "HOL-Library.Word" "HOL-Library.List_Lexorder" "HOL-Library.Product_Lexorder"
begin

text \<open>
  The CBOR subset of browser enrollment (\<open>browserEnrollment.ts\<close>): the deterministic encoder of
  the enrollment proof and the strict decoder of grant payloads.  A byte is an \<open>8 word\<close>; a text
  is the list of its code points, encoded in UTF-8 as \<open>TextEncoder\<close> and the fatal
  \<open>TextDecoder\<close> do.  The decoder recurses once for every byte at most, so its fuel is the length
  of the input; the lemma \<open>read_fuel\<close> shows that more never changes the result.
\<close>

unbundle bit_operations_syntax

type_synonym byte = "8 word"

section \<open>UTF-8\<close>

definition scalar :: "nat \<Rightarrow> bool" where
  "scalar c = (c < 55296 \<or> (57344 \<le> c \<and> c < 1114112))"

definition utf8_char :: "nat \<Rightarrow> nat list" where
  "utf8_char c =
     (if c < 128 then [c]
      else if c < 2048 then [192 + c div 64, 128 + c mod 64]
      else if c < 65536 then [224 + c div 4096, 128 + c div 64 mod 64, 128 + c mod 64]
      else [240 + c div 262144, 128 + c div 4096 mod 64, 128 + c div 64 mod 64, 128 + c mod 64])"

definition utf8 :: "nat list \<Rightarrow> byte list" where
  "utf8 cs = map of_nat (concat (map utf8_char cs))"

definition cont :: "nat \<Rightarrow> bool" where
  "cont b = (128 \<le> b \<and> b < 192)"

text \<open>The fatal decoder: overlong forms, surrogates and stray continuation bytes are errors.\<close>

fun utf8_read :: "nat list \<Rightarrow> nat list option" where
  "utf8_read [] = Some []"
| "utf8_read (a # bs) =
     (if a < 128 then map_option ((#) a) (utf8_read bs)
      else if 194 \<le> a \<and> a < 224 then
        (case bs of b # bs' \<Rightarrow>
           if cont b then map_option ((#) ((a - 192) * 64 + (b - 128))) (utf8_read bs') else None
         | _ \<Rightarrow> None)
      else if 224 \<le> a \<and> a < 240 then
        (case bs of b # c # bs' \<Rightarrow>
           (let v = (a - 224) * 4096 + (b - 128) * 64 + (c - 128)
            in if cont b \<and> cont c \<and> 2048 \<le> v \<and> scalar v then map_option ((#) v) (utf8_read bs') else None)
         | _ \<Rightarrow> None)
      else if 240 \<le> a \<and> a < 245 then
        (case bs of b # c # d # bs' \<Rightarrow>
           (let v = (a - 240) * 262144 + (b - 128) * 4096 + (c - 128) * 64 + (d - 128)
            in if cont b \<and> cont c \<and> cont d \<and> 65536 \<le> v \<and> scalar v
               then map_option ((#) v) (utf8_read bs') else None)
         | _ \<Rightarrow> None)
      else None)"

text \<open>\<open>TextDecoder\<close> drops a leading byte order mark.\<close>

definition utf8_decode :: "byte list \<Rightarrow> nat list option" where
  "utf8_decode bs =
     (let ns = map unat bs in utf8_read (if take 3 ns = [239, 187, 191] then drop 3 ns else ns))"

section \<open>Encoding\<close>

datatype cbor_error =
    LengthInvalid | TooLarge | Truncated | SimpleUnsupported | CollectionTooLarge | TypeUnsupported
  | MapInvalid | TextInvalid | TrailingData

definition first_byte :: "nat \<Rightarrow> nat \<Rightarrow> byte" where
  "first_byte major low = push_bit 5 (of_nat major) OR of_nat low"

text \<open>\<open>head(major, value)\<close>; \<open>setUint32\<close> keeps the low 32 bits.\<close>

definition head :: "nat \<Rightarrow> nat \<Rightarrow> byte list" where
  "head major v =
     (if v < 24 then [first_byte major v]
      else if v < 256 then [first_byte major 24, of_nat v]
      else if v < 65536 then [first_byte major 25, of_nat (v div 256), of_nat (v mod 256)]
      else [first_byte major 26, of_nat (v div 16777216), of_nat (v div 65536), of_nat (v div 256), of_nat v])"

text \<open>What the encoder is given: a text, bytes, or an object of such values.\<close>

datatype leaf = Text "nat list" | Bytes "byte list"

fun encode_leaf :: "leaf \<Rightarrow> byte list" where
  "encode_leaf (Text cs) = head 3 (length (utf8 cs)) @ utf8 cs"
| "encode_leaf (Bytes bs) = head 2 (length bs) @ bs"

definition key_order :: "byte list \<times> byte list \<Rightarrow> nat \<times> byte list" where
  "key_order e = (length (fst e), fst e)"

text \<open>The entries are sorted by the length of the encoded key and then byte by byte.\<close>

definition encode_map :: "(nat list \<times> leaf) list \<Rightarrow> byte list" where
  "encode_map es =
     head 5 (length es) @ concat (map (\<lambda>(k, v). k @ v)
       (sort_key key_order (map (\<lambda>(k, v). (encode_leaf (Text k), encode_leaf v)) es)))"

section \<open>Decoding\<close>

datatype cval =
    CInt int
  | CBytes "byte list"
  | CText "nat list"
  | CArr "cval list"
  | CMap "(nat list \<times> cval) list"
  | CBool bool
  | CNull

definition big_endian :: "byte list \<Rightarrow> nat" where
  "big_endian bs = foldl (\<lambda>v b. v * 256 + unat b) 0 bs"

definition length_size :: "nat \<Rightarrow> nat" where
  "length_size additional = (if additional = 24 then 1 else if additional = 25 then 2 else if additional = 26 then 4 else 0)"

definition readLength :: "nat \<Rightarrow> byte list \<Rightarrow> cbor_error + (nat \<times> byte list)" where
  "readLength additional bs =
     (if additional < 24 then Inr (additional, bs)
      else let n = length_size additional
           in if n = 0 \<or> length bs < n then Inl LengthInvalid
              else Inr (big_endian (take n bs), drop n bs))"

definition LIMIT :: int where "LIMIT = 1048576"

text \<open>\<open>read\<close>, the reading of \<open>n\<close> array items and of \<open>n\<close> map entries, on the bytes that are left.\<close>

fun read :: "nat \<Rightarrow> byte list \<Rightarrow> cbor_error + (cval \<times> byte list)"
  and read_items :: "nat \<Rightarrow> nat \<Rightarrow> byte list \<Rightarrow> cbor_error + (cval list \<times> byte list)"
  and read_entries :: "nat \<Rightarrow> nat \<Rightarrow> (nat list \<times> cval) list \<Rightarrow> byte list \<Rightarrow>
         cbor_error + ((nat list \<times> cval) list \<times> byte list)" where
  "read 0 bs = Inl Truncated"
| "read (Suc fuel) [] = Inl Truncated"
| "read (Suc fuel) (initial # bs) =
     (let major = unat (drop_bit 5 initial); additional = unat (initial AND 31)
      in if major = 7 then
           (if additional = 20 then Inr (CBool False, bs)
            else if additional = 21 then Inr (CBool True, bs)
            else if additional = 22 then Inr (CNull, bs)
            else Inl SimpleUnsupported)
         else case readLength additional bs of
           Inl e \<Rightarrow> Inl e
         | Inr (len, bs) \<Rightarrow>
             (if major = 0 then Inr (CInt (int len), bs)
              else if major = 1 then Inr (CInt (- 1 - int len), bs)
              else if LIMIT < int len \<or> ((major = 4 \<or> major = 5) \<and> 256 < len) then Inl CollectionTooLarge
              else if (major = 2 \<or> major = 3) \<and> len \<le> length bs then
                (if major = 2 then Inr (CBytes (take len bs), drop len bs)
                 else case utf8_decode (take len bs) of
                   None \<Rightarrow> Inl TextInvalid | Some t \<Rightarrow> Inr (CText t, drop len bs))
              else if major = 4 then
                (case read_items fuel len bs of Inl e \<Rightarrow> Inl e | Inr (vs, bs) \<Rightarrow> Inr (CArr vs, bs))
              else if major = 5 then
                (case read_entries fuel len [] bs of Inl e \<Rightarrow> Inl e | Inr (es, bs) \<Rightarrow> Inr (CMap es, bs))
              else Inl TypeUnsupported))"
| "read_items fuel 0 bs = Inr ([], bs)"
| "read_items fuel (Suc n) bs =
     (case read fuel bs of Inl e \<Rightarrow> Inl e
      | Inr (v, bs) \<Rightarrow> (case read_items fuel n bs of Inl e \<Rightarrow> Inl e | Inr (vs, bs) \<Rightarrow> Inr (v # vs, bs)))"
| "read_entries fuel 0 acc bs = Inr (acc, bs)"
| "read_entries fuel (Suc n) acc bs =
     (case read fuel bs of Inl e \<Rightarrow> Inl e
      | Inr (CText k, bs) \<Rightarrow>
          (if k \<in> set (map fst acc) then Inl MapInvalid
           else case read fuel bs of Inl e \<Rightarrow> Inl e
             | Inr (v, bs) \<Rightarrow> read_entries fuel n (acc @ [(k, v)]) bs)
      | Inr _ \<Rightarrow> Inl MapInvalid)"

definition decodeCbor :: "byte list \<Rightarrow> cbor_error + cval" where
  "decodeCbor input =
     (if LIMIT < int (length input) then Inl TooLarge
      else case read (Suc (length input)) input of
        Inl e \<Rightarrow> Inl e
      | Inr (v, rest) \<Rightarrow> if rest = [] then Inr v else Inl TrailingData)"


section \<open>UTF-8 round trip\<close>

lemma split2: "(c div 64) * 64 + c mod 64 = (c::nat)"
  by simp

lemma split3: "c div 4096 * 4096 + c div 64 mod 64 * 64 + c mod 64 = (c::nat)"
proof -
  have "c div 4096 = c div 64 div 64" by (simp add: div_mult2_eq [symmetric])
  then show ?thesis using div_mult_mod_eq [of "c div 64" 64] div_mult_mod_eq [of c 64] by linarith
qed

lemma split4: "c div 262144 * 262144 + c div 4096 mod 64 * 4096 + c div 64 mod 64 * 64 + c mod 64 = (c::nat)"
proof -
  have "c div 262144 = c div 4096 div 64" by (simp add: div_mult2_eq [symmetric])
  then show ?thesis using div_mult_mod_eq [of "c div 4096" 64] split3 [of c] by linarith
qed

lemma utf8_read_char:
  assumes "scalar c"
  shows "utf8_read (utf8_char c @ rest) = map_option ((#) c) (utf8_read rest)"
proof -
  have m: "x mod 64 < 64" for x :: nat by simp
  consider "c < 128" | "128 \<le> c" "c < 2048" | "2048 \<le> c" "c < 65536" | "65536 \<le> c" "c < 1114112"
    using assms by (fastforce simp: scalar_def)
  then show ?thesis
  proof cases
    case 1 then show ?thesis by (simp add: utf8_char_def)
  next
    case 2
    then have u: "utf8_char c = [192 + c div 64, 128 + c mod 64]" by (simp add: utf8_char_def)
    have "2 \<le> c div 64" "c div 64 < 32" using 2 by linarith+
    with m [of c] show ?thesis by (simp add: u cont_def)
  next
    case 3
    then have u: "utf8_char c = [224 + c div 4096, 128 + c div 64 mod 64, 128 + c mod 64]" by (simp add: utf8_char_def)
    have "c div 4096 < 16" using 3 by linarith
    with 3 assms m [of c] m [of "c div 64"] split3 [of c] show ?thesis
      by (simp add: u cont_def Let_def)
  next
    case 4
    then have u: "utf8_char c = [240 + c div 262144, 128 + c div 4096 mod 64, 128 + c div 64 mod 64, 128 + c mod 64]"
      by (simp add: utf8_char_def)
    have "c div 262144 < 5" using 4 by linarith
    with 4 assms m [of c] m [of "c div 64"] m [of "c div 4096"] split4 [of c] show ?thesis
      by (simp add: u cont_def Let_def)
  qed
qed

lemma utf8_read_all: "list_all scalar cs \<Longrightarrow> utf8_read (concat (map utf8_char cs)) = Some cs"
  by (induction cs) (simp_all add: utf8_read_char)

lemma utf8_char_bytes: "scalar c \<Longrightarrow> \<forall>b \<in> set (utf8_char c). b < 256"
proof -
  assume "scalar c"
  then have c: "c < 1114112" by (auto simp: scalar_def)
  have m: "128 + x mod 64 < 256" for x :: nat
    using mod_less_divisor [of 64 x] by linarith
  have d: "c < 2048 \<Longrightarrow> 192 + c div 64 < 256" "c < 65536 \<Longrightarrow> 224 + c div 4096 < 256" "240 + c div 262144 < 256"
    using c by linarith+
  show ?thesis unfolding utf8_char_def using m d c by (simp split: if_split)
qed

lemma unat_bytes: "\<forall>n \<in> set ns. n < 256 \<Longrightarrow> map (unat \<circ> (of_nat :: nat \<Rightarrow> byte)) ns = ns"
  by (intro map_idI) (auto simp: unat_of_nat)

lemma unat_utf8: "list_all scalar cs \<Longrightarrow> map unat (utf8 cs) = concat (map utf8_char cs)"
  unfolding utf8_def map_map using utf8_char_bytes by (intro unat_bytes) (fastforce simp: list_all_iff)

text \<open>Only the character U+FEFF starts with the three bytes of the mark.\<close>

lemma no_mark:
  assumes "list_all scalar cs" "cs = [] \<or> hd cs \<noteq> 65279"
  shows "take 3 (concat (map utf8_char cs)) \<noteq> [239, 187, 191]"
proof
  assume mark: "take 3 (concat (map utf8_char cs)) = [239, 187, 191]"
  then have "concat (map utf8_char cs) = [239, 187, 191] @ drop 3 (concat (map utf8_char cs))"
    by (metis append_take_drop_id)
  then have "utf8_read ([239, 187, 191] @ drop 3 (concat (map utf8_char cs))) = Some cs"
    using utf8_read_all [OF assms(1)] by simp
  then have "map_option ((#) 65279) (utf8_read (drop 3 (concat (map utf8_char cs)))) = Some cs"
    by (simp add: cont_def scalar_def)
  then show False using assms(2) by auto
qed

lemma utf8_round_trip:
  assumes "list_all scalar cs" "cs = [] \<or> hd cs \<noteq> 65279"
  shows "utf8_decode (utf8 cs) = Some cs"
  using no_mark [OF assms] utf8_read_all [OF assms(1)]
  by (simp add: utf8_decode_def unat_utf8 [OF assms(1)] Let_def)

section \<open>Heads\<close>

lemma first_byte_fields:
  assumes "major < 8" "low < 32"
  shows "unat (drop_bit 5 (first_byte major low)) = major \<and> unat (first_byte major low AND 31) = low"
proof -
  have "\<forall>m \<in> set [0..<8]. \<forall>l \<in> set [0..<32].
      unat (drop_bit 5 (first_byte m l)) = m \<and> unat (first_byte m l AND 31) = l"
    by code_simp
  with assms show ?thesis by simp
qed


lemma big_endian_1: "v < 256 \<Longrightarrow> big_endian [of_nat v] = v"
  by (simp add: big_endian_def unat_of_nat)

lemma big_endian_2: "v < 65536 \<Longrightarrow> big_endian [of_nat (v div 256), of_nat (v mod 256)] = v"
proof -
  assume "v < 65536"
  then have "v div 256 < 256" by linarith
  then show ?thesis by (simp add: big_endian_def unat_of_nat)
qed

lemma big_endian_4:
  "v < 4294967296 \<Longrightarrow> big_endian [of_nat (v div 16777216), of_nat (v div 65536), of_nat (v div 256), of_nat v] = v"
proof -
  assume "v < 4294967296"
  then have a: "v div 16777216 < 256" by linarith
  have "v div 16777216 = v div 65536 div 256" "v div 65536 = v div 256 div 256"
    by (simp_all add: div_mult2_eq [symmetric])
  then show ?thesis
    using a div_mult_mod_eq [of "v div 65536" 256] div_mult_mod_eq [of "v div 256" 256] div_mult_mod_eq [of v 256]
    by (simp add: big_endian_def unat_of_nat)
qed

lemma head_reads:
  assumes "major < 8" "v < 4294967296"
  shows "\<exists>b ls. head major v = b # ls \<and> unat (drop_bit 5 b) = major
    \<and> (\<forall>rest. readLength (unat (b AND 31)) (ls @ rest) = Inr (v, rest))"
proof -
  note f = first_byte_fields [OF assms(1)]
  consider "v < 24" | "24 \<le> v" "v < 256" | "256 \<le> v" "v < 65536" | "65536 \<le> v" by linarith
  then show ?thesis
  proof cases
    case 1
    with f [of v] show ?thesis by (simp add: head_def readLength_def)
  next
    case 2
    then have "head major v = [first_byte major 24, of_nat v]" by (simp add: head_def)
    with f [of 24] big_endian_1 [of v] 2 show ?thesis by (simp add: readLength_def length_size_def Let_def)
  next
    case 3
    then have "head major v = [first_byte major 25, of_nat (v div 256), of_nat (v mod 256)]" by (simp add: head_def)
    with f [of 25] big_endian_2 [of v] 3 show ?thesis by (simp add: readLength_def length_size_def Let_def)
  next
    case 4
    then have "head major v = [first_byte major 26, of_nat (v div 16777216), of_nat (v div 65536), of_nat (v div 256), of_nat v]"
      by (simp add: head_def)
    with f [of 26] big_endian_4 [of v] assms(2) show ?thesis by (simp add: readLength_def length_size_def Let_def)
  qed
qed

section \<open>Fuel\<close>

lemma readLength_shorter: "readLength a bs = Inr (n, bs') \<Longrightarrow> length bs' \<le> length bs"
  by (auto simp: readLength_def Let_def split: if_splits)

text \<open>The two list readers only use \<open>read\<close>; what holds of it carries over by induction on the count.\<close>

lemma read_items_shorter:
  assumes "\<And>bs v bs'. read fuel bs = Inr (v, bs') \<Longrightarrow> length bs' < length bs"
  shows "read_items fuel n bs = Inr (vs, bs') \<Longrightarrow> length bs' \<le> length bs"
proof (induction n arbitrary: bs vs bs')
  case (Suc n)
  then show ?case using assms by (fastforce split: sum.splits prod.splits)
qed simp

lemma read_entries_shorter:
  assumes "\<And>bs v bs'. read fuel bs = Inr (v, bs') \<Longrightarrow> length bs' < length bs"
  shows "read_entries fuel n acc bs = Inr (es, bs') \<Longrightarrow> length bs' \<le> length bs"
proof (induction n arbitrary: acc bs es bs')
  case (Suc n)
  from Suc.prems obtain k bs1 v bs2 where "read fuel bs = Inr (CText k, bs1)" "read fuel bs1 = Inr (v, bs2)"
    "read_entries fuel n (acc @ [(k, v)]) bs2 = Inr (es, bs')"
    by (auto split: sum.splits prod.splits cval.splits if_splits)
  with assms [of bs] assms [of bs1] Suc.IH show ?case by fastforce
qed simp

lemma read_shorter: "read fuel bs = Inr (v, bs') \<Longrightarrow> length bs' < length bs"
proof (induction fuel arbitrary: bs v bs')
  case (Suc fuel)
  have items: "length b' \<le> length b" if "read_items fuel n b = Inr (vs, b')" for n b vs b'
    using read_items_shorter [of fuel] Suc.IH that by blast
  have es: "length b' \<le> length b" if "read_entries fuel n acc b = Inr (vs, b')" for n acc b vs b'
    using read_entries_shorter [of fuel] Suc.IH that by blast
  show ?case
  proof (cases bs)
    case (Cons initial rest)
    let ?major = "unat (drop_bit 5 initial)"
    show ?thesis
    proof (cases "?major = 7")
      case True
      with Suc.prems Cons show ?thesis by (auto simp: Let_def split: if_splits)
    next
      case False
      with Suc.prems Cons obtain len bs1 where l: "readLength (unat (initial AND 31)) rest = Inr (len, bs1)"
        by (auto simp: Let_def split: sum.splits)
      from readLength_shorter [OF l] have le: "length bs1 \<le> length rest" .
      have "length bs' \<le> length bs1"
        using Suc.prems Cons False l
        by (auto simp: Let_def dest!: items es split: sum.splits prod.splits option.splits if_splits)
      with le Cons show ?thesis by simp
    qed
  qed (use Suc.prems in simp)
qed simp

lemma read_items_fuel:
  assumes "\<And>bs. length bs < fuel \<Longrightarrow> length bs < fuel' \<Longrightarrow> read fuel bs = read fuel' bs"
  shows "length bs < fuel \<Longrightarrow> length bs < fuel' \<Longrightarrow> read_items fuel n bs = read_items fuel' n bs"
proof (induction n arbitrary: bs)
  case (Suc n)
  have "read_items fuel n b = read_items fuel' n b" if "read fuel' bs = Inr (v, b)" for v b
    using Suc read_shorter [OF that] by simp
  with assms [of bs] Suc.prems show ?case by (auto split: sum.split prod.split)
qed simp

lemma read_entries_fuel:
  assumes eq: "\<And>bs. length bs < fuel \<Longrightarrow> length bs < fuel' \<Longrightarrow> read fuel bs = read fuel' bs"
  shows "length bs < fuel \<Longrightarrow> length bs < fuel' \<Longrightarrow> read_entries fuel n acc bs = read_entries fuel' n acc bs"
proof (induction n arbitrary: bs acc)
  case (Suc n)
  have one: "read fuel b = read fuel' b" if "read fuel' bs = Inr (v, b)" for v b
    using Suc.prems read_shorter [OF that] by (intro eq) auto
  have two: "read_entries fuel n a c = read_entries fuel' n a c"
    if "read fuel' bs = Inr (v, b)" "read fuel' b = Inr (w, c)" for v b w c a
    using Suc.prems read_shorter [OF that(1)] read_shorter [OF that(2)] by (intro Suc.IH) auto
  show ?case
    using eq [OF Suc.prems] one two
    by (auto split: sum.split prod.split cval.split)
qed simp

lemma read_fuel: "length bs < fuel \<Longrightarrow> length bs < fuel' \<Longrightarrow> read fuel bs = read fuel' bs"
proof (induction fuel arbitrary: fuel' bs)
  case (Suc fuel)
  obtain f where f: "fuel' = Suc f" using Suc.prems(2) by (cases fuel') auto
  show ?case
  proof (cases bs)
    case (Cons initial rest)
    have lens: "length rest < fuel" "length rest < f" using Suc.prems Cons f by auto
    have eq: "read fuel b = read f b" if "length b < fuel" "length b < f" for b
      using Suc.IH that by blast
    have "read_items fuel n b = read_items f n b" "read_entries fuel n acc b = read_entries f n acc b"
      if "readLength a rest = Inr (len, b)" for a len b n acc
      using readLength_shorter [OF that] lens read_items_fuel [OF eq] read_entries_fuel [OF eq] by auto
    then show ?thesis unfolding f Cons
      by (auto simp: Let_def split: sum.split prod.split)
  qed (simp add: f)
qed simp


section \<open>Round trip\<close>

fun leaf_val :: "leaf \<Rightarrow> cval" where
  "leaf_val (Text cs) = CText cs"
| "leaf_val (Bytes bs) = CBytes bs"

fun leaf_ok :: "leaf \<Rightarrow> bool" where
  "leaf_ok (Text cs) = (list_all scalar cs \<and> (cs = [] \<or> hd cs \<noteq> 65279) \<and> int (length (utf8 cs)) \<le> LIMIT)"
| "leaf_ok (Bytes bs) = (int (length bs) \<le> LIMIT)"

lemma read_leaf:
  assumes "leaf_ok l"
  shows "read (Suc fuel) (encode_leaf l @ rest) = Inr (leaf_val l, rest)"
proof (cases l)
  case (Text cs)
  let ?n = "length (utf8 cs)"
  have n: "int ?n \<le> LIMIT" "?n < 4294967296" using assms Text by (auto simp: LIMIT_def)
  obtain b ls where h: "head 3 ?n = b # ls" "unat (drop_bit 5 b) = 3"
    "\<forall>rest. readLength (unat (b AND 31)) (ls @ rest) = Inr (?n, rest)"
    using head_reads [of 3 ?n] n(2) by auto
  have "utf8_decode (utf8 cs) = Some cs" using assms Text by (intro utf8_round_trip) auto
  with h n(1) show ?thesis by (simp add: Text Let_def)
next
  case (Bytes bs)
  have n: "int (length bs) \<le> LIMIT" "length bs < 4294967296" using assms Bytes by (auto simp: LIMIT_def)
  obtain b ls where h: "head 2 (length bs) = b # ls" "unat (drop_bit 5 b) = 2"
    "\<forall>rest. readLength (unat (b AND 31)) (ls @ rest) = Inr (length bs, rest)"
    using head_reads [of 2 "length bs"] n(2) by auto
  with n(1) show ?thesis by (simp add: Bytes Let_def)
qed

definition entry_ok :: "nat list \<times> leaf \<Rightarrow> bool" where
  "entry_ok e = (leaf_ok (Text (fst e)) \<and> leaf_ok (snd e))"

definition enc_entry :: "nat list \<times> leaf \<Rightarrow> byte list \<times> byte list" where
  "enc_entry e = (encode_leaf (Text (fst e)), encode_leaf (snd e))"

lemma read_pairs:
  assumes "list_all entry_ok es" "distinct (map fst es)" "set (map fst es) \<inter> set (map fst acc) = {}"
  shows "read_entries (Suc fuel) (length es) acc (concat (map (\<lambda>(k, v). k @ v) (map enc_entry es)) @ rest)
    = Inr (acc @ map (\<lambda>(k, l). (k, leaf_val l)) es, rest)"
  using assms
proof (induction es arbitrary: acc)
  case (Cons e es)
  obtain k l where e: "e = (k, l)" by force
  have ok: "leaf_ok (Text k)" "leaf_ok l" using Cons.prems(1) e by (auto simp: entry_ok_def)
  have new: "k \<notin> set (map fst acc)" using Cons.prems(3) e by auto
  have "set (map fst es) \<inter> set (map fst (acc @ [(k, leaf_val l)])) = {}"
    using Cons.prems(2,3) e by auto
  from Cons.IH [OF _ _ this] Cons.prems(1,2) new show ?case
    by (simp add: e enc_entry_def read_leaf [OF ok(1), simplified] read_leaf [OF ok(2)])
qed simp

lemma insort_key_map: "insort_key f (g x) (map g xs) = map g (insort_key (f \<circ> g) x xs)"
  by (induction xs) simp_all

lemma sort_key_map: "sort_key f (map g xs) = map g (sort_key (f \<circ> g) xs)"
proof (induction xs)
  case (Cons x xs)
  have "sort_key f (map g (x # xs)) = insort_key f (g x) (sort_key f (map g xs))" by (simp add: sort_key_simps)
  also have "\<dots> = map g (sort_key (f \<circ> g) (x # xs))" by (simp add: Cons.IH insort_key_map sort_key_simps comp_def)
  finally show ?case .
qed (simp add: sort_key_simps)

definition canonical :: "(nat list \<times> leaf) list \<Rightarrow> (nat list \<times> leaf) list" where
  "canonical es = sort_key (key_order \<circ> enc_entry) es"

lemma mset_canonical [simp]: "mset (canonical es) = mset es"
  by (simp add: canonical_def)

lemma encode_map_canonical:
  "encode_map es = head 5 (length es) @ concat (map (\<lambda>(k, v). k @ v) (map enc_entry (canonical es)))"
proof -
  have "(\<lambda>(k, v). (encode_leaf (Text k), encode_leaf v)) = enc_entry"
    by (auto simp: enc_entry_def fun_eq_iff)
  then show ?thesis by (simp add: encode_map_def canonical_def sort_key_map)
qed

definition map_ok :: "(nat list \<times> leaf) list \<Rightarrow> bool" where
  "map_ok es = (list_all entry_ok es \<and> distinct (map fst es) \<and> length es \<le> 256
     \<and> int (length (encode_map es)) \<le> LIMIT)"

lemma canonical_ok: "map_ok es \<Longrightarrow> list_all entry_ok (canonical es) \<and> distinct (map fst (canonical es)) \<and> length (canonical es) = length es"
  unfolding map_ok_def list_all_iff
  by (metis mset_canonical mset_eq_setD mset_eq_length mset_map mset_eq_imp_distinct_iff)


lemma enc_key_inj: "leaf_ok (Text a) \<Longrightarrow> leaf_ok (Text b) \<Longrightarrow> encode_leaf (Text a) = encode_leaf (Text b) \<Longrightarrow> a = b"
  using read_leaf [of "Text a" 0 "[]"] read_leaf [of "Text b" 0 "[]"] by simp

text \<open>The encoding is deterministic: the bytes that are signed do not depend on the order in which
  the fields of the proof were written.\<close>

theorem cbor_canonical:
  assumes "map_ok es" "mset es = mset fs"
  shows "encode_map es = encode_map fs"
proof -
  have "inj_on (key_order \<circ> enc_entry) (set es)"
  proof (rule inj_onI)
    fix x y assume xy: "x \<in> set es" "y \<in> set es" "(key_order \<circ> enc_entry) x = (key_order \<circ> enc_entry) y"
    have "leaf_ok (Text (fst x))" "leaf_ok (Text (fst y))"
      using assms(1) xy(1,2) by (auto simp: map_ok_def list_all_iff entry_ok_def)
    then have "fst x = fst y" using xy(3) enc_key_inj by (simp add: key_order_def enc_entry_def)
    moreover have "inj_on fst (set es)" using assms(1) by (simp add: map_ok_def distinct_map)
    ultimately show "x = y" using xy(1,2) by (simp add: inj_on_def)
  qed
  moreover have "set es = set fs" by (rule mset_eq_setD [OF assms(2)])
  ultimately have "canonical es = canonical fs"
    unfolding canonical_def using assms(2)
    by (intro sort_key_inj_key_eq) simp_all
  then show ?thesis using assms(2) by (metis encode_map_canonical mset_eq_length)
qed

definition demo_proof :: "(nat list \<times> leaf) list" where
  "demo_proof = [([112], Text [119, 101, 98]), ([110, 111], Bytes [1, 2, 3])]"

lemma encode_demo:
  "encode_map demo_proof = [162, 97, 112, 99, 119, 101, 98, 98, 110, 111, 67, 1, 2, 3]"
  "encode_map (rev demo_proof) = [162, 97, 112, 99, 119, 101, 98, 98, 110, 111, 67, 1, 2, 3]"
  by code_simp+

lemma demo_proof_ok: "map_ok demo_proof"
proof -
  have "length (utf8 [112]) = 1" "length (utf8 [119, 101, 98]) = 3" "length (utf8 [110, 111]) = 2" by code_simp+
  then have "list_all entry_ok demo_proof"
    by (simp add: demo_proof_def entry_ok_def scalar_def LIMIT_def)
  then show ?thesis by (simp add: map_ok_def encode_demo LIMIT_def) (simp add: demo_proof_def)
qed


theorem cbor_canonical_witness: "encode_map demo_proof = encode_map (rev demo_proof)"
  using cbor_canonical [OF demo_proof_ok, of "rev demo_proof"] by simp

end
