(* ===== verification/Grant.thy ===== *)
theory Grant
  imports Cbor JsValue
begin

text \<open>
  Browser grants (\<open>browserEnrollment.ts\<close>, and the identity record of \<open>localRuntime.ts\<close>): the
  validation of a decoded grant payload, the verification that stores it, and the enrollment calls
  around it.  The payload is the \<open>cval\<close> the decoder returns.  libsodium, the base64 codec, the
  URL parser and the server's responses are parameters: the record \<open>crypto\<close> and the arguments of
  the operations.  A token or key is a \<open>string\<close>, a time of the wall clock an integer.
\<close>

section \<open>Reading a decoded payload\<close>

definition cp :: "string \<Rightarrow> nat list" where
  "cp s = map code s"

definition cfield :: "cval \<Rightarrow> string \<Rightarrow> cval option" where
  "cfield v k = (case v of CMap es \<Rightarrow> map_of es (cp k) | _ \<Rightarrow> None)"

definition c_int :: "cval option \<Rightarrow> int option" where
  "c_int v = (case v of Some (CInt n) \<Rightarrow> Some n | _ \<Rightarrow> None)"

definition c_text :: "cval option \<Rightarrow> nat list option" where
  "c_text v = (case v of Some (CText t) \<Rightarrow> Some t | _ \<Rightarrow> None)"

definition c_arr :: "cval option \<Rightarrow> cval list option" where
  "c_arr v = (case v of Some (CArr xs) \<Rightarrow> Some xs | _ \<Rightarrow> None)"

text \<open>The length of a JavaScript string counts code units.\<close>

definition js_length :: "nat list \<Rightarrow> nat" where
  "js_length cs = sum_list (map (\<lambda>c. if c < 65536 then 1 else 2) cs)"

text \<open>A regular expression is tested on \<open>String(value)\<close>.\<close>

fun digits :: "nat \<Rightarrow> nat list" where
  "digits n = (if n < 10 then [48 + n] else digits (n div 10) @ [48 + n mod 10])"

definition int_digits :: "int \<Rightarrow> nat list" where
  "int_digits n = (if n < 0 then 45 # digits (nat (- n)) else digits (nat n))"

fun join_comma :: "nat list list \<Rightarrow> nat list" where
  "join_comma [] = []"
| "join_comma [x] = x"
| "join_comma (x # xs) = x @ 44 # join_comma xs"

fun js_string :: "cval \<Rightarrow> nat list" where
  "js_string (CInt n) = int_digits n"
| "js_string (CBytes bs) = join_comma (map (digits \<circ> unat) bs)"
| "js_string (CText t) = t"
| "js_string (CArr xs) = join_comma (map (\<lambda>x. if x = CNull then [] else js_string x) xs)"
| "js_string (CMap _) = cp ''[object Object]''"
| "js_string (CBool b) = cp (if b then ''true'' else ''false'')"
| "js_string CNull = cp ''null''"

definition in_class_cp :: "(char \<Rightarrow> bool) \<Rightarrow> nat \<Rightarrow> nat \<Rightarrow> cval option \<Rightarrow> bool" where
  "in_class_cp P lo hi v = (let t = (case v of None \<Rightarrow> cp ''undefined'' | Some x \<Rightarrow> js_string x)
     in lo \<le> length t \<and> length t \<le> hi \<and> list_all (\<lambda>c. c < 256 \<and> P (char_of c)) t)"

fun c_truthy :: "cval \<Rightarrow> bool" where
  "c_truthy (CInt n) = (n \<noteq> 0)"
| "c_truthy (CText t) = (t \<noteq> [])"
| "c_truthy (CBool b) = b"
| "c_truthy CNull = False"
| "c_truthy _ = True"

definition field_truthy :: "cval \<Rightarrow> string \<Rightarrow> bool" where
  "field_truthy v k = (case cfield v k of None \<Rightarrow> False | Some x \<Rightarrow> c_truthy x)"

section \<open>The contract of a grant\<close>

text \<open>\<open>exactKeys\<close>: only allowed keys, and all of them but the endpoint.\<close>

definition exactKeys :: "cval \<Rightarrow> string list \<Rightarrow> bool" where
  "exactKeys v allowed =
     (case v of
        CMap es \<Rightarrow> list_all (\<lambda>(k, _). k \<in> cp ` set allowed) es
          \<and> list_all (\<lambda>a. cp a \<in> fst ` set es \<or> a = ''endpoint'') allowed
      | _ \<Rightarrow> False)"

definition lower_cp :: "nat \<Rightarrow> nat" where
  "lower_cp c = (if 65 \<le> c \<and> c \<le> 90 then c + 32 else c)"

definition sensitive_names :: "string list" where
  "sensitive_names = [''credential'', ''credentials'', ''credentialsref'', ''password'', ''secret'', ''token'',
     ''username'', ''rtspurl'']"

definition sensitive :: "nat list \<Rightarrow> bool" where
  "sensitive k = (map lower_cp k \<in> cp ` set sensitive_names)"

fun forbidden :: "cval \<Rightarrow> bool" where
  "forbidden (CArr xs) = list_ex forbidden xs"
| "forbidden (CMap es) = list_ex (\<lambda>(k, v). sensitive k \<or> forbidden v) es"
| "forbidden _ = False"

record url =
  url_protocol :: string
  url_username :: string
  url_password :: string
  url_search :: string
  url_hash :: string

datatype grant_error =
    GrantContract | CameraScope | CameraDuplicate | ProfileInvalid | ProfileDuplicate
  | EndpointMissing | EndpointUnparsable | EndpointUnsafe | EndpointExposed
  | BundleInvalid | BadBase64 | SealBroken | SigningKeyChanged | BadSignature | BadCbor cbor_error
  | ClientMismatch | Replay | IdentityInvalid

text \<open>\<open>new Set\<close> compares primitive values by content, objects by identity.\<close>

definition primitive :: "cval \<Rightarrow> bool" where
  "primitive v = (case v of CArr _ \<Rightarrow> False | CMap _ \<Rightarrow> False | CBytes _ \<Rightarrow> False | _ \<Rightarrow> True)"

definition seen_before :: "cval list \<Rightarrow> cval \<Rightarrow> bool" where
  "seen_before seen v = (primitive v \<and> v \<in> set seen)"

definition safe_endpoint :: "(nat list \<Rightarrow> url option) \<Rightarrow> cval \<Rightarrow> grant_error option" where
  "safe_endpoint parse_url profile =
     (if field_truthy profile ''browserDirectEligible'' then
        (if \<not> field_truthy profile ''endpoint'' then Some EndpointMissing
         else case parse_url (js_string (the (cfield profile ''endpoint''))) of
           None \<Rightarrow> Some EndpointUnparsable
         | Some u \<Rightarrow>
             if c_text (cfield profile ''adapter'') \<notin> Some ` cp ` {''whep'', ''hls'', ''mjpeg''}
                \<or> url_protocol u \<noteq> ''https:'' \<or> url_username u \<noteq> [] \<or> url_password u \<noteq> []
                \<or> url_search u \<noteq> [] \<or> url_hash u \<noteq> []
             then Some EndpointUnsafe else None)
      else if field_truthy profile ''endpoint'' then Some EndpointExposed else None)"

definition text_within :: "cval option \<Rightarrow> nat \<Rightarrow> bool" where
  "text_within v n = (case c_text v of None \<Rightarrow> False | Some t \<Rightarrow> js_length t \<le> n)"

definition profile_shape :: "cval \<Rightarrow> bool" where
  "profile_shape p =
     (exactKeys p [''id'', ''name'', ''role'', ''adapter'', ''videoCodec'', ''audioCodec'', ''width'', ''height'',
        ''fpsMilli'', ''browserDirectEligible'', ''browserDirectReason'', ''endpoint'']
      \<and> in_class_cp is_id_char 1 64 (cfield p ''id'') \<and> text_within (cfield p ''name'') 128
      \<and> c_text (cfield p ''adapter'') \<noteq> None
      \<and> (case cfield p ''browserDirectEligible'' of Some (CBool _) \<Rightarrow> True | _ \<Rightarrow> False)
      \<and> text_within (cfield p ''browserDirectReason'') 128)"

fun check_profiles :: "(nat list \<Rightarrow> url option) \<Rightarrow> cval list \<Rightarrow> cval list \<Rightarrow> grant_error option" where
  "check_profiles parse_url seen [] = None"
| "check_profiles parse_url seen (p # ps) =
     (if \<not> profile_shape p then Some ProfileInvalid
      else let i = the (cfield p ''id'')
           in if seen_before seen i then Some ProfileDuplicate
              else case safe_endpoint parse_url p of
                     Some e \<Rightarrow> Some e
                   | None \<Rightarrow> check_profiles parse_url (i # seen) ps)"

definition known_permissions :: "cval list" where
  "known_permissions = map (CText \<circ> cp) [''view'', ''snapshot'', ''ptz'', ''talk'', ''record-local'']"

definition permissions_ok :: "cval option \<Rightarrow> bool" where
  "permissions_ok v =
     (case c_arr v of None \<Rightarrow> False
      | Some ps \<Rightarrow> 1 \<le> length ps \<and> length ps \<le> 5 \<and> CText (cp ''view'') \<in> set ps \<and> distinct ps
          \<and> list_all (\<lambda>p. p \<in> set known_permissions) ps)"

definition camera_shape :: "cval \<Rightarrow> bool" where
  "camera_shape c =
     (exactKeys c [''cameraId'', ''name'', ''adapter'', ''profiles'', ''permissions'', ''credentialMode'', ''weakRevocation'']
      \<and> in_class_cp is_id_char 1 64 (cfield c ''cameraId'') \<and> text_within (cfield c ''name'') 128
      \<and> (case c_arr (cfield c ''profiles'') of None \<Rightarrow> False | Some ps \<Rightarrow> length ps \<le> 32)
      \<and> permissions_ok (cfield c ''permissions''))"

fun check_cameras :: "(nat list \<Rightarrow> url option) \<Rightarrow> cval list \<Rightarrow> cval list \<Rightarrow> grant_error option" where
  "check_cameras parse_url seen [] = None"
| "check_cameras parse_url seen (c # cs) =
     (if \<not> camera_shape c then Some CameraScope
      else let i = the (cfield c ''cameraId'')
           in if seen_before seen i then Some CameraDuplicate
              else case check_profiles parse_url [] (the (c_arr (cfield c ''profiles''))) of
                     Some e \<Rightarrow> Some e
                   | None \<Rightarrow> check_cameras parse_url (i # seen) cs)"

definition grant_window :: "int \<Rightarrow> cval \<Rightarrow> bool" where
  "grant_window now v =
     (case (c_int (cfield v ''issuedAt''), c_int (cfield v ''expiresAt''), c_int (cfield v ''revision'')) of
        (Some iss, Some expiry, Some revision) \<Rightarrow>
          iss < expiry \<and> iss \<le> now + 300 \<and> now < expiry \<and> expiry - iss \<le> 7 * 24 * 60 * 60 + 300 \<and> 0 \<le> revision
      | _ \<Rightarrow> False)"

definition browserGrant :: "(nat list \<Rightarrow> url option) \<Rightarrow> int \<Rightarrow> cval \<Rightarrow> grant_error + cval" where
  "browserGrant parse_url now v =
     (if cfield v ''format'' \<noteq> Some (CText (cp ''webobs-browser-grant-v1''))
         \<or> cfield v ''contractVersion'' \<noteq> Some (CInt 2)
         \<or> \<not> exactKeys v [''format'', ''contractVersion'', ''clientId'', ''issuedAt'', ''expiresAt'', ''revision'', ''cameras'']
         \<or> \<not> in_class_cp is_hex_lower 32 32 (cfield v ''clientId'')
         \<or> \<not> grant_window now v
         \<or> (case c_arr (cfield v ''cameras'') of None \<Rightarrow> True | Some cs \<Rightarrow> 64 < length cs)
         \<or> forbidden v
      then Inl GrantContract
      else case check_cameras parse_url [] (the (c_arr (cfield v ''cameras''))) of
             Some e \<Rightarrow> Inl e
           | None \<Rightarrow> Inr v)"

section \<open>The stored identity\<close>

record stored_identity =
  enrollmentId :: string
  pairingCode :: "string option"
  deviceToken :: string
  signingPublicKey :: string
  signingPrivateKey :: string
  encryptionPublicKey :: string
  encryptionPrivateKey :: string
  clientId :: "string option"
  grantBundle :: "jsv option"
  grantPayload :: "cval option"
  id_expiresAt :: int

definition LEASE_MS :: int where "LEASE_MS = 7 * 24 * 60 * 60 * 1000"

text \<open>Times of the identity are milliseconds, those of a payload are seconds.\<close>

definition approvedIdentity :: "int \<Rightarrow> stored_identity \<Rightarrow> bool" where
  "approvedIdentity nowMs i =
     (case (clientId i, grantPayload i) of
        (Some c, Some g) \<Rightarrow> hex32 c \<and> nowMs < id_expiresAt i
          \<and> cfield g ''format'' = Some (CText (cp ''webobs-browser-grant-v1''))
          \<and> cfield g ''contractVersion'' = Some (CInt 2) \<and> cfield g ''clientId'' = Some (CText (cp c))
          \<and> (case c_int (cfield g ''expiresAt'') of Some t \<Rightarrow> t * 1000 = id_expiresAt i | None \<Rightarrow> False)
      | _ \<Rightarrow> False)"

definition base64url :: "nat \<Rightarrow> string \<Rightarrow> bool" where
  "base64url n s = in_class (\<lambda>c. is_alnum c \<or> c = CHR ''_'' \<or> c = CHR ''-'') n n s"

text \<open>The guard of \<open>saveBrowserIdentity\<close>; an empty pairing code counts as none.\<close>

definition identity_valid :: "int \<Rightarrow> stored_identity \<Rightarrow> bool" where
  "identity_valid nowMs i =
     (hex32 (enrollmentId i)
      \<and> (case pairingCode i of None \<Rightarrow> True | Some p \<Rightarrow> p = [] \<or> in_class is_digit 8 8 p)
      \<and> base64url 64 (deviceToken i) \<and> base64url 43 (signingPublicKey i) \<and> base64url 86 (signingPrivateKey i)
      \<and> base64url 43 (encryptionPublicKey i) \<and> base64url 43 (encryptionPrivateKey i)
      \<and> nowMs < id_expiresAt i \<and> id_expiresAt i \<le> nowMs + LEASE_MS + 5 * 60 * 1000
      \<and> (clientId i \<noteq> None \<longrightarrow> approvedIdentity nowMs i))"

definition saveBrowserIdentity :: "int \<Rightarrow> stored_identity \<Rightarrow> grant_error + stored_identity" where
  "saveBrowserIdentity nowMs i = (if identity_valid nowMs i then Inr i else Inl IdentityInvalid)"

section \<open>Verification\<close>

record crypto =
  unb64 :: "string \<Rightarrow> byte list option"
  seal_open :: "byte list \<Rightarrow> byte list \<Rightarrow> byte list \<Rightarrow> byte list option"
  verify_detached :: "byte list \<Rightarrow> byte list \<Rightarrow> byte list \<Rightarrow> bool"
  PUBLICKEYBYTES :: nat
  SIGN_BYTES :: nat

record grant_client =
  gc_id :: string
  grantExpiresAt :: int

definition pinned_key :: "stored_identity \<Rightarrow> string option" where
  "pinned_key i = (case grantBundle i of None \<Rightarrow> None
     | Some b \<Rightarrow> (case field b ''serverSigningPublicKey'' of JStr k \<Rightarrow> Some k | _ \<Rightarrow> None))"

definition payload_int :: "string \<Rightarrow> cval \<Rightarrow> int" where
  "payload_int k v = (case c_int (cfield v k) of Some n \<Rightarrow> n | None \<Rightarrow> 0)"

text \<open>From the envelope to the validated payload.\<close>

definition unseal_grant ::
  "crypto \<Rightarrow> (nat list \<Rightarrow> url option) \<Rightarrow> int \<Rightarrow> stored_identity \<Rightarrow> jsv \<Rightarrow> grant_error + (string \<times> cval)" where
  "unseal_grant cr parse_url nowMs i sealed =
     (case (field sealed ''ciphertext'', field sealed ''serverSigningPublicKey'') of
        (JStr ciphertext, JStr key) \<Rightarrow>
          if field sealed ''format'' \<noteq> JStr ''webobs-client-grant+cbor-sealed-v1''
             \<or> field sealed ''contractVersion'' \<noteq> JInt 2 \<or> 2 * 1024 * 1024 < length ciphertext
          then Inl BundleInvalid
          else (case unb64 cr key of
             None \<Rightarrow> Inl BadBase64
           | Some keyBytes \<Rightarrow>
               if length keyBytes \<noteq> PUBLICKEYBYTES cr then Inl BundleInvalid
               else (case (unb64 cr ciphertext, unb64 cr (encryptionPublicKey i), unb64 cr (encryptionPrivateKey i)) of
                  (Some ct, Some pk, Some sk) \<Rightarrow>
                    (case seal_open cr ct pk sk of
                       None \<Rightarrow> Inl SealBroken
                     | Some opened \<Rightarrow>
                         if length opened \<le> SIGN_BYTES cr then Inl SealBroken
                         else let signature = take (SIGN_BYTES cr) opened; payload = drop (SIGN_BYTES cr) opened
                              in if pinned_key i \<noteq> None \<and> pinned_key i \<noteq> Some key then Inl SigningKeyChanged
                                 else if \<not> verify_detached cr signature payload keyBytes then Inl BadSignature
                                 else (case decodeCbor payload of
                                         Inl e \<Rightarrow> Inl (BadCbor e)
                                       | Inr v \<Rightarrow> (case browserGrant parse_url (nowMs div 1000) v of
                                           Inl e \<Rightarrow> Inl e | Inr g \<Rightarrow> Inr (key, g))))
                | _ \<Rightarrow> Inl BadBase64))
      | _ \<Rightarrow> Inl BundleInvalid)"

definition persistVerifiedGrant ::
  "crypto \<Rightarrow> (nat list \<Rightarrow> url option) \<Rightarrow> int \<Rightarrow> stored_identity \<Rightarrow> grant_client \<Rightarrow> jsv
   \<Rightarrow> grant_error + stored_identity" where
  "persistVerifiedGrant cr parse_url nowMs i client sealed =
     (case unseal_grant cr parse_url nowMs i sealed of
        Inl e \<Rightarrow> Inl e
      | Inr (key, g) \<Rightarrow>
          if cfield g ''clientId'' \<noteq> Some (CText (cp (gc_id client)))
             \<or> c_int (cfield g ''expiresAt'') \<noteq> Some (grantExpiresAt client)
          then Inl ClientMismatch
          else if (case grantPayload i of None \<Rightarrow> False
               | Some old \<Rightarrow> payload_int ''revision'' g < payload_int ''revision'' old
                   \<or> payload_int ''issuedAt'' g < payload_int ''issuedAt'' old)
          then Inl Replay
          else saveBrowserIdentity nowMs
            (i\<lparr>pairingCode := None, clientId := Some (gc_id client), grantBundle := Some sealed,
               grantPayload := Some g, id_expiresAt := grantExpiresAt client * 1000\<rparr>))"


section \<open>Enrollment\<close>

text \<open>
  The calls around the verification, on the identity that is stored (or not).  A response is its
  status and its decoded body; \<open>None\<close> as the next identity means that the private state has been
  cleared.
\<close>

datatype pairing_state = Pending | Approved

record browser_pairing =
  bp_enrollmentId :: string
  bp_pairingCode :: string
  bp_expiresAt :: int
  bp_state :: pairing_state

datatype enroll_error =
    NameEmpty | PairingFailed nat | PairingInvalid | IdentityRevoked | CompletionFailed nat | NotPaired
  | RenewalFailed nat | ContractMismatch | BundleMissing | GrantFailed grant_error

record created_enrollment =
  ce_id :: string
  ce_code :: string
  ce_token :: string
  ce_expiresAt :: int

record key_material =
  km_signingPublic :: string
  km_signingPrivate :: string
  km_encryptionPublic :: string
  km_encryptionPrivate :: string

definition enrollment_proof :: "string \<Rightarrow> byte list \<Rightarrow> byte list \<Rightarrow> byte list \<Rightarrow> byte list" where
  "enrollment_proof name signing encryption nonce = encode_map
     [(cp ''purpose'', Text (cp ''webobs-client-enrollment-v1'')), (cp ''name'', Text (cp name)),
      (cp ''platform'', Text (cp ''web'')), (cp ''signingPublicKey'', Bytes signing),
      (cp ''encryptionPublicKey'', Bytes encryption), (cp ''nonce'', Bytes nonce)]"

definition beginBrowserEnrollment ::
  "int \<Rightarrow> string \<Rightarrow> key_material \<Rightarrow> nat \<times> created_enrollment \<Rightarrow> stored_identity option
   \<Rightarrow> (enroll_error + browser_pairing) \<times> stored_identity option" where
  "beginBrowserEnrollment nowMs name kms response identity =
     (let normalizedName = take 64 (trim name); (status, created) = response; now = nowMs div 1000 in
      if normalizedName = [] then (Inl NameEmpty, identity)
      else if \<not> (200 \<le> status \<and> status < 300) then (Inl (PairingFailed status), identity)
      else if \<not> hex32 (ce_id created) \<or> \<not> in_class is_digit 8 8 (ce_code created)
           \<or> \<not> base64url 64 (ce_token created) \<or> ce_expiresAt created \<le> now
           \<or> now + 10 * 60 + 30 < ce_expiresAt created
      then (Inl PairingInvalid, identity)
      else case saveBrowserIdentity nowMs
             \<lparr>enrollmentId = ce_id created, pairingCode = Some (ce_code created), deviceToken = ce_token created,
              signingPublicKey = km_signingPublic kms, signingPrivateKey = km_signingPrivate kms,
              encryptionPublicKey = km_encryptionPublic kms, encryptionPrivateKey = km_encryptionPrivate kms,
              clientId = None, grantBundle = None, grantPayload = None, id_expiresAt = ce_expiresAt created * 1000\<rparr> of
             Inl e \<Rightarrow> (Inl (GrantFailed e), None)
           | Inr i \<Rightarrow> (Inr \<lparr>bp_enrollmentId = ce_id created, bp_pairingCode = ce_code created,
               bp_expiresAt = ce_expiresAt created * 1000, bp_state = Pending\<rparr>, Some i))"

definition code_or_empty :: "string option \<Rightarrow> string" where
  "code_or_empty c = (case c of None \<Rightarrow> [] | Some s \<Rightarrow> s)"

definition completeBrowserEnrollment ::
  "crypto \<Rightarrow> (nat list \<Rightarrow> url option) \<Rightarrow> int \<Rightarrow> nat \<times> grant_client \<times> jsv \<Rightarrow> stored_identity option
   \<Rightarrow> (enroll_error + browser_pairing option) \<times> stored_identity option" where
  "completeBrowserEnrollment cr parse_url nowMs response identity =
     (case identity of
        None \<Rightarrow> (Inr None, None)
      | Some i \<Rightarrow> (case response of (status, client, sealed) \<Rightarrow>
          if status = 202 then
            (Inr (Some \<lparr>bp_enrollmentId = enrollmentId i, bp_pairingCode = code_or_empty (pairingCode i),
               bp_expiresAt = id_expiresAt i, bp_state = Pending\<rparr>), identity)
          else if status = 401 \<or> status = 403 then (Inl IdentityRevoked, None)
          else if \<not> (200 \<le> status \<and> status < 300) then (Inl (CompletionFailed status), identity)
          else case persistVerifiedGrant cr parse_url nowMs i client sealed of
                 Inl e \<Rightarrow> (Inl (GrantFailed e), identity)
               | Inr i' \<Rightarrow> (Inr (Some \<lparr>bp_enrollmentId = enrollmentId i, bp_pairingCode = [],
                   bp_expiresAt = grantExpiresAt client * 1000, bp_state = Approved\<rparr>), Some i')))"

definition browserDeviceToken :: "stored_identity option \<Rightarrow> enroll_error + string" where
  "browserDeviceToken identity =
     (case identity of
        None \<Rightarrow> Inl NotPaired
      | Some i \<Rightarrow> (case clientId i of None \<Rightarrow> Inl NotPaired | Some c \<Rightarrow> if c = [] then Inl NotPaired else Inr (deviceToken i)))"

definition browserDeviceHeaders :: "stored_identity option \<Rightarrow> enroll_error + string" where
  "browserDeviceHeaders identity =
     (case browserDeviceToken identity of Inl e \<Rightarrow> Inl e | Inr t \<Rightarrow> Inr (''WebObs-Device '' @ t))"

definition currentBrowserPairing :: "stored_identity option \<Rightarrow> browser_pairing option" where
  "currentBrowserPairing identity = map_option (\<lambda>i.
     \<lparr>bp_enrollmentId = enrollmentId i, bp_pairingCode = code_or_empty (pairingCode i), bp_expiresAt = id_expiresAt i,
      bp_state = (case clientId i of None \<Rightarrow> Pending | Some c \<Rightarrow> if c = [] then Pending else Approved)\<rparr>) identity"

definition refreshBrowserAuthorization ::
  "crypto \<Rightarrow> (nat list \<Rightarrow> url option) \<Rightarrow> int \<Rightarrow> nat \<times> jsv \<times> grant_client \<times> jsv \<Rightarrow> stored_identity option
   \<Rightarrow> (enroll_error + int option) \<times> stored_identity option" where
  "refreshBrowserAuthorization cr parse_url nowMs response identity =
     (case browserDeviceToken identity of
        Inl _ \<Rightarrow> (Inr None, identity)
      | Inr _ \<Rightarrow> (case response of (status, contractVersion, client, sealed) \<Rightarrow>
          if status = 401 \<or> status = 403 then (Inl IdentityRevoked, None)
          else if \<not> (200 \<le> status \<and> status < 300) then (Inl (RenewalFailed status), identity)
          else if contractVersion \<noteq> JInt 2 then (Inl ContractMismatch, identity)
          else case persistVerifiedGrant cr parse_url nowMs (the identity) client sealed of
                 Inl e \<Rightarrow> (Inl (GrantFailed e), identity)
               | Inr i' \<Rightarrow> (Inr (Some (grantExpiresAt client * 1000)), Some i')))"

text \<open>The grant that comes with a synchronization; a server without grants keeps one that has none.\<close>

definition acceptBrowserBootstrap ::
  "crypto \<Rightarrow> (nat list \<Rightarrow> url option) \<Rightarrow> int \<Rightarrow> grant_client option \<times> jsv option \<Rightarrow> stored_identity option
   \<Rightarrow> (enroll_error + unit) \<times> stored_identity option" where
  "acceptBrowserBootstrap cr parse_url nowMs body identity =
     (case browserDeviceToken identity of
        Inl e \<Rightarrow> (Inl e, identity)
      | Inr _ \<Rightarrow>
          if body = (None, None) \<and> grantBundle (the identity) = None then (Inr (), identity)
          else (case body of
             (Some client, Some sealed) \<Rightarrow>
               if clientId (the identity) \<noteq> Some (gc_id client) then (Inl BundleMissing, identity)
               else (case persistVerifiedGrant cr parse_url nowMs (the identity) client sealed of
                  Inl e \<Rightarrow> (Inl (GrantFailed e), identity)
                | Inr i' \<Rightarrow> (Inr (), Some i'))
           | _ \<Rightarrow> (Inl BundleMissing, identity)))"

section \<open>What an accepted grant guarantees\<close>

text \<open>\<open>occurs k v\<close>: the key \<open>k\<close> is used somewhere inside \<open>v\<close>, at any depth.\<close>

inductive occurs :: "nat list \<Rightarrow> cval \<Rightarrow> bool" where
  here: "(k, v) \<in> set es \<Longrightarrow> occurs k (CMap es)"
| inside: "(k', v) \<in> set es \<Longrightarrow> occurs k v \<Longrightarrow> occurs k (CMap es)"
| item: "v \<in> set xs \<Longrightarrow> occurs k v \<Longrightarrow> occurs k (CArr xs)"

inductive_simps occurs_simps [simp]: "occurs k (CMap es)" "occurs k (CArr xs)" "occurs k (CInt n)" "occurs k CNull"

lemma occurs_forbidden: "occurs k v \<Longrightarrow> sensitive k \<Longrightarrow> forbidden v"
  by (induction rule: occurs.induct) (auto simp: list_ex_iff)

lemma browserGrant_InrE:
  assumes "browserGrant parse_url now v = Inr g"
  shows "g = v" "grant_window now v" "\<not> forbidden v" "in_class_cp is_hex_lower 32 32 (cfield v ''clientId'')"
    "\<exists>cs. c_arr (cfield v ''cameras'') = Some cs \<and> length cs \<le> 64 \<and> check_cameras parse_url [] cs = None"
  using assms by (auto simp: browserGrant_def split: if_splits option.splits)

definition endpoint_safe :: "(nat list \<Rightarrow> url option) \<Rightarrow> cval \<Rightarrow> bool" where
  "endpoint_safe parse_url p =
     (field_truthy p ''endpoint'' = field_truthy p ''browserDirectEligible''
      \<and> (field_truthy p ''endpoint'' \<longrightarrow>
           (\<exists>u. parse_url (js_string (the (cfield p ''endpoint''))) = Some u \<and> url_protocol u = ''https:''
              \<and> url_username u = [] \<and> url_password u = [] \<and> url_search u = [] \<and> url_hash u = [])))"

lemma safe_endpoint_None: "safe_endpoint parse_url p = None \<Longrightarrow> endpoint_safe parse_url p"
  by (auto simp: safe_endpoint_def endpoint_safe_def split: if_splits option.splits)

lemma check_profiles_None:
  "check_profiles parse_url seen ps = None \<Longrightarrow> \<forall>p \<in> set ps. profile_shape p \<and> endpoint_safe parse_url p"
  by (induction parse_url seen ps rule: check_profiles.induct)
     (auto simp: Let_def safe_endpoint_None split: if_splits option.splits)

definition camera_safe :: "(nat list \<Rightarrow> url option) \<Rightarrow> cval \<Rightarrow> bool" where
  "camera_safe parse_url c =
     (camera_shape c \<and> (\<forall>p \<in> set (the (c_arr (cfield c ''profiles''))). profile_shape p \<and> endpoint_safe parse_url p))"

lemma check_cameras_None:
  "check_cameras parse_url seen cs = None \<Longrightarrow> \<forall>c \<in> set cs. camera_safe parse_url c"
  by (induction parse_url seen cs rule: check_cameras.induct)
     (auto simp: Let_def camera_safe_def dest: check_profiles_None split: if_splits option.splits)

lemma check_cameras_fresh:
  "check_cameras parse_url seen cs = None \<Longrightarrow>
   distinct (filter primitive (map (\<lambda>c. the (cfield c ''cameraId'')) cs))
   \<and> set (filter primitive (map (\<lambda>c. the (cfield c ''cameraId'')) cs)) \<inter> set seen = {}"
  by (induction parse_url seen cs rule: check_cameras.induct)
     (auto simp: Let_def seen_before_def split: if_splits option.splits)


section \<open>Pinning and replay\<close>

lemma unseal_grant_InrE:
  assumes "unseal_grant cr parse_url nowMs i sealed = Inr (key, g)"
  shows "field sealed ''serverSigningPublicKey'' = JStr key" "pinned_key i = None \<or> pinned_key i = Some key"
    "browserGrant parse_url (nowMs div 1000) g = Inr g"
    "\<exists>keyBytes signature payload. unb64 cr key = Some keyBytes \<and> verify_detached cr signature payload keyBytes
       \<and> decodeCbor payload = Inr g"
proof -
  have all: "field sealed ''serverSigningPublicKey'' = JStr key \<and> (pinned_key i = None \<or> pinned_key i = Some key)
    \<and> browserGrant parse_url (nowMs div 1000) g = Inr g
    \<and> (\<exists>keyBytes signature payload. unb64 cr key = Some keyBytes \<and> verify_detached cr signature payload keyBytes
       \<and> decodeCbor payload = Inr g)"
    using assms browserGrant_InrE(1) unfolding unseal_grant_def Let_def
    by (fastforce split: jsv.splits option.splits if_splits sum.splits)
  then show "field sealed ''serverSigningPublicKey'' = JStr key" "pinned_key i = None \<or> pinned_key i = Some key"
    "browserGrant parse_url (nowMs div 1000) g = Inr g"
    "\<exists>keyBytes signature payload. unb64 cr key = Some keyBytes \<and> verify_detached cr signature payload keyBytes
       \<and> decodeCbor payload = Inr g" by blast+
qed


lemma persist_InrE:
  assumes "persistVerifiedGrant cr parse_url nowMs i client sealed = Inr i'"
  obtains key g where "unseal_grant cr parse_url nowMs i sealed = Inr (key, g)"
    "i' = i\<lparr>pairingCode := None, clientId := Some (gc_id client), grantBundle := Some sealed,
       grantPayload := Some g, id_expiresAt := grantExpiresAt client * 1000\<rparr>"
    "identity_valid nowMs i'"
    "\<forall>old. grantPayload i = Some old \<longrightarrow> payload_int ''revision'' old \<le> payload_int ''revision'' g
       \<and> payload_int ''issuedAt'' old \<le> payload_int ''issuedAt'' g"
    "cfield g ''clientId'' = Some (CText (cp (gc_id client)))"
  using assms unfolding persistVerifiedGrant_def saveBrowserIdentity_def
  by (auto split: sum.splits if_splits option.splits prod.splits)

text \<open>One attempt to store a grant; a rejected one leaves the identity as it is.\<close>

definition grant_step :: "crypto \<Rightarrow> (nat list \<Rightarrow> url option) \<Rightarrow> stored_identity \<Rightarrow> int \<times> grant_client \<times> jsv \<Rightarrow> stored_identity" where
  "grant_step cr parse_url i e = (case e of (nowMs, client, sealed) \<Rightarrow>
     (case persistVerifiedGrant cr parse_url nowMs i client sealed of Inl _ \<Rightarrow> i | Inr i' \<Rightarrow> i'))"

text \<open>\<open>s\<close> is no older than \<open>i\<close>: the pinned key stays, revision and issue time do not go back, and the
  device keeps its keys.\<close>

definition not_older :: "stored_identity \<Rightarrow> stored_identity \<Rightarrow> bool" where
  "not_older i s =
     ((\<forall>k. pinned_key i = Some k \<longrightarrow> pinned_key s = Some k)
      \<and> (\<forall>old. grantPayload i = Some old \<longrightarrow>
           (\<exists>g. grantPayload s = Some g \<and> payload_int ''revision'' old \<le> payload_int ''revision'' g
              \<and> payload_int ''issuedAt'' old \<le> payload_int ''issuedAt'' g))
      \<and> deviceToken s = deviceToken i \<and> encryptionPrivateKey s = encryptionPrivateKey i
      \<and> signingPrivateKey s = signingPrivateKey i)"

lemma grant_step_not_older:
  assumes "not_older i s"
  shows "not_older i (grant_step cr parse_url s e)"
proof -
  obtain nowMs client sealed where e: "e = (nowMs, client, sealed)" by (cases e) auto
  show ?thesis
  proof (cases "persistVerifiedGrant cr parse_url nowMs s client sealed")
    case (Inl err)
    with assms show ?thesis by (simp add: grant_step_def e)
  next
    case (Inr s')
    from persist_InrE [OF Inr] obtain key g where p: "unseal_grant cr parse_url nowMs s sealed = Inr (key, g)"
      "s' = s\<lparr>pairingCode := None, clientId := Some (gc_id client), grantBundle := Some sealed,
         grantPayload := Some g, id_expiresAt := grantExpiresAt client * 1000\<rparr>"
      "\<forall>old. grantPayload s = Some old \<longrightarrow> payload_int ''revision'' old \<le> payload_int ''revision'' g
         \<and> payload_int ''issuedAt'' old \<le> payload_int ''issuedAt'' g" by metis
    have "pinned_key s' = Some key" using unseal_grant_InrE(1) [OF p(1)] by (simp add: pinned_key_def p(2))
    moreover have "pinned_key s = None \<or> pinned_key s = Some key" by (rule unseal_grant_InrE(2) [OF p(1)])
    ultimately have "\<forall>k. pinned_key i = Some k \<longrightarrow> pinned_key s' = Some k"
      using assms by (auto simp: not_older_def)
    moreover have "\<forall>old. grantPayload i = Some old \<longrightarrow> (\<exists>g. grantPayload s' = Some g
        \<and> payload_int ''revision'' old \<le> payload_int ''revision'' g \<and> payload_int ''issuedAt'' old \<le> payload_int ''issuedAt'' g)"
      using assms p(2,3) unfolding not_older_def by (fastforce intro: order_trans)
    ultimately show ?thesis using assms Inr p(2) by (simp add: grant_step_def e not_older_def)
  qed
qed

interpretation grants: machine i "grant_step cr parse_url" "not_older i" for i cr parse_url
proof
  show "not_older i i" by (simp add: not_older_def)
qed (rule grant_step_not_older)


text \<open>C24. Whatever is stored was signed: an identity that a grant has updated holds a payload that was
  decoded from bytes verified under the announced server key, that passes the contract, and that makes
  the identity an approved one until the grant expires.\<close>

theorem stored_grant_authentic:
  assumes "persistVerifiedGrant cr parse_url nowMs i client sealed = Inr i'"
  shows "\<exists>g key keyBytes signature payload. grantPayload i' = Some g \<and> pinned_key i' = Some key
    \<and> unb64 cr key = Some keyBytes \<and> verify_detached cr signature payload keyBytes \<and> decodeCbor payload = Inr g
    \<and> browserGrant parse_url (nowMs div 1000) g = Inr g \<and> approvedIdentity nowMs i'"
proof -
  from persist_InrE [OF assms] obtain key g where p: "unseal_grant cr parse_url nowMs i sealed = Inr (key, g)"
    "i' = i\<lparr>pairingCode := None, clientId := Some (gc_id client), grantBundle := Some sealed,
       grantPayload := Some g, id_expiresAt := grantExpiresAt client * 1000\<rparr>"
    "identity_valid nowMs i'" by metis
  have "pinned_key i' = Some key" using unseal_grant_InrE(1) [OF p(1)] by (simp add: pinned_key_def p(2))
  moreover have "approvedIdentity nowMs i'" using p(2,3) by (simp add: identity_valid_def)
  ultimately show ?thesis using unseal_grant_InrE(3,4) [OF p(1)] p(2) by auto
qed


section \<open>A concrete grant\<close>

definition demo_client :: string where
  "demo_client = replicate 32 CHR ''a''"

definition demo_payload :: "byte list" where
  "demo_payload = head 5 7 @ encode_leaf (Text (cp ''format'')) @ encode_leaf (Text (cp ''webobs-browser-grant-v1''))
    @ encode_leaf (Text (cp ''contractVersion'')) @ head 0 2
    @ encode_leaf (Text (cp ''clientId'')) @ encode_leaf (Text (cp demo_client))
    @ encode_leaf (Text (cp ''issuedAt'')) @ head 0 100 @ encode_leaf (Text (cp ''expiresAt'')) @ head 0 200
    @ encode_leaf (Text (cp ''revision'')) @ head 0 1 @ encode_leaf (Text (cp ''cameras'')) @ head 4 0"

definition demo_grant :: cval where
  "demo_grant = CMap [(cp ''format'', CText (cp ''webobs-browser-grant-v1'')), (cp ''contractVersion'', CInt 2),
     (cp ''clientId'', CText (cp demo_client)), (cp ''issuedAt'', CInt 100), (cp ''expiresAt'', CInt 200),
     (cp ''revision'', CInt 1), (cp ''cameras'', CArr [])]"

definition demo_crypto :: crypto where
  "demo_crypto = \<lparr>unb64 = (\<lambda>s. Some (replicate (if s = [] then 5 else 32) 0)),
     seal_open = (\<lambda>_ _ _. Some (replicate 64 0 @ demo_payload)), verify_detached = (\<lambda>_ _ _. True),
     PUBLICKEYBYTES = 32, SIGN_BYTES = 64\<rparr>"

definition demo_identity :: stored_identity where
  "demo_identity = \<lparr>enrollmentId = demo_client, pairingCode = Some (replicate 8 CHR ''1''),
     deviceToken = replicate 64 CHR ''t'', signingPublicKey = replicate 43 CHR ''p'',
     signingPrivateKey = replicate 86 CHR ''s'', encryptionPublicKey = replicate 43 CHR ''e'',
     encryptionPrivateKey = replicate 43 CHR ''d'', clientId = None, grantBundle = None, grantPayload = None,
     id_expiresAt = 160000\<rparr>"

definition demo_sealed :: jsv where
  "demo_sealed = JObj [(''format'', JStr ''webobs-client-grant+cbor-sealed-v1''), (''contractVersion'', JInt 2),
     (''ciphertext'', JStr []), (''serverSigningPublicKey'', JStr ''key'')]"

definition demo_grant_client :: grant_client where
  "demo_grant_client = \<lparr>gc_id = demo_client, grantExpiresAt = 200\<rparr>"

lemma demo_grant_accepted: "browserGrant (\<lambda>_. None) 150 demo_grant = Inr demo_grant"
  by code_simp

lemma demo_payload_decodes: "decodeCbor demo_payload = Inr demo_grant"
  by code_simp

lemma demo_payload_nonempty: "demo_payload \<noteq> []"
  by code_simp

lemma demo_unseal: "unseal_grant demo_crypto (\<lambda>_. None) 150000 demo_identity demo_sealed = Inr (''key'', demo_grant)"
  using demo_grant_accepted demo_payload_decodes demo_payload_nonempty
  by (simp add: unseal_grant_def demo_crypto_def demo_sealed_def demo_identity_def pinned_key_def Let_def)

lemma demo_fields:
  "cfield demo_grant ''clientId'' = Some (CText (cp demo_client))" "c_int (cfield demo_grant ''expiresAt'') = Some 200"
  by code_simp+

lemma demo_identity_valid:
  "identity_valid 150000 (demo_identity\<lparr>pairingCode := None, clientId := Some demo_client,
     grantBundle := Some demo_sealed, grantPayload := Some demo_grant, id_expiresAt := 200000\<rparr>)"
proof -
  have "hex32 demo_client" "base64url 64 (replicate 64 CHR ''t'')" "base64url 43 (replicate 43 CHR ''p'')"
    "base64url 86 (replicate 86 CHR ''s'')" "base64url 43 (replicate 43 CHR ''e'')" "base64url 43 (replicate 43 CHR ''d'')"
    "cfield demo_grant ''format'' = Some (CText (cp ''webobs-browser-grant-v1''))"
    "cfield demo_grant ''contractVersion'' = Some (CInt 2)" by code_simp+
  then show ?thesis
    by (simp add: identity_valid_def approvedIdentity_def demo_fields LEASE_MS_def) (simp add: demo_identity_def)
qed

lemma demo_persist:
  "persistVerifiedGrant demo_crypto (\<lambda>_. None) 150000 demo_identity demo_grant_client demo_sealed
   = Inr (demo_identity\<lparr>pairingCode := None, clientId := Some demo_client,
       grantBundle := Some demo_sealed, grantPayload := Some demo_grant, id_expiresAt := 200000\<rparr>)"
proof -
  have "grantPayload demo_identity = None" by (simp add: demo_identity_def)
  then show ?thesis
    using demo_identity_valid
    by (simp add: persistVerifiedGrant_def demo_unseal demo_fields demo_grant_client_def saveBrowserIdentity_def)
qed


theorem stored_grant_authentic_witness:
  "\<exists>payload. decodeCbor payload = Inr demo_grant \<and> browserGrant (\<lambda>_. None) 150 demo_grant = Inr demo_grant"
  using stored_grant_authentic [OF demo_persist] by auto

end
