(* ===== verification/SceneJson.thy ===== *)
theory SceneJson
  imports Scene
begin

text \<open>
  Scene documents as JavaScript values, and the text of a value: what \<open>structuredClone\<close> copies into
  a synchronization mutation and what \<open>JSON.stringify\<close> hands to the redaction check of the local
  store.  The decimal form of a number is the argument \<open>num\<close>.
\<close>

section \<open>Documents as values\<close>

fun scale_mode_name :: "scale_mode \<Rightarrow> string" where
  "scale_mode_name Contain = ''contain''"
| "scale_mode_name Cover = ''cover''"
| "scale_mode_name Stretch = ''stretch''"

fun transport_name :: "transport \<Rightarrow> string" where
  "transport_name Tcp = ''tcp''"
| "transport_name Udp = ''udp''"

fun monitoring_name :: "audio_monitoring \<Rightarrow> string" where
  "monitoring_name MonitorOff = ''off''"
| "monitoring_name MonitorOnly = ''monitor-only''"
| "monitoring_name MonitorAndOutput = ''monitor-and-output''"

fun blend_name :: "blend_mode \<Rightarrow> string" where
  "blend_name BlendNormal = ''normal''"
| "blend_name BlendAdd = ''add''"
| "blend_name BlendMultiply = ''multiply''"
| "blend_name BlendScreen = ''screen''"

fun filter_name :: "filter_kind \<Rightarrow> string" where
  "filter_name CropPad = ''crop-pad''"
| "filter_name OpacityFilter = ''opacity''"
| "filter_name ColorCorrection = ''color-correction''"
| "filter_name MaskBlend = ''mask-blend''"
| "filter_name Lut = ''lut''"
| "filter_name Scaling = ''scaling''"
| "filter_name DelayFilter = ''delay''"

definition js_of_canvas :: "scene_canvas \<Rightarrow> jsv" where
  "js_of_canvas c = JObj [(''width'', JRat (canvas_width c)), (''height'', JRat (canvas_height c)),
     (''backgroundColor'', JStr (backgroundColor c))]"

definition js_of_filter :: "scene_filter \<Rightarrow> jsv" where
  "js_of_filter f = JObj [(''id'', JStr (filter_id f)), (''kind'', JStr (filter_name (filter_of f))),
     (''enabled'', JBool (filter_enabled f)), (''amount'', JRat (filter_amount f)), (''value'', JStr (filter_value f))]"

definition js_of_audio_input :: "audio_input \<Rightarrow> jsv" where
  "js_of_audio_input a = JObj ([(''track'', JInt (ai_track a)), (''gain'', JRat (ai_gain a)), (''muted'', JBool (ai_muted a))]
     @ (case ai_offset a of None \<Rightarrow> [] | Some t \<Rightarrow> [(''syncOffsetMs'', JRat t)]))"

fun kind_fields :: "source_kind \<Rightarrow> (string \<times> jsv) list" where
  "kind_fields (RtspSource url t) = [(''kind'', JStr ''rtsp''), (''rtspUrl'', JStr url), (''transport'', JStr (transport_name t))]"
| "kind_fields (CameraSource c p d) = [(''kind'', JStr ''camera''), (''cameraId'', JStr c), (''profileId'', JStr p), (''hardwareDecode'', JStr d)]"
| "kind_fields (BrowserSource u w h f css a b) = [(''kind'', JStr ''browser''), (''url'', JStr u), (''width'', JRat w),
     (''height'', JRat h), (''fps'', JRat f), (''customCss'', JStr css), (''shutdownWhenHidden'', JBool a), (''restartWhenActive'', JBool b)]"
| "kind_fields (ImageSource f) = [(''kind'', JStr ''image''), (''filePath'', JStr f)]"
| "kind_fields (MediaSource f l) = [(''kind'', JStr ''media''), (''filePath'', JStr f), (''loop'', JBool l)]"
| "kind_fields (TextSource t c) = [(''kind'', JStr ''text''), (''text'', JStr t), (''color'', JStr c)]"
| "kind_fields (ColorSource c) = [(''kind'', JStr ''color''), (''color'', JStr c)]"
| "kind_fields (NestedSource i) = [(''kind'', JStr ''nested''), (''sceneId'', JStr i)]"

definition js_of_source :: "scene_source \<Rightarrow> jsv" where
  "js_of_source s = JObj ([(''id'', JStr (src_id s)), (''name'', JStr (src_name s)), (''muted'', JBool (src_muted s)),
     (''volume'', JRat (src_volume s)), (''syncOffsetMs'', JRat (syncOffsetMs s)),
     (''monitoring'', JStr (monitoring_name (monitoring s))), (''audioTrack'', JInt (audioTrack s))]
     @ (case audioInputs s of None \<Rightarrow> [] | Some xs \<Rightarrow> [(''audioInputs'', JArr (map js_of_audio_input xs))])
     @ [(''filters'', JArr (map js_of_filter (src_filters s)))] @ kind_fields (src_kind s))"

definition js_of_item :: "scene_item \<Rightarrow> jsv" where
  "js_of_item i = JObj [(''id'', JStr (item_id i)), (''sourceId'', JStr (item_source i)), (''x'', JRat (item_x i)),
     (''y'', JRat (item_y i)), (''width'', JRat (item_width i)), (''height'', JRat (item_height i)),
     (''scaleMode'', JStr (scale_mode_name (scaleMode i))),
     (''crop'', JObj [(''top'', JRat (crop_top (item_crop i))), (''right'', JRat (crop_right (item_crop i))),
        (''bottom'', JRat (crop_bottom (item_crop i))), (''left'', JRat (crop_left (item_crop i)))]),
     (''zIndex'', JRat (zIndex i)), (''visible'', JBool (item_visible i)), (''locked'', JBool (item_locked i)),
     (''groupId'', JStr (groupId i)), (''rotation'', JRat (item_rotation i)), (''opacity'', JRat (item_opacity i)),
     (''blendMode'', JStr (blend_name (blendMode i)))]"

definition js_of_scene :: "scene_document \<Rightarrow> jsv" where
  "js_of_scene s = JObj [(''schemaVersion'', JInt (scene_schema s)), (''revision'', JInt (scene_revision s)),
     (''id'', JStr (scene_id s)), (''name'', JStr (scene_name s)), (''canvas'', js_of_canvas (scene_canvas s)),
     (''sources'', JArr (map js_of_source (scene_sources s))), (''items'', JArr (map js_of_item (scene_items s)))]"

definition js_of_studio :: "studio_document \<Rightarrow> jsv" where
  "js_of_studio s = JObj [(''schemaVersion'', JInt (studio_schema s)), (''revision'', JInt (studio_revision s)),
     (''programSceneId'', JStr (programSceneId s)), (''previewSceneId'', JStr (previewSceneId s)),
     (''transition'', JObj [(''kind'', JStr (case transition_of s of Cut \<Rightarrow> ''cut'' | Fade \<Rightarrow> ''fade'')),
        (''durationMs'', JRat (transition_ms s))]),
     (''scenes'', JArr (map js_of_scene (studio_scenes s)))]"

section \<open>The text of a value\<close>

definition quote_char :: "char \<Rightarrow> string" where
  "quote_char c = (if c = CHR 0x22 then [CHR 0x5C, CHR 0x22] else if c = CHR 0x5C then [CHR 0x5C, CHR 0x5C]
     else if code c = 8 then [CHR 0x5C, CHR ''b''] else if code c = 9 then [CHR 0x5C, CHR ''t'']
     else if code c = 10 then [CHR 0x5C, CHR ''n''] else if code c = 12 then [CHR 0x5C, CHR ''f'']
     else if code c = 13 then [CHR 0x5C, CHR ''r'']
     else if code c < 32 then [CHR 0x5C, CHR ''u'', CHR ''0'', CHR ''0'', (if code c < 16 then CHR ''0'' else CHR ''1''),
       (let d = code c mod 16 in char_of (if d < 10 then 48 + d else 87 + d))]
     else [c])"

definition quote_str :: "string \<Rightarrow> string" where
  "quote_str s = CHR 0x22 # concat (map quote_char s) @ [CHR 0x22]"

fun commas :: "string list \<Rightarrow> string" where
  "commas [] = []"
| "commas [x] = x"
| "commas (x # xs) = x @ CHR '','' # commas xs"

text \<open>Members that are \<open>undefined\<close> are left out of an object and become \<open>null\<close> in an array.\<close>

fun stringify :: "(rat \<Rightarrow> string) \<Rightarrow> jsv \<Rightarrow> string" where
  "stringify num JUndef = ''null''"
| "stringify num JNull = ''null''"
| "stringify num (JBool b) = (if b then ''true'' else ''false'')"
| "stringify num (JNum n) = (case n of Fin r \<Rightarrow> num r | _ \<Rightarrow> ''null'')"
| "stringify num (JStr s) = quote_str s"
| "stringify num (JArr xs) = CHR ''['' # commas (map (stringify num) xs) @ [CHR '']'']"
| "stringify num (JObj es) = CHR ''{'' # commas (map (\<lambda>(k, v). quote_str k @ CHR '':'' # stringify num v)
     (filter (\<lambda>(k, v). v \<noteq> JUndef) es)) @ [CHR ''}'']"

end
