(* ===== verification/Sync.thy ===== *)
theory Sync
  imports SceneJson
begin

text \<open>
  Bidirectional synchronization (\<open>syncRuntime.ts\<close>, with the record types of \<open>localRuntime.ts\<close>): the
  queue of local mutations, the merge of server documents, the check of a server's answer, and one
  synchronization run.  The store holds a state and a queue; the server's answers and the saves that
  arrive while a request is in flight are arguments of the run.  \<open>rank\<close> is the collation order of
  \<open>localeCompare\<close>.  The locks make the operations of one store atomic, as they are here.
\<close>

datatype doc_kind = SceneDoc | CameraPreferenceDoc

datatype mutation_op = Upsert | DeleteOp

fun doc_kind_name :: "doc_kind \<Rightarrow> string" where
  "doc_kind_name SceneDoc = ''scene''"
| "doc_kind_name CameraPreferenceDoc = ''camera-preference''"

record sync_mutation =
  mu_kind :: doc_kind
  mu_id :: string
  mu_op :: mutation_op
  mu_fields :: "(string \<times> jsv) list"

record sync_document =
  sd_kind :: doc_kind
  sd_id :: string
  sd_revision :: int
  sd_deleted :: bool
  sd_updatedAt :: int
  sd_document :: jsv

text \<open>A conflict as the server reports it; a field is its name, the server's value if it has one, and
  the server's revision.\<close>

record conflict_field =
  cff_field :: string
  cff_serverValue :: "jsv option"
  cff_revision :: jsv

record sync_conflict =
  sc_kind :: string
  sc_id :: string
  sc_fields :: "conflict_field option list option"

record sync_state =
  ss_revision :: int
  ss_documents :: "sync_document list"
  ss_conflicts :: "sync_conflict list"
  ss_lastSyncedAt :: int

record sync_queue =
  baseRevision :: int
  mutations :: "sync_mutation list"

definition MAX_QUEUE :: nat where "MAX_QUEUE = 256"
definition MAX_SYNC_BATCH :: nat where "MAX_SYNC_BATCH = 64"

definition key_string :: "string \<Rightarrow> string \<Rightarrow> string" where
  "key_string k i = k @ CHR 0x00 # i"

definition keyOf :: "sync_mutation \<Rightarrow> string" where
  "keyOf m = key_string (doc_kind_name (mu_kind m)) (mu_id m)"

definition doc_key :: "sync_document \<Rightarrow> string" where
  "doc_key d = key_string (doc_kind_name (sd_kind d)) (sd_id d)"

definition conflict_key :: "sync_conflict \<Rightarrow> string" where
  "conflict_key c = key_string (sc_kind c) (sc_id c)"

section \<open>Merging\<close>

definition by_key :: "sync_document list \<Rightarrow> (string \<times> sync_document) list" where
  "by_key ds = map_from (map (\<lambda>d. (doc_key d, d)) ds)"

definition merge_one :: "sync_document \<Rightarrow> (string \<times> sync_document) list \<Rightarrow> (string \<times> sync_document) list" where
  "merge_one d m = (case map_of m (doc_key d) of
      None \<Rightarrow> assign (doc_key d) d m
    | Some old \<Rightarrow> if sd_revision old \<le> sd_revision d then assign (doc_key d) d m else m)"

definition mergeDocuments :: "(string \<Rightarrow> nat) \<Rightarrow> sync_document list \<Rightarrow> sync_document list \<Rightarrow> sync_document list" where
  "mergeDocuments rank current incoming =
     sort_key (rank \<circ> doc_key) (map snd (fold merge_one incoming (by_key current)))"

definition mergeMutation :: "sync_mutation option \<Rightarrow> sync_mutation \<Rightarrow> sync_mutation" where
  "mergeMutation current nxt =
     (case current of
        None \<Rightarrow> nxt
      | Some c \<Rightarrow> if mu_op nxt = DeleteOp \<or> mu_op c = DeleteOp then nxt
          else nxt\<lparr>mu_fields := spread (mu_fields c) (mu_fields nxt)\<rparr>)"

section \<open>The queue\<close>

datatype sync_error =
    QueueFull | AuthorizationRevoked | HttpFailed nat | BadJson | ContractVersion | TooManyScenes
  | BadResponse | NetworkLost

definition queue_map :: "sync_mutation list \<Rightarrow> (string \<times> sync_mutation) list" where
  "queue_map ms = map_from (map (\<lambda>m. (keyOf m, m)) ms)"

definition put_mutation :: "sync_mutation \<Rightarrow> (string \<times> sync_mutation) list \<Rightarrow> (string \<times> sync_mutation) list" where
  "put_mutation m q = assign (keyOf m) (mergeMutation (map_of q (keyOf m)) m) q"

definition scene_delete :: "string \<Rightarrow> sync_mutation" where
  "scene_delete i = \<lparr>mu_kind = SceneDoc, mu_id = i, mu_op = DeleteOp, mu_fields = []\<rparr>"

text \<open>Queued edits of scenes that the saved studio no longer has become deletions.\<close>

definition drop_missing :: "string list \<Rightarrow> (string \<times> sync_mutation) list \<Rightarrow> (string \<times> sync_mutation) list" where
  "drop_missing sceneIds q = map (\<lambda>(k, m).
     (k, if mu_kind m = SceneDoc \<and> mu_id m \<notin> set sceneIds then scene_delete (mu_id m) else m)) q"

definition queueMutations ::
  "sync_mutation list \<Rightarrow> string list option \<Rightarrow> sync_state option \<Rightarrow> sync_queue option \<Rightarrow> sync_error + sync_queue" where
  "queueMutations ms studio state queued =
     (let start = queue_map (case queued of None \<Rightarrow> [] | Some q \<Rightarrow> mutations q);
          kept = (case studio of None \<Rightarrow> start | Some ids \<Rightarrow> drop_missing ids start);
          merged = fold put_mutation ms kept
      in if length merged > MAX_QUEUE then Inl QueueFull
         else Inr \<lparr>baseRevision = (case queued of Some q \<Rightarrow> baseRevision q
                     | None \<Rightarrow> (case state of Some s \<Rightarrow> ss_revision s | None \<Rightarrow> 0)),
                   mutations = map snd merged\<rparr>)"

text \<open>\<open>queueStudioSync\<close>: one upsert for each scene, and deletions of known scenes that are gone.\<close>

definition syncable :: "scene_source \<Rightarrow> bool" where
  "syncable s = (case src_kind s of CameraSource _ _ _ \<Rightarrow> True | TextSource _ _ \<Rightarrow> True | ColorSource _ \<Rightarrow> True
     | NestedSource _ \<Rightarrow> True | _ \<Rightarrow> False)"

definition renumber :: "scene_item list \<Rightarrow> scene_item list" where
  "renumber its = map (\<lambda>(it, z). it\<lparr>zIndex := of_nat z\<rparr>) (zip its [0..<length its])"

definition scene_upsert :: "scene_document \<Rightarrow> sync_mutation" where
  "scene_upsert s =
     (let sources = filter syncable (scene_sources s);
          its = renumber (sort_key zIndex (filter (\<lambda>it. item_source it \<in> set (map src_id sources)) (scene_items s)))
      in \<lparr>mu_kind = SceneDoc, mu_id = scene_id s, mu_op = Upsert,
          mu_fields = [(''name'', JStr (scene_name s)), (''canvas'', js_of_canvas (scene_canvas s)),
            (''sources'', JArr (map js_of_source sources)), (''items'', JArr (map js_of_item its))]\<rparr>)"

definition studio_mutations :: "studio_document \<Rightarrow> sync_state option \<Rightarrow> sync_mutation list" where
  "studio_mutations studio state =
     map scene_upsert (studio_scenes studio)
     @ map (\<lambda>d. scene_delete (sd_id d))
         (filter (\<lambda>d. sd_kind d = SceneDoc \<and> \<not> sd_deleted d \<and> sd_id d \<notin> scene_id ` set (studio_scenes studio))
            (case state of None \<Rightarrow> [] | Some s \<Rightarrow> ss_documents s))"

definition queueStudioSync ::
  "studio_document \<Rightarrow> sync_state option \<Rightarrow> sync_queue option \<Rightarrow> sync_error + sync_queue option" where
  "queueStudioSync studio state queued =
     (let ms = studio_mutations studio state
      in if ms = [] then Inr queued
         else map_sum id Some (queueMutations ms (Some (map scene_id (studio_scenes studio))) state queued))"

definition queueCameraPreference ::
  "string \<Rightarrow> (string \<times> jsv) list \<Rightarrow> sync_state option \<Rightarrow> sync_queue option \<Rightarrow> sync_error + sync_queue" where
  "queueCameraPreference camera fs state queued =
     queueMutations [\<lparr>mu_kind = CameraPreferenceDoc, mu_id = camera, mu_op = Upsert, mu_fields = fs\<rparr>] None state queued"

section \<open>The server's answer\<close>

record accepted_entry =
  ac_kind :: string
  ac_id :: string
  ac_revision :: jsv
  ac_unchanged :: jsv

record sync_response =
  sr_schema :: jsv
  sr_revision :: jsv
  sr_accepted :: "accepted_entry option list option"
  sr_conflicts :: "sync_conflict option list option"

definition accepted_key :: "accepted_entry \<Rightarrow> string" where
  "accepted_key a = key_string (ac_kind a) (ac_id a)"

definition revision_in :: "jsv \<Rightarrow> int \<Rightarrow> bool" where
  "revision_in v hi = (case safe_int v of None \<Rightarrow> False | Some r \<Rightarrow> 0 \<le> r \<and> r \<le> hi)"

fun check_accepted :: "string list \<Rightarrow> int \<Rightarrow> string list \<Rightarrow> accepted_entry option list \<Rightarrow> string list option" where
  "check_accepted known hi seen [] = Some seen"
| "check_accepted known hi seen (None # es) = None"
| "check_accepted known hi seen (Some e # es) =
     (if accepted_key e \<notin> set known \<or> accepted_key e \<in> set seen \<or> \<not> revision_in (ac_revision e) hi
         \<or> (case ac_unchanged e of JBool _ \<Rightarrow> False | _ \<Rightarrow> True)
      then None else check_accepted known hi (accepted_key e # seen) es)"

fun check_fields :: "sync_mutation \<Rightarrow> int \<Rightarrow> string list \<Rightarrow> conflict_field option list \<Rightarrow> bool" where
  "check_fields m hi seen [] = True"
| "check_fields m hi seen (None # fs) = False"
| "check_fields m hi seen (Some f # fs) =
     (if cff_field f \<in> set seen
         \<or> \<not> (if mu_op m = DeleteOp then cff_field f = ''*'' else cff_field f \<in> set (map fst (mu_fields m)))
         \<or> cff_serverValue f = None \<or> \<not> revision_in (cff_revision f) hi
      then False else check_fields m hi (cff_field f # seen) fs)"

fun check_conflicts :: "(string \<times> sync_mutation) list \<Rightarrow> int \<Rightarrow> string list \<Rightarrow> sync_conflict option list \<Rightarrow> string list option" where
  "check_conflicts ms hi seen [] = Some seen"
| "check_conflicts ms hi seen (None # cs) = None"
| "check_conflicts ms hi seen (Some c # cs) =
     (if conflict_key c \<in> set seen then None
      else case (map_of ms (conflict_key c), sc_fields c) of
        (Some m, Some fs) \<Rightarrow>
          if fs = [] \<or> 4 < length fs \<or> \<not> check_fields m hi [] fs then None
          else check_conflicts ms hi (conflict_key c # seen) cs
      | _ \<Rightarrow> None)"

definition validSyncResponse :: "sync_response \<Rightarrow> sync_queue \<Rightarrow> int \<Rightarrow> bool" where
  "validSyncResponse r request minimumRevision =
     (case (safe_int (sr_revision r), sr_accepted r, sr_conflicts r) of
        (Some rev', Some as, Some cs) \<Rightarrow>
          sr_schema r = JInt 1 \<and> minimumRevision \<le> rev' \<and> length as + length cs = length (mutations request)
          \<and> (case check_accepted (map keyOf (mutations request)) rev' [] as of
               None \<Rightarrow> False
             | Some seen \<Rightarrow> check_conflicts (queue_map (mutations request)) rev' seen cs \<noteq> None)
      | _ \<Rightarrow> False)"

definition accepted_keys :: "sync_response \<Rightarrow> string list" where
  "accepted_keys r = map accepted_key (List.map_filter id (case sr_accepted r of None \<Rightarrow> [] | Some as \<Rightarrow> as))"

definition response_conflicts :: "sync_response \<Rightarrow> sync_conflict list" where
  "response_conflicts r = List.map_filter id (case sr_conflicts r of None \<Rightarrow> [] | Some cs \<Rightarrow> cs)"

definition response_revision :: "sync_response \<Rightarrow> int" where
  "response_revision r = (case safe_int (sr_revision r) of Some n \<Rightarrow> n | None \<Rightarrow> 0)"

text \<open>\<open>acknowledgeQueue\<close>: only what was accepted exactly as it was submitted leaves the queue.\<close>

definition still_pending :: "sync_mutation list \<Rightarrow> string list \<Rightarrow> sync_mutation \<Rightarrow> bool" where
  "still_pending submitted accepted m =
     (keyOf m \<notin> set accepted \<or> map_of (queue_map submitted) (keyOf m) \<noteq> Some m)"

definition acknowledgeQueue ::
  "sync_mutation list \<Rightarrow> string list \<Rightarrow> int \<Rightarrow> bool \<Rightarrow> sync_queue option \<Rightarrow> sync_queue option" where
  "acknowledgeQueue submitted accepted revision conflicts current =
     (case current of
        None \<Rightarrow> None
      | Some q \<Rightarrow>
          let ms = filter (still_pending submitted accepted) (mutations q)
          in if ms = [] then None
             else Some \<lparr>baseRevision = (if \<not> conflicts \<and> list_all (\<lambda>m. keyOf m \<in> set accepted) ms
                          then revision else baseRevision q), mutations = ms\<rparr>)"

end
