(* ===== verification/SyncLaws.thy ===== *)
theory SyncLaws
  imports Sync
begin

text \<open>
  Laws of the data of synchronization (\<open>syncRuntime.ts\<close>): the merge of received documents, the check
  of an answer and the acknowledgement of a queue.
\<close>

section \<open>Laws of the merge\<close>

lemma map_eqI:
  assumes "wf_map a" and "wf_map b" and "map fst a = map fst b" and "map_of a = map_of b"
  shows "a = b"
proof -
  have get: "m = map (\<lambda>k. (k, the (map_of m k))) (map fst m)" if "wf_map m" for m :: "('a \<times> 'b) list"
    using that by (auto intro!: map_idI [symmetric] simp: wf_map_def)
  from get [OF assms(1)] get [OF assms(2)] assms(3,4) show ?thesis by metis
qed

lemma keys_assign_known: "k \<in> fst ` set m \<Longrightarrow> map fst (assign k v m) = map fst m"
  by (induction k v m rule: assign.induct) auto

definition newer :: "sync_document \<Rightarrow> sync_document option \<Rightarrow> sync_document option" where
  "newer d old = (case old of None \<Rightarrow> Some d | Some x \<Rightarrow> if sd_revision x \<le> sd_revision d then Some d else old)"

lemma map_of_merge_one: "map_of (merge_one d m) = (map_of m)(doc_key d := newer d (map_of m (doc_key d)))"
  by (auto simp: merge_one_def newer_def split: option.splits)

lemma wf_merge_one [simp]: "wf_map m \<Longrightarrow> wf_map (merge_one d m)"
  by (simp add: merge_one_def split: option.splits)

lemma wf_merge_all [simp]: "wf_map m \<Longrightarrow> wf_map (fold merge_one ds m)"
  by (induction ds arbitrary: m) auto

lemma map_of_merge_all:
  "map_of (fold merge_one ds m) k = fold newer (filter (\<lambda>d. doc_key d = k) ds) (map_of m k)"
  by (induction ds arbitrary: m) (auto simp: map_of_merge_one)

lemma dom_merge_all: "fst ` set (fold merge_one ds m) = doc_key ` set ds \<union> fst ` set m"
proof (induction ds arbitrary: m)
  case (Cons d ds)
  have "fst ` set (merge_one d m) = insert (doc_key d) (fst ` set m)"
    by (auto simp: merge_one_def split: option.splits dest: map_of_SomeD intro: rev_image_eqI)
  with Cons show ?case by auto
qed simp

lemma keys_merge_known: "doc_key ` set ds \<subseteq> fst ` set m \<Longrightarrow> map fst (fold merge_one ds m) = map fst m"
proof (induction ds arbitrary: m)
  case (Cons d ds)
  then have "map fst (merge_one d m) = map fst m"
    by (auto simp: merge_one_def keys_assign_known split: option.splits)
  moreover from this have "fst ` set (merge_one d m) = fst ` set m" by (metis set_map)
  ultimately show ?case using Cons by simp
qed simp

lemma newest_ge: "fold newer ds old = Some x \<Longrightarrow>
  (\<forall>d \<in> set ds. sd_revision d \<le> sd_revision x) \<and> (\<forall>o'. old = Some o' \<longrightarrow> sd_revision o' \<le> sd_revision x)"
proof (induction ds arbitrary: old)
  case (Cons d ds)
  then have "fold newer ds (newer d old) = Some x" by simp
  from Cons.IH [OF this] show ?case by (auto simp: newer_def split: option.splits if_splits)
qed simp

lemma newest_source: "fold newer ds old = Some x \<Longrightarrow> x \<in> set ds \<or> old = Some x"
  by (induction ds arbitrary: old) (fastforce simp: newer_def split: option.splits if_splits)+

lemma newest_some: "ds \<noteq> [] \<or> old \<noteq> None \<Longrightarrow> fold newer ds old \<noteq> None"
  by (induction ds arbitrary: old) (auto simp: newer_def split: option.splits)

lemma newest_twice: "fold newer ds (fold newer ds old) = fold newer ds old"
proof (induction ds rule: rev_induct)
  case (snoc d ds)
  let ?p = "fold newer ds old"
  show ?case
  proof (cases "newer d ?p = Some d")
    case True
    obtain y where y: "fold newer ds (Some d) = Some y" using newest_some [of ds "Some d"] by auto
    have "sd_revision e \<le> sd_revision d" if "e \<in> set ds" for e
    proof -
      from that newest_some [of ds old] obtain p where p: "?p = Some p" by (cases ds) auto
      with newest_ge [OF p] that True show ?thesis by (auto simp: newer_def split: if_splits)
    qed
    with newest_source [OF y] have "sd_revision y \<le> sd_revision d" by auto
    then have "newer d (Some y) = Some d" by (simp add: newer_def)
    with y True show ?thesis by simp
  next
    case False
    then have "newer d ?p = ?p" by (auto simp: newer_def split: option.splits if_splits)
    with snoc.IH show ?thesis by simp
  qed
qed simp

lemma wf_by_key [simp]: "wf_map (by_key ds)"
  by (simp add: by_key_def)

lemma fold_assign_keys:
  "\<forall>(k, v) \<in> set m. doc_key v = k \<Longrightarrow>
   \<forall>(k, v) \<in> set (fold (\<lambda>(k, v) m. assign k v m) (map (\<lambda>d. (doc_key d, d)) ds) m). doc_key v = k"
proof (induction ds arbitrary: m)
  case (Cons d ds)
  have "\<forall>(k, v) \<in> set (assign (doc_key d) d m). doc_key v = k"
    using Cons.prems by (auto dest!: subsetD [OF set_assign_subset])
  from Cons.IH [OF this] show ?case by simp
qed simp

lemma by_key_key: "(k, d) \<in> set (by_key ds) \<Longrightarrow> doc_key d = k"
  using fold_assign_keys [of "[]" ds] by (auto simp: by_key_def map_from_def)

lemma merge_all_key:
  assumes "\<forall>(k, v) \<in> set m. doc_key v = k" and "(k, d) \<in> set (fold merge_one ds m)"
  shows "doc_key d = k"
  using assms
proof (induction ds arbitrary: m)
  case (Cons e ds)
  have "\<forall>(k, v) \<in> set (merge_one e m). doc_key v = k"
    using Cons.prems(1) by (auto simp: merge_one_def split: option.splits if_splits dest!: subsetD [OF set_assign_subset])
  with Cons.IH Cons.prems(2) show ?case by simp
qed auto

definition merged_map :: "sync_document list \<Rightarrow> sync_document list \<Rightarrow> (string \<times> sync_document) list" where
  "merged_map current incoming = fold merge_one incoming (by_key current)"

lemma merged_key: "(k, d) \<in> set (merged_map current incoming) \<Longrightarrow> doc_key d = k"
  unfolding merged_map_def using merge_all_key [of "by_key current" k d incoming] by (auto dest: by_key_key)

lemma wf_merged [simp]: "wf_map (merged_map c i)"
  by (simp add: merged_map_def)

lemma merged_keys: "map doc_key (map snd (merged_map c i)) = map fst (merged_map c i)"
  using merged_key by (auto intro!: map_cong)

lemma mergeDocuments_alt: "mergeDocuments rank c i = sort_key (rank \<circ> doc_key) (map snd (merged_map c i))"
  by (simp add: mergeDocuments_def merged_map_def)

lemma merged_distinct: "distinct (map doc_key (mergeDocuments rank c i))"
proof -
  have "mset (map doc_key (mergeDocuments rank c i)) = mset (map doc_key (map snd (merged_map c i)))"
    by (simp only: mset_map mergeDocuments_alt mset_sort)
  then have "mset (map doc_key (mergeDocuments rank c i)) = mset (map fst (merged_map c i))"
    by (simp only: merged_keys)
  moreover have "distinct (map fst (merged_map c i))" using wf_merged by (simp add: wf_map_def)
  ultimately show ?thesis by (metis mset_eq_imp_distinct_iff)
qed

lemma by_key_distinct: "distinct (map doc_key ds) \<Longrightarrow> by_key ds = map (\<lambda>d. (doc_key d, d)) ds"
  unfolding by_key_def by (rule map_from_distinct) (simp add: comp_def)

lemma in_merged: "d \<in> set (mergeDocuments rank c i) \<longleftrightarrow> map_of (merged_map c i) (doc_key d) = Some d"
proof -
  have "d \<in> set (mergeDocuments rank c i) \<longleftrightarrow> (doc_key d, d) \<in> set (merged_map c i)"
    using merged_key by (force simp: mergeDocuments_alt)
  with wf_merged [of c i] show ?thesis by (simp add: wf_map_def map_of_eq_Some_iff)
qed


lemma merged_again: "merged_map (mergeDocuments rank c i) i = map (\<lambda>d. (doc_key d, d)) (mergeDocuments rank c i)"
proof -
  let ?M = "mergeDocuments rank c i" and ?B = "map (\<lambda>d. (doc_key d, d)) (mergeDocuments rank c i)"
  have b: "by_key ?M = ?B" by (rule by_key_distinct [OF merged_distinct])
  have wf: "wf_map ?B" unfolding wf_map_def using merged_distinct [of rank c i] by (simp add: comp_def)
  have mo: "map_of ?B k = map_of (merged_map c i) k" for k
  proof (cases "map_of (merged_map c i) k")
    case None
    then have "k \<notin> fst ` set ?B"
      by (auto simp: in_merged)
    then have "map_of ?B k = None" by (simp only: map_of_eq_None_iff not_False_eq_True)
    with None show ?thesis by simp
  next
    case (Some d)
    with merged_key [OF map_of_SomeD] have "doc_key d = k" by blast
    with Some have "(k, d) \<in> set ?B" using in_merged [of d rank c i] by auto
    with wf Some show ?thesis by (simp add: wf_map_def)
  qed
  have known: "doc_key ` set i \<subseteq> fst ` set ?B"
  proof
    fix k assume "k \<in> doc_key ` set i"
    then have "k \<in> fst ` set (merged_map c i)" by (simp add: merged_map_def dom_merge_all)
    then obtain d where "map_of (merged_map c i) k = Some d" by (metis map_of_eq_None_iff not_Some_eq)
    with mo have "map_of ?B k = Some d" by simp
    then show "k \<in> fst ` set ?B" by (metis map_of_eq_None_iff option.distinct(1))
  qed
  show ?thesis unfolding merged_map_def b
  proof (rule map_eqI)
    show "wf_map (fold merge_one i ?B)" using wf by simp
    show "map fst (fold merge_one i ?B) = map fst ?B" by (rule keys_merge_known [OF known])
    show "map_of (fold merge_one i ?B) = map_of ?B"
      by (rule ext) (simp add: map_of_merge_all mo, simp add: merged_map_def map_of_merge_all newest_twice)
  qed (rule wf)
qed



definition demo_doc :: "string \<Rightarrow> int \<Rightarrow> sync_document" where
  "demo_doc i r = \<lparr>sd_kind = SceneDoc, sd_id = i, sd_revision = r, sd_deleted = False, sd_updatedAt = 0, sd_document = JNull\<rparr>"


section \<open>Laws of the acknowledgement\<close>

lemma check_accepted_keys:
  "check_accepted known hi seen es = Some out \<Longrightarrow> distinct seen \<Longrightarrow>
   distinct out \<and> set out = set seen \<union> set (map accepted_key (List.map_filter id es))
   \<and> set (map accepted_key (List.map_filter id es)) \<subseteq> set known
   \<and> length out = length seen + length es"
  by (induction known hi seen es rule: check_accepted.induct)
     (auto simp: List.map_filter_simps split: if_splits)

lemma check_conflicts_keys:
  "check_conflicts ms hi seen cs = Some out \<Longrightarrow> distinct seen \<Longrightarrow>
   distinct out \<and> set out = set seen \<union> set (map conflict_key (List.map_filter id cs))
   \<and> set (map conflict_key (List.map_filter id cs)) \<subseteq> fst ` set ms
   \<and> set seen \<inter> set (map conflict_key (List.map_filter id cs)) = {}
   \<and> length out = length seen + length cs"
proof (induction ms hi seen cs rule: check_conflicts.induct)
  case (3 ms hi seen c cs)
  from 3(2) obtain m fs where m: "map_of ms (conflict_key c) = Some m" "sc_fields c = Some fs"
    and new: "conflict_key c \<notin> set seen" and ok: "\<not> (fs = [] \<or> 4 < length fs \<or> \<not> check_fields m hi [] fs)"
    and rest: "check_conflicts ms hi (conflict_key c # seen) cs = Some out"
    by (simp split: if_splits option.splits)
  from m have "conflict_key c \<in> fst ` set ms" by (metis map_of_eq_None_iff option.distinct(1))
  with 3(1) [OF new refl m(1) m(2) ok rest] 3(3) new show ?case by (auto simp: List.map_filter_simps)
qed (auto simp: List.map_filter_simps)

lemma queue_map_keys: "fst ` set (queue_map ms) = keyOf ` set ms"
proof -
  have "fst ` set (fold (\<lambda>(k, v) m. assign k v m) (map (\<lambda>d. (keyOf d, d)) ms) m) = keyOf ` set ms \<union> fst ` set m" for m
    by (induction ms arbitrary: m) auto
  from this [of "[]"] show ?thesis by (simp add: queue_map_def map_from_def)
qed

definition conflict_keys :: "sync_response \<Rightarrow> string list" where
  "conflict_keys r = map conflict_key (response_conflicts r)"

lemma answer_decides:
  assumes "validSyncResponse r request lo"
  shows "set (accepted_keys r) \<inter> set (conflict_keys r) = {}"
    and "set (accepted_keys r) \<union> set (conflict_keys r) = keyOf ` set (mutations request)"
    and "distinct (map keyOf (mutations request))"
proof -
  let ?keys = "map keyOf (mutations request)"
  obtain hi as cs seen out where r: "sr_accepted r = Some as" "sr_conflicts r = Some cs"
    and n: "length as + length cs = length (mutations request)"
    and a: "check_accepted ?keys hi [] as = Some seen"
    and c: "check_conflicts (queue_map (mutations request)) hi seen cs = Some out"
    using assms by (auto simp: validSyncResponse_def split: option.splits)
  have acc: "accepted_keys r = map accepted_key (List.map_filter id as)" using r by (simp add: accepted_keys_def)
  have con: "conflict_keys r = map conflict_key (List.map_filter id cs)"
    using r by (simp add: conflict_keys_def response_conflicts_def)
  from check_accepted_keys [OF a] have A: "distinct seen" "set seen = set (accepted_keys r)"
    "set (accepted_keys r) \<subseteq> set ?keys" "length seen = length as" unfolding acc by simp_all
  from check_conflicts_keys [OF c A(1)] have C: "distinct out" "set out = set seen \<union> set (conflict_keys r)"
    "set (conflict_keys r) \<subseteq> set ?keys" "length out = length ?keys" "set seen \<inter> set (conflict_keys r) = {}"
    unfolding con queue_map_keys using A(4) n by simp_all
  have sub: "set out \<subseteq> set ?keys" using A C by auto
  have "card (set out) = length ?keys" using C(1,4) by (simp add: distinct_card)
  with sub card_length [of ?keys] have full: "set out = set ?keys" and d: "distinct ?keys"
    by (metis List.finite_set card_mono card_subset_eq le_antisym, metis List.finite_set card_distinct card_mono le_antisym)
  from full A(2) C(2) show "set (accepted_keys r) \<union> set (conflict_keys r) = keyOf ` set (mutations request)" by simp
  from d show "distinct (map keyOf (mutations request))" .
  show "set (accepted_keys r) \<inter> set (conflict_keys r) = {}"
    using A(2) C(5) by simp
qed

lemma queue_map_distinct: "distinct (map keyOf ms) \<Longrightarrow> queue_map ms = map (\<lambda>m. (keyOf m, m)) ms"
  unfolding queue_map_def by (rule map_from_distinct) (simp add: comp_def)

lemma queue_map_lookup: "distinct (map keyOf ms) \<Longrightarrow> map_of (queue_map ms) (keyOf m) = Some m \<longleftrightarrow> m \<in> set ms"
  by (subst map_of_eq_Some_iff) (auto simp: queue_map_distinct comp_def)

definition pending :: "sync_queue option \<Rightarrow> sync_mutation list" where
  "pending q = (case q of None \<Rightarrow> [] | Some x \<Rightarrow> mutations x)"

lemma pending_acknowledge:
  "pending (acknowledgeQueue sub acc rev' con q) = filter (still_pending sub acc) (pending q)"
  by (auto simp: acknowledgeQueue_def pending_def Let_def split: option.splits)

text \<open>C2. When an answer passes the check, exactly the conflicting edits and the edits made or changed
  while the request was in flight stay in the queue, in their order: no local change is dropped that
  the server has not accepted as it was submitted, and none that it has is sent twice.  The check
  itself does the counting: accepted and conflicting keys are disjoint and together are the
  submitted ones.\<close>

theorem acknowledgement_exact:
  assumes "validSyncResponse r request lo"
  shows "pending (acknowledgeQueue (mutations request) (accepted_keys r) (response_revision r)
            (response_conflicts r \<noteq> []) queue)
       = filter (\<lambda>m. m \<notin> set (mutations request) \<or> keyOf m \<in> set (map conflict_key (response_conflicts r))) (pending queue)
     \<and> set (accepted_keys r) \<inter> set (map conflict_key (response_conflicts r)) = {}
     \<and> set (accepted_keys r) \<union> set (map conflict_key (response_conflicts r)) = keyOf ` set (mutations request)"
proof -
  note D = answer_decides [OF assms]
  have "still_pending (mutations request) (accepted_keys r) m \<longleftrightarrow>
        m \<notin> set (mutations request) \<or> keyOf m \<in> set (conflict_keys r)" for m
    using D(1,2) by (auto simp: still_pending_def queue_map_lookup [OF D(3)])
  then have "still_pending (mutations request) (accepted_keys r) =
        (\<lambda>m. m \<notin> set (mutations request) \<or> keyOf m \<in> set (conflict_keys r))" by blast
  with D(1,2) show ?thesis by (simp only: pending_acknowledge conflict_keys_def)
qed

definition demo_edit :: "string \<Rightarrow> int \<Rightarrow> sync_mutation" where
  "demo_edit i n = \<lparr>mu_kind = CameraPreferenceDoc, mu_id = i, mu_op = Upsert, mu_fields = [(''group'', JInt n)]\<rparr>"

definition demo_answer :: sync_response where
  "demo_answer = \<lparr>sr_schema = JInt 1, sr_revision = JInt 7,
     sr_accepted = Some [Some \<lparr>ac_kind = ''camera-preference'', ac_id = ''a'', ac_revision = JInt 7, ac_unchanged = JBool False\<rparr>],
     sr_conflicts = Some [Some \<lparr>sc_kind = ''camera-preference'', sc_id = ''b'',
        sc_fields = Some [Some \<lparr>cff_field = ''group'', cff_serverValue = Some JNull, cff_revision = JInt 6\<rparr>]\<rparr>]\<rparr>"

theorem acknowledgement_exact_witness:
  "pending (acknowledgeQueue [demo_edit ''a'' 1, demo_edit ''b'' 1] (accepted_keys demo_answer) 7 True
      (Some \<lparr>baseRevision = 5, mutations = [demo_edit ''a'' 1, demo_edit ''b'' 1, demo_edit ''c'' 1]\<rparr>))
   = [demo_edit ''b'' 1, demo_edit ''c'' 1]"
proof -
  have v: "validSyncResponse demo_answer \<lparr>baseRevision = 5, mutations = [demo_edit ''a'' 1, demo_edit ''b'' 1]\<rparr> 5"
    by code_simp
  have n: "response_revision demo_answer = 7" "response_conflicts demo_answer \<noteq> []" by code_simp+
  have f: "filter (\<lambda>m. m \<notin> set [demo_edit ''a'' 1, demo_edit ''b'' 1]
        \<or> keyOf m \<in> set (map conflict_key (response_conflicts demo_answer)))
      [demo_edit ''a'' 1, demo_edit ''b'' 1, demo_edit ''c'' 1] = [demo_edit ''b'' 1, demo_edit ''c'' 1]"
    by code_simp
  from acknowledgement_exact [OF v, of "Some \<lparr>baseRevision = 5,
      mutations = [demo_edit ''a'' 1, demo_edit ''b'' 1, demo_edit ''c'' 1]\<rparr>"] n f
  show ?thesis by (simp add: pending_def)
qed

section \<open>Laws of the queue\<close>

definition queue_ok :: "sync_queue option \<Rightarrow> bool" where
  "queue_ok q = (length (pending q) \<le> MAX_QUEUE \<and> distinct (map keyOf (pending q)))"

lemma keyed_assign: "\<forall>(k, v) \<in> set m. f v = k \<Longrightarrow> f v = k \<Longrightarrow> \<forall>(k, v) \<in> set (assign k v m). f v = k"
  by (auto dest!: subsetD [OF set_assign_subset])

definition keyed :: "(string \<times> sync_mutation) list \<Rightarrow> bool" where
  "keyed m = (wf_map m \<and> (\<forall>(k, v) \<in> set m. keyOf v = k))"

lemma keyOf_merge [simp]: "keyOf (mergeMutation c m) = keyOf m"
  by (simp add: mergeMutation_def keyOf_def split: option.splits)

lemma keyed_assign_own [inv_intro]: "keyed m \<Longrightarrow> keyOf v = k \<Longrightarrow> keyed (assign k v m)"
  unfolding keyed_def using keyed_assign [of m keyOf v k] by simp

lemma keyed_put [inv_intro]: "keyed q \<Longrightarrow> keyed (put_mutation m q)"
  unfolding put_mutation_def by (rule keyed_assign_own) simp_all

lemma keyed_puts: "keyed q \<Longrightarrow> keyed (fold put_mutation ms q)"
  by (induction ms arbitrary: q) (auto intro: inv_intro)

lemma keyed_queue_map: "keyed (queue_map ms)"
proof -
  have "keyed m \<Longrightarrow> keyed (fold (\<lambda>(k, v) m. assign k v m) (map (\<lambda>d. (keyOf d, d)) ms) m)" for m
    by (induction ms arbitrary: m) (auto intro: inv_intro)
  from this [of "[]"] show ?thesis by (simp add: queue_map_def map_from_def keyed_def)
qed

lemma keyed_drop_missing: "keyed q \<Longrightarrow> keyed (drop_missing ids q)"
proof -
  assume k: "keyed q"
  have "map fst (drop_missing ids q) = map fst q" by (auto simp: drop_missing_def)
  with k have "wf_map (drop_missing ids q)" by (simp only: keyed_def wf_map_def)
  moreover have "\<forall>(k, v) \<in> set (drop_missing ids q). keyOf v = k"
    using k by (auto simp: keyed_def drop_missing_def scene_delete_def keyOf_def split: if_splits)
  ultimately show ?thesis by (simp only: keyed_def)
qed

lemma keyed_values: "keyed q \<Longrightarrow> distinct (map keyOf (map snd q))"
proof -
  assume k: "keyed q"
  then have "map keyOf (map snd q) = map fst q" by (auto simp: keyed_def)
  with k show ?thesis by (simp only: keyed_def wf_map_def)
qed

definition queue_base :: "sync_state option \<Rightarrow> sync_queue option \<Rightarrow> int" where
  "queue_base state queued = (case queued of Some q \<Rightarrow> baseRevision q
     | None \<Rightarrow> (case state of Some s \<Rightarrow> ss_revision s | None \<Rightarrow> 0))"

definition merged_queue :: "sync_mutation list \<Rightarrow> string list option \<Rightarrow> sync_queue option \<Rightarrow> (string \<times> sync_mutation) list" where
  "merged_queue ms ids q = fold put_mutation ms
     (case ids of None \<Rightarrow> queue_map (pending q) | Some i \<Rightarrow> drop_missing i (queue_map (pending q)))"

lemma queueMutations_alt:
  "queueMutations ms ids st q = (if length (merged_queue ms ids q) > MAX_QUEUE then Inl QueueFull
     else Inr \<lparr>baseRevision = queue_base st q, mutations = map snd (merged_queue ms ids q)\<rparr>)"
  by (simp only: queueMutations_def merged_queue_def queue_base_def pending_def Let_def)

lemma keyed_merged: "keyed (merged_queue ms ids q)"
  unfolding merged_queue_def by (cases ids) (simp_all add: keyed_puts keyed_drop_missing keyed_queue_map)

lemma queueMutations_ok: "queueMutations ms ids st q = Inr q' \<Longrightarrow> queue_ok (Some q')"
  unfolding queueMutations_alt queue_ok_def pending_def
  by (auto simp del: map_map intro!: keyed_values keyed_merged split: if_splits)

lemma queue_ok_None [simp]: "queue_ok None"
  by (simp add: queue_ok_def pending_def)

lemma queue_ok_filter: "queue_ok q \<Longrightarrow> pending q' = filter P (pending q) \<Longrightarrow> queue_ok q'"
  unfolding queue_ok_def by (metis distinct_map_filter length_filter_le order_trans)

lemma queue_ok_ack [inv_intro]: "queue_ok q \<Longrightarrow> queue_ok (acknowledgeQueue sub acc rv con q)"
  by (rule queue_ok_filter [OF _ pending_acknowledge])

end
