(* ===== verification/Redaction.thy ===== *)
theory Redaction
  imports SceneJson
begin

text \<open>
  What the local store may keep (\<open>localRuntime.ts\<close>: \<open>assertRedacted\<close>, \<open>redactedStudio\<close>).  The check
  reads the text that \<open>JSON.stringify\<close> gives, so what it promises of the value itself is a theorem
  here: no object in it, at any depth, has a credential-like key, and no string in it, at any depth,
  holds a camera address with a user in it.
\<close>

section \<open>The two patterns\<close>

fun anywhere :: "(string \<Rightarrow> bool) \<Rightarrow> string \<Rightarrow> bool" where
  "anywhere P [] = P []"
| "anywhere P (c # s) = (P (c # s) \<or> anywhere P s)"

text \<open>\<open>/rtsps?:\/\/[^/\s]*@/i\<close> and \<open>/"(?:password|...)"\s*:/i\<close> at the start of a text.\<close>

definition user_part :: "string \<Rightarrow> bool" where
  "user_part s = (CHR ''@'' \<in> set (takeWhile (\<lambda>c. c \<noteq> CHR ''/'' \<and> \<not> is_space c) s))"

definition credential_at :: "string \<Rightarrow> bool" where
  "credential_at s = ((starts_with ''rtsp://'' (map lower_char s) \<and> user_part (drop 7 s))
     \<or> (starts_with ''rtsps://'' (map lower_char s) \<and> user_part (drop 8 s)))"

definition private_keys :: "string list" where
  "private_keys = [''password'', ''credentials'', ''credentialsref'', ''secret'', ''token'', ''rtspurl'', ''url'',
     ''filepath'', ''endpoint'']"

definition quoted_key :: "string \<Rightarrow> string" where
  "quoted_key k = CHR 0x22 # k @ [CHR 0x22]"

definition colon_next :: "string \<Rightarrow> bool" where
  "colon_next s = starts_with '':'' (dropWhile is_space s)"

definition private_key_at :: "string \<Rightarrow> bool" where
  "private_key_at s = list_ex (\<lambda>k. starts_with (quoted_key k) (map lower_char s) \<and> colon_next (drop (length k + 2) s)) private_keys"

definition private_text :: "string \<Rightarrow> bool" where
  "private_text s = anywhere (\<lambda>t. credential_at t \<or> private_key_at t) s"

text \<open>\<open>assertRedacted\<close> throws when this is false.\<close>

definition assertRedacted :: "(rat \<Rightarrow> string) \<Rightarrow> jsv \<Rightarrow> bool" where
  "assertRedacted num v = (\<not> private_text (stringify num v))"

section \<open>Redaction of a studio\<close>

text \<open>A cached studio may hold scene documents the server sent, so the function works on values; it
  throws where a member is read of something that has none.  \<open>set_has\<close> is \<open>Set.has\<close>: objects are
  compared by identity, and an object read from a source is never the one of an item.\<close>

definition set_has :: "jsv list \<Rightarrow> jsv \<Rightarrow> bool" where
  "set_has xs v = (\<not> is_object v \<and> v \<in> set xs)"

definition has_members :: "jsv \<Rightarrow> bool" where
  "has_members v = (\<not> nullish v)"

definition keep_source :: "jsv \<Rightarrow> bool" where
  "keep_source s = (field s ''kind'' \<in> {JStr ''camera'', JStr ''text'', JStr ''color'', JStr ''nested''})"

definition redacted_scene :: "jsv \<Rightarrow> jsv option" where
  "redacted_scene scene =
     (case (field scene ''sources'', field scene ''items'') of
        (JArr ss, JArr its) \<Rightarrow>
          if list_all has_members ss \<and> list_all has_members its then
            let kept = filter keep_source ss; ids = map (\<lambda>s. field s ''id'') kept
            in Some (JObj (spread (entries scene) [(''sources'', JArr kept),
                 (''items'', JArr (filter (\<lambda>i. set_has ids (field i ''sourceId'')) its))]))
          else None
      | _ \<Rightarrow> None)"

fun all_scenes :: "jsv list \<Rightarrow> jsv list option" where
  "all_scenes [] = Some []"
| "all_scenes (s # ss) = (case (redacted_scene s, all_scenes ss) of (Some r, Some rs) \<Rightarrow> Some (r # rs) | _ \<Rightarrow> None)"

definition redactedStudio :: "jsv \<Rightarrow> jsv option" where
  "redactedStudio studio =
     (case field studio ''scenes'' of
        JArr ss \<Rightarrow> map_option (\<lambda>rs. JObj (spread (entries studio) [(''scenes'', JArr rs)])) (all_scenes ss)
      | _ \<Rightarrow> None)"

section \<open>What the check promises of the value\<close>

definition private_name :: "string \<Rightarrow> bool" where
  "private_name k = (map lower_char k \<in> set private_keys)"

fun secret_free :: "jsv \<Rightarrow> bool" where
  "secret_free (JStr s) = (\<not> anywhere credential_at s)"
| "secret_free (JArr xs) = list_all secret_free xs"
| "secret_free (JObj es) = list_all (\<lambda>(k, v). v = JUndef \<or> (\<not> private_name k \<and> \<not> anywhere credential_at k \<and> secret_free v)) es"
| "secret_free _ = True"

lemma starts_with_append: "starts_with p s \<Longrightarrow> starts_with p (s @ t)"
  unfolding starts_with_def
  by (metis length_take append_take_drop_id append_assoc append_eq_conv_conj)

lemma anywhere_prefix: "anywhere P b \<Longrightarrow> anywhere P (a @ b)"
proof (induction a)
  case Nil then show ?case by simp
next
  case (Cons c a) then show ?case by simp
qed

lemma anywhere_iff: "anywhere P s \<longleftrightarrow> (\<exists>a b. s = a @ b \<and> P b)"
proof
  show "anywhere P s \<Longrightarrow> \<exists>a b. s = a @ b \<and> P b"
  proof (induction s)
    case (Cons c s)
    then show ?case by (metis anywhere.simps(2) append_Cons append_Nil)
  qed auto
next
  have "P b \<Longrightarrow> anywhere P b" for b by (cases b) auto
  then show "\<exists>a b. s = a @ b \<and> P b \<Longrightarrow> anywhere P s" by (auto intro: anywhere_prefix)
qed

lemma anywhere_sub:
  assumes mono: "\<And>s t. P s \<Longrightarrow> P (s @ t)" and b: "anywhere P b"
  shows "anywhere P (a @ b @ c)"
  using b by (auto simp: anywhere_iff) (metis append_assoc mono)

lemma takeWhile_prefix: "set (takeWhile P s) \<subseteq> set (takeWhile P (s @ t))"
  by (induction s) auto

lemma starts_with_iff: "starts_with p s \<longleftrightarrow> (\<exists>t. s = p @ t)"
  by (auto simp: starts_with_def) (metis append_take_drop_id)

definition url_scheme :: "string \<Rightarrow> bool" where
  "url_scheme s = (map lower_char s = ''rtsp://'' \<or> map lower_char s = ''rtsps://'')"

lemma lower_starts: "starts_with p (map lower_char s) \<longleftrightarrow> (\<exists>a b. s = a @ b \<and> map lower_char a = p)"
  unfolding starts_with_iff
proof
  assume "\<exists>t. map lower_char s = p @ t"
  then show "\<exists>a b. s = a @ b \<and> map lower_char a = p" by (metis map_eq_append_conv)
qed auto

lemma takeWhile_mem: "x \<in> set (takeWhile P s) \<longleftrightarrow> (\<exists>u v. s = u @ x # v \<and> (\<forall>c \<in> set u. P c)) \<and> P x"
proof (induction s)
  case (Cons a s)
  have "(\<exists>u v. a # s = u @ x # v \<and> (\<forall>c \<in> set u. P c)) \<longleftrightarrow> a = x \<or> (P a \<and> (\<exists>u v. s = u @ x # v \<and> (\<forall>c \<in> set u. P c)))"
    by (auto simp: Cons_eq_append_conv) (metis append_Cons list.set_intros set_ConsD)+
  with Cons show ?case by auto
qed simp

lemma user_part_iff: "user_part s \<longleftrightarrow> (\<exists>u v. s = u @ CHR ''@'' # v \<and> (\<forall>c \<in> set u. c \<noteq> CHR ''/'' \<and> \<not> is_space c))"
proof -
  have "\<not> is_space CHR ''@''" by code_simp
  then show ?thesis unfolding user_part_def takeWhile_mem by simp
qed

lemma credential_at_iff:
  "credential_at s \<longleftrightarrow> (\<exists>h u v. s = h @ u @ CHR ''@'' # v \<and> url_scheme h \<and> (\<forall>c \<in> set u. c \<noteq> CHR ''/'' \<and> \<not> is_space c))"
proof -
  have one: "starts_with p (map lower_char s) \<and> user_part (drop (length p) s) \<longleftrightarrow>
    (\<exists>h u v. s = h @ u @ CHR ''@'' # v \<and> map lower_char h = p \<and> (\<forall>c \<in> set u. c \<noteq> CHR ''/'' \<and> \<not> is_space c))" for p
  proof
    assume l: "starts_with p (map lower_char s) \<and> user_part (drop (length p) s)"
    then obtain a b where s: "s = a @ b" "map lower_char a = p" unfolding lower_starts by blast
    then have "drop (length p) s = b" by auto
    with l obtain u v where "b = u @ CHR ''@'' # v" "\<forall>c \<in> set u. c \<noteq> CHR ''/'' \<and> \<not> is_space c"
      unfolding user_part_iff by auto
    with s show "\<exists>h u v. s = h @ u @ CHR ''@'' # v \<and> map lower_char h = p \<and> (\<forall>c \<in> set u. c \<noteq> CHR ''/'' \<and> \<not> is_space c)"
      by blast
  next
    assume "\<exists>h u v. s = h @ u @ CHR ''@'' # v \<and> map lower_char h = p \<and> (\<forall>c \<in> set u. c \<noteq> CHR ''/'' \<and> \<not> is_space c)"
    then obtain h u v where s: "s = h @ u @ CHR ''@'' # v" "map lower_char h = p"
      and u: "\<forall>c \<in> set u. c \<noteq> CHR ''/'' \<and> \<not> is_space c" by (elim exE conjE) (rule that)
    have "length p = length h" unfolding s(2) [symmetric] by (rule length_map)
    then have "drop (length p) s = u @ CHR ''@'' # v" by (simp add: s(1))
    with u have "user_part (drop (length p) s)" unfolding user_part_iff by blast
    moreover have "\<exists>a b. s = a @ b \<and> map lower_char a = p" by (rule exI [of _ h], rule exI [of _ "u @ CHR ''@'' # v"]) (simp add: s)
    then have "starts_with p (map lower_char s)" unfolding lower_starts .
    ultimately show "starts_with p (map lower_char s) \<and> user_part (drop (length p) s)" by simp
  qed
  have two: "(starts_with p (map lower_char s) \<and> user_part (drop (length p) s)) \<or> (starts_with q (map lower_char s) \<and> user_part (drop (length q) s))
    \<longleftrightarrow> (\<exists>h u v. s = h @ u @ CHR ''@'' # v \<and> (map lower_char h = p \<or> map lower_char h = q)
         \<and> (\<forall>c \<in> set u. c \<noteq> CHR ''/'' \<and> \<not> is_space c))" for p q
    unfolding one by blast
  have len: "length ''rtsp://'' = 7" "length ''rtsps://'' = 8" by simp_all
  show ?thesis
    unfolding credential_at_def url_scheme_def using two [of "''rtsp://''" "''rtsps://''"] unfolding len .
qed


lemma credential_mono: "credential_at s \<Longrightarrow> credential_at (s @ t)"
proof -
  assume "credential_at s"
  then obtain h u v where s: "s = h @ u @ CHR ''@'' # v" and h: "url_scheme h"
    and u: "\<forall>c \<in> set u. c \<noteq> CHR ''/'' \<and> \<not> is_space c"
    unfolding credential_at_iff by (elim exE conjE) (rule that)
  have "s @ t = h @ u @ CHR ''@'' # (v @ t)" using s by simp
  with h u show ?thesis unfolding credential_at_iff by (intro exI conjI)
qed

lemma dropWhile_prefix: "dropWhile P s \<noteq> [] \<Longrightarrow> dropWhile P (s @ t) = dropWhile P s @ t"
  by (induction s) auto

lemma colon_mono: "colon_next s \<Longrightarrow> colon_next (s @ t)"
proof -
  assume c: "colon_next s"
  have "dropWhile is_space s \<noteq> []"
  proof
    assume e: "dropWhile is_space s = []"
    from c show False unfolding colon_next_def e by (simp add: starts_with_def)
  qed
  from dropWhile_prefix [OF this, of t] c show ?thesis
    unfolding colon_next_def by (simp add: starts_with_append)
qed

lemma quoted_at_iff:
  "starts_with (quoted_key k) (map lower_char s) \<and> colon_next (drop (length k + 2) s) \<longleftrightarrow>
   (\<exists>a b. s = a @ b \<and> map lower_char a = quoted_key k \<and> colon_next b)"
proof
  assume l: "starts_with (quoted_key k) (map lower_char s) \<and> colon_next (drop (length k + 2) s)"
  then obtain a b where s: "s = a @ b" "map lower_char a = quoted_key k" unfolding lower_starts by (elim exE conjE) (rule that)
  have "length a = length (quoted_key k)" unfolding s(2) [symmetric] by simp
  then have "drop (length k + 2) s = b" by (simp add: s(1) quoted_key_def)
  with l have "colon_next b" by simp
  with s show "\<exists>a b. s = a @ b \<and> map lower_char a = quoted_key k \<and> colon_next b" by (intro exI conjI)
next
  assume "\<exists>a b. s = a @ b \<and> map lower_char a = quoted_key k \<and> colon_next b"
  then obtain a b where s: "s = a @ b" "map lower_char a = quoted_key k" and c: "colon_next b" by (elim exE conjE) (rule that)
  have "length a = length (quoted_key k)" unfolding s(2) [symmetric] by simp
  then have "drop (length k + 2) s = b" by (simp add: s(1) quoted_key_def)
  with c have "colon_next (drop (length k + 2) s)" by simp
  moreover from s have "\<exists>a b. s = a @ b \<and> map lower_char a = quoted_key k" by (intro exI conjI)
  ultimately show "starts_with (quoted_key k) (map lower_char s) \<and> colon_next (drop (length k + 2) s)"
    unfolding lower_starts by (intro conjI)
qed

lemma private_key_mono: "private_key_at s \<Longrightarrow> private_key_at (s @ t)"
  unfolding private_key_at_def quoted_at_iff list_ex_iff
  by (metis append_assoc colon_mono)

lemma private_at_mono: "credential_at s \<or> private_key_at s \<Longrightarrow> credential_at (s @ t) \<or> private_key_at (s @ t)"
  using credential_mono private_key_mono by blast

lemma private_sub: "private_text b \<Longrightarrow> private_text (a @ b @ c)"
  unfolding private_text_def by (rule anywhere_sub) (rule private_at_mono)

lemma private_in_list: "private_text b \<Longrightarrow> b \<in> set xs \<Longrightarrow> private_text (commas xs)"
proof (induction xs rule: commas.induct)
  case (3 x y ys)
  show ?case
  proof (cases "b = x")
    case True
    with private_sub [OF 3(2), of "[]" "CHR '','' # commas (y # ys)"] show ?thesis by simp
  next
    case False
    with 3 have "private_text (commas (y # ys))" by auto
    from private_sub [OF this, of "x @ [CHR '','']" "[]"] show ?thesis by simp
  qed
qed auto

section \<open>The text of a string keeps what it hides\<close>

lemma quote_char_clean:
  assumes "c \<noteq> CHR ''/''" and "\<not> is_space c" and "d \<in> set (quote_char c)"
  shows "d \<noteq> CHR ''/'' \<and> \<not> is_space d"
proof -
  have hexdigit: "char_of (if n < 10 then 48 + n else 87 + n) \<noteq> CHR ''/'' \<and> \<not> is_space (char_of (if n < 10 then 48 + n else 87 + n))"
    if "n < 16" for n :: nat
  proof -
    let ?m = "if n < 10 then 48 + n else 87 + n"
    have m: "of_char (char_of ?m) = ?m" using that by (simp add: of_char_of)
    have "of_char CHR ''/'' = (47::nat)" by simp
    moreover have "?m \<noteq> 47" using that by auto
    ultimately have "char_of ?m \<noteq> CHR ''/''" using m by metis
    moreover have "code (char_of ?m) = ?m" using m by (simp add: code_def)
    then have "\<not> is_space (char_of ?m)" using that by (auto simp: is_space_def split: if_splits)
    ultimately show ?thesis by blast
  qed
  have plain: "\<not> is_space CHR 0x5C" "\<not> is_space CHR 0x22" "\<not> is_space CHR ''b''" "\<not> is_space CHR ''t''" "\<not> is_space CHR ''n''"
    "\<not> is_space CHR ''f''" "\<not> is_space CHR ''r''" "\<not> is_space CHR ''u''" "\<not> is_space CHR ''0''" "\<not> is_space CHR ''1''"
    by code_simp+
  show ?thesis
    using assms hexdigit [of "code c mod 16"] plain by (auto simp: quote_char_def Let_def split: if_splits)
qed

lemma quote_char_plain: "c \<noteq> CHR 0x22 \<Longrightarrow> c \<noteq> CHR 0x5C \<Longrightarrow> 32 \<le> code c \<Longrightarrow> quote_char c = [c]"
  by (auto simp: quote_char_def)


definition plain_char :: "char \<Rightarrow> bool" where
  "plain_char c = (c \<noteq> CHR 0x22 \<and> c \<noteq> CHR 0x5C \<and> 32 \<le> code c)"

lemma quote_plain: "\<forall>c \<in> set s. plain_char c \<Longrightarrow> concat (map quote_char s) = s"
  by (induction s) (auto simp: plain_char_def quote_char_plain)

lemma lower_plain: "plain_char (lower_char c) \<Longrightarrow> plain_char c"
proof -
  assume p: "plain_char (lower_char c)"
  show ?thesis
  proof (cases "is_upper c")
    case True
    then have "65 \<le> code c" "code c \<le> 90" by (simp_all add: is_upper_def)
    moreover have "code CHR 0x22 = 34" "code CHR 0x5C = 92" by (simp_all add: code_def)
    moreover have "code CHR 0x5C = 92" by (simp add: code_def)
    moreover have "code c \<noteq> 34" "code c \<noteq> 92" "32 \<le> code c" using \<open>65 \<le> code c\<close> \<open>code c \<le> 90\<close> by auto
    ultimately show ?thesis unfolding plain_char_def by metis
  next
    case False
    with p show ?thesis by (simp add: lower_char_def)
  qed
qed

lemma lower_plain_all: "map lower_char s = t \<Longrightarrow> \<forall>c \<in> set t. plain_char c \<Longrightarrow> \<forall>c \<in> set s. plain_char c"
  using lower_plain by auto

lemma scheme_plain: "url_scheme h \<Longrightarrow> concat (map quote_char h) = h"
proof -
  have "list_all plain_char ''rtsp://''" "list_all plain_char ''rtsps://''" by code_simp+
  then have p: "\<forall>c \<in> set ''rtsp://''. plain_char c" "\<forall>c \<in> set ''rtsps://''. plain_char c"
    unfolding list_all_iff .
  show "concat (map quote_char h) = h" if "url_scheme h"
    using that unfolding url_scheme_def
  proof
    assume "map lower_char h = ''rtsp://''"
    from quote_plain [OF lower_plain_all [OF this p(1)]] show ?thesis .
  next
    assume "map lower_char h = ''rtsps://''"
    from quote_plain [OF lower_plain_all [OF this p(2)]] show ?thesis .
  qed
qed

lemma credential_quoted:
  assumes "credential_at s"
  shows "credential_at (concat (map quote_char s))"
proof -
  from assms obtain h u v where s: "s = h @ u @ CHR ''@'' # v" and h: "url_scheme h"
    and u: "\<forall>c \<in> set u. c \<noteq> CHR ''/'' \<and> \<not> is_space c"
    unfolding credential_at_iff by (elim exE conjE) (rule that)
  have at: "quote_char CHR ''@'' = ''@''" by code_simp
  have "concat (map quote_char s) = h @ concat (map quote_char u) @ CHR ''@'' # concat (map quote_char v)"
    unfolding s by (simp add: scheme_plain [OF h] at)
  moreover have "\<forall>c \<in> set (concat (map quote_char u)). c \<noteq> CHR ''/'' \<and> \<not> is_space c"
  proof
    fix d assume "d \<in> set (concat (map quote_char u))"
    then obtain c where c: "c \<in> set u" "d \<in> set (quote_char c)" by auto
    from u c(1) have "c \<noteq> CHR ''/''" "\<not> is_space c" by (auto simp only:)
    from quote_char_clean [OF this c(2)] show "d \<noteq> CHR ''/'' \<and> \<not> is_space d" .
  qed
  ultimately show ?thesis using h unfolding credential_at_iff by (intro exI conjI)
qed

lemma anywhere_or: "anywhere P s \<Longrightarrow> anywhere (\<lambda>t. P t \<or> Q t) s"
  by (induction s) auto

lemma credential_text: "anywhere credential_at s \<Longrightarrow> private_text (quote_str s)"
proof -
  assume "anywhere credential_at s"
  then obtain a b where s: "s = a @ b" and b: "credential_at b" unfolding anywhere_iff by blast
  have "anywhere credential_at (concat (map quote_char b))"
    using credential_quoted [OF b] unfolding anywhere_iff by (metis append_Nil)
  then have "private_text (concat (map quote_char b))" unfolding private_text_def by (rule anywhere_or)
  from private_sub [OF this, of "CHR 0x22 # concat (map quote_char a)" "[CHR 0x22]"]
  show ?thesis by (simp add: s quote_str_def)
qed

lemma private_key_text:
  assumes "private_name k"
  shows "private_text (quote_str k @ CHR '':'' # t)"
proof -
  have pl: "list_all (list_all plain_char) private_keys" by code_simp
  then have "\<forall>x \<in> set private_keys. \<forall>c \<in> set x. plain_char c" unfolding list_all_iff .
  with assms have "\<forall>c \<in> set (map lower_char k). plain_char c" unfolding private_name_def by blast
  from lower_plain_all [OF refl this] have k: "\<forall>c \<in> set k. plain_char c" .
  have q: "quote_str k = CHR 0x22 # k @ [CHR 0x22]" by (simp add: quote_str_def quote_plain [OF k])
  have dq: "lower_char CHR 0x22 = CHR 0x22" by code_simp
  have low: "map lower_char (quote_str k) = quoted_key (map lower_char k)"
    by (simp add: q quoted_key_def dq)
  have col: "colon_next (CHR '':'' # t)"
  proof -
    have "\<not> is_space CHR '':''" by code_simp
    then show ?thesis by (simp add: colon_next_def starts_with_def)
  qed
  have "private_key_at (quote_str k @ CHR '':'' # t)"
    unfolding private_key_at_def quoted_at_iff list_ex_iff
  proof (intro bexI exI conjI)
    show "map lower_char k \<in> set private_keys" using assms by (simp only: private_name_def)
  qed (rule refl low col)+
  then show ?thesis unfolding private_text_def anywhere_iff by (metis append_Nil)
qed

lemma flagged_unless_free: "\<not> secret_free v \<Longrightarrow> private_text (stringify num v)"
proof (induction v rule: secret_free.induct)
  case (1 s)
  then show ?case by (simp add: credential_text)
next
  case (2 xs)
  then obtain x where x: "x \<in> set xs" "private_text (stringify num x)" by (auto simp: list_all_iff)
  then have "private_text (commas (map (stringify num) xs))" by (auto intro: private_in_list)
  from private_sub [OF this, of "''[''" "'']''"] show ?case by simp
next
  case (3 es)
  let ?m = "\<lambda>(k, v). quote_str k @ CHR '':'' # stringify num v"
  from 3(2) obtain k v where e: "(k, v) \<in> set es" "v \<noteq> JUndef"
    and bad: "private_name k \<or> anywhere credential_at k \<or> \<not> secret_free v" by (auto simp: list_all_iff)
  have "private_text (quote_str k @ CHR '':'' # stringify num v)"
    using bad
  proof (elim disjE)
    assume "private_name k" then show ?thesis by (rule private_key_text)
  next
    assume "anywhere credential_at k"
    from private_sub [OF credential_text [OF this], of "[]"] show ?thesis by simp
  next
    assume "\<not> secret_free v"
    from 3(1) [OF e(1) refl this] have "private_text (stringify num v)" .
    from private_sub [OF this, of "quote_str k @ '':''" "[]"] show ?thesis by simp
  qed
  then have "private_text (commas (map ?m (filter (\<lambda>(k, v). v \<noteq> JUndef) es)))"
    by (rule private_in_list) (use e in force)
  from private_sub [OF this, of "''{''" "''}''"] show ?case by simp
qed auto


text \<open>C26. What passes the redaction check holds no secret: no object at any depth has a credential-like
  key and no text at any depth, key or value, holds a camera address with a user in it.  The check
  reads the serialized text; escaping hides nothing from it.\<close>

theorem redaction_check_sound:
  assumes "assertRedacted num v"
  shows "secret_free v"
  using assms flagged_unless_free unfolding assertRedacted_def by blast

definition demo_view :: jsv where
  "demo_view = JObj [(''name'', JStr ''a'')]"

definition leaky_view :: jsv where
  "leaky_view = JObj [(''a'', JStr ''RTSP://u@h'')]"

theorem redaction_check_sound_witness:
  "secret_free demo_view \<and> \<not> assertRedacted (\<lambda>_. ''0'') leaky_view"
proof -
  have "assertRedacted (\<lambda>_. ''0'') demo_view" by code_simp
  from redaction_check_sound [OF this] have "secret_free demo_view" .
  moreover have "\<not> assertRedacted (\<lambda>_. ''0'') leaky_view" by code_simp
  ultimately show ?thesis by simp
qed

section \<open>What redaction leaves\<close>

definition scene_redacted :: "jsv \<Rightarrow> bool" where
  "scene_redacted r = (\<exists>ss its. field r ''sources'' = JArr ss \<and> field r ''items'' = JArr its
     \<and> (\<forall>s \<in> set ss. keep_source s)
     \<and> (\<forall>i \<in> set its. set_has (map (\<lambda>s. field s ''id'') ss) (field i ''sourceId'')))"

lemma redacted_scene_facts:
  assumes "redacted_scene scene = Some r"
  shows "scene_redacted r \<and> redacted_scene r = Some r"
proof -
  obtain ss its where f: "field scene ''sources'' = JArr ss" "field scene ''items'' = JArr its"
    and m: "list_all has_members ss" "list_all has_members its"
    and r0: "r = JObj (spread (entries scene) [(''sources'', JArr (filter keep_source ss)),
                 (''items'', JArr (filter (\<lambda>i. set_has (map (\<lambda>s. field s ''id'') (filter keep_source ss)) (field i ''sourceId'')) its))])"
    using assms unfolding redacted_scene_def Let_def
    by (cases "field scene ''sources''"; cases "field scene ''items''"; simp only: prod.case jsv.case split: if_splits) (simp_all add: that)
  define kept where "kept = filter keep_source ss"
  define left where "left = filter (\<lambda>i. set_has (map (\<lambda>s. field s ''id'') kept) (field i ''sourceId'')) its"
  have r: "r = JObj (spread (entries scene) [(''sources'', JArr kept), (''items'', JArr left)])"
    unfolding r0 kept_def left_def ..
  have ne: "''sources'' \<noteq> ''items''" by simp
  have e: "entries r = spread (entries scene) [(''sources'', JArr kept), (''items'', JArr left)]" by (simp add: r)
  have mo: "map_of (entries r) ''sources'' = Some (JArr kept)" "map_of (entries r) ''items'' = Some (JArr left)"
    unfolding e by (rule map_of_spread2(1) [OF ne], rule map_of_spread2(2))
  then have fr: "field r ''sources'' = JArr kept" "field r ''items'' = JArr left" by (simp_all add: field_def)
  have k: "list_all has_members kept" "list_all has_members left" "filter keep_source kept = kept"
    "filter (\<lambda>i. set_has (map (\<lambda>s. field s ''id'') kept) (field i ''sourceId'')) left = left"
    using m by (auto simp: list_all_iff kept_def left_def)
  have "redacted_scene r = Some (JObj (spread (entries r) [(''sources'', JArr kept), (''items'', JArr left)]))"
    unfolding redacted_scene_def fr using k by (simp add: Let_def)
  also have "\<dots> = Some r" unfolding spread2_same [OF mo] by (simp add: r)
  finally have "redacted_scene r = Some r" .
  moreover have "scene_redacted r" unfolding scene_redacted_def using fr by (auto simp: kept_def left_def)
  ultimately show ?thesis by simp
qed

lemma all_scenes_facts: "all_scenes ss = Some rs \<Longrightarrow> list_all scene_redacted rs \<and> all_scenes rs = Some rs"
proof (induction ss arbitrary: rs)
  case (Cons s ss)
  from Cons.prems obtain r rs' where r: "redacted_scene s = Some r" "all_scenes ss = Some rs'" "rs = r # rs'"
    by (simp split: option.splits)
  with redacted_scene_facts [OF r(1)] Cons.IH [OF r(2)] show ?case by simp
qed simp

text \<open>C27. A redacted studio is portable and stays so: every scene keeps only camera, text, colour and
  nested sources and only items of the sources it keeps, and redacting it again changes nothing.\<close>

theorem redacted_studio_portable:
  assumes "redactedStudio studio = Some r"
  shows "redactedStudio r = Some r \<and> (\<exists>scenes. field r ''scenes'' = JArr scenes \<and> list_all scene_redacted scenes)"
proof -
  from assms obtain ss rs where "field studio ''scenes'' = JArr ss" and rs: "all_scenes ss = Some rs"
    and r: "r = JObj (spread (entries studio) [(''scenes'', JArr rs)])"
    by (auto simp: redactedStudio_def split: jsv.splits)
  have m: "map_of (entries r) ''scenes'' = Some (JArr rs)" by (simp add: r spread_def)
  then have f: "field r ''scenes'' = JArr rs" by (simp add: field_def)
  have "redactedStudio r = Some (JObj (spread (entries r) [(''scenes'', JArr rs)]))"
    using all_scenes_facts [OF rs] unfolding redactedStudio_def f by simp
  also have "\<dots> = Some r" by (simp only: spread_def fold_simps case_prod_conv assign_same [OF m]) (simp add: r)
  finally show ?thesis using f all_scenes_facts [OF rs] by blast
qed

definition demo_studio :: jsv where
  "demo_studio = JObj [(''schemaVersion'', JInt 1), (''scenes'', JArr [JObj [(''id'', JStr ''s''),
     (''sources'', JArr [JObj [(''id'', JStr ''a''), (''kind'', JStr ''rtsp''), (''rtspUrl'', JStr ''rtsp://u@h/'')],
        JObj [(''id'', JStr ''b''), (''kind'', JStr ''camera'')]]),
     (''items'', JArr [JObj [(''sourceId'', JStr ''a'')], JObj [(''sourceId'', JStr ''b'')]])]])]"

theorem redacted_studio_portable_witness:
  "\<exists>r. redactedStudio demo_studio = Some r \<and> redactedStudio r = Some r \<and> r \<noteq> demo_studio"
proof -
  obtain r where r: "redactedStudio demo_studio = Some r" "r \<noteq> demo_studio"
  proof
    show "redactedStudio demo_studio = Some (the (redactedStudio demo_studio))" by code_simp
    show "the (redactedStudio demo_studio) \<noteq> demo_studio" by code_simp
  qed
  from redacted_studio_portable [OF r(1)] have "redactedStudio r = Some r" by (rule conjunct1)
  with r show ?thesis by (intro exI conjI)
qed

end
