(* ===== verification/LocalStore.thy ===== *)
theory LocalStore
  imports SyncLaws Redaction Grant
begin

text \<open>
  The private store of the browser (\<open>localRuntime.ts\<close>): IndexedDB records sealed under a key that
  cannot be exported, each with a lease.  A sealed record is its content, \<open>None\<close> when the present key
  does not open it, and its expiry; AES-GCM and IndexedDB are the browser's.  An operation takes the
  time it runs at and answers a value or an error with the next store; \<open>num\<close> is the decimal form of a
  number in \<open>JSON.stringify\<close>.  Storage failures (a full or blocked database) are not modelled.
\<close>

record 'a sealed =
  content :: "'a option"
  sealed_until :: int

datatype audit_outcome = AuditAccepted | AuditCompleted | AuditFailed | AuditDenied | AuditStopped

record audit_event =
  ae_sequence :: int
  ae_type :: string
  ae_outcome :: audit_outcome
  ae_camera :: string
  ae_createdAt :: int

record local_store =
  st_identity :: "stored_identity sealed option"
  st_snapshot :: "jsv sealed option"
  st_local :: "jsv sealed option"
  st_audit :: "audit_event list sealed option"
  st_queue :: "sync_queue sealed option"
  st_state :: "sync_state sealed option"
  st_lease :: "int option"
  st_clock :: "int option"
  st_monitor :: "jsv sealed option"
  st_layout :: "jsv sealed option"
  st_workspace :: "bool sealed option"
  st_profiles :: "jsv list sealed option"
  st_active :: "string sealed option"
  st_backups :: "jsv list sealed option"

definition empty_store :: local_store where
  "empty_store = \<lparr>st_identity = None, st_snapshot = None, st_local = None, st_audit = None, st_queue = None,
     st_state = None, st_lease = None, st_clock = None, st_monitor = None, st_layout = None, st_workspace = None,
     st_profiles = None, st_active = None, st_backups = None\<rparr>"

datatype store_error =
    NotRedacted | BadStudio | QueueTooLong | AuditInvalid | DecryptFailed | IdentityRejected

section \<open>The values that are sealed\<close>

fun op_name :: "mutation_op \<Rightarrow> string" where
  "op_name Upsert = ''upsert''"
| "op_name DeleteOp = ''delete''"

definition js_of_mutation :: "sync_mutation \<Rightarrow> jsv" where
  "js_of_mutation m = JObj [(''kind'', JStr (doc_kind_name (mu_kind m))), (''id'', JStr (mu_id m)),
     (''operation'', JStr (op_name (mu_op m))), (''fields'', JObj (mu_fields m))]"

definition js_of_queue :: "sync_queue \<Rightarrow> jsv" where
  "js_of_queue q = JObj [(''schemaVersion'', JInt 1), (''baseRevision'', JInt (baseRevision q)),
     (''mutations'', JArr (map js_of_mutation (mutations q)))]"

definition js_of_document :: "sync_document \<Rightarrow> jsv" where
  "js_of_document d = JObj [(''kind'', JStr (doc_kind_name (sd_kind d))), (''id'', JStr (sd_id d)),
     (''revision'', JInt (sd_revision d)), (''deleted'', JBool (sd_deleted d)), (''updatedAt'', JInt (sd_updatedAt d)),
     (''document'', sd_document d)]"

definition js_of_conflict_field :: "conflict_field option \<Rightarrow> jsv" where
  "js_of_conflict_field f = (case f of None \<Rightarrow> JNull | Some f \<Rightarrow>
     JObj ([(''field'', JStr (cff_field f))]
       @ (case cff_serverValue f of None \<Rightarrow> [] | Some v \<Rightarrow> [(''serverValue'', v)]) @ [(''serverRevision'', cff_revision f)]))"

definition js_of_conflict :: "sync_conflict \<Rightarrow> jsv" where
  "js_of_conflict c = JObj [(''kind'', JStr (sc_kind c)), (''id'', JStr (sc_id c)),
     (''fields'', (case sc_fields c of None \<Rightarrow> JUndef | Some fs \<Rightarrow> JArr (map js_of_conflict_field fs)))]"

definition js_of_state :: "sync_state \<Rightarrow> jsv" where
  "js_of_state s = JObj [(''schemaVersion'', JInt 1), (''revision'', JInt (ss_revision s)),
     (''documents'', JArr (map js_of_document (ss_documents s))), (''conflicts'', JArr (map js_of_conflict (ss_conflicts s))),
     (''lastSyncedAt'', JInt (ss_lastSyncedAt s))]"

fun outcome_name :: "audit_outcome \<Rightarrow> string" where
  "outcome_name AuditAccepted = ''accepted''"
| "outcome_name AuditCompleted = ''completed''"
| "outcome_name AuditFailed = ''failed''"
| "outcome_name AuditDenied = ''denied''"
| "outcome_name AuditStopped = ''stopped''"

definition js_of_audit :: "audit_event list \<Rightarrow> jsv" where
  "js_of_audit es = JArr (map (\<lambda>e. JObj [(''sequence'', JInt (ae_sequence e)), (''type'', JStr (ae_type e)),
     (''outcome'', JStr (outcome_name (ae_outcome e))), (''cameraId'', JStr (ae_camera e)),
     (''createdAt'', JInt (ae_createdAt e))]) es)"

definition js_of_flag :: "bool \<Rightarrow> jsv" where
  "js_of_flag b = JObj [(''enabled'', JBool b)]"

definition js_local_only :: "jsv \<Rightarrow> jsv" where
  "js_local_only studio = JObj [(''kind'', JStr ''local-only''), (''studio'', studio)]"

section \<open>Sealing and opening\<close>

text \<open>\<open>encrypt\<close>: the value is checked first; a value that is not redacted is never sealed.\<close>

definition encrypt :: "(rat \<Rightarrow> string) \<Rightarrow> ('a \<Rightarrow> jsv) \<Rightarrow> 'a \<Rightarrow> int \<Rightarrow> store_error + 'a sealed" where
  "encrypt num js v until = (if assertRedacted num (js v) then Inr \<lparr>content = Some v, sealed_until = until\<rparr> else Inl NotRedacted)"

text \<open>The loaders that answer nothing for a missing, expired or unreadable record.\<close>

definition load_sealed :: "int \<Rightarrow> 'a sealed option \<Rightarrow> 'a option" where
  "load_sealed now r = (case r of None \<Rightarrow> None | Some s \<Rightarrow> if sealed_until s \<le> now then None else content s)"

section \<open>Clock and clearing\<close>

definition CLOCK_TOLERANCE :: int where "CLOCK_TOLERANCE = 5 * 60 * 1000"

definition failClosedNow :: "int \<Rightarrow> local_store \<Rightarrow> int option \<times> local_store" where
  "failClosedNow now st =
     (case st_clock st of
        None \<Rightarrow> (Some now, st\<lparr>st_clock := Some now\<rparr>)
      | Some high \<Rightarrow>
          if now + CLOCK_TOLERANCE < high then (None, st)
          else (Some now, if high < now then st\<lparr>st_clock := Some now\<rparr> else st))"

text \<open>Clearing the \<open>identity\<close> store drops the sealing key with it, so what is left in \<open>runtimeMeta\<close>
  (the backups) can no longer be opened; the clock stays.\<close>

definition unreadable :: "'a sealed option \<Rightarrow> 'a sealed option" where
  "unreadable r = map_option (\<lambda>s. s\<lparr>content := None\<rparr>) r"

definition clearPrivateRuntimeState :: "local_store \<Rightarrow> local_store" where
  "clearPrivateRuntimeState st = empty_store\<lparr>st_clock := st_clock st, st_backups := unreadable (st_backups st)\<rparr>"

definition clearAllLocalRuntimeData :: "local_store \<Rightarrow> local_store" where
  "clearAllLocalRuntimeData st = empty_store"

section \<open>Studio snapshots\<close>

definition seal_studio :: "(rat \<Rightarrow> string) \<Rightarrow> (jsv \<Rightarrow> jsv) \<Rightarrow> jsv \<Rightarrow> int \<Rightarrow> store_error + jsv sealed" where
  "seal_studio num wrap studio until =
     (case redactedStudio studio of None \<Rightarrow> Inl BadStudio | Some r \<Rightarrow> encrypt num id (wrap r) until)"

definition saveStudioSnapshot :: "(rat \<Rightarrow> string) \<Rightarrow> int \<Rightarrow> jsv \<Rightarrow> local_store \<Rightarrow> (store_error + int) \<times> local_store" where
  "saveStudioSnapshot num now studio st =
     (case seal_studio num id studio (now + LEASE_MS) of
        Inl e \<Rightarrow> (Inl e, st)
      | Inr s \<Rightarrow> (Inr (now + LEASE_MS),
          st\<lparr>st_snapshot := Some s, st_lease := Some (now + LEASE_MS), st_clock := Some now\<rparr>))"

definition saveLocalStudio :: "(rat \<Rightarrow> string) \<Rightarrow> int \<Rightarrow> jsv \<Rightarrow> local_store \<Rightarrow> (store_error + unit) \<times> local_store" where
  "saveLocalStudio num now studio st =
     (case seal_studio num js_local_only studio (now + LEASE_MS) of
        Inl e \<Rightarrow> (Inl e, st) | Inr s \<Rightarrow> (Inr (), st\<lparr>st_local := Some s\<rparr>))"

section \<open>Synchronization records\<close>

definition loadSyncState :: "int \<Rightarrow> local_store \<Rightarrow> sync_state option" where
  "loadSyncState now st = load_sealed now (st_state st)"

definition saveSyncState :: "(rat \<Rightarrow> string) \<Rightarrow> int \<Rightarrow> sync_state \<Rightarrow> local_store \<Rightarrow> (store_error + unit) \<times> local_store" where
  "saveSyncState num now s st =
     (case encrypt num js_of_state s (now + LEASE_MS) of
        Inl e \<Rightarrow> (Inl e, st) | Inr r \<Rightarrow> (Inr (), st\<lparr>st_state := Some r\<rparr>))"

definition loadSyncQueue :: "int \<Rightarrow> local_store \<Rightarrow> sync_queue option" where
  "loadSyncQueue now st = load_sealed now (st_queue st)"

definition saveSyncQueue :: "(rat \<Rightarrow> string) \<Rightarrow> int \<Rightarrow> sync_queue option \<Rightarrow> local_store \<Rightarrow> (store_error + unit) \<times> local_store" where
  "saveSyncQueue num now queue st =
     (case queue of
        None \<Rightarrow> (Inr (), st\<lparr>st_queue := None\<rparr>)
      | Some q \<Rightarrow>
          if length (mutations q) > 256 then (Inl QueueTooLong, st)
          else (case encrypt num js_of_queue q (now + LEASE_MS) of
                  Inl e \<Rightarrow> (Inl e, st) | Inr r \<Rightarrow> (Inr (), st\<lparr>st_queue := Some r\<rparr>)))"

text \<open>One transaction: the queue, the layout and the mode are all written or none is.\<close>

definition saveQueuedStudio ::
  "(rat \<Rightarrow> string) \<Rightarrow> int \<Rightarrow> sync_queue \<Rightarrow> jsv \<Rightarrow> local_store \<Rightarrow> (store_error + unit) \<times> local_store" where
  "saveQueuedStudio num now queue studio st =
     (if length (mutations queue) > 256 then (Inl QueueTooLong, st)
      else case (encrypt num js_of_queue queue (now + LEASE_MS), seal_studio num js_local_only studio (now + LEASE_MS),
                 encrypt num js_of_flag True (now + LEASE_MS)) of
             (Inr q, Inr l, Inr w) \<Rightarrow> (Inr (), st\<lparr>st_queue := Some q, st_local := Some l, st_workspace := Some w\<rparr>)
           | (Inl e, _, _) \<Rightarrow> (Inl e, st)
           | (_, Inl e, _) \<Rightarrow> (Inl e, st)
           | (_, _, Inl e) \<Rightarrow> (Inl e, st))"

definition setDeviceWorkspace :: "(rat \<Rightarrow> string) \<Rightarrow> int \<Rightarrow> bool \<Rightarrow> local_store \<Rightarrow> (store_error + unit) \<times> local_store" where
  "setDeviceWorkspace num now enabled st =
     (case encrypt num js_of_flag enabled (now + LEASE_MS) of
        Inl e \<Rightarrow> (Inl e, st) | Inr r \<Rightarrow> (Inr (), st\<lparr>st_workspace := Some r\<rparr>))"

definition isDeviceWorkspace :: "int \<Rightarrow> local_store \<Rightarrow> bool" where
  "isDeviceWorkspace now st = (load_sealed now (st_workspace st) = Some True)"


section \<open>The offline audit queue\<close>

definition MAX_AUDIT :: nat where "MAX_AUDIT = 512"

definition loadAuditQueue :: "int \<Rightarrow> local_store \<Rightarrow> audit_event list" where
  "loadAuditQueue now st = (case load_sealed now (st_audit st) of None \<Rightarrow> [] | Some es \<Rightarrow> es)"

text \<open>Rejection sampling of 16-bit samples; a sequence of samples that are all rejected has no answer.\<close>

fun audit_suffix :: "nat list \<Rightarrow> nat option" where
  "audit_suffix [] = None"
| "audit_suffix (sample # rest) = (if 65000 \<le> sample then audit_suffix rest else Some (sample mod 1000))"

definition push_audit :: "audit_event \<Rightarrow> audit_event list \<Rightarrow> audit_event list" where
  "push_audit e q = (let q' = q @ [e] in if MAX_AUDIT < length q' then drop (length q' - MAX_AUDIT) q' else q')"

definition audit_type_ok :: "string \<Rightarrow> bool" where
  "audit_type_ok t = in_class (\<lambda>c. is_lower c \<or> is_digit c \<or> c = CHR ''.'' \<or> c = CHR ''_'' \<or> c = CHR ''-'') 1 64 t"

definition audit_camera_ok :: "string \<Rightarrow> bool" where
  "audit_camera_ok c = in_class is_id_char 0 64 c"

definition queueOfflineAudit ::
  "(rat \<Rightarrow> string) \<Rightarrow> int \<Rightarrow> nat list \<Rightarrow> string \<Rightarrow> audit_outcome \<Rightarrow> string \<Rightarrow> local_store
   \<Rightarrow> ((store_error + unit) \<times> local_store) option" where
  "queueOfflineAudit num now samples t outcome camera st =
     (if \<not> audit_type_ok t \<or> \<not> audit_camera_ok camera then Some (Inl AuditInvalid, st)
      else case audit_suffix samples of
             None \<Rightarrow> None
           | Some suffix \<Rightarrow>
               let q = push_audit \<lparr>ae_sequence = now * 1000 + int suffix, ae_type = t, ae_outcome = outcome,
                         ae_camera = camera, ae_createdAt = now\<rparr> (loadAuditQueue now st)
               in (case encrypt num js_of_audit q (now + LEASE_MS) of
                     Inl e \<Rightarrow> Some (Inl e, st)
                   | Inr r \<Rightarrow> Some (Inr (), st\<lparr>st_audit := Some r\<rparr>)))"

definition consumeAuditQueue :: "(rat \<Rightarrow> string) \<Rightarrow> int \<Rightarrow> nat \<Rightarrow> local_store \<Rightarrow> (store_error + unit) \<times> local_store" where
  "consumeAuditQueue num now n st =
     (let remaining = drop n (loadAuditQueue now st)
      in if remaining = [] then (Inr (), st\<lparr>st_audit := None\<rparr>)
         else case encrypt num js_of_audit remaining (now + LEASE_MS) of
                Inl e \<Rightarrow> (Inl e, st) | Inr r \<Rightarrow> (Inr (), st\<lparr>st_audit := Some r\<rparr>))"

section \<open>Scenes the server sent\<close>

definition decoded_studio :: "jsv \<Rightarrow> jsv" where
  "decoded_studio v = (if has_own v ''kind'' then field v ''studio'' else v)"

definition scene_table :: "jsv list \<Rightarrow> (jsv \<times> jsv) list" where
  "scene_table ss = map_from (map (\<lambda>s. (field s ''id'', s)) ss)"

definition take_document :: "sync_document \<Rightarrow> (jsv \<times> jsv) list \<Rightarrow> (jsv \<times> jsv) list" where
  "take_document d m =
     (if sd_deleted d then erase (JStr (sd_id d)) m
      else if isSupportedSceneSchema (field (sd_document d) ''schemaVersion'') then assign (JStr (sd_id d)) (sd_document d) m
      else m)"

definition selected_scene :: "(jsv \<times> jsv) list \<Rightarrow> jsv \<Rightarrow> string \<Rightarrow> jsv" where
  "selected_scene m studio k = (if field studio k \<in> set (map fst m) then field studio k else field (snd (hd m)) ''id'')"

definition newest_studio :: "local_store \<Rightarrow> jsv sealed option" where
  "newest_studio st = (case st_local st of Some l \<Rightarrow> Some l | None \<Rightarrow> st_snapshot st)"

definition cacheSyncedScenes ::
  "(rat \<Rightarrow> string) \<Rightarrow> int \<Rightarrow> sync_document list \<Rightarrow> local_store \<Rightarrow> (store_error + unit) \<times> local_store" where
  "cacheSyncedScenes num now docs st =
     (let scenes = filter (\<lambda>d. sd_kind d = SceneDoc) docs in
      if scenes = [] then (Inr (), st)
      else case newest_studio st of
        None \<Rightarrow> (Inr (), st)
      | Some snapshot \<Rightarrow>
          if sealed_until snapshot \<le> now then (Inr (), st)
          else (case content snapshot of
            None \<Rightarrow> (Inl DecryptFailed, st)
          | Some v \<Rightarrow>
              let studio = decoded_studio v in
              (case field studio ''scenes'' of
                 JArr ss \<Rightarrow>
                   if \<not> list_all has_members ss then (Inl BadStudio, st)
                   else let table = fold take_document scenes (scene_table ss)
                        in if table = [] then (Inr (), st)
                           else saveLocalStudio num now (JObj (spread (entries studio)
                             [(''scenes'', JArr (map snd table)),
                              (''previewSceneId'', selected_scene table studio ''previewSceneId''),
                              (''programSceneId'', selected_scene table studio ''programSceneId'')])) st
               | _ \<Rightarrow> (Inl BadStudio, st))))"

section \<open>Identity and offline access\<close>

definition saveIdentity :: "int \<Rightarrow> stored_identity \<Rightarrow> local_store \<Rightarrow> (store_error + unit) \<times> local_store" where
  "saveIdentity now i st =
     (case saveBrowserIdentity now i of
        Inl _ \<Rightarrow> (Inl IdentityRejected, st)
      | Inr i \<Rightarrow> (Inr (), st\<lparr>st_identity := Some \<lparr>content = Some i, sealed_until = id_expiresAt i\<rparr>, st_clock := Some now\<rparr>))"

definition loadBrowserIdentity :: "int \<Rightarrow> local_store \<Rightarrow> (store_error + stored_identity option) \<times> local_store" where
  "loadBrowserIdentity now st =
     (case failClosedNow now st of
        (None, st) \<Rightarrow> (Inr None, clearPrivateRuntimeState st)
      | (Some now, st) \<Rightarrow>
          (case st_identity st of
             None \<Rightarrow> (Inr None, st)
           | Some r \<Rightarrow>
               if sealed_until r \<le> now then (Inr None, clearPrivateRuntimeState st)
               else (case content r of None \<Rightarrow> (Inl DecryptFailed, st) | Some i \<Rightarrow> (Inr (Some i), st))))"

definition loadOfflineStudio :: "int \<Rightarrow> local_store \<Rightarrow> (store_error + (jsv \<times> int) option) \<times> local_store" where
  "loadOfflineStudio now st =
     (case failClosedNow now st of
        (None, st) \<Rightarrow> (Inr None, clearPrivateRuntimeState st)
      | (Some now, st) \<Rightarrow>
          (case st_identity st of
             None \<Rightarrow> (Inr None, st)
           | Some identity \<Rightarrow>
               if sealed_until identity \<le> now then (Inr None, clearPrivateRuntimeState st)
               else (case content identity of
                  None \<Rightarrow> (Inr None, clearPrivateRuntimeState st)
                | Some verified \<Rightarrow>
                    if \<not> approvedIdentity now verified then (Inr None, st)
                    else (case newest_studio st of
                       None \<Rightarrow> (Inr None, st)
                     | Some snapshot \<Rightarrow>
                         if sealed_until snapshot \<le> now then (Inr None, clearPrivateRuntimeState st)
                         else (case content snapshot of
                            None \<Rightarrow> (Inl DecryptFailed, st)
                          | Some v \<Rightarrow> (Inr (Some (decoded_studio v, min (sealed_until identity) (sealed_until snapshot))), st))))))"

datatype config_state = Online | OfflineValid | OfflineExpired | EmptyConfig

definition localConfigState :: "int \<Rightarrow> bool \<Rightarrow> bool \<Rightarrow> local_store \<Rightarrow> config_state \<times> local_store" where
  "localConfigState now onLine controlPlaneValidated st =
     (case failClosedNow now st of
        (None, st) \<Rightarrow> (OfflineExpired, clearPrivateRuntimeState st)
      | (Some now, st) \<Rightarrow>
          (case st_identity st of
             Some identity \<Rightarrow>
               if sealed_until identity \<le> now then (OfflineExpired, clearPrivateRuntimeState st)
               else (case st_lease st of
                  None \<Rightarrow> (EmptyConfig, st)
                | Some lease \<Rightarrow>
                    if lease \<le> now then (OfflineExpired, clearPrivateRuntimeState st)
                    else (case content identity of
                       None \<Rightarrow> (EmptyConfig, clearPrivateRuntimeState st)
                     | Some i \<Rightarrow>
                         if \<not> approvedIdentity now i then (EmptyConfig, st)
                         else (if onLine \<and> controlPlaneValidated then Online else OfflineValid, st)))
           | None \<Rightarrow> (EmptyConfig, st)))"


section \<open>The invariant of the store\<close>

definition sealed_ok :: "(rat \<Rightarrow> string) \<Rightarrow> ('a \<Rightarrow> jsv) \<Rightarrow> 'a sealed option \<Rightarrow> bool" where
  "sealed_ok num js r = (case r of None \<Rightarrow> True | Some s \<Rightarrow>
     (case content s of None \<Rightarrow> True | Some v \<Rightarrow> assertRedacted num (js v)))"

definition js_active :: "string \<Rightarrow> jsv" where
  "js_active i = JObj [(''id'', JStr i)]"

definition queue_fits :: "sync_queue sealed option \<Rightarrow> bool" where
  "queue_fits r = (case r of None \<Rightarrow> True | Some s \<Rightarrow> (case content s of None \<Rightarrow> True | Some q \<Rightarrow> length (mutations q) \<le> 256))"

definition audit_fits :: "audit_event list sealed option \<Rightarrow> bool" where
  "audit_fits r = (case r of None \<Rightarrow> True | Some s \<Rightarrow> (case content s of None \<Rightarrow> True | Some q \<Rightarrow> length q \<le> MAX_AUDIT))"

text \<open>Everything readable but the identity passed the redaction check, and the queues are bounded.\<close>

definition store_clean :: "(rat \<Rightarrow> string) \<Rightarrow> local_store \<Rightarrow> bool" where
  "store_clean num st =
     (sealed_ok num id (st_snapshot st) \<and> sealed_ok num id (st_local st) \<and> sealed_ok num js_of_audit (st_audit st)
      \<and> sealed_ok num js_of_queue (st_queue st) \<and> sealed_ok num js_of_state (st_state st)
      \<and> sealed_ok num id (st_monitor st) \<and> sealed_ok num id (st_layout st) \<and> sealed_ok num js_of_flag (st_workspace st)
      \<and> sealed_ok num JArr (st_profiles st) \<and> sealed_ok num js_active (st_active st) \<and> sealed_ok num JArr (st_backups st)
      \<and> queue_fits (st_queue st) \<and> audit_fits (st_audit st))"

lemma sealed_ok_None [simp]: "sealed_ok num js None"
  by (simp add: sealed_ok_def)

lemma fits_None [simp]: "queue_fits None" "audit_fits None"
  by (simp_all add: queue_fits_def audit_fits_def)

lemma encrypt_ok: "encrypt num js v until = Inr r \<Longrightarrow> sealed_ok num js (Some r) \<and> content r = Some v"
  by (auto simp: encrypt_def sealed_ok_def split: if_splits)

lemma encrypt_okD [dest]: "encrypt num js v until = Inr r \<Longrightarrow> sealed_ok num js (Some r)"
  by (drule encrypt_ok) simp

lemma seal_studio_ok: "seal_studio num wrap studio until = Inr r \<Longrightarrow> sealed_ok num id (Some r)"
  by (auto simp: seal_studio_def split: option.splits)

lemma unreadable_ok [simp]: "sealed_ok num js (unreadable r)"
  by (cases r) (auto simp: unreadable_def sealed_ok_def)

lemma load_sealed_ok: "load_sealed now r = Some v \<Longrightarrow> sealed_ok num js r \<Longrightarrow> assertRedacted num (js v)"
  by (auto simp: load_sealed_def sealed_ok_def split: option.splits if_splits)

lemma clean_empty [inv_intro]: "store_clean num empty_store"
  by (simp add: store_clean_def empty_store_def)

lemma clean_clear [inv_intro]: "store_clean num (clearPrivateRuntimeState st)"
  by (simp add: store_clean_def clearPrivateRuntimeState_def empty_store_def)

lemma clean_clock [simp]: "store_clean num (st\<lparr>st_clock := c\<rparr>) = store_clean num st"
  by (simp add: store_clean_def)

lemma clean_failClosedNow [inv_intro]: "store_clean num st \<Longrightarrow> store_clean num (snd (failClosedNow now st))"
  by (auto simp: failClosedNow_def split: option.splits)

lemma clean_snapshot [inv_intro]: "store_clean num st \<Longrightarrow> store_clean num (snd (saveStudioSnapshot num now studio st))"
  by (auto simp: saveStudioSnapshot_def store_clean_def split: sum.splits dest: seal_studio_ok)

lemma clean_local [inv_intro]: "store_clean num st \<Longrightarrow> store_clean num (snd (saveLocalStudio num now studio st))"
  by (auto simp: saveLocalStudio_def store_clean_def split: sum.splits dest: seal_studio_ok)

lemma clean_state [inv_intro]: "store_clean num st \<Longrightarrow> store_clean num (snd (saveSyncState num now s st))"
  by (auto simp: saveSyncState_def store_clean_def split: sum.splits)

lemma queue_fits_saved: "encrypt num js_of_queue q until = Inr r \<Longrightarrow> length (mutations q) \<le> 256 \<Longrightarrow> queue_fits (Some r)"
  by (auto simp: queue_fits_def dest!: encrypt_ok)

lemma clean_queue [inv_intro]: "store_clean num st \<Longrightarrow> store_clean num (snd (saveSyncQueue num now q st))"
  by (auto simp: saveSyncQueue_def store_clean_def split: sum.splits option.splits dest: queue_fits_saved)

lemma clean_queued_studio [inv_intro]: "store_clean num st \<Longrightarrow> store_clean num (snd (saveQueuedStudio num now q studio st))"
  by (auto simp: saveQueuedStudio_def store_clean_def split: sum.splits dest: queue_fits_saved seal_studio_ok)

lemma clean_workspace [inv_intro]: "store_clean num st \<Longrightarrow> store_clean num (snd (setDeviceWorkspace num now b st))"
  by (auto simp: setDeviceWorkspace_def store_clean_def split: sum.splits)

lemma length_push_audit: "length q \<le> MAX_AUDIT \<Longrightarrow> length (push_audit e q) \<le> MAX_AUDIT"
  by (simp add: push_audit_def Let_def MAX_AUDIT_def)

interpretation audit_buffer: bounded_queue id push_audit MAX_AUDIT
proof
  fix e :: audit_event and q :: "audit_event list"
  show "set (id (push_audit e q)) \<subseteq> insert e (set (id q))"
    using set_drop_subset [of "length (q @ [e]) - MAX_AUDIT" "q @ [e]"] by (auto simp: push_audit_def Let_def)
  show "e \<in> set (id (push_audit e q))" if "0 < MAX_AUDIT"
    using that by (auto simp: push_audit_def Let_def)
qed (simp add: length_push_audit)

lemma load_audit_fits: "audit_fits (st_audit st) \<Longrightarrow> length (loadAuditQueue now st) \<le> MAX_AUDIT"
  by (auto simp: loadAuditQueue_def load_sealed_def audit_fits_def split: option.splits if_splits)

lemma audit_fits_saved: "encrypt num js_of_audit q until = Inr r \<Longrightarrow> length q \<le> MAX_AUDIT \<Longrightarrow> audit_fits (Some r)"
  by (auto simp: audit_fits_def dest!: encrypt_ok)

lemma clean_audit [inv_intro]:
  assumes "store_clean num st" and "queueOfflineAudit num now samples t out camera st = Some (r, st')"
  shows "store_clean num st'"
proof (cases "encrypt num js_of_audit (push_audit \<lparr>ae_sequence = now * 1000 + int (the (audit_suffix samples)), ae_type = t,
    ae_outcome = out, ae_camera = camera, ae_createdAt = now\<rparr> (loadAuditQueue now st)) (now + LEASE_MS)")
  case (Inl e)
  with assms show ?thesis by (auto simp: queueOfflineAudit_def Let_def split: if_splits option.splits)
next
  case (Inr s)
  have "audit_fits (Some s)" using assms(1)
    by (intro audit_fits_saved [OF Inr] length_push_audit load_audit_fits) (simp add: store_clean_def)
  with Inr assms show ?thesis
    by (auto simp: queueOfflineAudit_def Let_def store_clean_def split: if_splits option.splits)
qed

lemma clean_consume [inv_intro]:
  assumes "store_clean num st"
  shows "store_clean num (snd (consumeAuditQueue num now n st))"
proof -
  have "length (drop n (loadAuditQueue now st)) \<le> MAX_AUDIT"
    using load_audit_fits [of st now] assms by (auto simp: store_clean_def)
  with assms show ?thesis
    by (auto simp: consumeAuditQueue_def Let_def store_clean_def split: sum.splits dest: audit_fits_saved)
qed

lemma clean_cache [inv_intro]: "store_clean num st \<Longrightarrow> store_clean num (snd (cacheSyncedScenes num now docs st))"
  by (auto simp: cacheSyncedScenes_def Let_def split: option.splits jsv.splits if_splits intro: clean_local)

lemma clean_identity [inv_intro]: "store_clean num st \<Longrightarrow> store_clean num (snd (saveIdentity now i st))"
  by (auto simp: saveIdentity_def store_clean_def split: sum.splits)

lemma clean_load_identity [inv_intro]: "store_clean num st \<Longrightarrow> store_clean num (snd (loadBrowserIdentity now st))"
  using clean_failClosedNow [of num st now]
  by (auto simp: loadBrowserIdentity_def clean_clear split: option.splits prod.splits)

lemma clean_offline [inv_intro]: "store_clean num st \<Longrightarrow> store_clean num (snd (loadOfflineStudio now st))"
  using clean_failClosedNow [of num st now]
  by (auto simp: loadOfflineStudio_def clean_clear split: option.splits prod.splits)

lemma clean_config_state [inv_intro]: "store_clean num st \<Longrightarrow> store_clean num (snd (localConfigState now o' c st))"
  using clean_failClosedNow [of num st now]
  by (auto simp: localConfigState_def clean_clear split: option.splits prod.splits)


section \<open>Offline access fails closed\<close>

definition closed_record :: "'a sealed option \<Rightarrow> bool" where
  "closed_record r = (case r of None \<Rightarrow> True | Some s \<Rightarrow> content s = None)"

definition nothing_readable :: "local_store \<Rightarrow> bool" where
  "nothing_readable st = (closed_record (st_identity st) \<and> closed_record (st_snapshot st) \<and> closed_record (st_local st)
     \<and> closed_record (st_audit st) \<and> closed_record (st_queue st) \<and> closed_record (st_state st)
     \<and> closed_record (st_monitor st) \<and> closed_record (st_layout st) \<and> closed_record (st_workspace st)
     \<and> closed_record (st_profiles st) \<and> closed_record (st_active st) \<and> closed_record (st_backups st)
     \<and> st_lease st = None)"

lemma cleared_nothing [simp]: "nothing_readable (clearPrivateRuntimeState st)"
  by (cases "st_backups st") (auto simp: nothing_readable_def clearPrivateRuntimeState_def empty_store_def
      closed_record_def unreadable_def)

definition rolled_back :: "int \<Rightarrow> local_store \<Rightarrow> bool" where
  "rolled_back now st = (case st_clock st of None \<Rightarrow> False | Some high \<Rightarrow> now + CLOCK_TOLERANCE < high)"

definition lapsed :: "int \<Rightarrow> 'a sealed option \<Rightarrow> bool" where
  "lapsed now r = (case r of None \<Rightarrow> False | Some s \<Rightarrow> sealed_until s \<le> now)"

lemma failClosedNow_back: "rolled_back now st \<Longrightarrow> failClosedNow now st = (None, st)"
  by (auto simp: rolled_back_def failClosedNow_def split: option.splits)

lemma failClosedNow_on:
  "\<not> rolled_back now st \<Longrightarrow> \<exists>c. failClosedNow now st = (Some now, st\<lparr>st_clock := c\<rparr>)"
  by (cases "st_clock st"; cases st) (auto simp: rolled_back_def failClosedNow_def)

text \<open>C28. A clock set back by more than five minutes, or a lapsed identity, closes every door: the
  offline studio, the device identity and the configuration state all refuse, and each attempt
  leaves nothing in the store that can be read.\<close>

theorem offline_fails_closed:
  assumes "rolled_back now st \<or> lapsed now (st_identity st)"
  shows "fst (loadOfflineStudio now st) = Inr None \<and> nothing_readable (snd (loadOfflineStudio now st))
    \<and> fst (loadBrowserIdentity now st) = Inr None \<and> nothing_readable (snd (loadBrowserIdentity now st))
    \<and> fst (localConfigState now onLine validated st) = OfflineExpired
    \<and> nothing_readable (snd (localConfigState now onLine validated st))"
proof (cases "rolled_back now st")
  case True
  then show ?thesis
    by (simp add: loadOfflineStudio_def loadBrowserIdentity_def localConfigState_def failClosedNow_back)
next
  case False
  with assms obtain r where r: "st_identity st = Some r" "sealed_until r \<le> now"
    by (auto simp: lapsed_def split: option.splits)
  from failClosedNow_on [OF False] obtain c where "failClosedNow now st = (Some now, st\<lparr>st_clock := c\<rparr>)" by blast
  with r show ?thesis
    by (simp add: loadOfflineStudio_def loadBrowserIdentity_def localConfigState_def)
qed

text \<open>C29. The offline studio is only shown to a device that is still approved: when it is, the clock has
  not gone back, the stored identity holds an approved grant, neither the grant nor the studio has
  lapsed, the deadline reported is the earlier of the two, and the studio is redacted.\<close>

theorem offline_studio_authorized:
  assumes "loadOfflineStudio now st = (Inr (Some (studio, until)), st')" and "store_clean num st"
  shows "\<not> rolled_back now st \<and> now < until
    \<and> (\<exists>r i. st_identity st = Some r \<and> content r = Some i \<and> approvedIdentity now i \<and> until \<le> sealed_until r)
    \<and> (\<exists>s v. newest_studio st = Some s \<and> content s = Some v \<and> until \<le> sealed_until s
         \<and> studio = decoded_studio v \<and> secret_free v)"
proof -
  have nb: "\<not> rolled_back now st"
    using assms(1) by (auto simp: loadOfflineStudio_def failClosedNow_back)
  from failClosedNow_on [OF nb] obtain c where c: "failClosedNow now st = (Some now, st\<lparr>st_clock := c\<rparr>)" by blast
  have newest: "newest_studio (st\<lparr>st_clock := c\<rparr>) = newest_studio st"
    by (simp add: newest_studio_def split: option.split)
  from assms(1) obtain r i s v where r: "st_identity st = Some r" "now < sealed_until r" "content r = Some i" "approvedIdentity now i"
    and s: "newest_studio st = Some s" "now < sealed_until s" "content s = Some v"
    and res: "studio = decoded_studio v" "until = min (sealed_until r) (sealed_until s)"
    unfolding loadOfflineStudio_def c newest by (auto split: option.splits if_splits simp: newest)
  have "sealed_ok num id (Some s)"
    using assms(2) s(1) by (auto simp: store_clean_def newest_studio_def split: option.splits)
  with s(3) have "assertRedacted num v" by (simp add: sealed_ok_def)
  with flagged_unless_free have "secret_free v" unfolding assertRedacted_def by blast
  with nb r s res show ?thesis by auto
qed


definition demo_approved :: stored_identity where
  "demo_approved = demo_identity\<lparr>pairingCode := None, clientId := Some demo_client,
     grantBundle := Some demo_sealed, grantPayload := Some demo_grant, id_expiresAt := 200000\<rparr>"

lemma demo_approved_ok: "approvedIdentity 150000 demo_approved"
  using demo_identity_valid unfolding demo_approved_def identity_valid_def by simp

definition offline_demo :: local_store where
  "offline_demo = empty_store\<lparr>st_identity := Some \<lparr>content = Some demo_approved, sealed_until = 200000\<rparr>,
     st_snapshot := Some \<lparr>content = Some demo_view, sealed_until = 190000\<rparr>, st_clock := Some 150000\<rparr>"

lemma offline_demo_clean: "store_clean (\<lambda>_. ''0'') offline_demo"
proof -
  have "assertRedacted (\<lambda>_. ''0'') demo_view" by code_simp
  then show ?thesis by (simp add: store_clean_def offline_demo_def empty_store_def sealed_ok_def)
qed

theorem offline_studio_authorized_witness:
  "loadOfflineStudio 150000 offline_demo = (Inr (Some (demo_view, 190000)), offline_demo) \<and> secret_free demo_view"
proof -
  have d: "decoded_studio demo_view = demo_view" by code_simp
  have r: "loadOfflineStudio 150000 offline_demo = (Inr (Some (demo_view, 190000)), offline_demo)"
    by (simp add: loadOfflineStudio_def failClosedNow_def offline_demo_def empty_store_def CLOCK_TOLERANCE_def
        newest_studio_def demo_approved_ok d)
  from offline_studio_authorized [OF r offline_demo_clean]
  obtain s v where "newest_studio offline_demo = Some s" "content s = Some v" "secret_free v" by blast
  then have "secret_free demo_view" by (auto simp: offline_demo_def empty_store_def newest_studio_def)
  with r show ?thesis by simp
qed

theorem offline_fails_closed_witness:
  "fst (loadOfflineStudio 200000 offline_demo) = Inr None \<and> nothing_readable (snd (loadOfflineStudio 200000 offline_demo))
   \<and> \<not> nothing_readable offline_demo"
proof -
  have "lapsed 200000 (st_identity offline_demo)" by (simp add: offline_demo_def lapsed_def)
  with offline_fails_closed [of 200000 offline_demo] show ?thesis
    by (simp add: nothing_readable_def closed_record_def) (simp add: offline_demo_def)
qed

end
