(* ===== verification/StudioCompat.thy ===== *)
theory StudioCompat
  imports Scene
begin

text \<open>
  Documents of older cores (\<open>studioCompat.ts\<close>) and the copy of a device layout into the preview
  (\<open>deviceWorkspace.ts\<close>).  The compatibility functions work on values of unknown shape; the copy
  works on scene records and takes the fresh identifiers that \<open>crypto.randomUUID\<close> would draw from
  an argument.
\<close>

section \<open>Compatibility\<close>

definition evenSize :: "jsv \<Rightarrow> int \<Rightarrow> int" where
  "evenSize v fallback = (case safe_int v of None \<Rightarrow> fallback
     | Some n \<Rightarrow> if n < 16 \<or> 8192 < n then fallback else n - n mod 2)"

definition colour_of :: "jsv \<Rightarrow> string option" where
  "colour_of v = (case v of JStr s \<Rightarrow> if hex_colour s then Some s else None | _ \<Rightarrow> None)"

definition canvasDefaults :: "jsv \<Rightarrow> jsv" where
  "canvasDefaults v = JObj [(''width'', JInt (evenSize (field v ''width'') 1280)),
     (''height'', JInt (evenSize (field v ''height'') 720)),
     (''backgroundColor'', JStr (case colour_of (field v ''backgroundColor'') of Some c \<Rightarrow> c
        | None \<Rightarrow> (case colour_of (field v ''background'') of Some c \<Rightarrow> c | None \<Rightarrow> ''#000000'')))]"

definition id_field :: "jsv \<Rightarrow> bool" where
  "id_field v = (case field v ''id'' of JStr s \<Rightarrow> id64 s | _ \<Rightarrow> False)"

definition legacySceneEligible :: "jsv \<Rightarrow> bool" where
  "legacySceneEligible s =
     (id_field s
      \<and> (case field s ''name'' of JStr n \<Rightarrow> trim n \<noteq> [] \<and> length n \<le> 128 | _ \<Rightarrow> False)
      \<and> (case safe_int (field s ''revision'') of Some r \<Rightarrow> 0 \<le> r | None \<Rightarrow> False)
      \<and> (case field s ''sources'' of JArr xs \<Rightarrow> length xs \<le> 256 \<and> list_all (\<lambda>x. is_object x \<and> id_field x) xs | _ \<Rightarrow> False)
      \<and> (case field s ''items'' of JArr xs \<Rightarrow> length xs \<le> 512 | _ \<Rightarrow> False))"

definition legacy_schema :: "jsv \<Rightarrow> bool" where
  "legacy_schema v = (case as_int v of Some n \<Rightarrow> 0 \<le> n \<and> n \<le> 4 | None \<Rightarrow> False)"

definition normalizeSceneDocument :: "jsv \<Rightarrow> jsv" where
  "normalizeSceneDocument s =
     (if \<not> is_object s then s
      else if isSupportedSceneSchema (field s ''schemaVersion'') then s
      else if \<not> legacy_schema (field s ''schemaVersion'') then s
      else if \<not> legacySceneEligible s then s
      else JObj (spread (entries s) [(''schemaVersion'', JInt 5), (''canvas'', canvasDefaults (field s ''canvas''))]))"

text \<open>\<open>durationMs\<close> is clamped only when it is a finite number.\<close>

definition transition_duration :: "jsv \<Rightarrow> jsv" where
  "transition_duration t = (case field t ''durationMs'' of JNum (Fin r) \<Rightarrow> JInt (clamp (trunc_rat r) 0 10000) | _ \<Rightarrow> JInt 0)"

definition transition_kind_of :: "jsv \<Rightarrow> jsv" where
  "transition_kind_of t = (if field t ''kind'' = JStr ''fade'' then JStr ''fade'' else JStr ''cut'')"

definition normalized_transition :: "jsv \<Rightarrow> jsv" where
  "normalized_transition t =
     (if field t ''kind'' = transition_kind_of t \<and> field t ''durationMs'' = transition_duration t then t
      else JObj [(''kind'', transition_kind_of t), (''durationMs'', transition_duration t)])"

definition normalized_scenes :: "jsv \<Rightarrow> jsv" where
  "normalized_scenes v = (case v of JArr ss \<Rightarrow> JArr (map normalizeSceneDocument ss) | _ \<Rightarrow> v)"

definition normalizeStudioDocument :: "jsv \<Rightarrow> jsv" where
  "normalizeStudioDocument s =
     JObj (spread (entries s) [(''transition'', normalized_transition (field s ''transition'')),
        (''scenes'', normalized_scenes (field s ''scenes''))])"

section \<open>The copy of a device layout\<close>

datatype copy_error = TooManyScenesToCopy | MissingNestedScene

text \<open>The draws: an identifier for each scene, and for each scene those of its sources and items.\<close>

record fresh_ids =
  fresh_scenes :: "string list"
  fresh_sources :: "string list list"
  fresh_items :: "string list list"

definition copied_source ::
  "(string \<times> string) list \<Rightarrow> (string \<times> string) list \<Rightarrow> scene_source \<Rightarrow> scene_source option" where
  "copied_source ids source_ids s =
     (case src_kind s of
        NestedSource i \<Rightarrow>
          (case map_of ids i of None \<Rightarrow> None
           | Some j \<Rightarrow> Some (s\<lparr>src_id := the (map_of source_ids (src_id s)), src_kind := NestedSource j\<rparr>))
      | _ \<Rightarrow> Some (s\<lparr>src_id := the (map_of source_ids (src_id s))\<rparr>))"

fun collect :: "'a option list \<Rightarrow> 'a list option" where
  "collect [] = Some []"
| "collect (x # xs) = (case (x, collect xs) of (Some y, Some ys) \<Rightarrow> Some (y # ys) | _ \<Rightarrow> None)"

text \<open>An item whose source is not in its scene gets \<open>undefined\<close> as its source; it is the empty string here.\<close>

definition copied_item :: "(string \<times> string) list \<Rightarrow> scene_item \<times> string \<Rightarrow> scene_item" where
  "copied_item source_ids ie = (case ie of (it, fresh) \<Rightarrow>
     it\<lparr>item_id := fresh, item_source := (case map_of source_ids (item_source it) of None \<Rightarrow> [] | Some s \<Rightarrow> s)\<rparr>)"

text \<open>The label that is appended to a scene's name is not ASCII; it is the argument \<open>label\<close>.\<close>

definition copied_scene ::
  "string \<Rightarrow> (string \<times> string) list \<Rightarrow> scene_document \<times> string list \<times> string list \<Rightarrow> scene_document option" where
  "copied_scene label ids sf = (case sf of (s, source_fresh, item_fresh) \<Rightarrow>
     let source_ids = map_from (zip (map src_id (scene_sources s)) source_fresh)
     in (case collect (map (copied_source ids source_ids) (scene_sources s)) of
           None \<Rightarrow> None
         | Some sources \<Rightarrow> Some (s\<lparr>scene_id := the (map_of ids (scene_id s)), scene_revision := 1,
             scene_name := take 119 (scene_name s) @ label, scene_sources := sources,
             scene_items := map (copied_item source_ids) (zip (scene_items s) item_fresh)\<rparr>)))"

definition copyDeviceLayoutToPreview ::
  "string \<Rightarrow> fresh_ids \<Rightarrow> studio_document \<Rightarrow> studio_document \<Rightarrow> copy_error + studio_document" where
  "copyDeviceLayoutToPreview label fresh server device =
     (if studio_scenes device = [] \<or> 64 < length (studio_scenes server) + length (studio_scenes device)
      then Inl TooManyScenesToCopy
      else let ids = map_from (zip (map scene_id (studio_scenes device)) (fresh_scenes fresh))
           in (case collect (map (copied_scene label ids)
                 (zip (studio_scenes device) (zip (fresh_sources fresh) (fresh_items fresh)))) of
                 None \<Rightarrow> Inl MissingNestedScene
               | Some scenes \<Rightarrow> Inr (server\<lparr>studio_scenes := studio_scenes server @ scenes,
                   previewSceneId := (case map_of ids (previewSceneId device) of Some i \<Rightarrow> i
                     | None \<Rightarrow> scene_id (hd scenes))\<rparr>)))"


section \<open>Laws of the compatibility boundary\<close>

lemma normalize_scene_again: "normalizeSceneDocument (normalizeSceneDocument s) = normalizeSceneDocument s"
proof (cases "normalizeSceneDocument s = s")
  case False
  define t where "t = JObj (spread (entries s) [(''schemaVersion'', JInt 5), (''canvas'', canvasDefaults (field s ''canvas''))])"
  from False have t: "normalizeSceneDocument s = t"
    by (auto simp: normalizeSceneDocument_def t_def split: if_splits)
  have "map_of (entries t) ''schemaVersion'' = Some (JInt 5)"
    unfolding t_def entries.simps by (rule map_of_spread2(1)) simp
  then have "field t ''schemaVersion'' = JInt 5" by (simp add: field_def)
  then have "normalizeSceneDocument t = t" by (simp add: normalizeSceneDocument_def isSupportedSceneSchema_def)
  then show ?thesis unfolding t .
qed simp

lemma normalized_scenes_again: "normalized_scenes (normalized_scenes v) = normalized_scenes v"
  by (cases v) (simp_all add: normalized_scenes_def normalize_scene_again)

definition transition_ok :: "jsv \<Rightarrow> bool" where
  "transition_ok t = (field t ''kind'' = transition_kind_of t \<and> field t ''durationMs'' = transition_duration t)"

lemma normalized_transition_ok: "transition_ok (normalized_transition t)"
proof (cases "transition_ok t")
  case True
  then show ?thesis by (simp add: normalized_transition_def transition_ok_def)
next
  case False
  define u where "u = JObj [(''kind'', transition_kind_of t), (''durationMs'', transition_duration t)]"
  from False have u: "normalized_transition t = u" by (auto simp: normalized_transition_def transition_ok_def u_def)
  have k: "field u ''kind'' = transition_kind_of t" "field u ''durationMs'' = transition_duration t"
    by (simp_all add: u_def field_def)
  obtain n where n: "transition_duration t = JInt n" "0 \<le> n" "n \<le> 10000"
  proof (cases "field t ''durationMs''")
    case (JNum x)
    then show ?thesis
      using that [of "clamp (trunc_rat (case x of Fin r \<Rightarrow> r | _ \<Rightarrow> 0)) 0 10000"] that [of 0]
      by (cases x) (simp_all add: transition_duration_def)
  qed (use that [of 0] in \<open>simp_all add: transition_duration_def\<close>)
  have "transition_duration u = JInt n"
    using n by (simp add: transition_duration_def k(2) clamp_id)
  moreover have "transition_kind_of u = transition_kind_of t"
    unfolding transition_kind_of_def k(1) by (simp split: if_splits)
  ultimately show ?thesis by (simp add: u transition_ok_def k n)
qed

lemma normalized_transition_id: "transition_ok t \<Longrightarrow> normalized_transition t = t"
  by (simp add: normalized_transition_def transition_ok_def)



section \<open>Laws of the copy\<close>

lemma collect_map: "(\<And>x. x \<in> set xs \<Longrightarrow> f x = Some (g x)) \<Longrightarrow> collect (map f xs) = Some (map g xs)"
  by (induction xs) auto

lemma zip_lookup: "distinct ks \<Longrightarrow> length ks = length vs \<Longrightarrow> map (\<lambda>k. the (map_of (zip ks vs) k)) ks = vs"
  by (auto intro!: nth_equalityI simp: map_of_zip_nth)

lemma zip_defined: "length ks = length vs \<Longrightarrow> k \<in> set ks \<Longrightarrow> \<exists>v. map_of (zip ks vs) k = Some v \<and> v \<in> set vs"
  by (metis map_of_zip_is_Some map_of_SomeD set_zip_rightD)

text \<open>The draws fit the document and are new: what \<open>randomUUID\<close> gives.\<close>

definition draws_ok :: "fresh_ids \<Rightarrow> studio_document \<Rightarrow> studio_document \<Rightarrow> bool" where
  "draws_ok fresh server device =
     (length (fresh_scenes fresh) = length (studio_scenes device)
      \<and> length (fresh_sources fresh) = length (studio_scenes device)
      \<and> length (fresh_items fresh) = length (studio_scenes device)
      \<and> list_all2 (\<lambda>s ids. length ids = length (scene_sources s)) (studio_scenes device) (fresh_sources fresh)
      \<and> list_all2 (\<lambda>s ids. length ids = length (scene_items s)) (studio_scenes device) (fresh_items fresh)
      \<and> distinct (fresh_scenes fresh)
      \<and> set (fresh_scenes fresh) \<inter> set (map scene_id (studio_scenes server)) = {})"

definition device_ok :: "studio_document \<Rightarrow> bool" where
  "device_ok device = (distinct (map scene_id (studio_scenes device))
     \<and> (\<forall>s \<in> set (studio_scenes device). distinct (map src_id (scene_sources s))
          \<and> scene_refs_ok (set (map scene_id (studio_scenes device))) s))"

lemma copied_source_ok:
  assumes "\<forall>n. src_kind s = NestedSource n \<longrightarrow> (\<exists>j. map_of ids n = Some j \<and> j \<in> J)"
  shows "\<exists>t. copied_source ids source_ids s = Some t \<and> src_id t = the (map_of source_ids (src_id s))
     \<and> (\<forall>n. src_kind t = NestedSource n \<longrightarrow> n \<in> J)"
  using assms by (cases "src_kind s") (auto simp: copied_source_def)

lemma copied_scene_ok:
  assumes refs: "scene_refs_ok dom_ids s" and d: "distinct (map src_id (scene_sources s))"
    and ls: "length source_fresh = length (scene_sources s)"
    and ids: "\<And>n. n \<in> dom_ids \<Longrightarrow> \<exists>j. map_of ids n = Some j \<and> j \<in> J"
  shows "\<exists>t. copied_scene label ids (s, source_fresh, item_fresh) = Some t \<and> scene_id t = the (map_of ids (scene_id s))
     \<and> scene_refs_ok J t"
proof -
  define sids where "sids = zip (map src_id (scene_sources s)) source_fresh"
  have sids: "map_from sids = sids" unfolding sids_def by (rule map_from_distinct) (simp add: d ls)
  define g where "g = (\<lambda>x. the (copied_source ids sids x))"
  have each: "copied_source ids sids x = Some (g x) \<and> src_id (g x) = the (map_of sids (src_id x))
      \<and> (\<forall>n. src_kind (g x) = NestedSource n \<longrightarrow> n \<in> J)" if x: "x \<in> set (scene_sources s)" for x
  proof -
    have "\<forall>n. src_kind x = NestedSource n \<longrightarrow> (\<exists>j. map_of ids n = Some j \<and> j \<in> J)"
      using refs x ids unfolding scene_refs_ok_def by blast
    from copied_source_ok [OF this, of sids] show ?thesis by (auto simp: g_def)
  qed
  have c: "collect (map (copied_source ids sids) (scene_sources s)) = Some (map g (scene_sources s))"
    by (rule collect_map) (use each in blast)
  have src_ids: "map src_id (map g (scene_sources s)) = source_fresh"
  proof -
    have "map src_id (map g (scene_sources s)) = map (\<lambda>k. the (map_of sids k)) (map src_id (scene_sources s))"
      using each by simp
    also have "\<dots> = source_fresh" unfolding sids_def by (rule zip_lookup) (simp_all add: d ls)
    finally show ?thesis .
  qed
  let ?t = "s\<lparr>scene_id := the (map_of ids (scene_id s)), scene_revision := 1,
             scene_name := take 119 (scene_name s) @ label, scene_sources := map g (scene_sources s),
             scene_items := map (copied_item sids) (zip (scene_items s) item_fresh)\<rparr>"
  have t: "copied_scene label ids (s, source_fresh, item_fresh) = Some ?t"
    by (simp add: copied_scene_def Let_def c sids flip: sids_def)
  have "item_source i \<in> src_id ` set (scene_sources ?t)" if i: "i \<in> set (scene_items ?t)" for i
  proof -
    from i obtain it f where it: "it \<in> set (scene_items s)" and i2: "i = copied_item sids (it, f)"
      by (auto dest: set_zip_leftD)
    from refs it have "item_source it \<in> set (map src_id (scene_sources s))" by (auto simp: scene_refs_ok_def)
    from zip_defined [OF _ this, of source_fresh] ls obtain v where "map_of sids (item_source it) = Some v" "v \<in> set source_fresh"
      by (auto simp: sids_def)
    then have "item_source i \<in> set source_fresh" by (simp add: i2 copied_item_def)
    then show ?thesis unfolding src_ids [symmetric] by (simp add: image_image)
  qed
  moreover have "n \<in> J" if "x \<in> set (scene_sources ?t)" "src_kind x = NestedSource n" for x n
    using that each by auto
  ultimately have "scene_refs_ok J ?t" unfolding scene_refs_ok_def by blast
  with t show ?thesis by auto
qed

text \<open>Copying a device layout into the preview keeps both graphs intact: with new identifiers the
  copy succeeds, the server's scenes and its program scene stay as they are, every copied scene has
  an identifier of its own, all its items and nested sources point into the copy, and the preview is
  a copied scene.\<close>

theorem device_copy_keeps_graphs:
  assumes "device_ok device" and "draws_ok fresh server device"
    and "studio_scenes device \<noteq> []" and "length (studio_scenes server) + length (studio_scenes device) \<le> 64"
  shows "\<exists>out copied. copyDeviceLayoutToPreview label fresh server device = Inr out
    \<and> studio_scenes out = studio_scenes server @ copied \<and> programSceneId out = programSceneId server
    \<and> map scene_id copied = fresh_scenes fresh \<and> distinct (map scene_id copied)
    \<and> list_all (scene_refs_ok (set (map scene_id copied))) copied
    \<and> previewSceneId out \<in> set (map scene_id copied)"
proof -
  let ?D = "studio_scenes device"
  define ids where "ids = zip (map scene_id ?D) (fresh_scenes fresh)"
  define xs where "xs = zip ?D (zip (fresh_sources fresh) (fresh_items fresh))"
  define g where "g = (\<lambda>x. the (copied_scene label ids x))"
  have ids: "map_from ids = ids" unfolding ids_def
    by (rule map_from_distinct) (use assms(1,2) in \<open>simp add: device_ok_def draws_ok_def\<close>)
  have len: "length (map scene_id ?D) = length (fresh_scenes fresh)" using assms(2) by (simp add: draws_ok_def)
  have def: "\<exists>j. map_of ids n = Some j \<and> j \<in> set (fresh_scenes fresh)" if "n \<in> set (map scene_id ?D)" for n
    unfolding ids_def by (rule zip_defined [OF len that])
  have each: "copied_scene label ids x = Some (g x) \<and> scene_id (g x) = the (map_of ids (scene_id (fst x)))
      \<and> scene_refs_ok (set (fresh_scenes fresh)) (g x)" if x: "x \<in> set xs" for x
  proof -
    obtain s sf itf where xe: "x = (s, sf, itf)" by (cases x) auto
    from x have s: "s \<in> set ?D" unfolding xe xs_def by (rule set_zip_leftD)
    from x obtain k where k: "k < length xs" "xs ! k = (s, sf, itf)" unfolding xe by (metis in_set_conv_nth)
    then have "s = ?D ! k" "sf = fresh_sources fresh ! k" "k < length ?D" "k < length (fresh_sources fresh)" by (auto simp: xs_def)
    moreover have "list_all2 (\<lambda>s ids. length ids = length (scene_sources s)) ?D (fresh_sources fresh)"
      using assms(2) by (simp add: draws_ok_def)
    ultimately have "length sf = length (scene_sources s)" using list_all2_nthD by blast
    moreover have "scene_refs_ok (set (map scene_id ?D)) s" "distinct (map src_id (scene_sources s))"
      using assms(1) s unfolding device_ok_def by blast+
    ultimately obtain t where "copied_scene label ids (s, sf, itf) = Some t" "scene_id t = the (map_of ids (scene_id s))"
      "scene_refs_ok (set (fresh_scenes fresh)) t"
      using copied_scene_ok [of "set (map scene_id ?D)" s sf ids "set (fresh_scenes fresh)" label itf] def by blast
    then show ?thesis by (simp add: g_def xe)
  qed
  have c: "collect (map (copied_scene label ids) xs) = Some (map g xs)"
    by (rule collect_map) (use each in blast)
  have fst_xs: "map fst xs = ?D" unfolding xs_def using assms(2) by (simp add: draws_ok_def)
  have sid: "map scene_id (map g xs) = fresh_scenes fresh"
  proof -
    have "map scene_id (map g xs) = map (\<lambda>k. the (map_of ids k)) (map scene_id (map fst xs))" using each by simp
    also have "\<dots> = fresh_scenes fresh"
      unfolding fst_xs ids_def by (rule zip_lookup) (use assms(1,2) in \<open>simp_all add: device_ok_def draws_ok_def\<close>)
    finally show ?thesis .
  qed
  have ne: "map g xs \<noteq> []" using assms(3) fst_xs by auto
  have hd_in: "scene_id (hd (map g xs)) \<in> set (fresh_scenes fresh)" 
    unfolding sid [symmetric] set_map [of scene_id] by (rule imageI [OF hd_in_set [OF ne]])
  let ?out = "server\<lparr>studio_scenes := studio_scenes server @ map g xs,
      previewSceneId := (case map_of ids (previewSceneId device) of Some i \<Rightarrow> i | None \<Rightarrow> scene_id (hd (map g xs)))\<rparr>"
  have out: "copyDeviceLayoutToPreview label fresh server device = Inr ?out"
    using assms(3,4) by (simp add: copyDeviceLayoutToPreview_def Let_def ids c flip: ids_def xs_def)
  show ?thesis
  proof (intro exI conjI)
    show "copyDeviceLayoutToPreview label fresh server device = Inr ?out" by (rule out)
    show "map scene_id (map g xs) = fresh_scenes fresh" by (rule sid)
    show "distinct (map scene_id (map g xs))" unfolding sid using assms(2) by (simp add: draws_ok_def)
    show "list_all (scene_refs_ok (set (map scene_id (map g xs)))) (map g xs)"
      unfolding sid using each by (auto simp: list_all_iff)
    show "previewSceneId ?out \<in> set (map scene_id (map g xs))"
      unfolding sid using hd_in by (auto simp: ids_def split: option.splits dest!: map_of_SomeD set_zip_rightD)
  qed simp_all
qed

definition demo_device :: studio_document where
  "demo_device = \<lparr>studio_schema = 1, studio_revision = 1, programSceneId = ''s1'', previewSceneId = ''s2'',
     transition_of = Cut, transition_ms = 0,
     studio_scenes = [plain_scene ''s1'' [plain_source ''a'' (NestedSource ''s2'')] [plain_item ''i'' ''a''],
        plain_scene ''s2'' [plain_source ''b'' (ColorSource ''#102030'')] [plain_item ''j'' ''b'']]\<rparr>"

definition demo_server :: studio_document where
  "demo_server = demo_device\<lparr>studio_scenes := [plain_scene ''s1'' [] []]\<rparr>"

definition demo_draws :: fresh_ids where
  "demo_draws = \<lparr>fresh_scenes = [''n1'', ''n2''], fresh_sources = [[''p''], [''q'']], fresh_items = [[''x''], [''y'']]\<rparr>"

theorem device_copy_keeps_graphs_witness:
  "\<exists>out. copyDeviceLayoutToPreview [] demo_draws demo_server demo_device = Inr out \<and> previewSceneId out \<in> {''n1'', ''n2''}"
proof -
  have d: "device_ok demo_device"
    by (simp add: device_ok_def demo_device_def plain_scene_def plain_source_def plain_item_def scene_refs_ok_def)
  have f: "draws_ok demo_draws demo_server demo_device"
    by (simp add: draws_ok_def demo_draws_def demo_server_def demo_device_def plain_scene_def)
  have n: "studio_scenes demo_device \<noteq> []" "length (studio_scenes demo_server) + length (studio_scenes demo_device) \<le> 64"
    by (simp_all add: demo_server_def demo_device_def)
  obtain out and copied :: "scene_document list" where o': "copyDeviceLayoutToPreview [] demo_draws demo_server demo_device = Inr out"
    and p: "map scene_id copied = fresh_scenes demo_draws" "previewSceneId out \<in> set (map scene_id copied)"
    using device_copy_keeps_graphs [OF d f n, of "[]"] by (elim exE conjE) (rule that, assumption+)
  from p(2) have "previewSceneId out \<in> {''n1'', ''n2''}" unfolding p(1) by (simp add: demo_draws_def)
  with o' show ?thesis by (intro exI conjI)
qed

end
