(* ===== verification/LocalConfig.thy ===== *)
theory LocalConfig
  imports LocalStore StudioCompat
begin

text \<open>
  Account preferences and local configuration profiles (\<open>localRuntime.ts\<close>): the workspace layout,
  profiles, backups and bundles.  A browser is its private store, the account preferences that
  \<open>localStorage\<close> marks as migrated, and the replies the account service will give, in order; when no
  reply is left the service cannot be reached.  Preferences of unknown origin are \<open>jsv\<close> values.
\<close>

section \<open>The account service\<close>

datatype http_reply = Unreachable | Reply nat "jsv option"

datatype pref_kind = MonitorViewPref | WorkspaceLayoutPref | ConfigProfilesPref | ActiveProfilePref

record browser =
  bs_store :: local_store
  bs_migrated :: "pref_kind list"
  bs_net :: "http_reply list"

record config_env =
  env_num :: "rat \<Rightarrow> string"
  env_now :: int
  env_forever :: int

definition next_reply :: "browser \<Rightarrow> http_reply \<times> browser" where
  "next_reply w = (case bs_net w of [] \<Rightarrow> (Unreachable, w) | r # rs \<Rightarrow> (r, w\<lparr>bs_net := rs\<rparr>))"

definition ok_status :: "nat \<Rightarrow> bool" where
  "ok_status s = (200 \<le> s \<and> s < 300)"

text \<open>\<open>undefined\<close> (not read), \<open>null\<close> (nothing stored) or a value.\<close>

datatype remote_pref = RemoteUnknown | RemoteNull | RemoteValue jsv

fun remote_of :: "http_reply \<Rightarrow> remote_pref" where
  "remote_of (Reply s (Some body)) =
     (if ok_status s \<and> \<not> nullish body
      then (case field body ''value'' of JUndef \<Rightarrow> RemoteUnknown | JNull \<Rightarrow> RemoteNull | v \<Rightarrow> RemoteValue v)
      else RemoteUnknown)"
| "remote_of _ = RemoteUnknown"

definition readAccountPreference :: "browser \<Rightarrow> remote_pref \<times> browser" where
  "readAccountPreference w = (case next_reply w of (r, w) \<Rightarrow> (remote_of r, w))"

text \<open>The value that was saved, or \<open>None\<close> when a strict write throws.\<close>

definition writeAccountPreference :: "pref_kind \<Rightarrow> jsv \<Rightarrow> bool \<Rightarrow> browser \<Rightarrow> jsv option \<times> browser" where
  "writeAccountPreference kind v strict w =
     (case next_reply w of
        (Unreachable, w) \<Rightarrow> (if strict then None else Some v, w)
      | (Reply s body, w) \<Rightarrow>
          if ok_status s then
            (let w = w\<lparr>bs_migrated := kind # bs_migrated w\<rparr>
             in case body of
                  None \<Rightarrow> (if strict then None else Some v, w)
                | Some b \<Rightarrow>
                    if nullish b then (if strict then None else Some v, w)
                    else (Some (if is_obj (field b ''value'') then field b ''value'' else v), w))
          else (if strict then None else Some v, w))"

section \<open>Validation\<close>

definition no_control :: "string \<Rightarrow> bool" where
  "no_control s = list_all (\<lambda>c. 32 \<le> code c \<and> code c \<noteq> 127) s"

definition validLocalConfigName :: "jsv \<Rightarrow> bool" where
  "validLocalConfigName v = (case v of JStr s \<Rightarrow> 1 \<le> length (trim s) \<and> length (trim s) \<le> 64 \<and> no_control s | _ \<Rightarrow> False)"

definition validLocalConfigId :: "jsv \<Rightarrow> bool" where
  "validLocalConfigId v = (case v of JStr (c # s) \<Rightarrow> is_alnum c \<and> in_class is_id_char 0 63 s | _ \<Rightarrow> False)"

definition valid_profile_scene :: "jsv \<Rightarrow> bool" where
  "valid_profile_scene s =
     (is_object s \<and> isSupportedSceneSchema (field s ''schemaVersion'') \<and> id_field s
      \<and> (case (field s ''sources'', field s ''items'') of
           (JArr ss, JArr its) \<Rightarrow> length ss \<le> 256 \<and> length its \<le> 512 \<and> list_all (\<lambda>x. is_object x \<and> id_field x) ss
         | _ \<Rightarrow> False))"

definition validateProfileStudio :: "jsv \<Rightarrow> bool" where
  "validateProfileStudio v =
     (is_object v \<and> field v ''schemaVersion'' = JInt 1
      \<and> (case field v ''scenes'' of JArr ss \<Rightarrow> length ss \<le> 64 \<and> list_all valid_profile_scene ss | _ \<Rightarrow> False))"

definition dock_kinds :: "jsv list" where
  "dock_kinds = map JStr [''canvas'', ''scenes'', ''sources'', ''audio'', ''transitions'', ''properties'', ''issues'']"

definition dock_regions :: "jsv list" where
  "dock_regions = map JStr [''left'', ''right'', ''bottom'', ''center'']"

definition valid_dock :: "jsv \<Rightarrow> bool" where
  "valid_dock d =
     (is_object d \<and> id_field d \<and> field d ''kind'' \<in> set dock_kinds \<and> field d ''region'' \<in> set dock_regions
      \<and> as_int (field d ''order'') \<noteq> None
      \<and> (case field d ''size'' of JNum (Fin r) \<Rightarrow> 1 \<le> r \<and> r \<le> 100 | _ \<Rightarrow> False)
      \<and> (case field d ''collapsed'' of JBool _ \<Rightarrow> True | _ \<Rightarrow> False))"

definition validateWorkspaceLayout :: "jsv \<Rightarrow> bool" where
  "validateWorkspaceLayout v =
     (is_object v \<and> field v ''schemaVersion'' = JInt 1 \<and> field v ''style'' \<in> {JStr ''obs'', JStr ''classic''}
      \<and> (case field v ''docks'' of JArr ds \<Rightarrow> length ds \<le> 16 \<and> list_all valid_dock ds | _ \<Rightarrow> False))"

definition validateLocalConfigProfile :: "jsv \<Rightarrow> bool" where
  "validateLocalConfigProfile v =
     (is_object v \<and> field v ''schemaVersion'' = JInt 1 \<and> validLocalConfigId (field v ''id'')
      \<and> validLocalConfigName (field v ''name'') \<and> is_finite_num (field v ''createdAt'') \<and> is_finite_num (field v ''updatedAt'')
      \<and> validateProfileStudio (field v ''studio'')
      \<and> (\<not> truthy (field v ''workspaceLayout'') \<or> validateWorkspaceLayout (field v ''workspaceLayout'')))"

section \<open>Workspace layout\<close>

datatype config_error =
    InvalidProfile | StudioBroken | NotPortable | InvalidLayout | InvalidId | ProfileLimit | ProfileMissing
  | NotExportable | BundleTooLarge | ImportFormat

definition saveWorkspaceLayout :: "config_env \<Rightarrow> jsv \<Rightarrow> browser \<Rightarrow> (config_error + unit) \<times> browser" where
  "saveWorkspaceLayout env layout w =
     (case encrypt (env_num env) id layout (env_now env + LEASE_MS) of
        Inl _ \<Rightarrow> (Inl NotPortable, w)
      | Inr r \<Rightarrow> (Inr (), snd (writeAccountPreference WorkspaceLayoutPref layout False
          (w\<lparr>bs_store := (bs_store w)\<lparr>st_layout := Some r\<rparr>\<rparr>))))"

definition layout_readable :: "jsv \<Rightarrow> bool" where
  "layout_readable v = (field v ''schemaVersion'' = JInt 1 \<and> field v ''style'' \<in> {JStr ''obs'', JStr ''classic''}
     \<and> is_arr (field v ''docks''))"

definition cached_layout :: "config_env \<Rightarrow> browser \<Rightarrow> jsv option" where
  "cached_layout env w = (case load_sealed (env_now env) (st_layout (bs_store w)) of
     None \<Rightarrow> None | Some d \<Rightarrow> if layout_readable d then Some d else None)"

definition loadWorkspaceLayout :: "config_env \<Rightarrow> browser \<Rightarrow> jsv option \<times> browser" where
  "loadWorkspaceLayout env w =
     (case readAccountPreference w of (remote, w) \<Rightarrow>
        (case remote of
           RemoteValue v \<Rightarrow> (if truthy v then Some v else cached_layout env w, w)
         | RemoteUnknown \<Rightarrow> (cached_layout env w, w)
         | RemoteNull \<Rightarrow>
             if WorkspaceLayoutPref \<in> set (bs_migrated w) then (None, w)
             else (case cached_layout env w of
                     None \<Rightarrow> (None, w)
                   | Some d \<Rightarrow> (Some d, snd (writeAccountPreference WorkspaceLayoutPref d False w)))))"

section \<open>Profiles\<close>

definition MAX_PROFILES :: nat where "MAX_PROFILES = 32"
definition MAX_BACKUPS :: nat where "MAX_BACKUPS = 20"

definition put_profiles :: "config_env \<Rightarrow> jsv list \<Rightarrow> browser \<Rightarrow> browser option" where
  "put_profiles env ps w = (case encrypt (env_num env) JArr ps (env_forever env) of
     Inl _ \<Rightarrow> None | Inr r \<Rightarrow> Some (w\<lparr>bs_store := (bs_store w)\<lparr>st_profiles := Some r\<rparr>\<rparr>))"

definition num_field :: "jsv \<Rightarrow> string \<Rightarrow> rat" where
  "num_field v k = (case field v k of JNum (Fin r) \<Rightarrow> r | _ \<Rightarrow> 0)"

definition newest_first :: "string \<Rightarrow> jsv list \<Rightarrow> jsv list" where
  "newest_first k vs = sort_key (\<lambda>v. - num_field v k) vs"

definition profiles_value :: "jsv list \<Rightarrow> jsv" where
  "profiles_value ps = JObj [(''profiles'', JArr ps)]"

definition stored_list :: "config_env \<Rightarrow> jsv list sealed option \<Rightarrow> jsv list" where
  "stored_list env r = (case load_sealed (env_now env) r of None \<Rightarrow> [] | Some vs \<Rightarrow> vs)"

definition local_profiles :: "config_env \<Rightarrow> browser \<Rightarrow> jsv list" where
  "local_profiles env w =
     newest_first ''updatedAt'' (filter validateLocalConfigProfile (stored_list env (st_profiles (bs_store w))))"

definition listLocalConfigProfiles :: "config_env \<Rightarrow> browser \<Rightarrow> (config_error + jsv list) \<times> browser" where
  "listLocalConfigProfiles env w =
     (case readAccountPreference w of (remote, w) \<Rightarrow>
        (case remote of
           RemoteValue v \<Rightarrow>
             (case field v ''profiles'' of
                JArr ps \<Rightarrow>
                  let profiles = newest_first ''updatedAt'' (filter validateLocalConfigProfile ps)
                  in (case put_profiles env profiles w of None \<Rightarrow> (Inl NotPortable, w) | Some w \<Rightarrow> (Inr profiles, w))
              | _ \<Rightarrow> (Inr (local_profiles env w), w))
         | RemoteUnknown \<Rightarrow> (Inr (local_profiles env w), w)
         | RemoteNull \<Rightarrow>
             if ConfigProfilesPref \<in> set (bs_migrated w) then (Inr [], w)
             else let valid = local_profiles env w
                  in (Inr valid, if valid = [] then w
                        else snd (writeAccountPreference ConfigProfilesPref (profiles_value valid) False w))))"

definition hasLocalConfigProfiles :: "config_env \<Rightarrow> browser \<Rightarrow> (config_error + bool) \<times> browser" where
  "hasLocalConfigProfiles env w = (case listLocalConfigProfiles env w of (r, w) \<Rightarrow> (map_sum id (\<lambda>ps. ps \<noteq> []) r, w))"

definition has_id :: "string \<Rightarrow> jsv \<Rightarrow> bool" where
  "has_id i p = (field p ''id'' = JStr i)"

definition new_profile :: "config_env \<Rightarrow> string \<Rightarrow> string \<Rightarrow> jsv option \<Rightarrow> jsv \<Rightarrow> jsv option \<Rightarrow> jsv" where
  "new_profile env i name existing studio layout = JObj ([(''schemaVersion'', JInt 1), (''id'', JStr i), (''name'', JStr name),
     (''createdAt'', (case existing of None \<Rightarrow> JInt (env_now env) | Some p \<Rightarrow> or_else (field p ''createdAt'') (JInt (env_now env)))),
     (''updatedAt'', JInt (env_now env)), (''studio'', studio)]
     @ (case layout of None \<Rightarrow> [] | Some l \<Rightarrow> if truthy l then [(''workspaceLayout'', l)] else []))"

text \<open>The studio that a profile stores: migrated, validated, redacted and checked.\<close>

definition portable_studio :: "config_env \<Rightarrow> jsv \<Rightarrow> config_error + jsv" where
  "portable_studio env studio =
     (let normalized = normalizeStudioDocument studio
      in if \<not> validateProfileStudio normalized then Inl InvalidProfile
         else case redactedStudio normalized of
                None \<Rightarrow> Inl StudioBroken
              | Some r \<Rightarrow> if assertRedacted (env_num env) r then Inr r else Inl NotPortable)"

definition usable_layout :: "jsv option \<Rightarrow> bool" where
  "usable_layout l = (case l of None \<Rightarrow> True | Some v \<Rightarrow> \<not> truthy v \<or> validateWorkspaceLayout v)"

definition given_or_loaded :: "config_env \<Rightarrow> jsv option \<Rightarrow> browser \<Rightarrow> jsv option \<times> browser" where
  "given_or_loaded env layout w = (case layout of Some l \<Rightarrow> (Some l, w) | None \<Rightarrow> loadWorkspaceLayout env w)"

definition store_profile ::
  "config_env \<Rightarrow> string \<Rightarrow> jsv \<Rightarrow> string option \<Rightarrow> jsv option \<Rightarrow> string \<Rightarrow> jsv list \<Rightarrow> browser
   \<Rightarrow> (config_error + jsv) \<times> browser" where
  "store_profile env name studio i layout fresh profiles w =
     (let existing = (case i of None \<Rightarrow> None | Some k \<Rightarrow> if k = [] then None else find (has_id k) profiles);
          profileId = (case i of None \<Rightarrow> fresh | Some k \<Rightarrow> k)
      in if \<not> validLocalConfigId (JStr profileId) then (Inl InvalidId, w)
         else if existing = None \<and> MAX_PROFILES \<le> length profiles then (Inl ProfileLimit, w)
         else let profile = new_profile env profileId name existing studio layout;
                  next = filter (\<lambda>p. \<not> has_id profileId p) profiles @ [profile]
              in (case put_profiles env next w of
                    None \<Rightarrow> (Inl NotPortable, w)
                  | Some w \<Rightarrow> (Inr profile, snd (writeAccountPreference ConfigProfilesPref (profiles_value next) False w))))"

text \<open>\<open>i\<close> is the identifier asked for, \<open>fresh\<close> the one \<open>localId\<close> would make.\<close>

definition saveLocalConfigProfile ::
  "config_env \<Rightarrow> string \<Rightarrow> jsv \<Rightarrow> string option \<Rightarrow> jsv option \<Rightarrow> string \<Rightarrow> browser \<Rightarrow> (config_error + jsv) \<times> browser" where
  "saveLocalConfigProfile env name studio i layout fresh w =
     (if \<not> validLocalConfigName (JStr (trim name)) then (Inl InvalidProfile, w)
      else case portable_studio env studio of
        Inl e \<Rightarrow> (Inl e, w)
      | Inr safe \<Rightarrow>
          (case given_or_loaded env layout w of (lay, w) \<Rightarrow>
             if \<not> usable_layout lay then (Inl InvalidLayout, w)
             else (case listLocalConfigProfiles env w of
                     (Inl e, w) \<Rightarrow> (Inl e, w)
                   | (Inr profiles, w) \<Rightarrow> store_profile env (trim name) safe i lay fresh profiles w)))"


definition drop_active :: "browser \<Rightarrow> browser" where
  "drop_active w = w\<lparr>bs_store := (bs_store w)\<lparr>st_active := None\<rparr>\<rparr>"

definition active_value :: "string option \<Rightarrow> jsv" where
  "active_value i = JObj [(''id'', (case i of None \<Rightarrow> JNull | Some k \<Rightarrow> JStr k))]"

definition setActiveLocalConfigProfile :: "config_env \<Rightarrow> string option \<Rightarrow> browser \<Rightarrow> (config_error + unit) \<times> browser" where
  "setActiveLocalConfigProfile env i w =
     (case i of
        None \<Rightarrow> (Inr (), snd (writeAccountPreference ActiveProfilePref (active_value None) False (drop_active w)))
      | Some k \<Rightarrow>
          (case listLocalConfigProfiles env w of
             (Inl e, w) \<Rightarrow> (Inl e, w)
           | (Inr profiles, w) \<Rightarrow>
               if find (has_id k) profiles = None then (Inl ProfileMissing, w)
               else (case encrypt (env_num env) js_active k (env_forever env) of
                  Inl _ \<Rightarrow> (Inl NotPortable, w)
                | Inr r \<Rightarrow> (Inr (), snd (writeAccountPreference ActiveProfilePref (active_value (Some k)) False
                     (w\<lparr>bs_store := (bs_store w)\<lparr>st_active := Some r\<rparr>\<rparr>))))))"

text \<open>The local marker is read without its expiry here; one that cannot be opened is removed.\<close>

definition local_active :: "browser \<Rightarrow> string option \<times> browser" where
  "local_active w = (case st_active (bs_store w) of
     None \<Rightarrow> (None, w)
   | Some r \<Rightarrow> (case content r of None \<Rightarrow> (None, drop_active w) | Some k \<Rightarrow> (Some k, w)))"

definition remote_active :: "remote_pref \<Rightarrow> jsv option" where
  "remote_active r = (case r of RemoteValue v \<Rightarrow> if truthy v then Some (field v ''id'') else None | _ \<Rightarrow> None)"

definition release_active :: "config_env \<Rightarrow> string \<Rightarrow> browser \<Rightarrow> (config_error + unit) \<times> browser" where
  "release_active env k w =
     (case readAccountPreference w of (remote, w) \<Rightarrow>
      (case local_active w of (local, w) \<Rightarrow>
        if remote_active remote = Some (JStr k) \<or> (remote_active remote = None \<and> local = Some k)
        then setActiveLocalConfigProfile env None w
        else (Inr (), if local = Some k then drop_active w else w)))"

definition deleteLocalConfigProfile :: "config_env \<Rightarrow> string \<Rightarrow> browser \<Rightarrow> (config_error + unit) \<times> browser" where
  "deleteLocalConfigProfile env k w =
     (if \<not> validLocalConfigId (JStr k) then (Inl InvalidId, w)
      else case listLocalConfigProfiles env w of
        (Inl e, w) \<Rightarrow> (Inl e, w)
      | (Inr profiles, w) \<Rightarrow>
          let next = filter (\<lambda>p. \<not> has_id k p) profiles
          in if length next = length profiles then (Inr (), w)
             else (case put_profiles env next w of
                     None \<Rightarrow> (Inl NotPortable, w)
                   | Some w \<Rightarrow> release_active env k
                       (snd (writeAccountPreference ConfigProfilesPref (profiles_value next) False w))))"

definition selected_profile :: "jsv \<Rightarrow> jsv list \<Rightarrow> jsv option" where
  "selected_profile i ps = find (\<lambda>p. field p ''id'' = i) ps"

definition load_local_active :: "config_env \<Rightarrow> bool \<Rightarrow> browser \<Rightarrow> jsv option \<times> browser" where
  "load_local_active env announce w =
     (case load_sealed (env_now env) (st_active (bs_store w)) of
        None \<Rightarrow> (None, w)
      | Some k \<Rightarrow>
          (case listLocalConfigProfiles env w of
             (Inl _, w) \<Rightarrow> (None, w)
           | (Inr ps, w) \<Rightarrow>
               (case find (has_id k) ps of
                  None \<Rightarrow> (None, w)
                | Some p \<Rightarrow> (Some p, if announce
                    then snd (writeAccountPreference ActiveProfilePref (JObj [(''id'', field p ''id'')]) False w) else w))))"

definition loadActiveLocalConfigProfile :: "config_env \<Rightarrow> browser \<Rightarrow> (config_error + jsv option) \<times> browser" where
  "loadActiveLocalConfigProfile env w =
     (case readAccountPreference w of (remote, w) \<Rightarrow>
        (case remote_active remote of
           Some i \<Rightarrow> (case listLocalConfigProfiles env w of (r, w) \<Rightarrow> (map_sum id (selected_profile i) r, w))
         | None \<Rightarrow>
             if remote = RemoteNull \<and> ActiveProfilePref \<in> set (bs_migrated w) then (Inr None, w)
             else (case load_local_active env (remote = RemoteNull) w of (p, w) \<Rightarrow> (Inr p, w))))"

section \<open>Backups\<close>

definition valid_backup :: "jsv \<Rightarrow> bool" where
  "valid_backup b = (field b ''schemaVersion'' = JInt 1 \<and> validLocalConfigId (field b ''id'')
     \<and> validLocalConfigName (field b ''name'') \<and> validateLocalConfigProfile (field b ''profile''))"

definition listLocalConfigBackups :: "config_env \<Rightarrow> browser \<Rightarrow> jsv list" where
  "listLocalConfigBackups env w =
     newest_first ''createdAt'' (filter valid_backup (stored_list env (st_backups (bs_store w))))"

definition new_backup :: "config_env \<Rightarrow> string \<Rightarrow> jsv \<Rightarrow> jsv" where
  "new_backup env fresh profile = JObj [(''schemaVersion'', JInt 1), (''id'', JStr fresh), (''name'', field profile ''name''),
     (''createdAt'', JInt (env_now env)), (''profile'', profile)]"

definition createLocalConfigBackup ::
  "config_env \<Rightarrow> string \<Rightarrow> jsv \<Rightarrow> string \<Rightarrow> string \<Rightarrow> browser \<Rightarrow> (config_error + jsv) \<times> browser" where
  "createLocalConfigBackup env name studio fresh_profile fresh_backup w =
     (case saveLocalConfigProfile env name studio None None fresh_profile w of
        (Inl e, w) \<Rightarrow> (Inl e, w)
      | (Inr profile, w) \<Rightarrow>
          let backup = new_backup env fresh_backup profile;
              next = take MAX_BACKUPS (backup # listLocalConfigBackups env w)
          in (case encrypt (env_num env) JArr next (env_forever env) of
                Inl _ \<Rightarrow> (Inl NotPortable, w)
              | Inr r \<Rightarrow> (Inr backup, w\<lparr>bs_store := (bs_store w)\<lparr>st_backups := Some r\<rparr>\<rparr>)))"

definition present :: "jsv \<Rightarrow> jsv option" where
  "present v = (if nullish v then None else Some v)"

definition text_of :: "jsv \<Rightarrow> string" where
  "text_of v = (case v of JStr s \<Rightarrow> s | _ \<Rightarrow> [])"

definition restoreLocalConfigBackup ::
  "config_env \<Rightarrow> string \<Rightarrow> string \<Rightarrow> browser \<Rightarrow> (config_error + jsv option) \<times> browser" where
  "restoreLocalConfigBackup env k fresh w =
     (case find (has_id k) (listLocalConfigBackups env w) of
        None \<Rightarrow> (Inr None, w)
      | Some b \<Rightarrow>
          let p = field b ''profile'' in
          (case saveLocalConfigProfile env (text_of (field p ''name'')) (field p ''studio'') (Some (text_of (field p ''id'')))
                  (present (field p ''workspaceLayout'')) fresh w of
             (Inl e, w) \<Rightarrow> (Inl e, w)
           | (Inr profile, w) \<Rightarrow>
               (case setActiveLocalConfigProfile env (Some (text_of (field profile ''id''))) w of
                  (Inl e, w) \<Rightarrow> (Inl e, w) | (Inr (), w) \<Rightarrow> (Inr (Some profile), w))))"

section \<open>Bundles\<close>

definition MAX_BUNDLE_BYTES :: int where "MAX_BUNDLE_BYTES = 2 * 1024 * 1024"

text \<open>\<open>TextEncoder\<close> writes a code unit below 256 in one or two bytes.\<close>

definition utf8_bytes :: "string \<Rightarrow> int" where
  "utf8_bytes s = sum_list (map (\<lambda>c. if code c < 128 then 1 else 2) s)"

definition bundle_of :: "config_env \<Rightarrow> jsv \<Rightarrow> jsv" where
  "bundle_of env profile = JObj [(''format'', JStr ''webobs-local-config-v1''), (''schemaVersion'', JInt 1),
     (''exportedAt'', JInt (env_now env)), (''profile'', profile)]"

definition makeLocalConfigBundle :: "config_env \<Rightarrow> jsv \<Rightarrow> config_error + jsv" where
  "makeLocalConfigBundle env profile =
     (if \<not> validateLocalConfigProfile profile then Inl NotExportable
      else let b = bundle_of env profile
           in if MAX_BUNDLE_BYTES < utf8_bytes (stringify (env_num env) b) then Inl BundleTooLarge
              else if assertRedacted (env_num env) b then Inr b else Inl NotPortable)"

definition makeLocalConfigBundleForStudio ::
  "config_env \<Rightarrow> jsv \<Rightarrow> string \<Rightarrow> jsv option \<Rightarrow> string \<Rightarrow> config_error + jsv" where
  "makeLocalConfigBundleForStudio env studio name layout fresh =
     (if \<not> validateProfileStudio studio \<or> \<not> validLocalConfigName (JStr name) then Inl NotExportable
      else case redactedStudio studio of
             None \<Rightarrow> Inl StudioBroken
           | Some r \<Rightarrow> makeLocalConfigBundle env (new_profile env fresh (trim name) None r layout))"

definition importLocalConfigBundle :: "config_env \<Rightarrow> jsv \<Rightarrow> string \<Rightarrow> browser \<Rightarrow> (config_error + jsv) \<times> browser" where
  "importLocalConfigBundle env v fresh w =
     (if \<not> is_object v \<or> field v ''format'' \<noteq> JStr ''webobs-local-config-v1'' \<or> field v ''schemaVersion'' \<noteq> JInt 1
         \<or> \<not> validateLocalConfigProfile (field v ''profile'')
      then (Inl ImportFormat, w)
      else if \<not> assertRedacted (env_num env) v then (Inl NotPortable, w)
      else let p = field v ''profile'' in
        (case listLocalConfigProfiles env w of
           (Inl e, w) \<Rightarrow> (Inl e, w)
         | (Inr ps, w) \<Rightarrow>
             let i = text_of (field p ''id'');
                 j = (if find (has_id i) ps = None then i else fresh)
             in saveLocalConfigProfile env (text_of (field p ''name'')) (field p ''studio'') (Some j)
                  (present (field p ''workspaceLayout'')) fresh w))"

end
