(* ===== verification/ConfigLaws.thy ===== *)
theory ConfigLaws
  imports LocalConfig
begin

text \<open>
  Laws of the private store over whole sessions, and of profiles and bundles (\<open>localRuntime.ts\<close>):
  nothing secret is ever readable in the store, a saved profile is found again, and an exported
  bundle imports as the same profile.
\<close>

section \<open>The account service leaves the store alone\<close>

lemma next_reply_store [simp]: "next_reply w = (r, w') \<Longrightarrow> bs_store w' = bs_store w"
  by (auto simp: next_reply_def split: list.splits)

lemma read_store: "readAccountPreference w = (r, w') \<Longrightarrow> bs_store w' = bs_store w"
  by (auto simp: readAccountPreference_def split: prod.splits)

lemma write_store [simp]: "bs_store (snd (writeAccountPreference k v strict w)) = bs_store w"
  by (auto simp: writeAccountPreference_def Let_def split: prod.splits http_reply.splits option.splits)

definition browser_clean :: "config_env \<Rightarrow> browser \<Rightarrow> bool" where
  "browser_clean env w = store_clean (env_num env) (bs_store w)"

lemma clean_write [simp]: "browser_clean env (snd (writeAccountPreference k v strict w)) = browser_clean env w"
  by (simp add: browser_clean_def)

lemma clean_read: "readAccountPreference w = (r, w') \<Longrightarrow> browser_clean env w' = browser_clean env w"
  by (simp add: browser_clean_def read_store)

lemma clean_put_profiles: "put_profiles env ps w = Some w' \<Longrightarrow> browser_clean env w \<Longrightarrow> browser_clean env w'"
  by (auto simp: put_profiles_def browser_clean_def store_clean_def split: sum.splits)

lemma clean_drop_active [simp]: "browser_clean env w \<Longrightarrow> browser_clean env (drop_active w)"
  by (simp add: browser_clean_def drop_active_def store_clean_def)

lemmas clean_config = clean_read clean_put_profiles

lemma clean_save_layout: "browser_clean env w \<Longrightarrow> browser_clean env (snd (saveWorkspaceLayout env l w))"
  by (auto simp: saveWorkspaceLayout_def browser_clean_def store_clean_def split: sum.splits)

lemma clean_load_layout: "browser_clean env w \<Longrightarrow> browser_clean env (snd (loadWorkspaceLayout env w))"
  by (auto simp: loadWorkspaceLayout_def clean_config split: prod.splits remote_pref.splits option.splits)

lemma clean_list: "browser_clean env w \<Longrightarrow> browser_clean env (snd (listLocalConfigProfiles env w))"
  by (auto simp: listLocalConfigProfiles_def clean_read Let_def split: prod.splits remote_pref.splits jsv.splits option.splits
      dest: clean_put_profiles)

lemma clean_listed: "listLocalConfigProfiles env w = (r, w') \<Longrightarrow> browser_clean env w \<Longrightarrow> browser_clean env w'"
  using clean_list [of env w] by simp

lemma clean_store_profile: "browser_clean env w \<Longrightarrow> browser_clean env (snd (store_profile env name st i l f ps w))"
  by (auto simp: store_profile_def Let_def split: option.splits dest: clean_put_profiles)

lemma clean_given: "given_or_loaded env l w = (lay, w') \<Longrightarrow> browser_clean env w \<Longrightarrow> browser_clean env w'"
  using clean_load_layout [of env w] by (auto simp: given_or_loaded_def split: option.splits)

lemma clean_save_profile: "browser_clean env w \<Longrightarrow> browser_clean env (snd (saveLocalConfigProfile env name st i l f w))"
  by (auto simp: saveLocalConfigProfile_def split: sum.splits prod.splits
      dest: clean_given clean_listed intro!: clean_store_profile)

lemma clean_set_active: "browser_clean env w \<Longrightarrow> browser_clean env (snd (setActiveLocalConfigProfile env i w))"
proof (cases i)
  case (Some k)
  assume c: "browser_clean env w"
  obtain r w1 where l: "listLocalConfigProfiles env w = (r, w1)" by force
  from clean_listed [OF l c] have "browser_clean env w1" .
  then show ?thesis
    by (auto simp: setActiveLocalConfigProfile_def Some l browser_clean_def store_clean_def split: sum.splits)
qed (simp add: setActiveLocalConfigProfile_def)

lemma clean_release: "browser_clean env w \<Longrightarrow> browser_clean env (snd (release_active env k w))"
  by (auto simp: release_active_def local_active_def clean_read split: prod.splits option.splits intro!: clean_set_active)

lemma clean_delete_profile: "browser_clean env w \<Longrightarrow> browser_clean env (snd (deleteLocalConfigProfile env k w))"
  by (auto simp: deleteLocalConfigProfile_def Let_def split: sum.splits prod.splits option.splits
      dest: clean_listed clean_put_profiles intro!: clean_release)

lemma clean_load_active: "browser_clean env w \<Longrightarrow> browser_clean env (snd (loadActiveLocalConfigProfile env w))"
  by (auto simp: loadActiveLocalConfigProfile_def load_local_active_def clean_read
      split: prod.splits option.splits sum.splits dest: clean_listed)

lemma clean_backup: "browser_clean env w \<Longrightarrow> browser_clean env (snd (createLocalConfigBackup env name st fp fb w))"
proof -
  assume c: "browser_clean env w"
  obtain r w1 where l: "saveLocalConfigProfile env name st None None fp w = (r, w1)" by force
  with clean_save_profile [OF c, of name st None None fp] have "browser_clean env w1" by simp
  then show ?thesis
    by (auto simp: createLocalConfigBackup_def l Let_def browser_clean_def store_clean_def split: sum.splits)
qed

lemma clean_restore: "browser_clean env w \<Longrightarrow> browser_clean env (snd (restoreLocalConfigBackup env k f w))"
proof (cases "find (has_id k) (listLocalConfigBackups env w)")
  case (Some b)
  assume c: "browser_clean env w"
  let ?p = "field b ''profile''"
  obtain r w1 where s: "saveLocalConfigProfile env (text_of (field ?p ''name'')) (field ?p ''studio'')
      (Some (text_of (field ?p ''id''))) (present (field ?p ''workspaceLayout'')) f w = (r, w1)" by force
  with clean_save_profile [OF c] have c1: "browser_clean env w1" by (metis snd_conv)
  show ?thesis
  proof (cases r)
    case (Inl e)
    with c1 show ?thesis by (simp add: restoreLocalConfigBackup_def Some Let_def s)
  next
    case (Inr profile)
    obtain r2 w2 where a: "setActiveLocalConfigProfile env (Some (text_of (field profile ''id''))) w1 = (r2, w2)" by force
    with clean_set_active [OF c1] have "browser_clean env w2" by (metis snd_conv)
    then show ?thesis by (cases r2) (auto simp: restoreLocalConfigBackup_def Some Let_def s Inr a split: unit.split)
  qed
qed (simp add: restoreLocalConfigBackup_def)

lemma clean_import: "browser_clean env w \<Longrightarrow> browser_clean env (snd (importLocalConfigBundle env v f w))"
  by (auto simp: importLocalConfigBundle_def Let_def split: prod.splits sum.splits dest: clean_listed intro!: clean_save_profile)


section \<open>A portable studio stays portable\<close>

lemma map_of_spread1: "map_of (spread m [(j, x)]) k = (if k = j then Some x else map_of m k)"
  by (simp add: spread_def)

lemma map_of_spread2_other: "k \<noteq> i \<Longrightarrow> k \<noteq> j \<Longrightarrow> map_of (spread m [(i, x), (j, y)]) k = map_of m k"
  by (simp add: spread_def)

lemma redacted_scene_keeps:
  assumes "redacted_scene s = Some t"
  shows "field t ''schemaVersion'' = field s ''schemaVersion''" and "field t ''id'' = field s ''id''" and "is_object t"
proof -
  obtain x y where "t = JObj (spread (entries s) [(''sources'', x), (''items'', y)])"
    using assms unfolding redacted_scene_def Let_def
    by (cases "field s ''sources''"; cases "field s ''items''"; simp only: prod.case jsv.case split: if_splits) (auto simp: that)
  then show "field t ''schemaVersion'' = field s ''schemaVersion''" "field t ''id'' = field s ''id''" "is_object t"
    by (simp_all add: field_def map_of_spread2_other is_object_def)
qed

lemma redacted_scene_lists:
  assumes "redacted_scene s = Some t"
  obtains ss its ss' its' where "field s ''sources'' = JArr ss" "field s ''items'' = JArr its"
    "field t ''sources'' = JArr ss'" "field t ''items'' = JArr its'"
    "set ss' \<subseteq> set ss" "length ss' \<le> length ss" "length its' \<le> length its"
proof -
  obtain ss its ids where f: "field s ''sources'' = JArr ss" "field s ''items'' = JArr its"
    and t: "t = JObj (spread (entries s) [(''sources'', JArr (filter keep_source ss)),
       (''items'', JArr (filter (\<lambda>i. set_has ids (field i ''sourceId'')) its))])"
    using assms unfolding redacted_scene_def Let_def
    by (cases "field s ''sources''"; cases "field s ''items''"; simp only: prod.case jsv.case split: if_splits) (auto simp: that)
  have ne: "''sources'' \<noteq> ''items''" by simp
  have "field t ''sources'' = JArr (filter keep_source ss)"
    "field t ''items'' = JArr (filter (\<lambda>i. set_has ids (field i ''sourceId'')) its)"
    unfolding t field_def entries.simps by (simp_all add: map_of_spread2(1) [OF ne] map_of_spread2(2))
  with f show ?thesis by (rule that) (auto simp: length_filter_le)
qed

lemma redacted_scene_valid:
  assumes "redacted_scene s = Some t" and "valid_profile_scene s"
  shows "valid_profile_scene t"
proof -
  note k = redacted_scene_keeps [OF assms(1)]
  from assms(1) obtain ss its ss' its' where f: "field s ''sources'' = JArr ss" "field s ''items'' = JArr its"
    "field t ''sources'' = JArr ss'" "field t ''items'' = JArr its'" "set ss' \<subseteq> set ss" "length ss' \<le> length ss" "length its' \<le> length its"
    by (rule redacted_scene_lists)
  with assms(2) k show ?thesis
    by (auto simp: valid_profile_scene_def id_field_def list_all_iff)
qed

lemma all_scenes_valid: "all_scenes ss = Some rs \<Longrightarrow> list_all valid_profile_scene ss \<Longrightarrow>
  list_all valid_profile_scene rs \<and> length rs = length ss"
  by (induction ss arbitrary: rs) (auto split: option.splits intro: redacted_scene_valid)

lemma valid_scene_normal: "valid_profile_scene s \<Longrightarrow> normalizeSceneDocument s = s"
  by (simp add: valid_profile_scene_def normalizeSceneDocument_def)

lemma normal_studio:
  assumes "transition_ok (field r ''transition'')" and "map_of (entries r) ''transition'' = Some (field r ''transition'')"
    and "map_of (entries r) ''scenes'' = Some (JArr rs)" and "list_all valid_profile_scene rs" and "r = JObj (entries r)"
  shows "normalizeStudioDocument r = r"
proof -
  have f: "field r ''scenes'' = JArr rs" using assms(3) by (simp add: field_def)
  have n: "normalized_scenes (JArr rs) = JArr rs"
    using assms(4) by (auto simp: normalized_scenes_def list_all_iff valid_scene_normal map_idI)
  show ?thesis
    unfolding normalizeStudioDocument_def f n normalized_transition_id [OF assms(1)] spread2_same [OF assms(2,3)]
    using assms(5) by simp
qed

lemma portable_again:
  assumes "portable_studio env s = Inr r"
  shows "portable_studio env r = Inr r" and "validateProfileStudio r"
proof -
  let ?n = "normalizeStudioDocument s"
  from assms have v: "validateProfileStudio ?n" and red: "redactedStudio ?n = Some r" and a: "assertRedacted (env_num env) r"
    by (auto simp: portable_studio_def Let_def split: if_splits option.splits)
  from red obtain ss rs where sc: "field ?n ''scenes'' = JArr ss" "all_scenes ss = Some rs"
    and r: "r = JObj (spread (entries ?n) [(''scenes'', JArr rs)])"
    unfolding redactedStudio_def by (cases "field ?n ''scenes''") auto
  from v sc(1) have vs: "list_all valid_profile_scene ss" "length ss \<le> 64" "field ?n ''schemaVersion'' = JInt 1"
    by (simp_all add: validateProfileStudio_def)
  from all_scenes_valid [OF sc(2) vs(1)] have rs: "list_all valid_profile_scene rs" "length rs \<le> 64" using vs(2) by simp_all
  have lookup: "map_of (entries r) k = (if k = ''scenes'' then Some (JArr rs) else map_of (entries ?n) k)" for k
    by (simp add: r map_of_spread1)
  have tr: "map_of (entries ?n) ''transition'' = Some (normalized_transition (field s ''transition''))"
    unfolding normalizeStudioDocument_def entries.simps by (rule map_of_spread2(1)) simp
  have t: "map_of (entries r) ''transition'' = Some (field r ''transition'')" "transition_ok (field r ''transition'')"
    using lookup [of "''transition''"] tr by (simp_all add: field_def normalized_transition_ok)
  have o: "r = JObj (entries r)" by (simp add: r)
  have n: "normalizeStudioDocument r = r"
    by (rule normal_studio [OF t(2) t(1) _ rs(1) o]) (simp add: lookup)
  have "field r ''schemaVersion'' = JInt 1" using vs(3) by (simp add: field_def lookup)
  moreover have "field r ''scenes'' = JArr rs" by (simp add: field_def lookup)
  moreover have "is_object r" by (simp add: r is_object_def)
  ultimately show vr: "validateProfileStudio r" using rs by (simp add: validateProfileStudio_def)
  have "redactedStudio r = Some r" using redacted_studio_portable [OF red] by blast
  with n vr a show "portable_studio env r = Inr r" by (simp add: portable_studio_def)
qed


section \<open>Saved profiles\<close>

lemma profile_fields:
  fixes env i n ex st l
  defines "p \<equiv> new_profile env i n ex st l"
  shows "field p ''schemaVersion'' = JInt 1" and "field p ''id'' = JStr i" and "field p ''name'' = JStr n"
    and "field p ''studio'' = st" and "field p ''updatedAt'' = JInt (env_now env)"
    and "field p ''createdAt'' = (case ex of None \<Rightarrow> JInt (env_now env) | Some q \<Rightarrow> or_else (field q ''createdAt'') (JInt (env_now env)))"
    and "field p ''workspaceLayout'' = (case l of None \<Rightarrow> JUndef | Some v \<Rightarrow> if truthy v then v else JUndef)"
    and "is_object p"
  by (simp_all add: p_def new_profile_def field_def is_object_def split: option.split)

lemma new_profile_valid:
  assumes "validLocalConfigId (JStr i)" and "validLocalConfigName (JStr n)" and "validateProfileStudio st" and "usable_layout l"
    and "\<And>q. ex = Some q \<Longrightarrow> validateLocalConfigProfile q"
  shows "validateLocalConfigProfile (new_profile env i n ex st l)"
proof -
  have c: "is_finite_num (case ex of None \<Rightarrow> JInt (env_now env) | Some q \<Rightarrow> or_else (field q ''createdAt'') (JInt (env_now env)))"
    using assms(5) by (cases ex) (auto simp: or_else_def validateLocalConfigProfile_def)
  have l: "\<not> truthy (field (new_profile env i n ex st l) ''workspaceLayout'')
      \<or> validateWorkspaceLayout (field (new_profile env i n ex st l) ''workspaceLayout'')"
    using assms(4) by (auto simp: profile_fields usable_layout_def split: option.splits)
  show ?thesis
    using assms(1-3) c l by (simp add: validateLocalConfigProfile_def profile_fields)
qed

lemma listed_valid: "listLocalConfigProfiles env w = (Inr ps, w') \<Longrightarrow> \<forall>p \<in> set ps. validateLocalConfigProfile p"
  by (auto simp: listLocalConfigProfiles_def local_profiles_def newest_first_def Let_def
      split: prod.splits remote_pref.splits jsv.splits option.splits if_splits)

lemma list_error: "listLocalConfigProfiles env w = (Inl e, w') \<Longrightarrow> e = NotPortable"
  by (auto simp: listLocalConfigProfiles_def Let_def split: prod.splits remote_pref.splits jsv.splits option.splits if_splits)

lemma find_member: "find P xs = Some q \<Longrightarrow> q \<in> set xs"
  by (auto simp: find_Some_iff)

lemma store_profile_stored:
  assumes "store_profile env n st i l fresh ps w = (Inr p, w')"
  obtains ex where "p = new_profile env (case i of None \<Rightarrow> fresh | Some k \<Rightarrow> k) n ex st l"
    and "validLocalConfigId (JStr (case i of None \<Rightarrow> fresh | Some k \<Rightarrow> k))"
    and "ex = None \<or> (\<exists>q \<in> set ps. ex = Some q)"
    and "st_profiles (bs_store w') = Some \<lparr>content = Some (filter (\<lambda>q. \<not> has_id (case i of None \<Rightarrow> fresh | Some k \<Rightarrow> k) q) ps @ [p]),
           sealed_until = env_forever env\<rparr>"
proof -
  let ?i = "case i of None \<Rightarrow> fresh | Some k \<Rightarrow> k"
  let ?ex = "case i of None \<Rightarrow> None | Some k \<Rightarrow> if k = [] then None else find (has_id k) ps"
  from assms have id: "validLocalConfigId (JStr ?i)" by (simp add: store_profile_def Let_def split: if_splits)
  from assms obtain w1 where p: "p = new_profile env ?i n ?ex st l"
    and w1: "put_profiles env (filter (\<lambda>q. \<not> has_id ?i q) ps @ [p]) w = Some w1"
    and w': "bs_store w' = bs_store w1"
    by (auto simp: store_profile_def Let_def split: if_splits option.splits)
  from w1 have "st_profiles (bs_store w1) = Some \<lparr>content = Some (filter (\<lambda>q. \<not> has_id ?i q) ps @ [p]), sealed_until = env_forever env\<rparr>"
    by (auto simp: put_profiles_def encrypt_def split: sum.splits if_splits)
  moreover have "?ex = None \<or> (\<exists>q \<in> set ps. ?ex = Some q)"
    by (cases i; cases "find (has_id (the i)) ps") (auto dest: find_member)
  ultimately show ?thesis using that [OF p id] w' by simp
qed

text \<open>A saved profile is found again: whatever the account service answers, after a successful save
  the local list holds exactly one profile with its identifier, the saved one, whose studio is the
  redacted and migrated one that was given and stays the same when it is saved again.\<close>

theorem saved_profile_found:
  assumes "saveLocalConfigProfile env name studio i layout fresh w = (Inr p, w')" and "env_now env < env_forever env"
  shows "filter (\<lambda>q. field q ''id'' = field p ''id'') (local_profiles env w') = [p]
    \<and> field p ''name'' = JStr (trim name)
    \<and> portable_studio env studio = Inr (field p ''studio'')
    \<and> portable_studio env (field p ''studio'') = Inr (field p ''studio'')"
proof -
  from assms(1) obtain safe lay w1 ps w2 where n: "validLocalConfigName (JStr (trim name))"
    and safe: "portable_studio env studio = Inr safe" and lay: "usable_layout lay"
    and ps: "listLocalConfigProfiles env w1 = (Inr ps, w2)"
    and st: "store_profile env (trim name) safe i lay fresh ps w2 = (Inr p, w')"
    by (auto simp: saveLocalConfigProfile_def split: if_splits sum.splits prod.splits)
  let ?i = "case i of None \<Rightarrow> fresh | Some k \<Rightarrow> k"
  from store_profile_stored [OF st] obtain ex where p: "p = new_profile env ?i (trim name) ex safe lay"
    and id: "validLocalConfigId (JStr ?i)" and ex: "ex = None \<or> (\<exists>q \<in> set ps. ex = Some q)"
    and stored: "st_profiles (bs_store w') = Some \<lparr>content = Some (filter (\<lambda>q. \<not> has_id ?i q) ps @ [p]), sealed_until = env_forever env\<rparr>"
    by blast
  have pid: "field p ''id'' = JStr ?i" by (simp add: p profile_fields)
  have v: "validateLocalConfigProfile p" unfolding p
    by (rule new_profile_valid [OF id n portable_again(2) [OF safe] lay]) (use ex listed_valid [OF ps] in auto)
  have "stored_list env (st_profiles (bs_store w')) = filter (\<lambda>q. \<not> has_id ?i q) ps @ [p]"
    using assms(2) by (simp add: stored_list_def load_sealed_def stored)
  then have "filter (\<lambda>q. field q ''id'' = field p ''id'') (local_profiles env w')
      = sort_key (\<lambda>v. - num_field v ''updatedAt'') (filter (\<lambda>q. has_id ?i q) (filter validateLocalConfigProfile (filter (\<lambda>q. \<not> has_id ?i q) ps @ [p])))"
    by (simp add: local_profiles_def newest_first_def filter_sort pid has_id_def)
  also have "\<dots> = [p]" using v pid by (simp add: has_id_def filter_empty_conv)
  finally show ?thesis using portable_again(1) [OF safe] safe by (simp add: p profile_fields)
qed


section \<open>Bundles\<close>

lemma trim_trim: "trim (trim s) = trim s"
proof -
  let ?u = "dropWhile is_space s" and ?t = "trim s"
  have r: "rev ?t = dropWhile is_space (rev ?u)" by (simp add: trim_def)
  obtain v where v: "rev ?u = v @ dropWhile is_space (rev ?u)" by (metis takeWhile_dropWhile_id)
  then have pre: "?u = ?t @ rev v" by (metis r rev_append rev_rev_ident)
  have "dropWhile is_space ?t = ?t"
  proof (cases "?t")
    case (Cons a as)
    with pre have "\<not> is_space (hd ?u)" by (metis append_Cons hd_dropWhile list.distinct(1))
    with pre Cons show ?thesis by simp
  qed simp
  then show ?thesis
    unfolding trim_def [of ?t] by (simp add: r) (simp add: trim_def)
qed

lemma portable_num: "env_num e = env_num e' \<Longrightarrow> portable_studio e s = portable_studio e' s"
  by (simp only: portable_studio_def)

lemma truthy_not_nullish: "truthy v \<Longrightarrow> \<not> nullish v"
  by (cases v) auto

lemma bundle_fields:
  "field (bundle_of env p) ''format'' = JStr ''webobs-local-config-v1''" "field (bundle_of env p) ''schemaVersion'' = JInt 1"
  "field (bundle_of env p) ''profile'' = p" "is_object (bundle_of env p)"
  by (simp_all add: bundle_of_def field_def is_object_def)

lemma offline_list:
  "bs_net w = [] \<Longrightarrow> st_profiles (bs_store w) = None \<Longrightarrow> listLocalConfigProfiles env w = (Inr [], w)"
  by (simp add: listLocalConfigProfiles_def readAccountPreference_def next_reply_def local_profiles_def stored_list_def
      load_sealed_def newest_first_def)

lemma offline_layout:
  "bs_net w = [] \<Longrightarrow> st_layout (bs_store w) = None \<Longrightarrow> loadWorkspaceLayout env w = (None, w)"
  by (simp add: loadWorkspaceLayout_def readAccountPreference_def next_reply_def cached_layout_def load_sealed_def)

lemma offline_store:
  assumes "validLocalConfigId (JStr k)" and "assertRedacted (env_num env) (JArr [new_profile env k n None st l])"
  shows "\<exists>w'. store_profile env n st (Some k) l fresh [] w = (Inr (new_profile env k n None st l), w')"
  using assms by (auto simp: store_profile_def Let_def put_profiles_def encrypt_def MAX_PROFILES_def)



section \<open>Concrete instances\<close>

text \<open>A text without an at sign none of whose quoted words is a private key passes the check; this is
  how the concrete documents below are evaluated.\<close>

fun quoted_words :: "string \<Rightarrow> string list" where
  "quoted_words [] = [[]]"
| "quoted_words (c # s) = (if c = CHR 0x22 then [] # quoted_words s
     else (case quoted_words s of [] \<Rightarrow> [[c]] | w # ws \<Rightarrow> (c # w) # ws))"

lemma quoted_words_append: "quoted_words (a @ CHR 0x22 # s) = quoted_words a @ quoted_words s"
proof (induction a)
  case (Cons c a)
  have "quoted_words a \<noteq> []" by (cases a) (auto split: list.splits)
  with Cons show ?case by (auto split: list.splits)
qed simp

lemma quoted_words_plain: "CHR 0x22 \<notin> set k \<Longrightarrow> quoted_words k = [k]"
  by (induction k) auto

definition quiet :: "string \<Rightarrow> bool" where
  "quiet s = (CHR ''@'' \<notin> set s \<and> list_all (\<lambda>w. w \<notin> set private_keys) (quoted_words (map lower_char s)))"

lemma quiet_text:
  assumes "quiet s"
  shows "\<not> private_text s"
proof
  assume "private_text s"
  then obtain a b where s: "s = a @ b" and "credential_at b \<or> private_key_at b"
    unfolding private_text_def anywhere_iff by blast
  then show False
  proof (elim disjE)
    assume "credential_at b"
    then have "CHR ''@'' \<in> set b" unfolding credential_at_iff by (elim exE conjE) simp
    with assms s show False by (simp add: quiet_def)
  next
    assume "private_key_at b"
    then obtain k u v where k: "k \<in> set private_keys" "b = u @ v" "map lower_char u = quoted_key k"
      unfolding private_key_at_def quoted_at_iff list_ex_iff by blast
    have nq: "list_all (\<lambda>k. CHR 0x22 \<notin> set k) private_keys" by code_simp
    with k(1) have "quoted_words k = [k]" by (intro quoted_words_plain) (simp add: list_all_iff)
    moreover have "map lower_char s = map lower_char a @ CHR 0x22 # (k @ CHR 0x22 # map lower_char v)"
      using s k(2,3) by (auto simp: quoted_key_def)
    ultimately have "k \<in> set (quoted_words (map lower_char s))" by (simp add: quoted_words_append)
    with assms k(1) show False by (auto simp: quiet_def list_all_iff)
  qed
qed

definition demo_env :: config_env where
  "demo_env = \<lparr>env_num = (\<lambda>_. ''7''), env_now = 10, env_forever = 20\<rparr>"

definition demo_browser :: browser where
  "demo_browser = \<lparr>bs_store = empty_store, bs_migrated = [], bs_net = []\<rparr>"

definition plain_studio :: jsv where
  "plain_studio = JObj [(''schemaVersion'', JInt 1), (''scenes'', JArr [])]"

definition portable_plain :: jsv where
  "portable_plain = the (redactedStudio (normalizeStudioDocument plain_studio))"

definition plain_profile :: jsv where
  "plain_profile = new_profile demo_env ''p'' ''a'' None portable_plain None"

lemma quiet_redacted: "quiet (stringify num v) \<Longrightarrow> assertRedacted num v"
  unfolding assertRedacted_def by (rule quiet_text)

lemma plain_sealed: "assertRedacted (env_num demo_env) (JArr [plain_profile])"
proof -
  have "quiet (stringify (\<lambda>_. ''7'') (JArr [plain_profile]))" by code_simp
  then show ?thesis by (simp add: quiet_redacted demo_env_def)
qed

lemma redacted_member:
  assumes "assertRedacted num (JArr [JObj es])" and "(k, v) \<in> set es" and "v \<noteq> JUndef"
  shows "assertRedacted num v"
proof (rule ccontr)
  assume "\<not> assertRedacted num v"
  then have p: "private_text (stringify num v)" by (simp add: assertRedacted_def)
  let ?m = "\<lambda>(k, v). quote_str k @ CHR '':'' # stringify num v"
  from private_sub [OF p, of "quote_str k @ '':''" "[]"] have "private_text (?m (k, v))" by simp
  then have "private_text (commas (map ?m (filter (\<lambda>(k, v). v \<noteq> JUndef) es)))"
    by (rule private_in_list) (use assms(2,3) in force)
  from private_sub [OF this, of "''[{''" "''}]''"] assms(1) show False by (simp add: assertRedacted_def)
qed

lemma plain_portable: "portable_studio demo_env plain_studio = Inr portable_plain"
proof -
  obtain es where e: "plain_profile = JObj es" "(''studio'', portable_plain) \<in> set es"
    by (simp add: plain_profile_def new_profile_def)
  have r: "redactedStudio (normalizeStudioDocument plain_studio) = Some portable_plain" by code_simp
  have v: "validateProfileStudio (normalizeStudioDocument plain_studio)" by code_simp
  have "is_obj portable_plain" by code_simp
  then have "portable_plain \<noteq> JUndef" by auto
  from redacted_member [OF plain_sealed [unfolded e(1)] e(2) this] r v show ?thesis by (simp add: portable_studio_def)
qed

lemma plain_saved:
  "\<exists>w'. saveLocalConfigProfile demo_env ''a'' plain_studio (Some ''p'') None [] demo_browser = (Inr plain_profile, w')"
proof -
  have n: "validLocalConfigName (JStr ''a'')" "trim ''a'' = ''a''" "validLocalConfigId (JStr ''p'')" by code_simp+
  have b: "bs_net demo_browser = []" "st_profiles (bs_store demo_browser) = None" "st_layout (bs_store demo_browser) = None"
    by (simp_all add: demo_browser_def empty_store_def)
  have g: "given_or_loaded demo_env None demo_browser = (None, demo_browser)"
    by (simp add: given_or_loaded_def offline_layout [OF b(1,3)])
  have u: "usable_layout None" by (simp add: usable_layout_def)
  have "\<exists>w'. store_profile demo_env ''a'' portable_plain (Some ''p'') None [] [] demo_browser = (Inr plain_profile, w')"
    using offline_store [OF n(3), of demo_env "''a''" portable_plain None "[]" demo_browser] plain_sealed
    by (simp add: plain_profile_def)
  then show ?thesis
    by (simp add: saveLocalConfigProfile_def n plain_portable g u offline_list [OF b(1,2)])
qed

definition demo_bundle_text :: string where
  "demo_bundle_text = ''{\"format\":\"webobs-local-config-v1\",\"schemaVersion\":7,\"exportedAt\":7,\"profile\":{\"schemaVersion\":7,\"id\":\"p\",\"name\":\"a\",\"createdAt\":7,\"updatedAt\":7,\"studio\":{\"schemaVersion\":7,\"scenes\":[],\"transition\":{\"kind\":\"cut\",\"durationMs\":7}}}}''"

lemma demo_bundle_text: "stringify (\<lambda>_. ''7'') (bundle_of demo_env plain_profile) = demo_bundle_text"
  by code_simp

lemma utf8_bytes_le: "utf8_bytes s \<le> 2 * int (length s)"
  by (induction s) (auto simp: utf8_bytes_def)

theorem saved_profile_found_witness:
  "\<exists>w'. saveLocalConfigProfile demo_env ''a'' plain_studio (Some ''p'') None [] demo_browser = (Inr plain_profile, w')
     \<and> filter (\<lambda>q. field q ''id'' = field plain_profile ''id'') (local_profiles demo_env w') = [plain_profile]"
proof -
  obtain w' where w': "saveLocalConfigProfile demo_env ''a'' plain_studio (Some ''p'') None [] demo_browser = (Inr plain_profile, w')"
    using plain_saved by blast
  from saved_profile_found [OF w'] w' show ?thesis by (auto simp: demo_env_def)
qed


end
