(* ===== verification/PreferenceMerge.thy ===== *)
theory PreferenceMerge
  imports ViewNormal SceneJson
begin

text \<open>
  Concurrent edits of the monitor preferences (\<open>monitorPreferenceMerge.ts\<close>): the three-way merge of
  a server acknowledgement with edits made while the save was in flight, and the compaction of a save
  into the changed leaves and the removed paths.  Two values are the same when \<open>JSON.stringify\<close>
  writes the same text; \<open>num\<close> is the decimal form of a number.
\<close>

definition same_json :: "(rat \<Rightarrow> string) \<Rightarrow> jsv \<Rightarrow> jsv \<Rightarrow> bool" where
  "same_json num a b = (stringify num a = stringify num b)"

text \<open>\<open>new Set([...Object.keys(base), ...Object.keys(edited)])\<close>.\<close>

definition both_keys :: "jsv \<Rightarrow> jsv \<Rightarrow> string list" where
  "both_keys b e = uniq (map fst (entries b) @ map fst (entries e))"

section \<open>The three-way merge\<close>

text \<open>One key of \<open>merge\<close>; \<open>sub\<close> merges what is below it.\<close>

definition merge_key ::
  "(rat \<Rightarrow> string) \<Rightarrow> jsv option \<Rightarrow> jsv option \<Rightarrow> (jsv \<Rightarrow> jsv) \<Rightarrow> string \<Rightarrow> (string \<times> jsv) list \<Rightarrow> (string \<times> jsv) list" where
  "merge_key num vb ve sub k m =
     (case ve of
        None \<Rightarrow> erase k m
      | Some x \<Rightarrow>
          (case vb of
             None \<Rightarrow> assign k x m
           | Some y \<Rightarrow>
               if same_json num y x then m
               else if is_obj y \<and> is_obj x then assign k (sub (case map_of m k of None \<Rightarrow> JUndef | Some v \<Rightarrow> v)) m
               else assign k x m))"

function merge_edits :: "(rat \<Rightarrow> string) \<Rightarrow> jsv \<Rightarrow> jsv \<Rightarrow> jsv \<Rightarrow> jsv" where
  "merge_edits num current b e =
     JObj (fold (\<lambda>k m. case map_of (entries e) k of
              None \<Rightarrow> merge_key num (map_of (entries b) k) None id k m
            | Some x \<Rightarrow> merge_key num (map_of (entries b) k) (Some x) (\<lambda>c. merge_edits num c (field b k) x) k m)
        (both_keys b e) (entries (if is_obj current then current else b)))"
  by pat_completeness auto
termination
proof (relation "measure (\<lambda>(num, c, b, e). size e)")
  fix num current b e k m x c
  assume "map_of (entries e) k = Some x"
  then have "size x < size e" by (cases e) (auto dest: field_size)
  then show "((num, c, field b k, x), num, current, b, e) \<in> measure (\<lambda>(num, c, b, e). size e)" by simp
qed auto

definition mergeMonitorEdits :: "(rat \<Rightarrow> string) \<Rightarrow> jsv \<Rightarrow> jsv \<Rightarrow> jsv \<Rightarrow> monitor_view" where
  "mergeMonitorEdits num server submitted latest = normalizeMonitorView (merge_edits num server submitted latest) 16 None"

section \<open>Compaction of a save\<close>

definition changed_keys :: "(rat \<Rightarrow> string) \<Rightarrow> jsv \<Rightarrow> jsv \<Rightarrow> string list" where
  "changed_keys num b e = filter (\<lambda>k. \<not> (case (map_of (entries b) k, map_of (entries e) k) of
      (Some y, Some x) \<Rightarrow> same_json num y x | _ \<Rightarrow> False)) (both_keys b e)"

definition restrict_keys :: "string list \<Rightarrow> jsv \<Rightarrow> jsv" where
  "restrict_keys ks v = JObj (List.map_filter (\<lambda>k. map_option (Pair k) (map_of (entries v) k)) ks)"

definition changed :: "(rat \<Rightarrow> string) \<Rightarrow> jsv \<Rightarrow> jsv \<Rightarrow> jsv \<times> jsv" where
  "changed num b e = (let ks = changed_keys num b e in (restrict_keys ks b, restrict_keys ks e))"

text \<open>A source table is compared source by source.\<close>

definition narrow :: "(rat \<Rightarrow> string) \<Rightarrow> string \<Rightarrow> jsv \<times> jsv \<Rightarrow> jsv \<times> jsv" where
  "narrow num k be = (case be of (b, e) \<Rightarrow>
     if is_obj (field b k) \<and> is_obj (field e k)
     then (case changed num (field b k) (field e k) of (b', e') \<Rightarrow>
             (JObj (assign k b' (entries b)), JObj (assign k e' (entries e))))
     else (b, e))"

definition changed_pair :: "(rat \<Rightarrow> string) \<Rightarrow> jsv \<Rightarrow> jsv \<Rightarrow> jsv \<times> jsv" where
  "changed_pair num b e = narrow num ''sourceDecorations'' (narrow num ''sourceAudio'' (changed num b e))"

text \<open>The changed leaves and the removed paths, in the order the loop meets them.\<close>

definition leaf_key ::
  "(rat \<Rightarrow> string) \<Rightarrow> jsv option \<Rightarrow> jsv option \<Rightarrow> (unit \<Rightarrow> jsv \<times> string list list) \<Rightarrow> string list \<Rightarrow> string
   \<Rightarrow> (string \<times> jsv) list \<times> string list list \<Rightarrow> (string \<times> jsv) list \<times> string list list" where
  "leaf_key num vb ve sub path k acc = (case acc of (result, removed) \<Rightarrow>
     (case ve of
        None \<Rightarrow> (result, removed @ [path @ [k]])
      | Some x \<Rightarrow>
          (case vb of
             None \<Rightarrow> (assign k x result, removed)
           | Some y \<Rightarrow>
               if same_json num y x then (result, removed)
               else if is_obj y \<and> is_obj x then (case sub () of (v, gone) \<Rightarrow> (assign k v result, removed @ gone))
               else (assign k x result, removed))))"

function leaves :: "(rat \<Rightarrow> string) \<Rightarrow> jsv \<Rightarrow> jsv \<Rightarrow> string list \<Rightarrow> jsv \<times> string list list" where
  "leaves num b e path =
     (case fold (\<lambda>k acc. case map_of (entries e) k of
              None \<Rightarrow> leaf_key num (map_of (entries b) k) None (\<lambda>_. (JNull, [])) path k acc
            | Some x \<Rightarrow> leaf_key num (map_of (entries b) k) (Some x) (\<lambda>_. leaves num (field b k) x (path @ [k])) path k acc)
        (both_keys b e) ([], []) of (result, removed) \<Rightarrow> (JObj result, removed))"
  by pat_completeness auto
termination
proof (relation "measure (\<lambda>(num, b, e, path). size e)")
  fix num :: "rat \<Rightarrow> string" and b e path k acc x and u :: unit
  assume "map_of (entries e) k = Some x"
  then have "size x < size e" by (cases e) (auto dest: field_size)
  then show "((num, field b k, x, path @ [k]), num, b, e, path) \<in> measure (\<lambda>(num, b, e, path). size e)" by simp
qed auto

definition compactMonitorPreference :: "(rat \<Rightarrow> string) \<Rightarrow> jsv \<Rightarrow> jsv \<Rightarrow> jsv" where
  "compactMonitorPreference num v baseValue =
     (case changed_pair num baseValue v of (b, e) \<Rightarrow>
      case leaves num b e [] of (value, removed) \<Rightarrow>
        JObj [(''baseValue'', b), (''value'', value), (''partial'', JBool True),
          (''removedPaths'', JArr (map (\<lambda>p. JArr (map JStr p)) removed))])"


section \<open>Laws of the merge\<close>

declare merge_edits.simps [simp del] leaves.simps [simp del]

lemma fold_keys:
  assumes other: "\<And>k s j. j \<noteq> k \<Longrightarrow> look (step k s) j = look s j"
    and own: "\<And>k s. look (step k s) k = g k (look s k)"
  shows "distinct ks \<Longrightarrow> look (fold step ks s) j = (if j \<in> set ks then g j (look s j) else look s j)"
proof (induction ks arbitrary: s)
  case (Cons k ks)
  then show ?case by (cases "j = k") (auto simp: other own)
qed simp

definition merged_value :: "(rat \<Rightarrow> string) \<Rightarrow> jsv option \<Rightarrow> jsv option \<Rightarrow> jsv option \<Rightarrow> jsv option" where
  "merged_value num vc vb ve =
     (case ve of
        None \<Rightarrow> if vb = None then vc else None
      | Some x \<Rightarrow>
          (case vb of
             None \<Rightarrow> Some x
           | Some y \<Rightarrow> if same_json num y x then vc
               else if is_obj y \<and> is_obj x then Some (merge_edits num (case vc of None \<Rightarrow> JUndef | Some c \<Rightarrow> c) y x)
               else Some x))"

lemma both_keys_iff: "k \<in> set (both_keys b e) \<longleftrightarrow> map_of (entries b) k \<noteq> None \<or> map_of (entries e) k \<noteq> None"
  by (auto simp: both_keys_def map_of_eq_None_iff)

lemma is_obj_merge [simp]: "is_obj (merge_edits num c b e)"
  by (simp add: merge_edits.simps)

text \<open>The merge, key by key.\<close>

lemma merge_lookup:
  "map_of (entries (merge_edits num c b e)) k =
     merged_value num (map_of (entries (if is_obj c then c else b)) k) (map_of (entries b) k) (map_of (entries e) k)"
proof -
  define step where "step = (\<lambda>k m. case map_of (entries e) k of
              None \<Rightarrow> merge_key num (map_of (entries b) k) None id k m
            | Some x \<Rightarrow> merge_key num (map_of (entries b) k) (Some x) (\<lambda>c. merge_edits num c (field b k) x) k m)"
  have other: "map_of (step k m) j = map_of m j" if "j \<noteq> k" for k m j
    using that by (auto simp: step_def merge_key_def split: option.splits)
  have own: "map_of (step k m) k = (case map_of (entries e) k of
       None \<Rightarrow> None
     | Some x \<Rightarrow> (case map_of (entries b) k of None \<Rightarrow> Some x
         | Some y \<Rightarrow> if same_json num y x then map_of m k
             else if is_obj y \<and> is_obj x then Some (merge_edits num (case map_of m k of None \<Rightarrow> JUndef | Some c \<Rightarrow> c) y x)
             else Some x))" for k m
    by (auto simp: step_def merge_key_def field_def split: option.splits)
  have d: "distinct (both_keys b e)" by (simp add: both_keys_def)
  have "map_of (entries (merge_edits num c b e)) k = map_of (fold step (both_keys b e) (entries (if is_obj c then c else b))) k"
    by (subst merge_edits.simps) (simp add: step_def)
  also have "\<dots> = (if k \<in> set (both_keys b e) then (case map_of (entries e) k of
       None \<Rightarrow> None
     | Some x \<Rightarrow> (case map_of (entries b) k of None \<Rightarrow> Some x
         | Some y \<Rightarrow> if same_json num y x then map_of (entries (if is_obj c then c else b)) k
             else if is_obj y \<and> is_obj x
               then Some (merge_edits num (case map_of (entries (if is_obj c then c else b)) k of None \<Rightarrow> JUndef | Some c \<Rightarrow> c) y x)
             else Some x)) else map_of (entries (if is_obj c then c else b)) k)"
    by (rule fold_keys [of map_of, OF other own d])
  finally show ?thesis
    by (auto simp: merged_value_def both_keys_iff split: option.splits)
qed

text \<open>A path into a document, what stands there, and whether an edit leaves the path alone.\<close>

fun at_path :: "string list \<Rightarrow> jsv \<Rightarrow> jsv option" where
  "at_path [] v = Some v"
| "at_path (k # ks) v = (if is_obj v then (case map_of (entries v) k of None \<Rightarrow> None | Some x \<Rightarrow> at_path ks x) else None)"

fun untouched :: "(rat \<Rightarrow> string) \<Rightarrow> string list \<Rightarrow> jsv \<Rightarrow> jsv \<Rightarrow> bool" where
  "untouched num [] b e = False"
| "untouched num (k # ks) b e =
     (case (map_of (entries b) k, map_of (entries e) k) of
        (None, None) \<Rightarrow> True
      | (Some y, Some x) \<Rightarrow> same_json num y x \<or> (is_obj y \<and> is_obj x \<and> untouched num ks y x)
      | _ \<Rightarrow> False)"

fun edited_to :: "(rat \<Rightarrow> string) \<Rightarrow> string list \<Rightarrow> jsv \<Rightarrow> jsv \<Rightarrow> jsv option \<Rightarrow> bool" where
  "edited_to num [] b e v = False"
| "edited_to num (k # ks) b e v =
     (case (map_of (entries b) k, map_of (entries e) k) of
        (None, None) \<Rightarrow> False
      | (Some y, None) \<Rightarrow> v = None
      | (None, Some x) \<Rightarrow> ks = [] \<and> v = Some x
      | (Some y, Some x) \<Rightarrow> \<not> same_json num y x
          \<and> (if is_obj y \<and> is_obj x then edited_to num ks y x v else ks = [] \<and> v = Some x))"

fun object_path :: "string list \<Rightarrow> jsv \<Rightarrow> bool" where
  "object_path [] c = True"
| "object_path (k # ks) c = (is_obj c \<and> (case map_of (entries c) k of None \<Rightarrow> ks = [] | Some x \<Rightarrow> ks = [] \<or> object_path ks x))"

lemma merge_untouched:
  "untouched num ks b e \<Longrightarrow> object_path ks c \<Longrightarrow> at_path ks (merge_edits num c b e) = at_path ks c"
proof (induction ks arbitrary: c b e)
  case (Cons k ks)
  from Cons.prems(2) have c: "is_obj c" by simp
  show ?case
  proof (cases "map_of (entries b) k")
    case None
    with Cons.prems(1) have "map_of (entries e) k = None" by (auto split: option.splits)
    with None c show ?thesis by (simp add: merge_lookup merged_value_def)
  next
    case (Some y)
    with Cons.prems(1) obtain x where x: "map_of (entries e) k = Some x"
      and u: "same_json num y x \<or> (is_obj y \<and> is_obj x \<and> untouched num ks y x)" by (auto split: option.splits)
    show ?thesis
    proof (cases "same_json num y x")
      case True
      with c x Some show ?thesis by (simp add: merge_lookup merged_value_def)
    next
      case False
      with u have o: "is_obj y" "is_obj x" "untouched num ks y x" by auto
      then obtain k' ks' where ks: "ks = k' # ks'" by (cases ks) auto
      with Cons.prems(2) obtain d where d: "map_of (entries c) k = Some d" "object_path ks d" by (auto split: option.splits)
      from Cons.IH [OF o(3) d(2)] False c x Some o d(1) show ?thesis by (simp add: merge_lookup merged_value_def)
    qed
  qed
qed simp

lemma merge_edited:
  "edited_to num ks b e v \<Longrightarrow> at_path ks (merge_edits num c b e) = v"
proof (induction ks arbitrary: c b e)
  case (Cons k ks)
  then show ?case
    by (auto simp: merge_lookup merged_value_def split: option.splits if_splits)
qed simp



definition demo_base :: jsv where
  "demo_base = JObj [(''a'', JInt 1), (''b'', JObj [(''x'', JBool True), (''y'', JNull)])]"

definition demo_latest :: jsv where
  "demo_latest = JObj [(''a'', JInt 1), (''b'', JObj [(''x'', JBool False), (''y'', JNull)])]"

definition demo_server_view :: jsv where
  "demo_server_view = JObj [(''a'', JInt 5), (''b'', JObj [(''x'', JBool True), (''y'', JStr [])])]"


section \<open>Laws of the compaction\<close>

fun removed_path :: "(rat \<Rightarrow> string) \<Rightarrow> string list \<Rightarrow> jsv \<Rightarrow> jsv \<Rightarrow> bool" where
  "removed_path num [] b e = False"
| "removed_path num (k # ks) b e =
     (case (map_of (entries b) k, map_of (entries e) k) of
        (Some y, None) \<Rightarrow> ks = []
      | (Some y, Some x) \<Rightarrow> \<not> same_json num y x \<and> is_obj y \<and> is_obj x \<and> removed_path num ks y x
      | _ \<Rightarrow> False)"

definition leaf_step :: "(rat \<Rightarrow> string) \<Rightarrow> jsv \<Rightarrow> jsv \<Rightarrow> string list \<Rightarrow> string
    \<Rightarrow> (string \<times> jsv) list \<times> string list list \<Rightarrow> (string \<times> jsv) list \<times> string list list" where
  "leaf_step num b e path k acc = (case map_of (entries e) k of
       None \<Rightarrow> leaf_key num (map_of (entries b) k) None (\<lambda>_. (JNull, [])) path k acc
     | Some x \<Rightarrow> leaf_key num (map_of (entries b) k) (Some x) (\<lambda>_. leaves num (field b k) x (path @ [k])) path k acc)"

lemma leaves_alt: "leaves num b e path = (case fold (leaf_step num b e path) (both_keys b e) ([], []) of (r, gone) \<Rightarrow> (JObj r, gone))"
  by (subst leaves.simps) (simp add: leaf_step_def [abs_def])

definition leaf_value :: "(rat \<Rightarrow> string) \<Rightarrow> string list \<Rightarrow> jsv option \<Rightarrow> jsv option \<Rightarrow> jsv option" where
  "leaf_value num path vb ve = (case ve of None \<Rightarrow> None | Some x \<Rightarrow> (case vb of None \<Rightarrow> Some x
     | Some y \<Rightarrow> if same_json num y x then None
         else if is_obj y \<and> is_obj x then Some (fst (leaves num y x path)) else Some x))"

lemma leaves_lookup:
  "map_of (entries (fst (leaves num b e path))) k = leaf_value num (path @ [k]) (map_of (entries b) k) (map_of (entries e) k)"
proof -
  let ?look = "\<lambda>acc :: (string \<times> jsv) list \<times> string list list. map_of (fst acc)"
  let ?g = "\<lambda>k old. case map_of (entries e) k of None \<Rightarrow> old | Some x \<Rightarrow> (case map_of (entries b) k of None \<Rightarrow> Some x
     | Some y \<Rightarrow> if same_json num y x then old
         else if is_obj y \<and> is_obj x then Some (fst (leaves num y x (path @ [k]))) else Some x)"
  have other: "?look (leaf_step num b e path k acc) j = ?look acc j" if "j \<noteq> k" for k acc j
    using that by (auto simp: leaf_step_def leaf_key_def split: option.splits prod.splits)
  have own: "?look (leaf_step num b e path k acc) k = ?g k (?look acc k)" for k acc
    by (auto simp: leaf_step_def leaf_key_def field_def split: option.splits prod.splits)
  have d: "distinct (both_keys b e)" by (simp add: both_keys_def)
  have "map_of (entries (fst (leaves num b e path))) k = ?look (fold (leaf_step num b e path) (both_keys b e) ([], [])) k"
    by (simp add: leaves_alt split: prod.splits)
  also have "\<dots> = (if k \<in> set (both_keys b e) then ?g k (?look ([], []) k) else ?look ([], []) k)"
    by (rule fold_keys [of ?look, OF other own d])
  finally show ?thesis by (auto simp: leaf_value_def both_keys_iff split: option.splits)
qed


definition gone_at :: "(rat \<Rightarrow> string) \<Rightarrow> jsv \<Rightarrow> jsv \<Rightarrow> string list \<Rightarrow> string \<Rightarrow> string list list" where
  "gone_at num b e path k = (case map_of (entries e) k of None \<Rightarrow> [path @ [k]]
     | Some x \<Rightarrow> (case map_of (entries b) k of None \<Rightarrow> []
         | Some y \<Rightarrow> if \<not> same_json num y x \<and> is_obj y \<and> is_obj x then snd (leaves num y x (path @ [k])) else []))"

lemma snd_leaf_step: "snd (leaf_step num b e path k acc) = snd acc @ gone_at num b e path k"
  by (auto simp: leaf_step_def leaf_key_def gone_at_def field_def split: option.splits prod.splits)

lemma snd_leaf_fold: "snd (fold (leaf_step num b e path) ks acc) = snd acc @ concat (map (gone_at num b e path) ks)"
  by (induction ks arbitrary: acc) (simp_all add: snd_leaf_step)

lemma snd_leaves: "snd (leaves num b e path) = concat (map (gone_at num b e path) (both_keys b e))"
  using snd_leaf_fold [of num b e path "both_keys b e" "([], [])"] by (auto simp: leaves_alt split: prod.splits)

lemma removed_iff: "p \<in> set (snd (leaves num b e path)) \<longleftrightarrow> (\<exists>q. p = path @ q \<and> removed_path num q b e)"
proof (induction "size e" arbitrary: b e path rule: less_induct)
  case less
  have sub: "p \<in> set (gone_at num b e path k) \<longleftrightarrow> (\<exists>ks. p = path @ k # ks \<and> removed_path num (k # ks) b e)"
    if k: "k \<in> set (both_keys b e)" for k
  proof (cases "map_of (entries e) k")
    case None
    with k obtain y where "map_of (entries b) k = Some y" by (auto simp: both_keys_iff)
    with None show ?thesis by (auto simp: gone_at_def)
  next
    case (Some x)
    then have lt: "size x < size e" by (cases e) (auto dest: field_size)
    show ?thesis
    proof (cases "map_of (entries b) k")
      case None
      with Some show ?thesis by (auto simp: gone_at_def)
    next
      case (Some y)
      with \<open>map_of (entries e) k = Some x\<close> less [OF lt, of y "path @ [k]"] show ?thesis by (auto simp: gone_at_def)
    qed
  qed
  have "p \<in> set (snd (leaves num b e path)) \<longleftrightarrow> (\<exists>k \<in> set (both_keys b e). \<exists>ks. p = path @ k # ks \<and> removed_path num (k # ks) b e)"
    using sub by (auto simp: snd_leaves)
  also have "\<dots> \<longleftrightarrow> (\<exists>q. p = path @ q \<and> removed_path num q b e)"
  proof
    assume "\<exists>q. p = path @ q \<and> removed_path num q b e"
    then obtain q where q: "p = path @ q" "removed_path num q b e" by blast
    then obtain k ks where "q = k # ks" by (cases q) auto
    moreover from this q have "k \<in> set (both_keys b e)" by (auto simp: both_keys_iff split: option.splits)
    ultimately show "\<exists>k \<in> set (both_keys b e). \<exists>ks. p = path @ k # ks \<and> removed_path num (k # ks) b e" using q by blast
  qed auto
  finally show ?case .
qed

lemma edited_sent: "edited_to num ks b e (Some x) \<Longrightarrow> at_path ks (fst (leaves num b e path)) = Some x"
proof (induction ks arbitrary: b e path)
  case (Cons k ks)
  have o: "is_obj (fst (leaves num b e path))" for b e path by (simp add: leaves_alt split: prod.splits)
  from Cons show ?case
    by (auto simp: leaves_lookup leaf_value_def o split: option.splits if_splits)
qed simp

lemma edited_removed: "edited_to num ks b e None \<Longrightarrow> \<exists>n. removed_path num (take n ks) b e"
proof (induction ks arbitrary: b e)
  case (Cons k ks)
  show ?case
  proof (cases "map_of (entries e) k")
    case None
    with Cons.prems have "removed_path num (take 1 (k # ks)) b e" by (auto split: option.splits)
    then show ?thesis by blast
  next
    case (Some x)
    with Cons.prems obtain y where y: "map_of (entries b) k = Some y" "\<not> same_json num y x" "is_obj y" "is_obj x" "edited_to num ks y x None"
      by (auto split: option.splits if_splits)
    from Cons.IH [OF y(5)] obtain n where "removed_path num (take n ks) y x" by blast
    with y Some have "removed_path num (take (Suc n) (k # ks)) b e" by simp
    then show ?thesis by blast
  qed
qed simp

lemma untouched_not_sent:
  "untouched num ks b e \<Longrightarrow> at_path ks (fst (leaves num b e path)) = None \<and> (\<forall>n. \<not> removed_path num (take n ks) b e)"
proof (induction ks arbitrary: b e path)
  case (Cons k ks)
  have o: "is_obj (fst (leaves num b e path))" for b e path by (simp add: leaves_alt split: prod.splits)
  have t: "removed_path num (take n (k # ks)) b e \<Longrightarrow> \<exists>m. removed_path num (k # take m ks) b e" for n
    by (cases n) auto
  from Cons show ?case
    by (auto simp: leaves_lookup leaf_value_def o split: option.splits if_splits dest!: t)
qed simp

text \<open>A save sends exactly the edits: a value the user set is at its path in the compacted document,
  a member the user removed is covered by a removed path, and a path left alone is neither sent nor
  removed, so a save cannot overwrite what another window has changed elsewhere.\<close>

theorem compaction_sends_exactly_the_edits:
  "(\<forall>x. edited_to num ks b e (Some x) \<longrightarrow> at_path ks (fst (leaves num b e [])) = Some x)
   \<and> (edited_to num ks b e None \<longrightarrow> (\<exists>n. take n ks \<in> set (snd (leaves num b e []))))
   \<and> (untouched num ks b e \<longrightarrow> at_path ks (fst (leaves num b e [])) = None
        \<and> (\<forall>n. take n ks \<notin> set (snd (leaves num b e []))))"
  using edited_sent edited_removed untouched_not_sent by (auto simp: removed_iff)

theorem compaction_sends_exactly_the_edits_witness:
  "at_path [''b'', ''x''] (fst (leaves (\<lambda>_. ''1'') demo_base demo_latest [])) = Some (JBool False)
   \<and> at_path [''b'', ''y''] (fst (leaves (\<lambda>_. ''1'') demo_base demo_latest [])) = None"
proof -
  have "edited_to (\<lambda>_. ''1'') [''b'', ''x''] demo_base demo_latest (Some (JBool False))"
    "untouched (\<lambda>_. ''1'') [''b'', ''y''] demo_base demo_latest" by code_simp+
  with compaction_sends_exactly_the_edits [of "\<lambda>_. ''1''" "[''b'', ''x'']" demo_base demo_latest]
    compaction_sends_exactly_the_edits [of "\<lambda>_. ''1''" "[''b'', ''y'']" demo_base demo_latest]
  show ?thesis by simp
qed

end
