(* ===== verification/SyncRun.thy ===== *)
theory SyncRun
  imports LocalStore
begin

text \<open>
  One synchronization run (\<open>syncRuntime.ts\<close>).  The locks let one run at a time touch the store, but
  saves of this and other windows reach the queue while a request is in flight: a flight is the answer
  that comes back together with what happened meanwhile.  A request without a recorded flight, one
  that times out and one that is aborted by the clearing of the account get no answer.  The clock is
  the same during a run; \<open>rank\<close> is the collation order of the document keys.
\<close>

section \<open>The world of a run\<close>

datatype 'r answer = NoAnswer | Answer nat "'r option"

text \<open>What other windows do to the store meanwhile.\<close>

datatype window_event =
    StudioSaved studio_document
  | PreferenceSaved string "(string \<times> jsv) list"
  | AuditRaised "nat list" string audit_outcome string
  | AccountCleared

record 'r flight =
  fl_answer :: "'r answer"
  fl_meanwhile :: "window_event list"

record boot_body =
  bt_contract :: jsv
  bt_revision :: jsv
  bt_policy :: jsv
  bt_reset :: bool
  bt_documents :: "sync_document list option"
  bt_changes :: "sync_document list option"
  bt_client :: "grant_client option"
  bt_grant :: "jsv option"

record sync_world =
  sw_store :: local_store
  sw_boots :: "boot_body flight list"
  sw_syncs :: "sync_response flight list"
  sw_audits :: "unit flight list"

record sync_env =
  sy_num :: "rat \<Rightarrow> string"
  sy_now :: int
  sy_rank :: "string \<Rightarrow> nat"
  sy_crypto :: crypto
  sy_url :: "nat list \<Rightarrow> url option"

datatype run_error = SyncFailed sync_error | StoreFailed store_error | GrantRefused enroll_error | RunAborted

section \<open>The queue in the store\<close>

text \<open>\<open>queueMutations\<close> with its reads and its save, the studio and the queue in one transaction.\<close>

definition queue_in_store ::
  "sync_env \<Rightarrow> sync_mutation list \<Rightarrow> studio_document option \<Rightarrow> local_store \<Rightarrow> (run_error + unit) \<times> local_store" where
  "queue_in_store env ms studio st =
     (case queueMutations ms (map_option (\<lambda>s. map scene_id (studio_scenes s)) studio)
             (loadSyncState (sy_now env) st) (loadSyncQueue (sy_now env) st) of
        Inl e \<Rightarrow> (Inl (SyncFailed e), st)
      | Inr q \<Rightarrow>
          (case (case studio of
                   Some s \<Rightarrow> saveQueuedStudio (sy_num env) (sy_now env) q (js_of_studio s) st
                 | None \<Rightarrow> saveSyncQueue (sy_num env) (sy_now env) (Some q) st) of
             (Inl e, st) \<Rightarrow> (Inl (StoreFailed e), st) | (Inr (), st) \<Rightarrow> (Inr (), st)))"

definition save_studio_in_store :: "sync_env \<Rightarrow> studio_document \<Rightarrow> local_store \<Rightarrow> (run_error + unit) \<times> local_store" where
  "save_studio_in_store env s st =
     (let ms = studio_mutations s (loadSyncState (sy_now env) st)
      in if ms = [] then (Inr (), st) else queue_in_store env ms (Some s) st)"

definition save_preference_in_store ::
  "sync_env \<Rightarrow> string \<Rightarrow> (string \<times> jsv) list \<Rightarrow> local_store \<Rightarrow> (run_error + unit) \<times> local_store" where
  "save_preference_in_store env camera fs st =
     queue_in_store env [\<lparr>mu_kind = CameraPreferenceDoc, mu_id = camera, mu_op = Upsert, mu_fields = fs\<rparr>] None st"

definition acknowledge_in_store ::
  "sync_env \<Rightarrow> sync_mutation list \<Rightarrow> string list \<Rightarrow> int \<Rightarrow> bool \<Rightarrow> local_store \<Rightarrow> (run_error + unit) \<times> local_store" where
  "acknowledge_in_store env submitted accepted revision conflicts st =
     (case loadSyncQueue (sy_now env) st of
        None \<Rightarrow> (Inr (), st)
      | Some q \<Rightarrow>
          (case saveSyncQueue (sy_num env) (sy_now env) (acknowledgeQueue submitted accepted revision conflicts (Some q)) st of
             (Inl e, st) \<Rightarrow> (Inl (StoreFailed e), st) | (Inr (), st) \<Rightarrow> (Inr (), st)))"

definition scene_pending :: "sync_queue option \<Rightarrow> string list" where
  "scene_pending q = map mu_id (filter (\<lambda>m. mu_kind m = SceneDoc) (pending q))"

definition cacheUnqueuedScenes :: "sync_env \<Rightarrow> sync_document list \<Rightarrow> local_store \<Rightarrow> (run_error + unit) \<times> local_store" where
  "cacheUnqueuedScenes env docs st =
     (case cacheSyncedScenes (sy_num env) (sy_now env)
             (filter (\<lambda>d. sd_kind d \<noteq> SceneDoc \<or> sd_id d \<notin> set (scene_pending (loadSyncQueue (sy_now env) st))) docs) st of
        (Inl e, st) \<Rightarrow> (Inl (StoreFailed e), st) | (Inr (), st) \<Rightarrow> (Inr (), st))"

section \<open>Flights\<close>

fun meanwhile :: "sync_env \<Rightarrow> window_event \<Rightarrow> local_store \<Rightarrow> local_store" where
  "meanwhile env (StudioSaved s) st = snd (save_studio_in_store env s st)"
| "meanwhile env (PreferenceSaved c fs) st = snd (save_preference_in_store env c fs st)"
| "meanwhile env (AuditRaised samples t out camera) st =
     (case queueOfflineAudit (sy_num env) (sy_now env) samples t out camera st of None \<Rightarrow> st | Some (_, st) \<Rightarrow> st)"
| "meanwhile env AccountCleared st = clearPrivateRuntimeState st"

definition aborted :: "'r flight \<Rightarrow> bool" where
  "aborted f = (AccountCleared \<in> set (fl_meanwhile f))"

definition lost_flight :: "'r flight" where
  "lost_flight = \<lparr>fl_answer = NoAnswer, fl_meanwhile = []\<rparr>"

definition land :: "sync_env \<Rightarrow> 'r flight \<Rightarrow> local_store \<Rightarrow> (run_error + (nat \<times> 'r option)) \<times> local_store" where
  "land env f st =
     (let st = fold (meanwhile env) (fl_meanwhile f) st
      in if aborted f then (Inl RunAborted, st)
         else (case fl_answer f of NoAnswer \<Rightarrow> (Inl (SyncFailed NetworkLost), st) | Answer s body \<Rightarrow> (Inr (s, body), st)))"

definition checkedJson :: "nat \<times> 'r option \<Rightarrow> local_store \<Rightarrow> (run_error + 'r) \<times> local_store" where
  "checkedJson response st =
     (case response of (status, body) \<Rightarrow>
        if status = 401 \<or> status = 403 then (Inl (SyncFailed AuthorizationRevoked), clearPrivateRuntimeState st)
        else if \<not> (200 \<le> status \<and> status < 300) \<and> status \<noteq> 409 then (Inl (SyncFailed (HttpFailed status)), st)
        else (case body of None \<Rightarrow> (Inl (SyncFailed BadJson), st) | Some b \<Rightarrow> (Inr b, st)))"

section \<open>Bootstrap and pull\<close>

definition boot_ok :: "boot_body \<Rightarrow> bool" where
  "boot_ok b = (bt_contract b = JInt 2 \<and> bt_policy b = JStr ''bidirectional-field-conflict-v1''
     \<and> safe_int (bt_revision b) \<noteq> None \<and> bt_documents b \<noteq> None \<and> bt_changes b \<noteq> None)"

text \<open>\<open>acceptBrowserBootstrap\<close> on the stored identity.\<close>

definition accept_in_store :: "sync_env \<Rightarrow> boot_body \<Rightarrow> local_store \<Rightarrow> (run_error + unit) \<times> local_store" where
  "accept_in_store env b st =
     (case loadBrowserIdentity (sy_now env) st of
        (Inl e, st) \<Rightarrow> (Inl (StoreFailed e), st)
      | (Inr i, st) \<Rightarrow>
          (case acceptBrowserBootstrap (sy_crypto env) (sy_url env) (sy_now env) (bt_client b, bt_grant b) i of
             (Inl e, _) \<Rightarrow> (Inl (GrantRefused e), st)
           | (Inr (), i') \<Rightarrow>
               (Inr (), if bt_client b = None \<and> bt_grant b = None then st
                  else st\<lparr>st_identity := map_option (\<lambda>i. \<lparr>content = Some i, sealed_until = id_expiresAt i\<rparr>) i',
                          st_clock := Some (sy_now env)\<rparr>)))"

definition next_boot :: "sync_world \<Rightarrow> boot_body flight \<times> sync_world" where
  "next_boot w = (case sw_boots w of [] \<Rightarrow> (lost_flight, w) | f # fs \<Rightarrow> (f, w\<lparr>sw_boots := fs\<rparr>))"

definition finish_boot :: "sync_env \<Rightarrow> nat \<times> boot_body option \<Rightarrow> sync_world \<Rightarrow> (run_error + boot_body) \<times> sync_world" where
  "finish_boot env response w =
     (case checkedJson response (sw_store w) of
        (Inl e, st) \<Rightarrow> (Inl e, w\<lparr>sw_store := st\<rparr>)
      | (Inr b, st) \<Rightarrow>
          if \<not> boot_ok b then (Inl (SyncFailed ContractVersion), w\<lparr>sw_store := st\<rparr>)
          else (case accept_in_store env b st of
                  (Inl e, st) \<Rightarrow> (Inl e, w\<lparr>sw_store := st\<rparr>) | (Inr (), st) \<Rightarrow> (Inr b, w\<lparr>sw_store := st\<rparr>)))"

definition bootstrap_from_zero :: "sync_env \<Rightarrow> sync_world \<Rightarrow> (run_error + boot_body) \<times> sync_world" where
  "bootstrap_from_zero env w =
     (case next_boot w of (f, w) \<Rightarrow>
        (case land env f (sw_store w) of
           (Inl e, st) \<Rightarrow> (Inl e, w\<lparr>sw_store := st\<rparr>)
         | (Inr response, st) \<Rightarrow> finish_boot env response (w\<lparr>sw_store := st\<rparr>)))"

definition bootstrap :: "sync_env \<Rightarrow> int \<Rightarrow> sync_world \<Rightarrow> (run_error + boot_body) \<times> sync_world" where
  "bootstrap env since w =
     (case next_boot w of (f, w) \<Rightarrow>
        (case land env f (sw_store w) of
           (Inl e, st) \<Rightarrow> (Inl e, w\<lparr>sw_store := st\<rparr>)
         | (Inr response, st) \<Rightarrow>
             let w = w\<lparr>sw_store := st\<rparr>
             in if fst response = 409 \<and> since \<noteq> 0
                then (case bootstrap_from_zero env w of
                        (Inl e, w) \<Rightarrow> (Inl e, w) | (Inr b, w) \<Rightarrow> (Inr (b\<lparr>bt_reset := True\<rparr>), w))
                else finish_boot env response w))"

definition pulled_state :: "sync_env \<Rightarrow> sync_state option \<Rightarrow> boot_body \<Rightarrow> sync_state" where
  "pulled_state env state b =
     (let base = (if bt_reset b then [] else (case state of None \<Rightarrow> [] | Some s \<Rightarrow> ss_documents s))
      in \<lparr>ss_revision = the (safe_int (bt_revision b)),
          ss_documents = mergeDocuments (sy_rank env) (mergeDocuments (sy_rank env) base (the (bt_documents b))) (the (bt_changes b)),
          ss_conflicts = (case state of None \<Rightarrow> [] | Some s \<Rightarrow> ss_conflicts s), ss_lastSyncedAt = sy_now env\<rparr>)"

definition pull :: "sync_env \<Rightarrow> sync_state option \<Rightarrow> sync_world \<Rightarrow> (run_error + sync_state) \<times> sync_world" where
  "pull env state w =
     (case bootstrap env (case state of None \<Rightarrow> 0 | Some s \<Rightarrow> ss_revision s) w of
        (Inl e, w) \<Rightarrow> (Inl e, w) | (Inr b, w) \<Rightarrow> (Inr (pulled_state env state b), w))"


section \<open>The run\<close>

text \<open>Deletions of scenes the server does not know, and has reported no conflict for.\<close>

definition missing_deletes :: "sync_state \<Rightarrow> sync_queue option \<Rightarrow> sync_mutation list" where
  "missing_deletes state q = filter (\<lambda>m. mu_kind m = SceneDoc \<and> mu_op m = DeleteOp
      \<and> \<not> list_ex (\<lambda>d. sd_kind d = mu_kind m \<and> sd_id d = mu_id m) (ss_documents state)
      \<and> \<not> list_ex (\<lambda>c. conflict_key c = keyOf m) (ss_conflicts state)) (pending q)"

definition drop_missing_deletes :: "sync_env \<Rightarrow> sync_state \<Rightarrow> local_store \<Rightarrow> (run_error + unit) \<times> local_store" where
  "drop_missing_deletes env state st =
     (let missing = missing_deletes state (loadSyncQueue (sy_now env) st)
      in if missing = [] then (Inr (), st)
         else acknowledge_in_store env missing (map keyOf missing) (ss_revision state) False st)"

text \<open>All scene changes go into the first request, so that a valid scene graph is never split.\<close>

definition upload_order :: "sync_mutation list \<Rightarrow> sync_mutation list" where
  "upload_order ms = filter (\<lambda>m. mu_kind m = SceneDoc) ms @ filter (\<lambda>m. mu_kind m \<noteq> SceneDoc) ms"

fun chunks :: "nat \<Rightarrow> 'a list \<Rightarrow> 'a list list" where
  "chunks n xs = (if n = 0 \<or> xs = [] then [] else take n xs # chunks n (drop n xs))"

declare chunks.simps [simp del]

definition next_sync :: "sync_world \<Rightarrow> sync_response flight \<times> sync_world" where
  "next_sync w = (case sw_syncs w of [] \<Rightarrow> (lost_flight, w) | f # fs \<Rightarrow> (f, w\<lparr>sw_syncs := fs\<rparr>))"

text \<open>One upload: the answer is checked and stored as conflicts, the accepted edits leave the queue, and
  the documents are pulled again.\<close>

definition on_store ::
  "(local_store \<Rightarrow> (run_error + 'a) \<times> local_store) \<Rightarrow> sync_world \<Rightarrow> (run_error + 'a) \<times> sync_world" where
  "on_store f w = (case f (sw_store w) of (r, st) \<Rightarrow> (r, w\<lparr>sw_store := st\<rparr>))"

definition saved_state :: "sync_env \<Rightarrow> sync_state \<Rightarrow> local_store \<Rightarrow> (run_error + unit) \<times> local_store" where
  "saved_state env state st =
     (case saveSyncState (sy_num env) (sy_now env) state st of
        (Inl e, st) \<Rightarrow> (Inl (StoreFailed e), st) | (Inr (), st) \<Rightarrow> (Inr (), st))"

definition settle_upload ::
  "sync_env \<Rightarrow> sync_mutation list \<Rightarrow> sync_response \<Rightarrow> sync_state \<Rightarrow> sync_world \<Rightarrow> (run_error + sync_state) \<times> sync_world" where
  "settle_upload env batch r state w =
     (let state = state\<lparr>ss_conflicts := response_conflicts r\<rparr> in
      case on_store (saved_state env state) w of
        (Inl e, w) \<Rightarrow> (Inl e, w)
      | (Inr (), w) \<Rightarrow>
          (case on_store (acknowledge_in_store env batch (accepted_keys r) (response_revision r) (response_conflicts r \<noteq> [])) w of
             (Inl e, w) \<Rightarrow> (Inl e, w)
           | (Inr (), w) \<Rightarrow>
               (case pull env (Some state) w of
                  (Inl e, w) \<Rightarrow> (Inl e, w)
                | (Inr state, w) \<Rightarrow> (Inr (state\<lparr>ss_conflicts := response_conflicts r\<rparr>), w))))"

definition upload ::
  "sync_env \<Rightarrow> int \<Rightarrow> sync_mutation list \<Rightarrow> sync_state \<Rightarrow> sync_world \<Rightarrow> (run_error + sync_state) \<times> sync_world" where
  "upload env base batch state w =
     (case next_sync w of (f, w) \<Rightarrow>
        (case on_store (land env f) w of
           (Inl e, w) \<Rightarrow> (Inl e, w)
         | (Inr response, w) \<Rightarrow>
             (case on_store (checkedJson response) w of
                (Inl e, w) \<Rightarrow> (Inl e, w)
              | (Inr r, w) \<Rightarrow>
                  if \<not> validSyncResponse r \<lparr>baseRevision = base, mutations = batch\<rparr> (ss_revision state)
                  then (Inl (SyncFailed BadResponse), w)
                  else settle_upload env batch r state w)))"

fun uploads ::
  "sync_env \<Rightarrow> int \<Rightarrow> sync_mutation list list \<Rightarrow> sync_state \<Rightarrow> sync_world \<Rightarrow> (run_error + sync_state) \<times> sync_world" where
  "uploads env base [] state w = (Inr state, w)"
| "uploads env base (batch # rest) state w =
     (case upload env base batch state w of
        (Inl e, w) \<Rightarrow> (Inl e, w)
      | (Inr state, w) \<Rightarrow> if ss_conflicts state \<noteq> [] then (Inr state, w) else uploads env base rest state w)"

definition upload_queue :: "sync_env \<Rightarrow> sync_state \<Rightarrow> sync_world \<Rightarrow> (run_error + sync_state) \<times> sync_world" where
  "upload_queue env state w =
     (case loadSyncQueue (sy_now env) (sw_store w) of
        None \<Rightarrow> (Inr state, w)
      | Some q \<Rightarrow>
          if mutations q = [] \<or> ss_conflicts state \<noteq> [] then (Inr state, w)
          else if MAX_SYNC_BATCH < length (filter (\<lambda>m. mu_kind m = SceneDoc) (mutations q))
          then (Inl (SyncFailed TooManyScenes), w)
          else uploads env (min (baseRevision q) (ss_revision state)) (chunks MAX_SYNC_BATCH (upload_order (mutations q))) state w)"

definition AUDIT_BATCH :: nat where "AUDIT_BATCH = 128"

definition next_audit :: "sync_world \<Rightarrow> unit flight \<times> sync_world" where
  "next_audit w = (case sw_audits w of [] \<Rightarrow> (lost_flight, w) | f # fs \<Rightarrow> (f, w\<lparr>sw_audits := fs\<rparr>))"

definition consumed :: "sync_env \<Rightarrow> nat \<Rightarrow> local_store \<Rightarrow> (run_error + unit) \<times> local_store" where
  "consumed env n st =
     (case consumeAuditQueue (sy_num env) (sy_now env) n st of
        (Inl e, st) \<Rightarrow> (Inl (StoreFailed e), st) | (Inr (), st) \<Rightarrow> (Inr (), st))"

fun upload_audit :: "sync_env \<Rightarrow> audit_event list list \<Rightarrow> sync_world \<Rightarrow> (run_error + unit) \<times> sync_world" where
  "upload_audit env [] w = (Inr (), w)"
| "upload_audit env (events # rest) w =
     (case next_audit w of (f, w) \<Rightarrow>
        (case on_store (land env f) w of
           (Inl e, w) \<Rightarrow> (Inl e, w)
         | (Inr response, w) \<Rightarrow>
             (case on_store (checkedJson response) w of
                (Inl e, w) \<Rightarrow> (Inl e, w)
              | (Inr _, w) \<Rightarrow>
                  (case on_store (consumed env (length events)) w of
                     (Inl e, w) \<Rightarrow> (Inl e, w) | (Inr (), w) \<Rightarrow> upload_audit env rest w))))"

definition finish_run :: "sync_env \<Rightarrow> sync_state \<Rightarrow> sync_world \<Rightarrow> (run_error + sync_state) \<times> sync_world" where
  "finish_run env state w =
     (case upload_audit env (chunks AUDIT_BATCH (loadAuditQueue (sy_now env) (sw_store w))) w of
        (Inl e, w) \<Rightarrow> (Inl e, w)
      | (Inr (), w) \<Rightarrow>
          (case on_store (saved_state env state) w of
             (Inl e, w) \<Rightarrow> (Inl e, w)
           | (Inr (), w) \<Rightarrow>
               (case on_store (cacheUnqueuedScenes env (ss_documents state)) w of
                  (Inl e, w) \<Rightarrow> (Inl e, w) | (Inr (), w) \<Rightarrow> (Inr state, w))))"

definition device_paired :: "sync_env \<Rightarrow> local_store \<Rightarrow> (run_error + unit) \<times> local_store" where
  "device_paired env st =
     (case loadBrowserIdentity (sy_now env) st of
        (Inl e, st) \<Rightarrow> (Inl (StoreFailed e), st)
      | (Inr i, st) \<Rightarrow> (case browserDeviceHeaders i of Inl e \<Rightarrow> (Inl (GrantRefused e), st) | Inr _ \<Rightarrow> (Inr (), st)))"

definition performSynchronization ::
  "sync_env \<Rightarrow> bool \<Rightarrow> sync_world \<Rightarrow> (run_error + sync_state option) \<times> sync_world" where
  "performSynchronization env onLine w =
     (if \<not> onLine then (Inr (loadSyncState (sy_now env) (sw_store w)), w)
      else case on_store (device_paired env) w of
        (Inl e, w) \<Rightarrow> (Inl e, w)
      | (Inr (), w) \<Rightarrow>
          (case pull env (loadSyncState (sy_now env) (sw_store w)) w of
             (Inl e, w) \<Rightarrow> (Inl e, w)
           | (Inr state, w) \<Rightarrow>
               (case on_store (drop_missing_deletes env state) w of
                  (Inl e, w) \<Rightarrow> (Inl e, w)
                | (Inr (), w) \<Rightarrow>
                    (case upload_queue env state w of
                       (Inl e, w) \<Rightarrow> (Inl e, w)
                     | (Inr state, w) \<Rightarrow> (case finish_run env state w of (r, w) \<Rightarrow> (map_sum id Some r, w))))))"

section \<open>Resolution of conflicts\<close>

datatype resolution = ServerWins | LocalWins

definition resolve_queue :: "sync_env \<Rightarrow> resolution \<Rightarrow> sync_state \<Rightarrow> local_store \<Rightarrow> (run_error + unit) \<times> local_store" where
  "resolve_queue env choice state st =
     (case loadSyncQueue (sy_now env) st of
        None \<Rightarrow> (Inr (), st)
      | Some q \<Rightarrow>
          let next = (case choice of
                ServerWins \<Rightarrow>
                  (let ms = filter (\<lambda>m. keyOf m \<notin> set (map conflict_key (ss_conflicts state))) (mutations q)
                   in if ms = [] then None else Some (q\<lparr>mutations := ms\<rparr>))
              | LocalWins \<Rightarrow> Some (q\<lparr>baseRevision := ss_revision state\<rparr>))
          in (case saveSyncQueue (sy_num env) (sy_now env) next st of
                (Inl e, st) \<Rightarrow> (Inl (StoreFailed e), st) | (Inr (), st) \<Rightarrow> (Inr (), st)))"

definition resolveSyncConflicts ::
  "sync_env \<Rightarrow> bool \<Rightarrow> resolution \<Rightarrow> sync_world \<Rightarrow> (run_error + sync_state option) \<times> sync_world" where
  "resolveSyncConflicts env onLine choice w =
     (case loadSyncState (sy_now env) (sw_store w) of
        None \<Rightarrow> (Inr None, w)
      | Some state \<Rightarrow>
          if ss_conflicts state = [] then (Inr (Some state), w)
          else (case on_store (resolve_queue env choice state) w of
             (Inl e, w) \<Rightarrow> (Inl e, w)
           | (Inr (), w) \<Rightarrow>
               (case on_store (saved_state env (state\<lparr>ss_conflicts := []\<rparr>)) w of
                  (Inl e, w) \<Rightarrow> (Inl e, w)
                | (Inr (), w) \<Rightarrow>
                    (case choice of
                       LocalWins \<Rightarrow> performSynchronization env onLine w
                     | ServerWins \<Rightarrow>
                         (case on_store (cacheUnqueuedScenes env (ss_documents state)) w of
                            (Inl e, w) \<Rightarrow> (Inl e, w) | (Inr (), w) \<Rightarrow> (Inr (Some (state\<lparr>ss_conflicts := []\<rparr>)), w))))))"

end
