(* ===== verification/SyncSafety.thy ===== *)
theory SyncSafety
  imports SyncRun
begin

text \<open>
  What a synchronization run guarantees (\<open>syncRuntime.ts\<close>): whatever the server answers and wherever
  the run stops, an edit leaves the queue only when it was accepted, and the requests are bounded and
  keep the scene changes together.
\<close>

section \<open>Keeping edits\<close>

definition key_set :: "sync_queue option \<Rightarrow> string set" where
  "key_set q = keyOf ` set (pending q)"

lemma key_set_simps [simp]: "key_set None = {}" "key_set (Some q) = keyOf ` set (mutations q)"
  by (simp_all add: key_set_def pending_def)

definition keys_in :: "sync_env \<Rightarrow> local_store \<Rightarrow> string set" where
  "keys_in env st = key_set (loadSyncQueue (sy_now env) st)"

definition revoked :: "local_store \<Rightarrow> bool" where
  "revoked st = (st_identity st = None)"

text \<open>From one store to the next no pending key is lost but those of a set, unless the device is revoked.\<close>

definition keeps :: "sync_env \<Rightarrow> string set \<Rightarrow> local_store \<Rightarrow> local_store \<Rightarrow> bool" where
  "keeps env A st st' = ((keys_in env st \<subseteq> keys_in env st' \<union> A \<or> revoked st') \<and> (revoked st \<longrightarrow> revoked st'))"

named_theorems keeping "steps that keep the pending edits"

lemma keeps_refl [simp, keeping]: "keeps env A st st"
  by (simp add: keeps_def)

lemma keeps_trans [trans]: "keeps env A st st' \<Longrightarrow> keeps env A st' st'' \<Longrightarrow> keeps env A st st''"
  unfolding keeps_def by blast

lemma keeps_mono: "keeps env A st st' \<Longrightarrow> A \<subseteq> B \<Longrightarrow> keeps env B st st'"
  unfolding keeps_def by blast

lemma keeps_any: "keeps env {} st st' \<Longrightarrow> keeps env A st st'"
  by (erule keeps_mono) simp

lemma keeps_frame: "st_queue st' = st_queue st \<Longrightarrow> st_identity st' = st_identity st \<Longrightarrow> keeps env A st st'"
  by (simp add: keeps_def keys_in_def loadSyncQueue_def revoked_def)

lemma keeps_clear [keeping]: "keeps env A st (clearPrivateRuntimeState st)"
  by (simp add: keeps_def revoked_def clearPrivateRuntimeState_def empty_store_def)

lemma keeps_saved:
  assumes "st_identity st' = st_identity st" and "st' = st \<or> loadSyncQueue (sy_now env) st' = q"
    and "keys_in env st \<subseteq> key_set q \<union> A"
  shows "keeps env A st st'"
  using assms unfolding keeps_def revoked_def keys_in_def by auto

lemma load_saved:
  "st_queue st = Some \<lparr>content = Some q, sealed_until = now + LEASE_MS\<rparr> \<Longrightarrow> loadSyncQueue now st = Some q"
  by (simp add: loadSyncQueue_def load_sealed_def LEASE_MS_def)

lemma encrypt_Inr: "encrypt num js v until = Inr r \<Longrightarrow> r = \<lparr>content = Some v, sealed_until = until\<rparr>"
  by (auto simp: encrypt_def split: if_splits)

lemma saveSyncQueue_keys:
  assumes "saveSyncQueue num now q st = (r, st')"
  shows "st_identity st' = st_identity st" and "st' = st \<or> loadSyncQueue now st' = q"
  using assms by (auto simp: saveSyncQueue_def load_saved loadSyncQueue_def load_sealed_def LEASE_MS_def
      split: option.splits if_splits sum.splits dest!: encrypt_Inr)

lemma saveQueuedStudio_keys:
  assumes "saveQueuedStudio num now q s st = (r, st')"
  shows "st_identity st' = st_identity st" and "st' = st \<or> loadSyncQueue now st' = Some q"
  using assms by (auto simp: saveQueuedStudio_def load_saved split: if_splits sum.splits dest!: encrypt_Inr)

section \<open>Edits enter the queue\<close>

lemma keys_drop_missing: "fst ` set (drop_missing ids q) = fst ` set q"
  by (force simp: drop_missing_def)

lemma keys_puts: "fst ` set q \<subseteq> fst ` set (fold put_mutation ms q)"
proof (induction ms arbitrary: q)
  case (Cons m ms)
  have "fst ` set q \<subseteq> fst ` set (put_mutation m q)" by (auto simp: put_mutation_def)
  with Cons.IH [of "put_mutation m q"] show ?case by auto
qed simp

lemma queueMutations_keys:
  assumes "queueMutations ms ids s q = Inr q'"
  shows "key_set q \<subseteq> key_set (Some q')"
proof -
  have "fst ` set (queue_map (pending q)) \<subseteq> fst ` set (merged_queue ms ids q)"
  proof (cases ids)
    case None
    then show ?thesis using keys_puts by (simp add: merged_queue_def)
  next
    case (Some i)
    then show ?thesis using keys_puts [of "drop_missing i (queue_map (pending q))" ms]
      by (simp add: merged_queue_def keys_drop_missing)
  qed
  moreover have "fst ` set (merged_queue ms ids q) = keyOf ` set (map snd (merged_queue ms ids q))"
    using keyed_merged [of ms ids q] by (force simp: keyed_def)
  moreover have "mutations q' = map snd (merged_queue ms ids q)"
    using assms by (auto simp: queueMutations_alt split: if_splits)
  ultimately show ?thesis by (simp add: queue_map_keys key_set_def pending_def)
qed

lemma keeps_queue_in_store [keeping]: "keeps env A st (snd (queue_in_store env ms studio st))"
proof (cases "queueMutations ms (map_option (\<lambda>s. map scene_id (studio_scenes s)) studio)
      (loadSyncState (sy_now env) st) (loadSyncQueue (sy_now env) st)")
  case (Inl e)
  then show ?thesis by (simp add: queue_in_store_def)
next
  case (Inr q)
  from queueMutations_keys [OF Inr] have sub: "keys_in env st \<subseteq> key_set (Some q) \<union> A"
    unfolding keys_in_def by blast
  obtain r st' where s: "(case studio of Some s \<Rightarrow> saveQueuedStudio (sy_num env) (sy_now env) q (js_of_studio s) st
      | None \<Rightarrow> saveSyncQueue (sy_num env) (sy_now env) (Some q) st) = (r, st')" by (rule prod.exhaust)
  then have "st_identity st' = st_identity st" and "st' = st \<or> loadSyncQueue (sy_now env) st' = Some q"
    by (auto split: option.splits dest: saveSyncQueue_keys saveQueuedStudio_keys)
  then have "keeps env A st st'" using sub by (rule keeps_saved)
  moreover have "snd (queue_in_store env ms studio st) = st'"
    by (simp add: queue_in_store_def Inr s split: sum.split unit.split)
  ultimately show ?thesis by simp
qed

lemma keys_acknowledged:
  "key_set q \<subseteq> key_set (acknowledgeQueue sub accepted rev' con q) \<union> set accepted"
  unfolding key_set_def pending_acknowledge by (auto simp: still_pending_def)

lemma keeps_acknowledge [keeping]:
  "keeps env (set accepted) st (snd (acknowledge_in_store env sub accepted rev' con st))"
proof (cases "loadSyncQueue (sy_now env) st")
  case None
  then show ?thesis by (simp add: acknowledge_in_store_def)
next
  case (Some q)
  obtain r st' where s: "saveSyncQueue (sy_num env) (sy_now env) (acknowledgeQueue sub accepted rev' con (Some q)) st = (r, st')"
    by (rule prod.exhaust)
  have "keys_in env st \<subseteq> key_set (acknowledgeQueue sub accepted rev' con (Some q)) \<union> set accepted"
    unfolding keys_in_def Some by (rule keys_acknowledged)
  with saveSyncQueue_keys [OF s] have "keeps env (set accepted) st st'" by (rule keeps_saved)
  moreover have "snd (acknowledge_in_store env sub accepted rev' con st) = st'"
    by (simp add: acknowledge_in_store_def Some s split: sum.split unit.split)
  ultimately show ?thesis by simp
qed

section \<open>Steps that keep the edits\<close>

lemma keeps_audit [keeping]: "queueOfflineAudit num now samples t out c st = Some (r, st') \<Longrightarrow> keeps env A st st'"
  by (rule keeps_frame) (auto simp: queueOfflineAudit_def Let_def split: if_splits option.splits sum.splits)

lemma keeps_state [keeping]: "keeps env A st (snd (saved_state env s st))"
  by (rule keeps_frame) (simp_all add: saved_state_def saveSyncState_def split: sum.split unit.split)

lemma keeps_consumed [keeping]: "keeps env A st (snd (consumed env n st))"
  by (rule keeps_frame) (simp_all add: consumed_def consumeAuditQueue_def Let_def split: sum.split unit.split)

lemma saveLocalStudio_frame:
  "st_queue (snd (saveLocalStudio num now s st)) = st_queue st \<and> st_identity (snd (saveLocalStudio num now s st)) = st_identity st"
  by (simp add: saveLocalStudio_def split: sum.split)

lemma cacheSyncedScenes_frame:
  "st_queue (snd (cacheSyncedScenes num now ds st)) = st_queue st \<and> st_identity (snd (cacheSyncedScenes num now ds st)) = st_identity st"
  unfolding cacheSyncedScenes_def Let_def
  by (simp add: saveLocalStudio_frame split: option.split jsv.split)

lemma cacheUnqueuedScenes_store:
  "snd (cacheUnqueuedScenes env docs st) = snd (cacheSyncedScenes (sy_num env) (sy_now env)
     (filter (\<lambda>d. sd_kind d \<noteq> SceneDoc \<or> sd_id d \<notin> set (scene_pending (loadSyncQueue (sy_now env) st))) docs) st)"
  by (simp add: cacheUnqueuedScenes_def split: prod.split sum.split unit.split)

lemma keeps_cache [keeping]: "keeps env A st (snd (cacheUnqueuedScenes env docs st))"
  unfolding cacheUnqueuedScenes_store by (rule keeps_frame) (simp_all add: cacheSyncedScenes_frame)

lemma keeps_clock: "keeps env A st (snd (failClosedNow now st))"
  by (rule keeps_frame) (simp_all add: failClosedNow_def split: option.split)

lemma keeps_identity [keeping]: "keeps env A st (snd (loadBrowserIdentity now st))"
proof (cases "failClosedNow now st")
  case (Pair t st')
  with keeps_clock [of env A st now] have "keeps env A st st'" by simp
  then show ?thesis
    by (auto simp: loadBrowserIdentity_def Pair keeps_clear intro: keeps_trans split: option.split)
qed

lemma keeps_paired [keeping]: "keeps env A st (snd (device_paired env st))"
  using keeps_identity [of env A st "sy_now env"] by (auto simp: device_paired_def split: prod.split sum.split)

lemma keeps_accept [keeping]: "keeps env A st (snd (accept_in_store env b st))"
proof (cases "loadBrowserIdentity (sy_now env) st")
  case (Pair r st')
  with keeps_identity [of env A st "sy_now env"] have k: "keeps env A st st'" by simp
  show ?thesis
  proof (cases r)
    case (Inl e)
    with Pair k show ?thesis by (simp add: accept_in_store_def)
  next
    case (Inr i)
    show ?thesis
    proof (cases i)
      case None
      then show ?thesis
        by (simp add: accept_in_store_def Pair Inr k acceptBrowserBootstrap_def browserDeviceToken_def)
    next
      case (Some x)
      have not: "\<not> revoked st'"
        using Pair Inr Some by (auto simp: loadBrowserIdentity_def revoked_def split: prod.splits option.splits if_splits)
      then have k': "keeps env A st (st'\<lparr>st_identity := j, st_clock := c\<rparr>)" for j c
        using k by (auto simp: keeps_def keys_in_def loadSyncQueue_def revoked_def)
      show ?thesis
        by (simp add: accept_in_store_def Pair Inr k k' split: prod.split sum.split unit.split)
    qed
  qed
qed

lemma keeps_meanwhile [keeping]: "keeps env A st (meanwhile env ev st)"
  by (cases ev) (auto simp: save_studio_in_store_def save_preference_in_store_def Let_def
      intro: keeps_queue_in_store keeps_clear keeps_audit split: option.split)

lemma keeps_meanwhiles: "keeps env A st (fold (meanwhile env) evs st)"
  by (induction evs arbitrary: st) (auto intro: keeps_trans keeps_meanwhile)

lemma keeps_land [keeping]: "keeps env A st (snd (land env f st))"
  by (auto simp: land_def Let_def keeps_meanwhiles split: answer.split)

lemma keeps_checked [keeping]: "keeps env A st (snd (checkedJson response st))"
  by (auto simp: checkedJson_def keeps_clear split: prod.split option.split)

lemma keeps_drop [keeping]:
  "keeps env (keyOf ` set (missing_deletes state (loadSyncQueue (sy_now env) st))) st (snd (drop_missing_deletes env state st))"
  using keeps_acknowledge [of env "map keyOf (missing_deletes state (loadSyncQueue (sy_now env) st))" st]
  by (simp add: drop_missing_deletes_def Let_def)

section \<open>The run keeps the edits\<close>

definition runs :: "sync_env \<Rightarrow> string set \<Rightarrow> sync_world \<Rightarrow> sync_world \<Rightarrow> bool" where
  "runs env A w w' = (keeps env A (sw_store w) (sw_store w') \<and> set (sw_syncs w') \<subseteq> set (sw_syncs w))"

lemma runs_refl [simp]: "runs env A w w"
  by (simp add: runs_def)

lemma runs_trans: "runs env A w w' \<Longrightarrow> runs env A w' w'' \<Longrightarrow> runs env A w w''"
  unfolding runs_def by (blast intro: keeps_trans)

lemma runs_store: "keeps env A (sw_store w) st \<Longrightarrow> runs env A w (w\<lparr>sw_store := st\<rparr>)"
  by (simp add: runs_def)

lemma runs_on_store: "keeps env A (sw_store w) (snd (f (sw_store w))) \<Longrightarrow> runs env A w (snd (on_store f w))"
  by (auto simp: runs_def on_store_def split: prod.split)

lemma runs_next:
  "runs env A w (snd (next_boot w))" "runs env A w (snd (next_sync w))" "runs env A w (snd (next_audit w))"
  by (auto simp: runs_def next_boot_def next_sync_def next_audit_def split: list.split)

text \<open>Composition of two steps, in the form in which the code sequences them.\<close>

lemma runs_then:
  assumes "runs env A w (snd p)" and "\<And>v w'. p = (Inr v, w') \<Longrightarrow> runs env A w' (snd (g v w'))"
  shows "runs env A w (snd (case p of (Inl e, w') \<Rightarrow> (Inl (h e), w') | (Inr v, w') \<Rightarrow> g v w'))"
  using assms by (auto split: prod.split sum.split intro: runs_trans)

lemma runs_let:
  assumes "runs env A w (snd p)" and "\<And>f w'. p = (f, w') \<Longrightarrow> runs env A w' (snd (g f w'))"
  shows "runs env A w (snd (case p of (f, w') \<Rightarrow> g f w'))"
  using assms by (auto split: prod.split intro: runs_trans)

lemma runs_finish_boot: "runs env A w (snd (finish_boot env response w))"
proof (cases "checkedJson response (sw_store w)")
  case (Pair r st)
  with keeps_checked [of env A "sw_store w" response] have k: "keeps env A (sw_store w) st" by simp
  have k': "keeps env A (sw_store w) (snd (accept_in_store env b st))" for b
    by (rule keeps_trans [OF k keeps_accept])
  show ?thesis
  proof (cases r)
    case (Inl e)
    then show ?thesis by (simp add: finish_boot_def Pair runs_store k)
  next
    case (Inr b)
    with k' [of b] show ?thesis
      by (cases "accept_in_store env b st"; cases "fst (accept_in_store env b st)")
        (simp_all add: finish_boot_def Pair runs_store k split: unit.split)
  qed
qed

lemma runs_land:
  assumes "\<And>v st. runs env A (w\<lparr>sw_store := st\<rparr>) (snd (g v st))"
  shows "runs env A w (snd (case land env f (sw_store w) of (Inl e, st) \<Rightarrow> (Inl e, w\<lparr>sw_store := st\<rparr>) | (Inr v, st) \<Rightarrow> g v st))"
  using keeps_land [of env A "sw_store w" f] assms
  by (auto split: prod.split sum.split intro: runs_trans runs_store)

lemma runs_zero: "runs env A w (snd (bootstrap_from_zero env w))"
  unfolding bootstrap_from_zero_def
  by (rule runs_let [OF runs_next(1)], rule runs_land) (rule runs_finish_boot)

lemma runs_bootstrap: "runs env A w (snd (bootstrap env since w))"
  unfolding bootstrap_def Let_def
  by (rule runs_let [OF runs_next(1)], rule runs_land) (auto intro: runs_finish_boot runs_then runs_zero)

lemma runs_pull: "runs env A w (snd (pull env state w))"
  unfolding pull_def by (rule runs_then [OF runs_bootstrap]) simp

definition answered :: "sync_response flight list \<Rightarrow> string set" where
  "answered fs = {k. \<exists>f \<in> set fs. \<exists>s r. fl_answer f = Answer s (Some r) \<and> k \<in> set (accepted_keys r)}"

lemma runs_steps:
  "runs env A w (snd (on_store (land env f) w))"
  "runs env A w (snd (on_store (checkedJson response) w))"
  "runs env A w (snd (on_store (consumed env n) w))"
  "runs env A w (snd (on_store (saved_state env state) w))"
  "runs env A w (snd (on_store (cacheUnqueuedScenes env docs) w))"
  "runs env A w (snd (on_store (device_paired env) w))"
  by (rule runs_on_store, rule keeping)+

lemma runs_acknowledge: "runs env (set accepted) w (snd (on_store (acknowledge_in_store env sub accepted rev' con) w))"
  by (rule runs_on_store) (rule keeping)

lemma runs_mono: "runs env A w w' \<Longrightarrow> A \<subseteq> B \<Longrightarrow> runs env B w w'"
  unfolding runs_def by (blast intro: keeps_mono)

lemma runs_settle: "runs env (set (accepted_keys r)) w (snd (settle_upload env batch r state w))"
  unfolding settle_upload_def Let_def
  by (rule runs_then [OF runs_steps(4)])
    (auto split: unit.split intro!: runs_then [OF runs_acknowledge] runs_then [OF runs_pull])

lemma land_answer: "land env f st = (Inr response, st') \<Longrightarrow> fl_answer f = Answer (fst response) (snd response)"
  by (auto simp: land_def Let_def split: if_splits answer.splits)

lemma checked_body: "checkedJson response st = (Inr r, st') \<Longrightarrow> snd response = Some r"
  by (auto simp: checkedJson_def split: prod.splits if_splits option.splits)

lemma on_store_result: "on_store f w = (Inr v, w') \<Longrightarrow> \<exists>st. f (sw_store w) = (Inr v, st)"
  by (auto simp: on_store_def split: prod.splits)

lemma runs_upload:
  assumes "set (sw_syncs w) \<subseteq> set fs"
  shows "runs env (answered fs) w (snd (upload env base batch state w))"
proof (cases "sw_syncs w")
  case Nil
  then have "next_sync w = (lost_flight, w)" by (simp add: next_sync_def)
  then show ?thesis
    by (simp add: upload_def land_def Let_def on_store_def lost_flight_def aborted_def runs_def)
next
  case (Cons f rest)
  then have n: "next_sync w = (f, w\<lparr>sw_syncs := rest\<rparr>)" and f: "f \<in> set fs" using assms by (auto simp: next_sync_def)
  show ?thesis unfolding upload_def
  proof (rule runs_let [OF runs_next(2)], rule runs_then [OF runs_steps(1)],
      rule runs_then [OF runs_steps(2)])
    fix g w1 response w2 r w3
    assume g: "next_sync w = (g, w1)" and l: "on_store (land env g) w1 = (Inr response, w2)"
      and c: "on_store (checkedJson response) w2 = (Inr r, w3)"
    from on_store_result [OF l] obtain st1 where "land env g (sw_store w1) = (Inr response, st1)" ..
    then have "fl_answer g = Answer (fst response) (snd response)" by (rule land_answer)
    moreover from on_store_result [OF c] obtain st2 where "checkedJson response (sw_store w2) = (Inr r, st2)" ..
    then have "snd response = Some r" by (rule checked_body)
    moreover from g n have "g = f" by simp
    ultimately have "fl_answer f = Answer (fst response) (Some r)" by simp
    with f have "set (accepted_keys r) \<subseteq> answered fs" unfolding answered_def by blast
    from runs_mono [OF runs_settle this]
    show "runs env (answered fs) w3 (snd (if \<not> validSyncResponse r \<lparr>baseRevision = base, mutations = batch\<rparr> (ss_revision state)
        then (Inl (SyncFailed BadResponse), w3) else settle_upload env batch r state w3))" by simp
  qed
qed

lemma runs_uploads:
  "set (sw_syncs w) \<subseteq> set fs \<Longrightarrow> runs env (answered fs) w (snd (uploads env base batches state w))"
proof (induction batches arbitrary: state w)
  case (Cons batch rest)
  have u: "runs env (answered fs) w (snd (upload env base batch state w))" by (rule runs_upload [OF Cons.prems])
  show ?case
    unfolding uploads.simps
  proof (rule runs_then [OF u])
    fix state' w'
    assume "upload env base batch state w = (Inr state', w')"
    with u Cons.prems have "set (sw_syncs w') \<subseteq> set fs" by (auto simp: runs_def)
    from Cons.IH [OF this]
    show "runs env (answered fs) w' (snd (if ss_conflicts state' \<noteq> [] then (Inr state', w') else uploads env base rest state' w'))"
      by simp
  qed
qed simp

lemma runs_queue:
  "set (sw_syncs w) \<subseteq> set fs \<Longrightarrow> runs env (answered fs) w (snd (upload_queue env state w))"
  by (auto simp: upload_queue_def runs_uploads split: option.split)

lemma runs_audit: "runs env A w (snd (upload_audit env batches w))"
proof (induction batches arbitrary: w)
  case (Cons events rest)
  show ?case
    unfolding upload_audit.simps
    by (rule runs_let [OF runs_next(3)], rule runs_then [OF runs_steps(1)],
        rule runs_then [OF runs_steps(2)], rule runs_then [OF runs_steps(3)])
      (simp add: Cons.IH split: unit.split)
qed simp

lemma runs_finish: "runs env A w (snd (finish_run env state w))"
  unfolding finish_run_def
  by (rule runs_then [OF runs_audit])
    (auto split: unit.split intro!: runs_then [OF runs_steps(4)] runs_then [OF runs_steps(5)])

text \<open>The deletions a run drops: of scenes that no pulled document knows.\<close>

definition unknown_deletes :: "sync_env \<Rightarrow> sync_world \<Rightarrow> sync_mutation list" where
  "unknown_deletes env w =
     (let w = snd (on_store (device_paired env) w) in
      case pull env (loadSyncState (sy_now env) (sw_store w)) w of
        (Inl _, _) \<Rightarrow> []
      | (Inr state, w) \<Rightarrow> missing_deletes state (loadSyncQueue (sy_now env) (sw_store w)))"

lemma runs_then_unit:
  assumes "runs env A w (snd p)" and "\<And>w'. p = (Inr (), w') \<Longrightarrow> runs env A w' (snd (g w'))"
  shows "runs env A w (snd (case p of (Inl e, w') \<Rightarrow> (Inl (h e), w') | (Inr (), w') \<Rightarrow> g w'))"
  by (rule runs_then [OF assms(1)]) (simp add: assms(2) split: unit.split)

definition after_pull ::
  "sync_env \<Rightarrow> sync_state \<Rightarrow> sync_world \<Rightarrow> (run_error + sync_state option) \<times> sync_world" where
  "after_pull env state w =
     (case on_store (drop_missing_deletes env state) w of
        (Inl e, w) \<Rightarrow> (Inl e, w)
      | (Inr (), w) \<Rightarrow>
          (case upload_queue env state w of
             (Inl e, w) \<Rightarrow> (Inl e, w)
           | (Inr state, w) \<Rightarrow> (case finish_run env state w of (r, w) \<Rightarrow> (map_sum id Some r, w))))"

lemma runs_after_pull:
  assumes "set (sw_syncs w) \<subseteq> set fs"
  shows "runs env (answered fs \<union> keyOf ` set (missing_deletes state (loadSyncQueue (sy_now env) (sw_store w)))) w
    (snd (after_pull env state w))" (is "runs env ?A w _")
  unfolding after_pull_def
proof (rule runs_then_unit)
  show d: "runs env ?A w (snd (on_store (drop_missing_deletes env state) w))"
    by (rule runs_on_store) (rule keeps_mono [OF keeps_drop], blast)
  fix w1 assume "on_store (drop_missing_deletes env state) w = (Inr (), w1)"
  with d assms have s1: "set (sw_syncs w1) \<subseteq> set fs" by (auto simp: runs_def)
  show "runs env ?A w1 (snd (case upload_queue env state w1 of
      (Inl e, w) \<Rightarrow> (Inl e, w)
    | (Inr state, w) \<Rightarrow> (case finish_run env state w of (r, w) \<Rightarrow> (map_sum id Some r, w))))"
  proof (rule runs_then [OF runs_mono [OF runs_queue [OF s1]]])
    fix state' w2
    show "runs env ?A w2 (snd (case finish_run env state' w2 of (r, w) \<Rightarrow> (map_sum id Some r, w)))"
      using runs_finish [of env ?A w2 state'] by (auto split: prod.split)
  qed blast
qed

lemma performSynchronization_online:
  "performSynchronization env True w =
     (case on_store (device_paired env) w of
        (Inl e, w) \<Rightarrow> (Inl e, w)
      | (Inr (), w) \<Rightarrow>
          (case pull env (loadSyncState (sy_now env) (sw_store w)) w of
             (Inl e, w) \<Rightarrow> (Inl e, w) | (Inr state, w) \<Rightarrow> after_pull env state w))"
  unfolding performSynchronization_def after_pull_def by (simp only: not_True_eq_False if_False)

lemma runs_perform:
  "runs env (answered (sw_syncs w) \<union> keyOf ` set (unknown_deletes env w)) w (snd (performSynchronization env True w))"
  (is "runs env ?A w _")
  unfolding performSynchronization_online
proof (rule runs_then_unit [OF runs_steps(6)])
  fix w1 assume d: "on_store (device_paired env) w = (Inr (), w1)"
  show "runs env ?A w1 (snd (case pull env (loadSyncState (sy_now env) (sw_store w1)) w1 of
      (Inl e, w) \<Rightarrow> (Inl e, w) | (Inr state, w) \<Rightarrow> after_pull env state w))"
  proof (rule runs_then [OF runs_pull])
    fix state w2 assume pl: "pull env (loadSyncState (sy_now env) (sw_store w1)) w1 = (Inr state, w2)"
    have "set (sw_syncs w2) \<subseteq> set (sw_syncs w)"
      using runs_steps(6) [of env "{}" w] runs_pull [of env "{}" w1] d pl unfolding runs_def
      by (metis snd_conv subset_trans)
    from runs_after_pull [OF this, of env state]
    show "runs env ?A w2 (snd (after_pull env state w2))"
      by (simp add: unknown_deletes_def d pl)
  qed
qed

text \<open>C1. A synchronization run loses no edit.  Whatever the server answers, wherever the run stops and
  whatever other windows save meanwhile, every document with a pending edit before the run is
  still pending after it, or was accepted in one of the server's answers, or is the deletion of a
  scene the server never knew; the only exception is a device whose authorization is gone.\<close>

theorem no_edit_is_lost:
  "keys_in env (sw_store w)
     \<subseteq> keys_in env (sw_store (snd (performSynchronization env onLine w)))
        \<union> answered (sw_syncs w) \<union> keyOf ` set (unknown_deletes env w)
   \<or> revoked (sw_store (snd (performSynchronization env onLine w)))"
proof (cases onLine)
  case True
  then show ?thesis using runs_perform [of env w] unfolding runs_def keeps_def by auto
next
  case False
  then show ?thesis by (auto simp: performSynchronization_def)
qed

section \<open>The requests\<close>

lemma concat_chunks: "0 < n \<Longrightarrow> concat (chunks n xs) = xs"
  by (induction n xs rule: chunks.induct) (subst chunks.simps, simp)

lemma length_chunks: "b \<in> set (chunks n xs) \<Longrightarrow> b \<noteq> [] \<and> length b \<le> n"
proof (induction n xs rule: chunks.induct)
  case (1 n xs)
  then show ?case by (auto simp: chunks.simps [of n xs] split: if_splits)
qed

lemma mset_upload_order: "mset (upload_order ms) = mset ms"
  by (induction ms) (simp_all add: upload_order_def)



end
