(* ===== verification/Whep.thy ===== *)
theory Whep
  imports Playback
begin

text \<open>
  The checks of the WHEP client (\<open>whep.ts\<close>): which addresses may be used, what an answer of the
  media server must look like, how much of it is read, and the delays between reconnects.  Parsing
  an address (\<open>new URL\<close>) and decoding UTF-8 are the browser's: \<open>parse value base\<close> and
  \<open>utf8 bytes\<close> are parameters, \<open>None\<close> where they throw.
\<close>

section \<open>Addresses\<close>

record web_url =
  u_href :: string
  u_origin :: string
  u_protocol :: string
  u_hostname :: string
  u_username :: string
  u_password :: string
  u_pathname :: string
  u_search :: string
  u_hash :: string

type_synonym url_parser = "string \<Rightarrow> string option \<Rightarrow> web_url option"

definition tail_after :: "string \<Rightarrow> string \<Rightarrow> string option" where
  "tail_after p s = (if starts_with p s then Some (drop (length p) s) else None)"

definition before_slash :: "string \<Rightarrow> string" where
  "before_slash s = takeWhile (\<lambda>c. c \<noteq> CHR ''/'') s"

definition after_slash :: "string \<Rightarrow> string" where
  "after_slash s = drop 1 (dropWhile (\<lambda>c. c \<noteq> CHR ''/'') s)"

text \<open>The four path patterns.\<close>

definition source_path :: "string \<Rightarrow> bool" where
  "source_path p = (case tail_after ''/api/v1/sources/'' p of None \<Rightarrow> False
     | Some s \<Rightarrow> id64 (before_slash s) \<and> dropWhile (\<lambda>c. c \<noteq> CHR ''/'') s = ''/whep'')"

definition account_path :: "string \<Rightarrow> bool" where
  "account_path p = (case tail_after ''/api/v1/account-cameras/'' p of None \<Rightarrow> False
     | Some s \<Rightarrow> id64 (before_slash s) \<and> s \<noteq> before_slash s \<and> id64 (before_slash (after_slash s))
         \<and> dropWhile (\<lambda>c. c \<noteq> CHR ''/'') (after_slash s) = ''/whep'')"

definition plan_path :: "string \<Rightarrow> bool" where
  "plan_path p = (case tail_after ''/api/v2/media-plans/'' p of None \<Rightarrow> False
     | Some s \<Rightarrow> in_class is_hex_lower 32 32 (before_slash s) \<and> dropWhile (\<lambda>c. c \<noteq> CHR ''/'') s = ''/whep'')"

datatype 'a url_result = UrlThrows | UrlRejected | UrlOk 'a

definition validEndpoint :: "url_parser \<Rightarrow> web_url \<Rightarrow> string \<Rightarrow> web_url url_result" where
  "validEndpoint parse page v =
     (case parse v (Some (u_href page)) of
        None \<Rightarrow> UrlThrows
      | Some u \<Rightarrow>
          if u_origin u \<noteq> u_origin page \<or> u_search u \<noteq> [] \<or> u_hash u \<noteq> [] then UrlRejected
          else if u_pathname u = ''/api/v1/program/whep'' then UrlOk u
          else if source_path (u_pathname u) then UrlOk u
          else if account_path (u_pathname u) then UrlOk u
          else if plan_path (u_pathname u) then UrlOk u
          else UrlRejected)"

text \<open>The validator of an approved endpoint: the address that was approved, over a secure transport.\<close>

definition secure_transport :: "web_url \<Rightarrow> bool" where
  "secure_transport u = (u_protocol u = ''https:'' \<or>
     (u_protocol u = ''http:'' \<and> u_hostname u \<in> {''127.0.0.1'', ''localhost'', ''::1''}))"

definition validApproved :: "url_parser \<Rightarrow> web_url \<Rightarrow> string \<Rightarrow> web_url url_result" where
  "validApproved parse approved v =
     (case parse v None of
        None \<Rightarrow> UrlThrows
      | Some u \<Rightarrow>
          if u_href u \<noteq> u_href approved \<or> \<not> secure_transport u \<or> u_username u \<noteq> [] \<or> u_password u \<noteq> []
             \<or> u_search u \<noteq> [] \<or> u_hash u \<noteq> [] \<or> length (u_pathname u) > 1024
          then UrlRejected else UrlOk u)"

definition session_char :: "char \<Rightarrow> bool" where
  "session_char c = (is_id_char c \<or> c = CHR ''~'')"

text \<open>\<open>replace(/\/$/, '')\<close>.\<close>

definition without_final_slash :: "string \<Rightarrow> string" where
  "without_final_slash p = (if p \<noteq> [] \<and> last p = CHR ''/'' then butlast p else p)"

definition session_id_of :: "string \<Rightarrow> string" where
  "session_id_of relative = (case tail_after ''session/'' relative of Some s \<Rightarrow> s | None \<Rightarrow> relative)"

definition validSessionLocation :: "url_parser \<Rightarrow> string option \<Rightarrow> web_url \<Rightarrow> string url_result" where
  "validSessionLocation parse v endpoint =
     (if v = None \<or> v = Some [] then UrlRejected
      else case parse (the v) (Some (u_href endpoint)) of
        None \<Rightarrow> UrlThrows
      | Some l \<Rightarrow>
          if u_origin l \<noteq> u_origin endpoint then UrlRejected
          else (case tail_after (without_final_slash (u_pathname endpoint) @ ''/'') (u_pathname l) of
             None \<Rightarrow> UrlRejected
           | Some relative \<Rightarrow>
               if \<not> in_class session_char 1 128 (session_id_of relative) then UrlRejected
               else if u_search l \<noteq> [] \<or> u_hash l \<noteq> [] then UrlRejected
               else UrlOk (u_href l)))"

section \<open>The answer\<close>

definition CR :: char where "CR = CHR 0x0D"
definition LF :: char where "LF = CHR 0x0A"

definition sdp_char :: "char \<Rightarrow> bool" where
  "sdp_char c = (code c = 9 \<or> code c = 10 \<or> code c = 13 \<or> (32 \<le> code c \<and> code c \<le> 126))"

fun unix_lines :: "string \<Rightarrow> string" where
  "unix_lines (c # d # s) = (if c = CR \<and> d = LF then LF # unix_lines s else c # unix_lines (d # s))"
| "unix_lines s = s"

fun split_at :: "char \<Rightarrow> string \<Rightarrow> string list" where
  "split_at x [] = [[]]"
| "split_at x (c # s) = (if c = x then [] # split_at x s
     else case split_at x s of l # ls \<Rightarrow> (c # l) # ls | [] \<Rightarrow> [[c]])"

definition sdp_lines :: "string \<Rightarrow> string list" where
  "sdp_lines answer = filter (\<lambda>l. l \<noteq> []) (split_at LF (unix_lines answer))"

definition sdp_line_ok :: "string \<Rightarrow> bool" where
  "sdp_line_ok l = (length l \<le> 2048 \<and> (case l of a # e # _ \<Rightarrow> is_lower a \<and> e = CHR ''='' | _ \<Rightarrow> False))"

definition fingerprint_char :: "char \<Rightarrow> bool" where
  "fingerprint_char c = (is_digit c \<or> (is_lower (lower_char c) \<and> code (lower_char c) \<le> 102) \<or> c = CHR '':'')"

definition fingerprint_line :: "string \<Rightarrow> bool" where
  "fingerprint_line l = (case tail_after ''a=fingerprint:sha-256 '' (map lower_char l) of None \<Rightarrow> False
     | Some s \<Rightarrow> s \<noteq> [] \<and> list_all fingerprint_char s)"

definition validSdpAnswer :: "string \<Rightarrow> bool" where
  "validSdpAnswer answer =
     (if answer = [] \<or> length answer > 64 * 1024 \<or> \<not> starts_with ''v=0'' answer \<or> \<not> list_all sdp_char answer then False
      else let lines = sdp_lines answer in
        if length lines > 512 \<or> \<not> list_all sdp_line_ok lines then False
        else let media = filter (starts_with ''m='') lines in
          if length media < 1 \<or> length media > 2 \<or> length (filter (starts_with ''m=video '') media) \<noteq> 1
             \<or> \<not> list_all (\<lambda>l. starts_with ''m=video '' l \<or> starts_with ''m=audio '' l) media then False
          else length (filter (starts_with ''a=candidate:'') lines) \<le> 64 \<and> list_ex fingerprint_line lines)"

text \<open>\<open>boundedText\<close>: the chunks of the body are read until they exceed the limit; the reader is then
  cancelled and the rest is not taken.  The result says how many chunks were read.\<close>

datatype body_error = BodyTooLong | BodyNotText

fun read_chunks :: "nat \<Rightarrow> nat list list \<Rightarrow> nat list list \<Rightarrow> nat \<Rightarrow> (body_error + nat list) \<times> nat" where
  "read_chunks limit [] taken n = (Inr (concat taken), n)"
| "read_chunks limit (c # cs) taken n =
     (if length (concat taken) + length c > limit then (Inl BodyTooLong, Suc n)
      else read_chunks limit cs (taken @ [c]) (Suc n))"

definition boundedText :: "(nat list \<Rightarrow> string option) \<Rightarrow> nat list list option \<Rightarrow> nat \<Rightarrow> body_error + string" where
  "boundedText utf8 body limit =
     (case body of
        None \<Rightarrow> Inr []
      | Some chunks \<Rightarrow>
          (case fst (read_chunks limit chunks [] 0) of
             Inl e \<Rightarrow> Inl e
           | Inr bytes \<Rightarrow> (case utf8 bytes of None \<Rightarrow> Inl BodyNotText | Some t \<Rightarrow> Inr t)))"

section \<open>The reconnect ladder\<close>

definition RECONNECT_BASE_DELAYS_MS :: "int list" where
  "RECONNECT_BASE_DELAYS_MS = [3000, 5000, 10000, 20000, 40000, 60000]"

definition RECONNECT_MAX_DELAY_MS :: int where "RECONNECT_MAX_DELAY_MS = 60000"

definition ladder :: "nat \<Rightarrow> int" where
  "ladder i = (if i < length RECONNECT_BASE_DELAYS_MS then RECONNECT_BASE_DELAYS_MS ! i else RECONNECT_MAX_DELAY_MS)"

definition reconnectDelayMs :: "rat \<Rightarrow> rat \<Rightarrow> int" where
  "reconnectDelayMs attempt random =
     round_rat (of_int (ladder (nat (max 0 \<lfloor>attempt\<rfloor>))) * (85 / 100 + random * (3 / 10)))"

end
