(* ===== verification/WhepSession.thy ===== *)
theory WhepSession
  imports Whep
begin

text \<open>
  The playback connection (\<open>connectWhep\<close> in \<open>whep.ts\<close>).  The state holds the variables of the
  closure; an event is what the browser delivers: a timer that fires, a frame, a change of the
  peer connection, the user, or an awaited step of \<open>connect\<close> that has ended.  Every awaited step
  belongs to the generation that started it.  The browser delivers nothing for a cancelled timer, a
  cancelled frame callback or a closed peer connection, ends a request that was aborted with an
  abort error, and refuses a description on a closed peer connection.  What the code tells the
  outside is appended to the log.
\<close>

datatype connection_state = Checking | Connecting | Live | Reconnecting | OfflineState | Disabled

record playback_stage =
  sg_signaling :: bool
  sg_iceConnected :: bool
  sg_mediaReceived :: bool
  sg_firstFrame :: bool
  sg_playing :: bool
  sg_autoplayBlocked :: bool
  sg_reconnects :: nat
  sg_frames :: nat
  sg_lastError :: string

definition new_stage :: playback_stage where
  "new_stage = \<lparr>sg_signaling = False, sg_iceConnected = False, sg_mediaReceived = False, sg_firstFrame = False,
     sg_playing = False, sg_autoplayBlocked = False, sg_reconnects = 0, sg_frames = 0, sg_lastError = []\<rparr>"

definition HANDSHAKE_TIMEOUT_MS :: int where "HANDSHAKE_TIMEOUT_MS = 15000"
definition FIRST_FRAME_TIMEOUT_MS :: int where "FIRST_FRAME_TIMEOUT_MS = 20000"

text \<open>A timer variable: undefined, armed with its delay, or still set after its timer has fired.\<close>

datatype timer = Off | Armed int | Spent

datatype whep_output =
    StateIs connection_state
  | StageIs playback_stage
  | Attempted
  | FrameSeen
  | RetryIn int
  | SessionDeleted string
  | RemoteStreamIs nat
  | AuthorizationLost
  | QualityIs bool
  | JitterTarget rat
  | DiagnosticClosed

text \<open>The awaited steps of \<open>connect\<close>.\<close>

datatype phase =
    Resolving
  | Gathering web_url
  | Offering web_url
  | RejectedBy nat
  | ReadingAnswer
  | Answering

record offer_response =
  of_status :: nat
  of_contentType :: "string option"
  of_location :: "string option"

datatype failure = AbortError | Failure string

record whep =
  wh_closed :: bool
  wh_attempt :: nat
  wh_generation :: nat
  wh_peer :: "nat option"
  wh_session :: "string option"
  wh_retry :: timer
  wh_disconnected :: timer
  wh_handshake :: timer
  wh_firstFrame :: timer
  wh_watchdog :: "nat option"
  wh_poll :: "nat option"
  wh_frameCallback :: "nat option"
  wh_request :: "nat option"
  wh_rejected :: bool
  wh_lastFrameAt :: rat
  wh_lastFrameCount :: nat
  wh_lastVideoTime :: rat
  wh_cadence :: frame_cadence
  wh_network :: "network_sample option"
  wh_weak :: nat
  wh_healthy :: nat
  wh_lastNetworkAt :: rat
  wh_sampling :: bool
  wh_tracks :: "string list"
  wh_stage :: playback_stage
  wh_state :: "connection_state option"
  wh_flight :: "(nat \<times> phase) list"
  wh_log :: "whep_output list"

record whep_env =
  we_page :: web_url
  we_parse :: url_parser
  we_validate :: "string \<Rightarrow> web_url url_result"
  we_utf8 :: "nat list \<Rightarrow> string option"
  we_random :: "nat \<Rightarrow> rat"
  we_options :: playback_optimization
  we_frameCallbacks :: bool
  we_stats :: bool
  we_onRejected :: bool

definition fresh_whep :: whep where
  "fresh_whep = \<lparr>wh_closed = False, wh_attempt = 0, wh_generation = 0, wh_peer = None, wh_session = None,
     wh_retry = Off, wh_disconnected = Off, wh_handshake = Off, wh_firstFrame = Off, wh_watchdog = None, wh_poll = None,
     wh_frameCallback = None, wh_request = None, wh_rejected = False, wh_lastFrameAt = 0, wh_lastFrameCount = 0,
     wh_lastVideoTime = 0, wh_cadence = new_cadence, wh_network = None, wh_weak = 0, wh_healthy = 0,
     wh_lastNetworkAt = 0, wh_sampling = False, wh_tracks = [], wh_stage = new_stage, wh_state = None,
     wh_flight = [], wh_log = []\<rparr>"

section \<open>Reports\<close>

definition tell :: "whep_output \<Rightarrow> whep \<Rightarrow> whep" where
  "tell o' w = w\<lparr>wh_log := wh_log w @ [o']\<rparr>"

definition onState :: "connection_state \<Rightarrow> whep \<Rightarrow> whep" where
  "onState s w = tell (StateIs s) (w\<lparr>wh_state := Some s\<rparr>)"

definition report :: "(playback_stage \<Rightarrow> playback_stage) \<Rightarrow> whep \<Rightarrow> whep" where
  "report patch w = tell (StageIs (patch (wh_stage w))) (w\<lparr>wh_stage := patch (wh_stage w)\<rparr>)"

definition first_or_again :: "connection_state \<Rightarrow> whep \<Rightarrow> connection_state" where
  "first_or_again s w = (if wh_attempt w = 0 then s else Reconnecting)"

section \<open>Release and reconnect\<close>

definition clearTimers :: "whep \<Rightarrow> whep" where
  "clearTimers w = w\<lparr>wh_retry := Off, wh_disconnected := Off, wh_handshake := Off, wh_firstFrame := Off\<rparr>"

definition stopFrameTracking :: "whep \<Rightarrow> whep" where
  "stopFrameTracking w = w\<lparr>wh_watchdog := None, wh_poll := None, wh_frameCallback := None\<rparr>"

definition delete_session :: "whep \<Rightarrow> whep" where
  "delete_session w = (case wh_session w of None \<Rightarrow> w | Some l \<Rightarrow> tell (SessionDeleted l) (w\<lparr>wh_session := None\<rparr>))"

definition releaseSession :: "whep \<Rightarrow> whep" where
  "releaseSession w =
     delete_session ((stopFrameTracking w)\<lparr>wh_cadence := reset_cadence (wh_cadence w), wh_network := None, wh_weak := 0,
       wh_healthy := 0, wh_sampling := False, wh_lastNetworkAt := 0, wh_lastVideoTime := 0, wh_lastFrameCount := 0,
       wh_request := None, wh_peer := None\<rparr>)"

definition no_stage :: "string \<Rightarrow> playback_stage \<Rightarrow> playback_stage" where
  "no_stage reason s = s\<lparr>sg_signaling := False, sg_iceConnected := False, sg_mediaReceived := False,
     sg_firstFrame := False, sg_playing := False, sg_lastError := reason\<rparr>"

definition scheduleReconnect :: "whep_env \<Rightarrow> string \<Rightarrow> whep \<Rightarrow> whep" where
  "scheduleReconnect env reason w =
     (if wh_closed w \<or> wh_retry w \<noteq> Off then w
      else let w = releaseSession (clearTimers w);
               w = report (\<lambda>s. (no_stage reason s)\<lparr>sg_reconnects := sg_reconnects s + 1\<rparr>) w;
               w = onState (first_or_again OfflineState w) w;
               delay = reconnectDelayMs (of_nat (wh_attempt w)) (we_random env (sg_reconnects (wh_stage w)));
               w = tell (RetryIn delay) w
           in w\<lparr>wh_attempt := wh_attempt w + 1, wh_retry := Armed delay\<rparr>)"

section \<open>Frames\<close>

definition startWatchdog :: "nat \<Rightarrow> whep \<Rightarrow> whep" where
  "startWatchdog g w = (if wh_watchdog w \<noteq> None then w else w\<lparr>wh_watchdog := Some g\<rparr>)"

definition live_stage :: "playback_stage \<Rightarrow> playback_stage" where
  "live_stage s = s\<lparr>sg_firstFrame := True, sg_playing := True, sg_iceConnected := True, sg_mediaReceived := True,
     sg_autoplayBlocked := False\<rparr>"

definition markFrame :: "nat \<Rightarrow> rat \<Rightarrow> whep \<Rightarrow> whep" where
  "markFrame g now w =
     (if wh_closed w \<or> g \<noteq> wh_generation w then w
      else let w = tell FrameSeen (w\<lparr>wh_cadence := observe (wh_cadence w) now,
                 wh_stage := (wh_stage w)\<lparr>sg_frames := sg_frames (wh_stage w) + 1\<rparr>, wh_lastFrameAt := now\<rparr>)
           in if sg_firstFrame (wh_stage w) then w
              else startWatchdog g (onState Live ((report live_stage (w\<lparr>wh_firstFrame := Off\<rparr>))\<lparr>wh_attempt := 0\<rparr>)))"

definition startFrameTracking :: "whep_env \<Rightarrow> nat \<Rightarrow> whep \<Rightarrow> whep" where
  "startFrameTracking env g w = (if we_frameCallbacks env then w\<lparr>wh_frameCallback := Some g\<rparr> else w\<lparr>wh_poll := Some g\<rparr>)"

definition frame_callback :: "nat \<Rightarrow> rat \<Rightarrow> whep \<Rightarrow> whep" where
  "frame_callback g now w =
     (if wh_closed w \<or> g \<noteq> wh_generation w then w else (markFrame g now w)\<lparr>wh_frameCallback := Some g\<rparr>)"

text \<open>The poll of the decoded frame counter, for browsers without frame callbacks.\<close>

definition frame_poll :: "nat \<Rightarrow> rat \<Rightarrow> nat \<Rightarrow> bool \<Rightarrow> rat \<Rightarrow> whep \<Rightarrow> whep" where
  "frame_poll g now frames paused videoTime w =
     (if wh_closed w \<or> g \<noteq> wh_generation w then w
      else if frames > wh_lastFrameCount w \<or> (\<not> paused \<and> videoTime > wh_lastVideoTime w)
      then markFrame g now (w\<lparr>wh_lastVideoTime := videoTime, wh_lastFrameCount := max (wh_lastFrameCount w) frames\<rparr>)
      else w)"

section \<open>The watchdog\<close>

text \<open>The answer of the paused element to \<open>play()\<close> is an event of its own.\<close>

definition watchdog :: "whep_env \<Rightarrow> nat \<Rightarrow> page_state \<Rightarrow> bool \<Rightarrow> rat \<Rightarrow> whep \<Rightarrow> whep" where
  "watchdog env g page paused now w =
     (if wh_closed w \<or> g \<noteq> wh_generation w then w
      else if \<not> isPageVisible page then w
      else if paused then w
      else if wh_lastFrameAt w \<noteq> 0 \<and> now - wh_lastFrameAt w
            > stallAfterMs (wh_cadence w) (opt_enabled (we_options env) \<and> slowStreamTolerance (we_options env))
      then scheduleReconnect env ''frame_stall'' w
      else if \<not> opt_enabled (we_options env) \<or> wh_sampling w \<or> wh_peer w = None \<or> \<not> we_stats env
            \<or> now - wh_lastNetworkAt w < 3000
      then w
      else w\<lparr>wh_lastNetworkAt := now, wh_sampling := True\<rparr>)"

definition judge :: "whep_env \<Rightarrow> bool \<Rightarrow> whep \<Rightarrow> whep" where
  "judge env weak w =
     (let w = w\<lparr>wh_weak := (if weak then wh_weak w + 1 else 0), wh_healthy := (if weak then 0 else wh_healthy w + 1)\<rparr>;
          w = (if adaptiveProfiles (we_options env) \<and> (wh_weak w = 3 \<or> (wh_weak w \<ge> 10 \<and> wh_weak w mod 10 = 0))
               then tell (QualityIs True) w else w)
      in if adaptiveProfiles (we_options env) \<and> wh_healthy w = 20 then tell (QualityIs False) w else w)"

text \<open>One inbound video report; \<open>buffers\<close> is the number of video receivers with a jitter buffer target.\<close>

definition network_report :: "whep_env \<Rightarrow> nat \<Rightarrow> network_sample \<Rightarrow> whep \<Rightarrow> whep" where
  "network_report env buffers sample w =
     (let w = (case wh_network w of None \<Rightarrow> w | Some previous \<Rightarrow> judge env (congested previous sample) w);
          w = w\<lparr>wh_network := Some sample\<rparr>
      in if catchUp (we_options env)
         then fold (\<lambda>_. tell (JitterTarget (min 800 (max 120 (jitter sample * 3000))))) [0..<buffers] w else w)"

definition stats_read :: "whep_env \<Rightarrow> nat \<Rightarrow> network_sample list option \<Rightarrow> nat \<Rightarrow> whep \<Rightarrow> whep" where
  "stats_read env g stats buffers w =
     (let w = (case stats of None \<Rightarrow> w
          | Some samples \<Rightarrow> if wh_closed w \<or> wh_generation w \<noteq> g \<or> wh_peer w \<noteq> Some g then w
              else fold (network_report env buffers) samples w)
      in if wh_peer w = Some g then w\<lparr>wh_sampling := False\<rparr> else w)"

section \<open>Connecting\<close>

definition go_on :: "nat \<Rightarrow> phase \<Rightarrow> whep \<Rightarrow> whep" where
  "go_on g p w = w\<lparr>wh_flight := map (\<lambda>(i, q). if i = g then (i, p) else (i, q)) (wh_flight w)\<rparr>"

definition land_flight :: "nat \<Rightarrow> whep \<Rightarrow> whep" where
  "land_flight g w = w\<lparr>wh_flight := filter (\<lambda>(i, q). i \<noteq> g) (wh_flight w)\<rparr>"

definition connect :: "whep \<Rightarrow> whep" where
  "connect w =
     (if wh_closed w then w
      else let w = tell Attempted w;
               g = wh_generation w + 1;
               w = w\<lparr>wh_generation := g, wh_rejected := False\<rparr>;
               w = onState (first_or_again Checking w) w
           in w\<lparr>wh_request := Some g, wh_flight := wh_flight w @ [(g, Resolving)]\<rparr>)"

text \<open>The \<open>catch\<close> of \<open>connect\<close>.\<close>

definition catch_failure :: "whep_env \<Rightarrow> nat \<Rightarrow> failure \<Rightarrow> whep \<Rightarrow> whep" where
  "catch_failure env g e w =
     (let w = land_flight g w in
      case e of
        AbortError \<Rightarrow> w
      | Failure message \<Rightarrow>
          if wh_closed w \<or> g \<noteq> wh_generation w then w
          else if wh_rejected w
          then onState Disabled (report (no_stage ''authorization_rejected'') (releaseSession w))
          else scheduleReconnect env message w)"

definition gone :: "nat \<Rightarrow> whep \<Rightarrow> bool" where
  "gone g w = (g \<noteq> wh_generation w \<or> wh_closed w)"

definition resolved :: "whep_env \<Rightarrow> nat \<Rightarrow> failure + string option \<Rightarrow> whep \<Rightarrow> whep" where
  "resolved env g r w =
     (case r of
        Inl e \<Rightarrow> catch_failure env g e w
      | Inr v \<Rightarrow>
          if gone g w then land_flight g w
          else (case v of
             None \<Rightarrow> onState Disabled (land_flight g w)
           | Some address \<Rightarrow>
               (case we_validate env address of
                  UrlThrows \<Rightarrow> catch_failure env g (Failure ''Invalid URL'') w
                | UrlRejected \<Rightarrow> catch_failure env g (Failure ''WHEP endpoint is invalid'') w
                | UrlOk u \<Rightarrow>
                    go_on g (Gathering u)
                      (startFrameTracking env g ((onState (first_or_again Connecting w) w)\<lparr>wh_peer := Some g, wh_tracks := []\<rparr>)))))"

text \<open>The local offer is made and the candidates are gathered; the flag says whether there is an SDP offer.\<close>

definition gathered :: "whep_env \<Rightarrow> nat \<Rightarrow> web_url \<Rightarrow> failure + bool \<Rightarrow> whep \<Rightarrow> whep" where
  "gathered env g u r w =
     (case r of
        Inl e \<Rightarrow> catch_failure env g e w
      | Inr sdp \<Rightarrow>
          if gone g w then land_flight g w
          else if \<not> sdp then catch_failure env g (Failure ''Browser did not produce an SDP offer'') w
          else if wh_request w = None then catch_failure env g (Failure ''request is undefined'') w
          else go_on g (Offering u) w)"

text \<open>\<open>split(';', 1)[0].trim().toLowerCase()\<close>.\<close>

definition media_type :: "string \<Rightarrow> string" where
  "media_type v = map lower_char (trim (takeWhile (\<lambda>c. c \<noteq> CHR '';'') v))"

definition offer_answered :: "whep_env \<Rightarrow> nat \<Rightarrow> web_url \<Rightarrow> failure + offer_response \<Rightarrow> whep \<Rightarrow> whep" where
  "offer_answered env g u r w =
     (if wh_request w \<noteq> Some g then catch_failure env g AbortError w
      else case r of
        Inl e \<Rightarrow> catch_failure env g e w
      | Inr response \<Rightarrow>
          if of_status response = 401 \<or> of_status response = 403
          then go_on g (RejectedBy (of_status response))
                 ((if we_onRejected env then tell AuthorizationLost w else w)\<lparr>wh_rejected := True\<rparr>)
          else if of_status response \<noteq> 201 then catch_failure env g (Failure ''WHEP offer was rejected'') w
          else if map_option media_type (of_contentType response) \<noteq> Some ''application/sdp''
          then catch_failure env g (Failure ''WHEP answer content type is invalid'') w
          else (case validSessionLocation (we_parse env) (of_location response) u of
             UrlThrows \<Rightarrow> catch_failure env g (Failure ''Invalid URL'') w
           | UrlRejected \<Rightarrow> catch_failure env g (Failure ''WHEP session location is invalid'') w
           | UrlOk location \<Rightarrow> go_on g ReadingAnswer (w\<lparr>wh_session := Some location\<rparr>)))"

definition rejection_handled :: "whep_env \<Rightarrow> nat \<Rightarrow> failure + unit \<Rightarrow> whep \<Rightarrow> whep" where
  "rejection_handled env g r w =
     (case r of Inl e \<Rightarrow> catch_failure env g e w
      | Inr _ \<Rightarrow> catch_failure env g (Failure ''WHEP offer was rejected'') w)"

definition ANSWER_LIMIT :: nat where "ANSWER_LIMIT = 64 * 1024"

definition body_message :: "body_error \<Rightarrow> string" where
  "body_message e = (case e of BodyTooLong \<Rightarrow> ''WHEP response exceeds its size limit'' | BodyNotText \<Rightarrow> ''The encoded data was not valid'')"

definition answer_read :: "whep_env \<Rightarrow> nat \<Rightarrow> failure + nat list list option \<Rightarrow> whep \<Rightarrow> whep" where
  "answer_read env g r w =
     (if wh_request w \<noteq> Some g then catch_failure env g AbortError w
      else case r of
        Inl e \<Rightarrow> catch_failure env g e w
      | Inr body \<Rightarrow>
          (case boundedText (we_utf8 env) body ANSWER_LIMIT of
             Inl e \<Rightarrow> catch_failure env g (Failure (body_message e)) w
           | Inr answer \<Rightarrow>
               if \<not> validSdpAnswer answer then catch_failure env g (Failure ''WHEP answer is invalid'') w
               else go_on g Answering w))"

definition answer_applied :: "whep_env \<Rightarrow> nat \<Rightarrow> failure + unit \<Rightarrow> whep \<Rightarrow> whep" where
  "answer_applied env g r w =
     (case r of
        Inl e \<Rightarrow> catch_failure env g e w
      | Inr _ \<Rightarrow>
          if wh_peer w \<noteq> Some g then catch_failure env g (Failure ''InvalidStateError'') w
          else (report (\<lambda>s. s\<lparr>sg_signaling := True\<rparr>) (land_flight g w))\<lparr>wh_handshake := Armed HANDSHAKE_TIMEOUT_MS\<rparr>)"

section \<open>The peer connection, its timers and the user\<close>

datatype peer_state = PeerConnected | PeerFailed | PeerDisconnected | PeerConnecting | PeerOther

definition track_added :: "nat \<Rightarrow> string \<Rightarrow> whep \<Rightarrow> whep" where
  "track_added g t w =
     (if gone g w then w
      else tell (RemoteStreamIs g) (report (\<lambda>s. s\<lparr>sg_mediaReceived := True\<rparr>)
             (if t \<in> set (wh_tracks w) then w else w\<lparr>wh_tracks := wh_tracks w @ [t]\<rparr>)))"

definition first_frame_wait :: "whep_env \<Rightarrow> int" where
  "first_frame_wait env = (if opt_enabled (we_options env) \<and> slowStreamTolerance (we_options env) then 45000
     else FIRST_FRAME_TIMEOUT_MS)"

definition peer_changed :: "whep_env \<Rightarrow> nat \<Rightarrow> peer_state \<Rightarrow> whep \<Rightarrow> whep" where
  "peer_changed env g s w =
     (if gone g w then w
      else case s of
        PeerConnected \<Rightarrow>
          (let w = report (\<lambda>s. s\<lparr>sg_iceConnected := True\<rparr>) (w\<lparr>wh_handshake := Off\<rparr>)
           in if \<not> sg_firstFrame (wh_stage w) \<and> wh_firstFrame w = Off
              then w\<lparr>wh_firstFrame := Armed (first_frame_wait env)\<rparr> else w)
      | PeerFailed \<Rightarrow> scheduleReconnect env ''ice_failed'' w
      | PeerDisconnected \<Rightarrow> if wh_disconnected w = Off then w\<lparr>wh_disconnected := Armed 3000\<rparr> else w
      | PeerConnecting \<Rightarrow> if wh_disconnected w \<noteq> Off then w\<lparr>wh_disconnected := Off\<rparr> else w
      | PeerOther \<Rightarrow> w)"

fun armed :: "timer \<Rightarrow> bool" where
  "armed (Armed _) = True"
| "armed _ = False"

definition retry_fired :: "whep \<Rightarrow> whep" where
  "retry_fired w = (if armed (wh_retry w) then connect (w\<lparr>wh_retry := Off\<rparr>) else w)"

definition disconnected_fired :: "whep_env \<Rightarrow> whep \<Rightarrow> whep" where
  "disconnected_fired env w =
     (if armed (wh_disconnected w) then scheduleReconnect env ''ice_disconnected'' (w\<lparr>wh_disconnected := Spent\<rparr>) else w)"

definition handshake_fired :: "whep_env \<Rightarrow> whep \<Rightarrow> whep" where
  "handshake_fired env w =
     (if \<not> armed (wh_handshake w) then w
      else let w = w\<lparr>wh_handshake := Spent\<rparr>
           in if \<not> sg_iceConnected (wh_stage w) then scheduleReconnect env ''ice_timeout'' w else w)"

definition first_frame_fired :: "whep_env \<Rightarrow> whep \<Rightarrow> whep" where
  "first_frame_fired env w =
     (if \<not> armed (wh_firstFrame w) then w
      else let w = w\<lparr>wh_firstFrame := Spent\<rparr>
           in if \<not> sg_firstFrame (wh_stage w) then scheduleReconnect env ''first_frame_timeout'' w else w)"

definition whep_close :: "whep \<Rightarrow> whep" where
  "whep_close w =
     (if wh_closed w then w
      else let w = tell DiagnosticClosed (w\<lparr>wh_closed := True\<rparr>)
           in releaseSession (clearTimers (w\<lparr>wh_generation := wh_generation w + 1\<rparr>)))"

definition resume :: "bool \<Rightarrow> whep \<Rightarrow> whep" where
  "resume played w =
     (if played then report (\<lambda>s. s\<lparr>sg_autoplayBlocked := False, sg_playing := True\<rparr>) w
      else report (\<lambda>s. s\<lparr>sg_autoplayBlocked := True, sg_playing := False\<rparr>) w)"

section \<open>One event\<close>

datatype whep_event =
    Resolved nat "failure + string option"
  | Gathered nat "failure + bool"
  | OfferAnswered nat "failure + offer_response"
  | RejectionHandled nat "failure + unit"
  | AnswerRead nat "failure + nat list list option"
  | AnswerApplied nat "failure + unit"
  | TrackAdded nat string
  | PeerChanged nat peer_state
  | RetryFired
  | DisconnectedFired
  | HandshakeFired
  | FirstFrameFired
  | FrameCallback nat rat
  | FramePoll nat rat nat bool rat
  | WatchdogTick nat page_state bool rat
  | StatsRead nat "network_sample list option" nat
  | TrackPlayRefused
  | WatchdogPlayRefused
  | Resumed bool
  | Closed

fun whep_step :: "whep_env \<Rightarrow> whep \<Rightarrow> whep_event \<Rightarrow> whep" where
  "whep_step env w (Resolved g r) = (if map_of (wh_flight w) g = Some Resolving then resolved env g r w else w)"
| "whep_step env w (Gathered g r) = (case map_of (wh_flight w) g of Some (Gathering u) \<Rightarrow> gathered env g u r w | _ \<Rightarrow> w)"
| "whep_step env w (OfferAnswered g r) = (case map_of (wh_flight w) g of Some (Offering u) \<Rightarrow> offer_answered env g u r w | _ \<Rightarrow> w)"
| "whep_step env w (RejectionHandled g r) = (case map_of (wh_flight w) g of Some (RejectedBy _) \<Rightarrow> rejection_handled env g r w | _ \<Rightarrow> w)"
| "whep_step env w (AnswerRead g r) = (if map_of (wh_flight w) g = Some ReadingAnswer then answer_read env g r w else w)"
| "whep_step env w (AnswerApplied g r) = (if map_of (wh_flight w) g = Some Answering then answer_applied env g r w else w)"
| "whep_step env w (TrackAdded g t) = (if wh_peer w = Some g then track_added g t w else w)"
| "whep_step env w (PeerChanged g s) = (if wh_peer w = Some g then peer_changed env g s w else w)"
| "whep_step env w RetryFired = retry_fired w"
| "whep_step env w DisconnectedFired = disconnected_fired env w"
| "whep_step env w HandshakeFired = handshake_fired env w"
| "whep_step env w FirstFrameFired = first_frame_fired env w"
| "whep_step env w (FrameCallback g now) = (if wh_frameCallback w = Some g then frame_callback g now w else w)"
| "whep_step env w (FramePoll g now frames paused t) = (if wh_poll w = Some g then frame_poll g now frames paused t w else w)"
| "whep_step env w (WatchdogTick g page paused now) = (if wh_watchdog w = Some g then watchdog env g page paused now w else w)"
| "whep_step env w (StatsRead g stats buffers) = stats_read env g stats buffers w"
| "whep_step env w TrackPlayRefused = report (\<lambda>s. s\<lparr>sg_autoplayBlocked := True\<rparr>) w"
| "whep_step env w WatchdogPlayRefused = report (\<lambda>s. s\<lparr>sg_autoplayBlocked := True, sg_playing := False\<rparr>) w"
| "whep_step env w (Resumed played) = resume played w"
| "whep_step env w Closed = whep_close w"

definition connectWhep :: whep where
  "connectWhep = connect fresh_whep"

text \<open>A request ends with an abort error only when it was aborted.\<close>

fun honest :: "whep \<Rightarrow> whep_event \<Rightarrow> bool" where
  "honest w (Resolved g (Inl AbortError)) = (wh_request w \<noteq> Some g)"
| "honest w (Gathered g (Inl AbortError)) = (wh_request w \<noteq> Some g)"
| "honest w (OfferAnswered g (Inl AbortError)) = (wh_request w \<noteq> Some g)"
| "honest w (RejectionHandled g (Inl AbortError)) = (wh_request w \<noteq> Some g)"
| "honest w (AnswerRead g (Inl AbortError)) = (wh_request w \<noteq> Some g)"
| "honest w (AnswerApplied g (Inl AbortError)) = (wh_request w \<noteq> Some g)"
| "honest w _ = True"

text \<open>The states a connection can be in.\<close>

inductive whep_reachable :: "whep_env \<Rightarrow> whep \<Rightarrow> bool" for env where
  opened: "whep_reachable env connectWhep"
| event: "whep_reachable env w \<Longrightarrow> honest w e \<Longrightarrow> whep_reachable env (whep_step env w e)"

end
