(* ===== verification/WhepSafety.thy ===== *)
theory WhepSafety
  imports WhepSession
begin

text \<open>
  What the playback connection guarantees: it never gets stuck, it holds nothing once it is closed,
  and it says that the picture is live only when a frame was shown.
\<close>

section \<open>The invariant\<close>

definition tracked_by_none :: "whep \<Rightarrow> bool" where
  "tracked_by_none w = (wh_watchdog w = None \<and> wh_poll w = None \<and> wh_frameCallback w = None)"

definition holds_nothing :: "whep \<Rightarrow> bool" where
  "holds_nothing w = (wh_disconnected w = Off \<and> wh_handshake w = Off \<and> wh_firstFrame w = Off \<and> tracked_by_none w
     \<and> wh_peer w = None \<and> wh_session w = None \<and> wh_request w = None)"

definition flight_ids :: "whep \<Rightarrow> nat list" where
  "flight_ids w = map fst (wh_flight w)"

definition flights_ok :: "whep \<Rightarrow> bool" where
  "flights_ok w = (list_all (\<lambda>g. g \<le> wh_generation w) (flight_ids w) \<and> distinct (flight_ids w)
     \<and> (map_of (wh_flight w) (wh_generation w) = Some Resolving \<longrightarrow>
          wh_peer w = None \<and> wh_session w = None \<and> wh_request w = Some (wh_generation w)
          \<and> wh_retry w = Off \<and> wh_disconnected w = Off \<and> wh_handshake w = Off \<and> wh_firstFrame w = Off)
     \<and> (map_of (wh_flight w) (wh_generation w) \<notin> {None, Some Resolving} \<and> wh_request w \<noteq> None \<longrightarrow> wh_peer w \<noteq> None))"

definition media_ok :: "whep \<Rightarrow> bool" where
  "media_ok w = ((wh_peer w = None \<longrightarrow> wh_session w = None \<and> tracked_by_none w)
     \<and> {wh_peer w, wh_watchdog w, wh_poll w, wh_frameCallback w, wh_request w} \<subseteq> {None, Some (wh_generation w)}
     \<and> (wh_peer w \<noteq> None \<longrightarrow> (sg_firstFrame (wh_stage w) \<longleftrightarrow> wh_watchdog w \<noteq> None))
     \<and> (wh_peer w \<noteq> None \<and> sg_iceConnected (wh_stage w) \<longrightarrow> armed (wh_firstFrame w) \<or> wh_watchdog w \<noteq> None)
     \<and> (wh_peer w = None \<and> \<not> wh_closed w \<longrightarrow> \<not> sg_firstFrame (wh_stage w) \<and> \<not> sg_iceConnected (wh_stage w))
     \<and> (wh_firstFrame w \<noteq> Off \<longrightarrow> armed (wh_firstFrame w) \<and> \<not> sg_firstFrame (wh_stage w)))"

definition whep_inv :: "whep \<Rightarrow> bool" where
  "whep_inv w = ((wh_closed w \<longrightarrow> wh_retry w = Off \<and> holds_nothing w)
     \<and> (wh_retry w \<noteq> Off \<longrightarrow> armed (wh_retry w) \<and> holds_nothing w)
     \<and> flights_ok w \<and> media_ok w)"

text \<open>Something is still going to happen: a reconnect is due, a step of \<open>connect\<close> is under way with a
  live request, or a timer or the watchdog watches over the peer connection.\<close>

definition advancing :: "whep \<Rightarrow> bool" where
  "advancing w = (armed (wh_retry w)
     \<or> (map_of (wh_flight w) (wh_generation w) \<noteq> None \<and> wh_request w = Some (wh_generation w))
     \<or> (wh_peer w \<noteq> None \<and> (armed (wh_handshake w) \<or> armed (wh_firstFrame w) \<or> wh_watchdog w \<noteq> None)))"

definition whep_good :: "whep \<Rightarrow> bool" where
  "whep_good w = (whep_inv w \<and> (\<not> wh_closed w \<and> wh_state w \<noteq> Some Disabled \<longrightarrow> advancing w))"

lemmas whep_simps = flight_ids_def whep_good_def whep_inv_def flights_ok_def media_ok_def holds_nothing_def tracked_by_none_def advancing_def

lemmas quiet_ops = tell_def onState_def report_def clearTimers_def stopFrameTracking_def delete_session_def
  releaseSession_def no_stage_def live_stage_def Let_def

lemma tell_frame [simp]: "whep_good (tell o' w) = whep_good w" "wh_flight (tell o' w) = wh_flight w"
  by (simp_all add: whep_simps tell_def)

lemma map_of_land: "map_of (filter (\<lambda>(i, q). i \<noteq> g) fs) h = (if h = g then None else map_of fs h)"
  by (induction fs) auto

lemma fst_land: "map fst (filter (\<lambda>(i, q). i \<noteq> g) fs) = filter (\<lambda>i. i \<noteq> g) (map fst fs)"
  by (induction fs) auto

lemma released:
  "holds_nothing (releaseSession (clearTimers w))" "wh_peer (releaseSession w) = None" "wh_session (releaseSession w) = None"
  "wh_request (releaseSession w) = None" "tracked_by_none (releaseSession w)"
  "wh_closed (releaseSession w) = wh_closed w" "wh_generation (releaseSession w) = wh_generation w"
  "wh_flight (releaseSession w) = wh_flight w" "wh_stage (releaseSession w) = wh_stage w"
  "wh_retry (releaseSession w) = wh_retry w" "wh_firstFrame (releaseSession w) = wh_firstFrame w"
  "wh_attempt (releaseSession w) = wh_attempt w" "wh_state (releaseSession w) = wh_state w"
  by (simp_all add: quiet_ops holds_nothing_def tracked_by_none_def split: option.split)

lemma reconnected:
  fixes env reason
  assumes "\<not> wh_closed w" and "wh_retry w = Off"
  defines "w' \<equiv> scheduleReconnect env reason w"
  shows "armed (wh_retry w')" "holds_nothing w'" "wh_closed w' = False" "wh_generation w' = wh_generation w"
    "wh_flight w' = wh_flight w" "\<not> sg_firstFrame (wh_stage w')" "\<not> sg_iceConnected (wh_stage w')"
    "wh_state w' \<noteq> Some Disabled"
  using assms(1,2) unfolding w'_def scheduleReconnect_def
  by (simp_all add: quiet_ops holds_nothing_def tracked_by_none_def first_or_again_def split: option.split)

definition busy :: "whep \<Rightarrow> bool" where
  "busy w = (map_of (wh_flight w) (wh_generation w) = Some Resolving)"

lemma inv_reconnect:
  assumes "whep_inv w" and "\<not> wh_closed w" and "\<not> busy w"
  shows "whep_good (scheduleReconnect env reason w)"
proof (cases "wh_retry w = Off")
  case True
  note r = reconnected [OF assms(2) True, of env reason]
  have "flights_ok (scheduleReconnect env reason w)"
    using assms(1,3) r(2) by (simp add: flights_ok_def flight_ids_def r(4,5) busy_def whep_inv_def holds_nothing_def)
  moreover have "media_ok (scheduleReconnect env reason w)"
    using r(2,6,7) by (auto simp: media_ok_def holds_nothing_def tracked_by_none_def)
  ultimately show ?thesis using r by (simp add: whep_good_def whep_inv_def advancing_def)
next
  case False
  with assms show ?thesis by (simp add: scheduleReconnect_def whep_good_def whep_inv_def advancing_def)
qed

lemma flights_land: "flights_ok w \<Longrightarrow> flights_ok (land_flight g w)"
  by (auto simp: flights_ok_def flight_ids_def land_flight_def fst_land map_of_land list_all_iff)

lemma land_frame [simp]:
  "wh_closed (land_flight g w) = wh_closed w" "wh_retry (land_flight g w) = wh_retry w"
  "holds_nothing (land_flight g w) = holds_nothing w" "media_ok (land_flight g w) = media_ok w"
  "wh_state (land_flight g w) = wh_state w" "wh_generation (land_flight g w) = wh_generation w"
  "wh_peer (land_flight g w) = wh_peer w" "wh_stage (land_flight g w) = wh_stage w"
  "wh_rejected (land_flight g w) = wh_rejected w" "wh_request (land_flight g w) = wh_request w"
  by (simp_all add: land_flight_def holds_nothing_def tracked_by_none_def media_ok_def)

lemma inv_land: "whep_inv w \<Longrightarrow> whep_inv (land_flight g w)"
  by (simp add: whep_inv_def flights_land)

lemma land_not_busy: "\<not> busy (land_flight (wh_generation w) w)"
  by (simp add: busy_def land_flight_def map_of_land)

lemma advancing_land:
  "advancing w \<Longrightarrow> g \<noteq> wh_generation w \<or> wh_request w \<noteq> Some g \<Longrightarrow> advancing (land_flight g w)"
  by (auto simp: advancing_def land_flight_def map_of_land)

lemma good_land:
  "whep_good w \<Longrightarrow> wh_closed w \<or> g \<noteq> wh_generation w \<or> wh_request w \<noteq> Some g \<Longrightarrow> whep_good (land_flight g w)"
  unfolding whep_good_def using inv_land [of w g] advancing_land [of w g] by auto

lemma inv_rejected:
  assumes "whep_inv w" and "\<not> wh_closed w" and "\<not> busy w"
  shows "whep_good (onState Disabled (report (no_stage reason) (releaseSession w)))"
  using assms unfolding whep_simps busy_def
  by (simp add: quiet_ops split: option.split)

section \<open>The steps of \<open>connect\<close>\<close>

lemma good_catch:
  assumes "whep_good w" and "e = AbortError \<Longrightarrow> wh_request w \<noteq> Some g"
  shows "whep_good (catch_failure env g e w)"
proof (cases e)
  case AbortError
  with assms show ?thesis by (simp add: catch_failure_def good_land)
next
  case (Failure message)
  show ?thesis
  proof (cases "wh_closed w \<or> g \<noteq> wh_generation w")
    case True
    with Failure assms(1) show ?thesis by (auto simp: catch_failure_def Let_def good_land)
  next
    case False
    then have "\<not> busy (land_flight g w)" using land_not_busy [of w] by simp
    moreover from assms(1) have "whep_inv (land_flight g w)" by (simp add: whep_good_def inv_land)
    ultimately show ?thesis
      using False Failure by (simp add: catch_failure_def Let_def inv_rejected inv_reconnect)
  qed
qed

lemma good_failure: "whep_good w \<Longrightarrow> whep_good (catch_failure env g (Failure m) w)"
  by (rule good_catch) simp_all

lemma onState_frame [simp]:
  "whep_inv (onState s w) = whep_inv w" "wh_closed (onState s w) = wh_closed w" "advancing (onState s w) = advancing w"
  "flight_ids (onState s w) = flight_ids w" "wh_state (onState s w) = Some s"
  by (simp_all add: onState_def tell_def whep_inv_def flight_ids_def flights_ok_def media_ok_def holds_nothing_def tracked_by_none_def advancing_def)

lemma good_state:
  "whep_inv w \<Longrightarrow> s = Disabled \<or> wh_closed w \<or> advancing w \<Longrightarrow> whep_good (onState s w)"
  by (auto simp: whep_good_def)

lemma go_frame [simp]:
  "wh_closed (go_on g p w) = wh_closed w" "wh_retry (go_on g p w) = wh_retry w"
  "holds_nothing (go_on g p w) = holds_nothing w" "media_ok (go_on g p w) = media_ok w"
  "wh_state (go_on g p w) = wh_state w" "wh_generation (go_on g p w) = wh_generation w"
  "wh_peer (go_on g p w) = wh_peer w" "wh_session (go_on g p w) = wh_session w" "wh_request (go_on g p w) = wh_request w"
  "wh_disconnected (go_on g p w) = wh_disconnected w" "wh_handshake (go_on g p w) = wh_handshake w"
  "wh_firstFrame (go_on g p w) = wh_firstFrame w" "wh_watchdog (go_on g p w) = wh_watchdog w"
  by (simp_all add: go_on_def holds_nothing_def tracked_by_none_def media_ok_def)

lemma flight_ids_go [simp]: "flight_ids (go_on g p w) = flight_ids w"
  unfolding flight_ids_def go_on_def by (auto simp: comp_def)

lemma flight_ids_frame [simp]:
  "flight_ids (w\<lparr>wh_peer := x\<rparr>) = flight_ids w" "flight_ids (w\<lparr>wh_tracks := y\<rparr>) = flight_ids w"
  "flight_ids (startFrameTracking env g w) = flight_ids w"
  by (simp_all add: flight_ids_def startFrameTracking_def)

lemma map_of_go: "map_of (wh_flight (go_on g p w)) h
   = (if h = g \<and> map_of (wh_flight w) g \<noteq> None then Some p else map_of (wh_flight w) h)"
proof -
  have "map_of (map (\<lambda>(i, q). if i = g then (i, p) else (i, q)) fs) h
     = (if h = g \<and> map_of fs g \<noteq> None then Some p else map_of fs h)" for fs
    by (induction fs) auto
  then show ?thesis by (simp add: go_on_def)
qed

lemma flights_go: "flights_ok w \<Longrightarrow> p \<noteq> Resolving \<Longrightarrow> map_of (wh_flight w) g \<noteq> Some Resolving \<Longrightarrow> flights_ok (go_on g p w)"
  by (simp add: flights_ok_def map_of_go)

lemma inv_go: "whep_inv w \<Longrightarrow> p \<noteq> Resolving \<Longrightarrow> map_of (wh_flight w) g \<noteq> Some Resolving \<Longrightarrow> whep_inv (go_on g p w)"
  by (simp add: whep_inv_def flights_go)

lemma advancing_go: "advancing w \<Longrightarrow> advancing (go_on g p w)"
  by (auto simp: advancing_def map_of_go)

lemma good_go: "whep_good w \<Longrightarrow> p \<noteq> Resolving \<Longrightarrow> map_of (wh_flight w) g \<noteq> Some Resolving \<Longrightarrow> whep_good (go_on g p w)"
  unfolding whep_good_def using inv_go [of w p g] advancing_go [of w g p] by auto

lemma good_peer:
  assumes "whep_inv w" and "busy w" and "\<not> wh_closed w" and "p \<noteq> Resolving"
  defines "g \<equiv> wh_generation w"
  shows "whep_good (go_on g p (startFrameTracking env g ((onState s w)\<lparr>wh_peer := Some g, wh_tracks := []\<rparr>)))"
    (is "whep_good (go_on g p ?w)")
proof -
  have q: "wh_peer w = None" "wh_retry w = Off" "wh_disconnected w = Off" "wh_handshake w = Off" "wh_firstFrame w = Off"
    "wh_request w = Some g" "tracked_by_none w" "\<not> sg_firstFrame (wh_stage w)" "\<not> sg_iceConnected (wh_stage w)"
    using assms(1-3) unfolding whep_inv_def flights_ok_def media_ok_def busy_def g_def by simp_all
  have sel: "wh_peer ?w = Some g" "wh_watchdog ?w = None" "wh_poll ?w \<in> {None, Some g}" "wh_frameCallback ?w \<in> {None, Some g}"
    "wh_request ?w = Some g" "wh_generation ?w = g" "wh_stage ?w = wh_stage w" "wh_firstFrame ?w = Off"
    using q(5,6,7) by (simp_all add: startFrameTracking_def onState_def tell_def tracked_by_none_def g_def)
  then have "media_ok ?w" using q(8,9) unfolding media_ok_def by auto
  moreover have "flights_ok (go_on g p ?w)"
    using assms(1,2,4) unfolding whep_inv_def flights_ok_def
    by (simp add: map_of_go g_def busy_def) (simp add: startFrameTracking_def onState_def tell_def)
  moreover have "advancing (go_on g p ?w)"
    using assms(2) q(6) by (simp add: advancing_def startFrameTracking_def onState_def tell_def map_of_go g_def busy_def)
  moreover have "wh_closed ?w = False" "wh_retry ?w = Off"
    using q(2) assms(3) by (simp_all add: startFrameTracking_def onState_def tell_def)
  ultimately show ?thesis by (simp add: whep_good_def whep_inv_def)
qed

lemma good_resolved:
  assumes "whep_good w" and "map_of (wh_flight w) g = Some Resolving" and "honest w (Resolved g r)"
  shows "whep_good (resolved env g r w)"
proof (cases r)
  case (Inl e)
  with assms show ?thesis by (cases e) (auto simp: resolved_def intro: good_catch)
next
  case (Inr v)
  show ?thesis
  proof (cases "gone g w")
    case True
    with Inr assms show ?thesis by (auto simp: resolved_def gone_def intro: good_land)
  next
    case False
    then have g: "g = wh_generation w" "\<not> wh_closed w" by (auto simp: gone_def)
    then have b: "busy w" using assms(2) by (simp add: busy_def)
    have i: "whep_inv w" using assms(1) by (simp add: whep_good_def)
    from good_peer [OF i b g(2)] show ?thesis
      using Inr False assms(1) i
      by (auto simp: resolved_def g(1) intro: good_catch good_state inv_land split: option.split url_result.split)
  qed
qed

lemma good_gathered:
  assumes "whep_good w" and "map_of (wh_flight w) g = Some (Gathering u)" and "honest w (Gathered g r)"
  shows "whep_good (gathered env g u r w)"
proof (cases r)
  case (Inl e)
  with assms show ?thesis by (cases e) (auto simp: gathered_def intro: good_catch)
next
  case (Inr sdp)
  with assms(1,2) show ?thesis
    by (auto simp: gathered_def gone_def intro: good_land good_catch good_go)
qed

lemma good_rejected [simp]: "whep_good (w\<lparr>wh_rejected := b\<rparr>) = whep_good w"
  by (simp add: whep_simps)

lemma peer_of_flight:
  assumes "whep_inv w" and "wh_request w = Some g" and "map_of (wh_flight w) g = Some p" and "p \<noteq> Resolving"
  shows "wh_peer w = Some g \<and> g = wh_generation w \<and> \<not> wh_closed w \<and> wh_retry w = Off"
  using assms unfolding whep_inv_def flights_ok_def media_ok_def holds_nothing_def by auto

lemma good_session:
  assumes "whep_good w" and "wh_request w = Some g" and "map_of (wh_flight w) g = Some p" "p \<noteq> Resolving"
  shows "whep_good (w\<lparr>wh_session := Some l\<rparr>)" (is "whep_good ?w")
proof -
  have i: "whep_inv w" using assms(1) by (simp add: whep_good_def)
  note f = peer_of_flight [OF i assms(2-4)]
  have "flights_ok ?w" using i f assms(3,4) by (simp add: whep_inv_def flights_ok_def flight_ids_def)
  moreover have "media_ok ?w" using i f by (auto simp: whep_inv_def media_ok_def)
  moreover have "advancing ?w" using f assms(2,3) by (simp add: advancing_def)
  ultimately show ?thesis using f by (simp add: whep_good_def whep_inv_def)
qed

lemma good_offer:
  assumes "whep_good w" and "map_of (wh_flight w) g = Some (Offering u)" and "honest w (OfferAnswered g r)"
  shows "whep_good (offer_answered env g u r w)"
proof (cases "wh_request w = Some g")
  case False
  with assms(1) show ?thesis by (simp add: offer_answered_def good_catch)
next
  case True
  show ?thesis
  proof (cases r)
    case (Inl e)
    with assms(1,3) True show ?thesis by (cases e) (auto simp: offer_answered_def intro: good_catch)
  next
    case (Inr response)
    have s: "whep_good (w\<lparr>wh_session := Some l\<rparr>)" for l
      by (rule good_session [OF assms(1) True assms(2)]) simp
    have c: "whep_good (catch_failure env g (Failure m) w)" for m
      by (rule good_failure [OF assms(1)])
    have "whep_good (if b then tell AuthorizationLost w else w)" for b by (simp add: assms(1))
    then have r: "whep_good (go_on g (RejectedBy n) ((if b then tell AuthorizationLost w else w)\<lparr>wh_rejected := True\<rparr>))" for n b
      using assms(2) by (intro good_go) simp_all
    show ?thesis
      by (simp add: offer_answered_def Inr True c r good_go s assms(2) split: url_result.split)
  qed
qed

lemma good_rejection:
  assumes "whep_good w" and "honest w (RejectionHandled g r)"
  shows "whep_good (rejection_handled env g r w)"
  using assms by (cases r; cases "projl r") (auto simp: rejection_handled_def intro: good_catch)

lemma good_read:
  assumes "whep_good w" and "map_of (wh_flight w) g = Some ReadingAnswer" and "honest w (AnswerRead g r)"
  shows "whep_good (answer_read env g r w)"
proof (cases "wh_request w = Some g")
  case False
  with assms(1) show ?thesis by (simp add: answer_read_def good_catch)
next
  case True
  have c: "whep_good (catch_failure env g (Failure m) w)" for m
    by (rule good_failure [OF assms(1)])
  show ?thesis
  proof (cases r)
    case (Inl e)
    with assms(1,3) True show ?thesis by (cases e) (auto simp: answer_read_def intro: good_catch)
  next
    case (Inr body)
    then show ?thesis
      by (simp add: answer_read_def True c good_go assms(1,2) split: sum.split)
  qed
qed

lemma report_frame [simp]:
  "wh_closed (report f w) = wh_closed w" "wh_retry (report f w) = wh_retry w" "wh_peer (report f w) = wh_peer w"
  "wh_firstFrame (report f w) = wh_firstFrame w" "wh_watchdog (report f w) = wh_watchdog w"
  "wh_generation (report f w) = wh_generation w" "wh_stage (report f w) = f (wh_stage w)" "wh_state (report f w) = wh_state w"
  "holds_nothing (report f w) = holds_nothing w" "flights_ok (report f w) = flights_ok w" "advancing (report f w) = advancing w"
  "wh_frameCallback (report f w) = wh_frameCallback w" "wh_poll (report f w) = wh_poll w" "wh_request (report f w) = wh_request w"
  "wh_session (report f w) = wh_session w" "tracked_by_none (report f w) = tracked_by_none w"
  by (simp_all add: report_def tell_def whep_simps)

text \<open>A report that leaves the two stages alone which the timers look at.\<close>

lemma good_report:
  "whep_good w \<Longrightarrow> (\<And>s. sg_firstFrame (f s) = sg_firstFrame s \<and> sg_iceConnected (f s) = sg_iceConnected s) \<Longrightarrow> whep_good (report f w)"
  by (simp add: whep_good_def whep_inv_def media_ok_def)

lemma good_applied:
  assumes "whep_good w" and "map_of (wh_flight w) g = Some Answering" and "honest w (AnswerApplied g r)"
  shows "whep_good (answer_applied env g r w)"
proof (cases r)
  case (Inl e)
  with assms show ?thesis by (cases e) (auto simp: answer_applied_def intro: good_catch)
next
  case (Inr x)
  show ?thesis
  proof (cases "wh_peer w = Some g")
    case False
    with Inr assms(1) show ?thesis by (simp add: answer_applied_def good_failure)
  next
    case True
    have i: "whep_inv w" using assms(1) by (simp add: whep_good_def)
    with True have g: "g = wh_generation w" "\<not> wh_closed w" "wh_retry w = Off"
      by (auto simp: whep_inv_def media_ok_def holds_nothing_def)
    let ?v = "report (\<lambda>s. s\<lparr>sg_signaling := True\<rparr>) (land_flight g w)"
    have "flights_ok (?v\<lparr>wh_handshake := Armed HANDSHAKE_TIMEOUT_MS\<rparr>)"
      using i flights_land [of w g] True unfolding whep_inv_def
      by (simp add: flights_ok_def flight_ids_def report_def tell_def)
    moreover have "media_ok (?v\<lparr>wh_handshake := Armed HANDSHAKE_TIMEOUT_MS\<rparr>)"
      using i unfolding whep_inv_def media_ok_def by (simp add: report_def tell_def land_flight_def tracked_by_none_def)
    ultimately show ?thesis
      using g True by (simp add: answer_applied_def Inr whep_good_def whep_inv_def advancing_def)
  qed
qed

section \<open>Frames, timers and the user\<close>

lemma good_frame:
  "whep_good (w\<lparr>wh_cadence := c, wh_stage := (wh_stage w)\<lparr>sg_frames := n\<rparr>, wh_lastFrameAt := t\<rparr>) = whep_good w"
  "whep_good (w\<lparr>wh_lastVideoTime := t, wh_lastFrameCount := n\<rparr>) = whep_good w"
  "whep_good (w\<lparr>wh_attempt := n\<rparr>) = whep_good w"
  "whep_good (w\<lparr>wh_tracks := ts\<rparr>) = whep_good w"
  "whep_good (w\<lparr>wh_lastNetworkAt := t, wh_sampling := b\<rparr>) = whep_good w"
  "whep_good (w\<lparr>wh_sampling := b\<rparr>) = whep_good w"
  "whep_good (w\<lparr>wh_lastNetworkAt := t\<rparr>) = whep_good w"
  "whep_good (w\<lparr>wh_weak := n, wh_healthy := m\<rparr>) = whep_good w"
  "whep_good (w\<lparr>wh_network := s\<rparr>) = whep_good w"
  by (simp_all add: whep_simps)

text \<open>What a frame needs: it is tracked, so there is a peer connection.\<close>

lemma good_mark:
  assumes "whep_good w" and "wh_peer w \<noteq> None"
  shows "whep_good (markFrame g now w)"
proof (cases "wh_closed w \<or> g \<noteq> wh_generation w")
  case True
  with assms show ?thesis by (simp add: markFrame_def)
next
  case False
  let ?v = "tell FrameSeen (w\<lparr>wh_cadence := observe (wh_cadence w) now,
      wh_stage := (wh_stage w)\<lparr>sg_frames := sg_frames (wh_stage w) + 1\<rparr>, wh_lastFrameAt := now\<rparr>)"
  have v: "whep_good ?v" using assms(1) by (simp add: good_frame)
  show ?thesis
  proof (cases "sg_firstFrame (wh_stage w)")
    case True
    with False v show ?thesis by (simp add: markFrame_def Let_def tell_def)
  next
    case first: False
    with assms have n: "wh_watchdog w = None" "wh_retry w = Off" "\<not> wh_closed w"
      using False by (auto simp: whep_good_def whep_inv_def media_ok_def holds_nothing_def)
    let ?r = "startWatchdog g (onState Live ((report live_stage (?v\<lparr>wh_firstFrame := Off\<rparr>))\<lparr>wh_attempt := 0\<rparr>))"
    have sel: "wh_watchdog ?r = Some g" "wh_peer ?r = wh_peer w" "sg_firstFrame (wh_stage ?r)" "wh_firstFrame ?r = Off"
      "wh_poll ?r = wh_poll w" "wh_frameCallback ?r = wh_frameCallback w" "wh_request ?r = wh_request w"
      "wh_generation ?r = wh_generation w" "wh_retry ?r = Off" "\<not> wh_closed ?r" "wh_flight ?r = wh_flight w"
      using n by (simp_all add: startWatchdog_def onState_def report_def tell_def live_stage_def)
    have "media_ok ?r" using assms False sel unfolding whep_good_def whep_inv_def media_ok_def by auto
    moreover have "flights_ok ?r"
      using assms unfolding whep_good_def whep_inv_def flights_ok_def flight_ids_def sel by auto
    moreover have "advancing ?r" using assms(2) sel by (simp add: advancing_def)
    ultimately have "whep_good ?r" using sel by (simp add: whep_good_def whep_inv_def)
    with False first show ?thesis by (simp add: markFrame_def Let_def tell_def)
  qed
qed

lemma tracked_peer:
  "whep_good w \<Longrightarrow> wh_frameCallback w = Some g \<or> wh_poll w = Some g \<or> wh_watchdog w = Some g \<Longrightarrow> wh_peer w \<noteq> None"
proof -
  assume "whep_good w" and t: "wh_frameCallback w = Some g \<or> wh_poll w = Some g \<or> wh_watchdog w = Some g"
  then have "wh_peer w = None \<longrightarrow> tracked_by_none w" by (simp add: whep_good_def whep_inv_def media_ok_def)
  with t show "wh_peer w \<noteq> None" by (auto simp: tracked_by_none_def)
qed

lemma mark_peer: "wh_peer (markFrame g now w) = wh_peer w" "wh_generation (markFrame g now w) = wh_generation w"
    "wh_closed (markFrame g now w) = wh_closed w" "wh_retry (markFrame g now w) = wh_retry w"
  by (simp_all add: markFrame_def Let_def startWatchdog_def onState_def report_def tell_def)

lemma good_callback:
  assumes "whep_good w" and "wh_frameCallback w = Some g"
  shows "whep_good (frame_callback g now w)"
proof (cases "wh_closed w \<or> g \<noteq> wh_generation w")
  case True
  with assms(1) show ?thesis by (simp add: frame_callback_def)
next
  case False
  have p: "wh_peer w \<noteq> None" using tracked_peer [OF assms(1)] assms(2) by blast
  then have m: "whep_good (markFrame g now w)" by (rule good_mark [OF assms(1)])
  have "wh_retry w = Off" using p assms(1) by (auto simp: whep_good_def whep_inv_def holds_nothing_def)
  then have r: "wh_retry (markFrame g now w) = Off" "wh_peer (markFrame g now w) \<noteq> None"
    "g = wh_generation (markFrame g now w)" using False p by (simp_all add: mark_peer)
  have "whep_good (v\<lparr>wh_frameCallback := Some g\<rparr>)"
    if "whep_good v" "wh_retry v = Off" "wh_peer v \<noteq> None" "g = wh_generation v" for v
    using that by (auto simp: whep_simps)
  from this [OF m r] False show ?thesis by (simp add: frame_callback_def)
qed

lemma good_poll:
  assumes "whep_good w" and "wh_poll w = Some g"
  shows "whep_good (frame_poll g now frames paused t w)"
  using assms tracked_peer [of w g] by (auto simp: frame_poll_def good_frame intro!: good_mark)

lemma peer_not_busy: "whep_good w \<Longrightarrow> wh_peer w \<noteq> None \<Longrightarrow> \<not> busy w"
  by (auto simp: whep_good_def whep_inv_def flights_ok_def busy_def)

lemma good_reconnect: "whep_good w \<Longrightarrow> \<not> busy w \<Longrightarrow> whep_good (scheduleReconnect env reason w)"
proof (cases "wh_closed w")
  case True
  moreover assume "whep_good w"
  ultimately show ?thesis by (simp add: scheduleReconnect_def)
next
  case False
  moreover assume "whep_good w" "\<not> busy w"
  ultimately show ?thesis by (intro inv_reconnect) (simp_all add: whep_good_def)
qed

lemma good_watchdog:
  assumes "whep_good w" and "wh_watchdog w = Some g"
  shows "whep_good (watchdog env g page paused now w)"
proof -
  have "whep_good (scheduleReconnect env reason w)" for reason
    using tracked_peer [OF assms(1)] assms(2) by (intro good_reconnect [OF assms(1)] peer_not_busy [OF assms(1)]) blast
  with assms(1) show ?thesis by (simp add: watchdog_def good_frame)
qed

lemma good_judge: "whep_good w \<Longrightarrow> whep_good (judge env weak w)"
  by (simp add: judge_def Let_def good_frame)

lemma good_tells: "whep_good (fold (\<lambda>_. tell o') xs w) = whep_good w"
  by (induction xs arbitrary: w) simp_all

lemma good_network: "whep_good w \<Longrightarrow> whep_good (network_report env n sample w)"
  by (auto simp: network_report_def Let_def good_judge good_frame good_tells split: option.split)

lemma good_networks: "whep_good w \<Longrightarrow> whep_good (fold (network_report env n) samples w)"
  by (induction samples arbitrary: w) (simp_all add: good_network)

lemma good_stats: "whep_good w \<Longrightarrow> whep_good (stats_read env g stats n w)"
  by (auto simp: stats_read_def Let_def good_networks good_frame split: option.split)

lemma good_track:
  assumes "whep_good w"
  shows "whep_good (track_added g t w)"
proof -
  have "whep_good (if t \<in> set (wh_tracks w) then w else w\<lparr>wh_tracks := wh_tracks w @ [t]\<rparr>)"
    using assms by (simp add: good_frame)
  then have "whep_good (report (\<lambda>s. s\<lparr>sg_mediaReceived := True\<rparr>)
      (if t \<in> set (wh_tracks w) then w else w\<lparr>wh_tracks := wh_tracks w @ [t]\<rparr>))"
    by (rule good_report) simp
  with assms show ?thesis by (simp add: track_added_def)
qed

lemma good_connected:
  assumes "whep_good w" and "wh_peer w = Some g"
  shows "whep_good (peer_changed env g PeerConnected w)"
proof (cases "gone g w")
  case True
  with assms(1) show ?thesis by (simp add: peer_changed_def)
next
  case False
  have i: "\<not> wh_closed w" "wh_retry w = Off" "flights_ok w" "media_ok w"
    using assms False by (auto simp: whep_good_def whep_inv_def holds_nothing_def gone_def)
  define v where "v = peer_changed env g PeerConnected w"
  have sel: "wh_peer v = wh_peer w" "wh_watchdog v = wh_watchdog w" "wh_poll v = wh_poll w"
    "wh_frameCallback v = wh_frameCallback w" "wh_request v = wh_request w" "wh_generation v = wh_generation w"
    "wh_flight v = wh_flight w" "wh_retry v = Off" "\<not> wh_closed v"
    "sg_firstFrame (wh_stage v) = sg_firstFrame (wh_stage w)" "tracked_by_none v = tracked_by_none w"
    and ff: "wh_firstFrame v = (if \<not> sg_firstFrame (wh_stage w) \<and> wh_firstFrame w = Off
      then Armed (first_frame_wait env) else wh_firstFrame w)"
    using False i unfolding v_def
    by (simp_all add: peer_changed_def Let_def report_def tell_def tracked_by_none_def)
  have p: "wh_peer w \<noteq> None" using assms(2) by simp
  then have t: "armed (wh_firstFrame v) \<or> wh_watchdog w \<noteq> None" using i(4) by (auto simp: ff media_ok_def)
  have "armed (wh_firstFrame v) \<and> \<not> sg_firstFrame (wh_stage w)" if "wh_firstFrame v \<noteq> Off"
    using that i(4) by (auto simp: ff media_ok_def split: if_splits)
  with i(4) t p have "media_ok v" by (simp add: media_ok_def sel)
  moreover have "flights_ok v" using i(3) p by (auto simp: flights_ok_def flight_ids_def sel)
  moreover have "advancing v" using t p by (auto simp: advancing_def sel)
  ultimately have "whep_good v" using sel(8,9) by (simp add: whep_good_def whep_inv_def)
  then show ?thesis by (simp add: v_def)
qed

lemma good_disconnected_timer:
  assumes "whep_good w" and "wh_peer w \<noteq> None"
  shows "whep_good (w\<lparr>wh_disconnected := t\<rparr>)"
proof -
  have "wh_retry w = Off" "\<not> wh_closed w" "\<not> busy w"
    using assms peer_not_busy by (auto simp: whep_good_def whep_inv_def holds_nothing_def)
  with assms show ?thesis by (auto simp: whep_simps busy_def)
qed

lemma good_peer_event:
  assumes "whep_good w" and "wh_peer w = Some g"
  shows "whep_good (peer_changed env g s w)"
proof -
  have p: "wh_peer w \<noteq> None" using assms(2) by simp
  show ?thesis
    using good_connected [OF assms] good_disconnected_timer [OF assms(1) p] assms(1)
      good_reconnect [OF assms(1) peer_not_busy [OF assms(1) p]]
    by (cases s) (simp_all add: peer_changed_def)
qed

lemma good_connect:
  assumes "whep_inv w" and "wh_retry w = Off" and "holds_nothing w"
    and "\<not> wh_closed w \<longrightarrow> \<not> sg_firstFrame (wh_stage w) \<and> \<not> sg_iceConnected (wh_stage w)"
  shows "whep_good (connect w)"
proof (cases "wh_closed w")
  case True
  with assms(1) show ?thesis by (simp add: connect_def whep_good_def)
next
  case False
  let ?w = "connect w" and ?g = "Suc (wh_generation w)"
  have sel: "wh_generation ?w = ?g" "wh_flight ?w = wh_flight w @ [(?g, Resolving)]" "wh_request ?w = Some ?g"
    "wh_peer ?w = None" "wh_session ?w = None" "tracked_by_none ?w" "wh_retry ?w = Off" "wh_disconnected ?w = Off"
    "wh_handshake ?w = Off" "wh_firstFrame ?w = Off" "wh_stage ?w = wh_stage w" "\<not> wh_closed ?w"
    using assms(2,3) False
    by (simp_all add: connect_def Let_def tell_def onState_def first_or_again_def holds_nothing_def tracked_by_none_def)
  have ids: "list_all (\<lambda>g. g \<le> wh_generation w) (flight_ids w)" "distinct (flight_ids w)"
    using assms(1) by (simp_all add: whep_inv_def flights_ok_def)
  then have new: "?g \<notin> set (flight_ids w)" by (auto simp: list_all_iff)
  then have none: "map_of (wh_flight w) ?g = None" by (simp add: flight_ids_def map_of_eq_None_iff)
  have now: "map_of (wh_flight ?w) ?g = Some Resolving" by (simp add: sel(2) map_add_def none)
  have "flight_ids ?w = flight_ids w @ [?g]" by (simp add: flight_ids_def sel(2))
  with ids new have "flights_ok ?w"
    by (auto simp: flights_ok_def sel(1,3-12) now list_all_iff le_Suc_eq)
  moreover have "media_ok ?w" using assms(4) False sel by (simp add: media_ok_def tracked_by_none_def)
  moreover have "advancing ?w" using now sel by (simp add: advancing_def)
  ultimately show ?thesis using sel by (simp add: whep_good_def whep_inv_def)
qed

lemma good_retry:
  assumes "whep_good w"
  shows "whep_good (retry_fired w)"
proof (cases "armed (wh_retry w)")
  case False
  with assms show ?thesis by (simp add: retry_fired_def)
next
  case True
  then have "wh_retry w \<noteq> Off" by auto
  with assms have h: "holds_nothing w" "\<not> wh_closed w" "flights_ok w" "media_ok w"
    by (auto simp: whep_good_def whep_inv_def)
  have "whep_good (connect (w\<lparr>wh_retry := Off\<rparr>))"
  proof (rule good_connect)
    show "whep_inv (w\<lparr>wh_retry := Off\<rparr>)"
      using h by (simp add: whep_inv_def flights_ok_def flight_ids_def media_ok_def holds_nothing_def tracked_by_none_def)
    show "holds_nothing (w\<lparr>wh_retry := Off\<rparr>)" using h(1) by (simp add: holds_nothing_def tracked_by_none_def)
    show "\<not> wh_closed (w\<lparr>wh_retry := Off\<rparr>) \<longrightarrow>
        \<not> sg_firstFrame (wh_stage (w\<lparr>wh_retry := Off\<rparr>)) \<and> \<not> sg_iceConnected (wh_stage (w\<lparr>wh_retry := Off\<rparr>))"
      using h by (simp add: media_ok_def holds_nothing_def)
  qed simp
  with True show ?thesis by (simp add: retry_fired_def)
qed

lemma timer_not_busy: "whep_good w \<Longrightarrow> armed (wh_disconnected w) \<or> armed (wh_handshake w) \<or> armed (wh_firstFrame w) \<Longrightarrow> \<not> busy w"
  by (auto simp: whep_good_def whep_inv_def flights_ok_def busy_def)

lemma timer_open:
  assumes "whep_good w" and "armed (wh_disconnected w) \<or> armed (wh_handshake w) \<or> armed (wh_firstFrame w)"
  shows "\<not> wh_closed w" and "wh_retry w = Off"
  using assms by (auto simp: whep_good_def whep_inv_def holds_nothing_def)

text \<open>A timer that has fired leads to a reconnect, whatever its variable then holds.\<close>

lemma reconnect_any_timer:
  assumes "\<not> wh_closed w" and "wh_retry w = Off"
  shows "scheduleReconnect env reason (w\<lparr>wh_disconnected := t\<rparr>) = scheduleReconnect env reason w"
    and "scheduleReconnect env reason (w\<lparr>wh_handshake := t\<rparr>) = scheduleReconnect env reason w"
    and "scheduleReconnect env reason (w\<lparr>wh_firstFrame := t\<rparr>) = scheduleReconnect env reason w"
  using assms by (simp_all add: scheduleReconnect_def clearTimers_def)

lemma good_disconnected: "whep_good w \<Longrightarrow> whep_good (disconnected_fired env w)"
  using timer_open [of w] timer_not_busy [of w] good_reconnect [of w env]
  by (auto simp: disconnected_fired_def reconnect_any_timer)

lemma good_first_frame: "whep_good w \<Longrightarrow> whep_good (first_frame_fired env w)"
proof (cases "armed (wh_firstFrame w)")
  case False
  moreover assume "whep_good w"
  ultimately show ?thesis by (simp add: first_frame_fired_def)
next
  case True
  assume g: "whep_good w"
  have "\<not> sg_firstFrame (wh_stage w)"
    using g True by (cases "wh_firstFrame w") (simp_all add: whep_good_def whep_inv_def media_ok_def)
  moreover have "\<not> wh_closed w" "wh_retry w = Off" "\<not> busy w" using timer_open [OF g] timer_not_busy [OF g] True by auto
  ultimately show ?thesis
    using True by (simp add: first_frame_fired_def Let_def reconnect_any_timer good_reconnect [OF g])
qed

lemma good_handshake:
  assumes "whep_good w"
  shows "whep_good (handshake_fired env w)"
proof (cases "armed (wh_handshake w)")
  case False
  with assms show ?thesis by (simp add: handshake_fired_def)
next
  case True
  then have o: "\<not> wh_closed w" "wh_retry w = Off" "\<not> busy w"
    using timer_open [OF assms] timer_not_busy [OF assms] by auto
  show ?thesis
  proof (cases "sg_iceConnected (wh_stage w)")
    case False
    with True o show ?thesis
      by (simp add: handshake_fired_def Let_def reconnect_any_timer good_reconnect [OF assms])
  next
    case ice: True
    have m: "media_ok w" and f: "flights_ok w" using assms by (simp_all add: whep_good_def whep_inv_def)
    with ice o(1) have p: "wh_peer w \<noteq> None" by (auto simp: media_ok_def)
    with m ice have a: "armed (wh_firstFrame w) \<or> wh_watchdog w \<noteq> None" by (simp add: media_ok_def)
    have "media_ok (w\<lparr>wh_handshake := Spent\<rparr>)" using m by (simp add: media_ok_def tracked_by_none_def)
    moreover have "flights_ok (w\<lparr>wh_handshake := Spent\<rparr>)" using f p by (simp add: flights_ok_def flight_ids_def)
    moreover have "advancing (w\<lparr>wh_handshake := Spent\<rparr>)" using p a by (simp add: advancing_def)
    ultimately show ?thesis
      using True ice o by (simp add: handshake_fired_def whep_good_def whep_inv_def)
  qed
qed

lemma good_close:
  assumes "whep_good w"
  shows "whep_good (whep_close w)"
proof (cases "wh_closed w")
  case True
  with assms show ?thesis by (simp add: whep_close_def)
next
  case False
  define v where "v = whep_close w"
  have sel: "wh_closed v" "wh_retry v = Off" "holds_nothing v" "wh_flight v = wh_flight w" "wh_generation v = Suc (wh_generation w)"
    using False unfolding v_def whep_close_def
    by (simp_all add: Let_def quiet_ops holds_nothing_def tracked_by_none_def split: option.split)
  have ids: "list_all (\<lambda>g. g \<le> wh_generation w) (flight_ids w)" "distinct (flight_ids w)"
    using assms by (simp_all add: whep_good_def whep_inv_def flights_ok_def)
  then have "Suc (wh_generation w) \<notin> set (flight_ids w)" by (auto simp: list_all_iff)
  then have "map_of (wh_flight w) (Suc (wh_generation w)) = None" by (simp add: flight_ids_def map_of_eq_None_iff)
  with ids have "flights_ok v" by (auto simp: flights_ok_def flight_ids_def sel list_all_iff)
  moreover have "media_ok v" using sel(1,3) by (simp add: media_ok_def holds_nothing_def tracked_by_none_def)
  ultimately have "whep_good v" using sel by (simp add: whep_good_def whep_inv_def)
  then show ?thesis by (simp add: v_def)
qed

lemma good_step:
  assumes "whep_good w" and "honest w e"
  shows "whep_good (whep_step env w e)"
proof (cases e)
  case (Resolved g r) with assms show ?thesis by (simp add: good_resolved)
next
  case (Gathered g r) with assms show ?thesis by (auto simp: good_gathered split: option.split phase.split)
next
  case (OfferAnswered g r) with assms show ?thesis by (auto simp: good_offer split: option.split phase.split)
next
  case (RejectionHandled g r) with assms show ?thesis by (auto simp: good_rejection split: option.split phase.split)
next
  case (AnswerRead g r) with assms show ?thesis by (simp add: good_read)
next
  case (AnswerApplied g r) with assms show ?thesis by (simp add: good_applied)
next
  case (TrackAdded g t) with assms show ?thesis by (simp add: good_track)
next
  case (PeerChanged g s) with assms show ?thesis by (simp add: good_peer_event)
next
  case (FrameCallback g now) with assms show ?thesis by (simp add: good_callback)
next
  case (FramePoll g now frames paused t) with assms show ?thesis by (simp add: good_poll)
next
  case (WatchdogTick g page paused now) with assms show ?thesis by (simp add: good_watchdog)
next
  case (Resumed played) with assms show ?thesis by (simp add: resume_def good_report)
qed (use assms in \<open>simp_all add: good_retry good_disconnected good_handshake good_first_frame good_stats good_close good_report\<close>)

lemma good_start: "whep_good connectWhep"
  unfolding connectWhep_def
  by (rule good_connect)
    (simp_all add: fresh_whep_def whep_inv_def flights_ok_def flight_ids_def media_ok_def holds_nothing_def tracked_by_none_def
      new_stage_def)

lemma reachable_good: "whep_reachable env w \<Longrightarrow> whep_good w"
  by (induction rule: whep_reachable.induct) (auto intro: good_start good_step)

section \<open>The guarantees\<close>

text \<open>C4. A playback connection never gets stuck: as long as it is neither closed nor disabled, a
  reconnect is scheduled, or a step of connecting is under way with a live request, or a timer or
  the watchdog watches over the peer connection.\<close>

theorem playback_never_stuck:
  assumes "whep_reachable env w" and "\<not> wh_closed w" and "wh_state w \<noteq> Some Disabled"
  shows "advancing w"
  using reachable_good [OF assms(1)] assms(2,3) by (simp add: whep_good_def)

lemma closed_reconnect [simp]: "wh_closed w \<Longrightarrow> scheduleReconnect env reason w = w"
  by (simp add: scheduleReconnect_def)

lemma closed_catch: "wh_closed w \<Longrightarrow> catch_failure env g e w = land_flight g w"
  by (simp add: catch_failure_def Let_def split: failure.split)

lemma closed_step:
  assumes "whep_good w" and "wh_closed w"
  shows "wh_closed (whep_step env w e) \<and> wh_generation (whep_step env w e) = wh_generation w"
proof -
  have h: "wh_retry w = Off" "wh_disconnected w = Off" "wh_handshake w = Off" "wh_firstFrame w = Off" "wh_peer w = None"
    "wh_request w = None" "wh_watchdog w = None" "wh_poll w = None" "wh_frameCallback w = None"
    using assms by (simp_all add: whep_good_def whep_inv_def holds_nothing_def tracked_by_none_def)
  show ?thesis
    by (cases e) (simp_all add: assms(2) h closed_catch resolved_def gathered_def offer_answered_def rejection_handled_def
        answer_read_def answer_applied_def gone_def retry_fired_def disconnected_fired_def handshake_fired_def
        first_frame_fired_def stats_read_def resume_def whep_close_def split: option.split phase.split sum.split)
qed

text \<open>C5. A closed connection holds no timer, no peer connection, no request and no session of the media
  server, in every state the events can lead to, and no later event opens it again.\<close>

theorem closed_connection_releases_all:
  assumes "whep_reachable env w" and "wh_closed w" and "honest w e"
  shows "wh_retry w = Off \<and> holds_nothing w \<and> wh_closed (whep_step env w e)
    \<and> wh_retry (whep_step env w e) = Off \<and> holds_nothing (whep_step env w e)
    \<and> wh_generation (whep_step env w e) = wh_generation w"
proof -
  note g = reachable_good [OF assms(1)]
  note s = closed_step [OF g assms(2), of env e] good_step [OF g assms(3), of env]
  from g assms(2) s show ?thesis by (simp add: whep_good_def whep_inv_def)
qed

definition live_ok :: "whep \<Rightarrow> bool" where
  "live_ok w = (wh_state w = Some Live \<longrightarrow> wh_closed w \<or> (sg_firstFrame (wh_stage w) \<and> 0 < sg_frames (wh_stage w)))"

lemma live_frames:
  "live_ok (tell o' w) = live_ok w" "live_ok (land_flight g w) = live_ok w" "live_ok (go_on g p w) = live_ok w"
  "live_ok (releaseSession w) = live_ok w" "live_ok (w\<lparr>wh_session := l\<rparr>) = live_ok w" "live_ok (w\<lparr>wh_rejected := b\<rparr>) = live_ok w"
  "live_ok (w\<lparr>wh_handshake := t\<rparr>) = live_ok w" "live_ok (w\<lparr>wh_firstFrame := t\<rparr>) = live_ok w"
  "live_ok (w\<lparr>wh_disconnected := t\<rparr>) = live_ok w" "live_ok (w\<lparr>wh_retry := t\<rparr>) = live_ok w"
  "live_ok (w\<lparr>wh_tracks := ts\<rparr>) = live_ok w" "live_ok (w\<lparr>wh_frameCallback := n\<rparr>) = live_ok w"
  "live_ok (w\<lparr>wh_lastVideoTime := x, wh_lastFrameCount := k\<rparr>) = live_ok w"
  "live_ok (w\<lparr>wh_lastNetworkAt := x, wh_sampling := b\<rparr>) = live_ok w" "live_ok (w\<lparr>wh_lastNetworkAt := x\<rparr>) = live_ok w"
  by (simp_all add: live_ok_def land_flight_def go_on_def quiet_ops split: option.split)

lemma live_states: "s \<noteq> Live \<Longrightarrow> live_ok (onState s w)"
  by (simp add: live_ok_def onState_def tell_def)

lemma live_report:
  "(\<And>s. sg_firstFrame (f s) = sg_firstFrame s \<and> sg_frames (f s) = sg_frames s) \<Longrightarrow> live_ok (report f w) = live_ok w"
  by (simp add: live_ok_def)

lemma live_reconnect: "live_ok w \<Longrightarrow> live_ok (scheduleReconnect env reason w)"
  by (simp add: scheduleReconnect_def Let_def first_or_again_def live_ok_def tell_def onState_def)

lemma live_catch: "live_ok w \<Longrightarrow> live_ok (catch_failure env g e w)"
  by (auto simp: catch_failure_def Let_def live_frames live_states live_reconnect split: failure.split)

lemma live_connect: "live_ok w \<Longrightarrow> live_ok (connect w)"
  by (simp add: connect_def Let_def live_ok_def onState_def tell_def first_or_again_def)

lemma live_mark: "live_ok w \<Longrightarrow> live_ok (markFrame g now w)"
  by (auto simp: markFrame_def Let_def live_ok_def onState_def tell_def startWatchdog_def report_def live_stage_def)

lemma live_network: "live_ok (network_report env n sample w) = live_ok w"
proof -
  have t: "live_ok (fold (\<lambda>_. tell o') xs v) = live_ok v" for o' xs v
    by (induction xs arbitrary: v) (simp_all add: live_frames)
  have j: "live_ok (judge env weak v) = live_ok v" for weak v
    by (simp add: judge_def Let_def live_frames) (simp add: live_ok_def)
  have n: "live_ok (v\<lparr>wh_network := x\<rparr>) = live_ok v" for x v by (simp add: live_ok_def)
  show ?thesis by (simp add: network_report_def Let_def t j n split: option.split)
qed

lemma live_networks: "live_ok (fold (network_report env n) samples w) = live_ok w"
  by (induction samples arbitrary: w) (simp_all add: live_network)

lemma live_stats: "live_ok w \<Longrightarrow> live_ok (stats_read env g stats n w)"
proof -
  have "live_ok (v\<lparr>wh_sampling := b\<rparr>) = live_ok v" for b v by (simp add: live_ok_def)
  then show "live_ok w \<Longrightarrow> live_ok (stats_read env g stats n w)"
    by (simp add: stats_read_def Let_def live_networks split: option.split)
qed

lemma live_resolved: "live_ok w \<Longrightarrow> live_ok (resolved env g r w)"
proof -
  assume l: "live_ok w"
  have "live_ok (startFrameTracking env g ((onState (first_or_again Connecting w) w)\<lparr>wh_peer := Some g, wh_tracks := []\<rparr>))"
    by (simp add: startFrameTracking_def live_ok_def onState_def tell_def first_or_again_def)
  with l show ?thesis
    by (simp add: resolved_def live_catch live_frames live_states split: sum.split option.split url_result.split)
qed

lemma live_connected: "live_ok w \<Longrightarrow> live_ok (peer_changed env g s w)"
  by (cases s) (simp_all add: peer_changed_def Let_def live_frames live_report live_reconnect)

lemma live_watchdog: "live_ok w \<Longrightarrow> live_ok (watchdog env g page paused now w)"
  by (simp add: watchdog_def live_reconnect live_frames)

lemma live_poll: "live_ok w \<Longrightarrow> live_ok (frame_poll g now frames paused t w)"
  by (simp add: frame_poll_def live_mark live_frames)

lemma live_close: "live_ok w \<Longrightarrow> live_ok (whep_close w)"
  by (simp add: whep_close_def Let_def live_frames) (simp add: live_ok_def clearTimers_def releaseSession_def
      stopFrameTracking_def delete_session_def tell_def split: option.split)

lemma live_step:
  assumes "live_ok w"
  shows "live_ok (whep_step env w e)"
proof (cases e)
  case (Gathered g r)
  with assms show ?thesis by (simp add: gathered_def live_catch live_frames split: option.split phase.split sum.split)
next
  case (OfferAnswered g r)
  with assms show ?thesis
    by (simp add: offer_answered_def live_catch live_frames split: option.split phase.split sum.split url_result.split)
next
  case (RejectionHandled g r)
  with assms show ?thesis by (simp add: rejection_handled_def live_catch split: option.split phase.split sum.split)
next
  case (AnswerRead g r)
  with assms show ?thesis by (simp add: answer_read_def live_catch live_frames split: sum.split)
next
  case (AnswerApplied g r)
  with assms show ?thesis by (simp add: answer_applied_def live_catch live_frames live_report split: sum.split)
next
  case (TrackAdded g t)
  with assms show ?thesis by (simp add: track_added_def live_frames live_report)
next
  case (FrameCallback g now)
  with assms show ?thesis by (simp add: frame_callback_def live_frames live_mark)
qed (use assms in \<open>simp_all add: live_resolved live_connected live_watchdog live_poll live_close live_stats resume_def live_report
      retry_fired_def disconnected_fired_def handshake_fired_def first_frame_fired_def Let_def live_reconnect live_frames
      live_connect\<close>)

text \<open>C6. The picture is called live only when it is: in every reachable state of an open connection
  whose last report was \<open>live\<close>, a frame of the present peer connection was presented and the
  watchdog is running on it.\<close>

theorem live_means_frames:
  assumes "whep_reachable env w" and "wh_state w = Some Live" and "\<not> wh_closed w"
  shows "sg_firstFrame (wh_stage w) \<and> 0 < sg_frames (wh_stage w) \<and> wh_peer w = Some (wh_generation w)
    \<and> wh_watchdog w = Some (wh_generation w)"
proof -
  have "live_ok w" using assms(1)
    by induction (simp_all add: live_step, simp add: live_ok_def connectWhep_def connect_def fresh_whep_def onState_def tell_def
        first_or_again_def)
  with assms(2,3) have f: "sg_firstFrame (wh_stage w)" "0 < sg_frames (wh_stage w)" by (simp_all add: live_ok_def)
  with reachable_good [OF assms(1)] assms(3) have "wh_peer w \<noteq> None" "wh_watchdog w \<noteq> None"
    by (auto simp: whep_good_def whep_inv_def media_ok_def)
  with f reachable_good [OF assms(1)] show ?thesis by (auto simp: whep_good_def whep_inv_def media_ok_def)
qed

section \<open>Reconnect delays\<close>

lemma ladder_range: "3000 \<le> ladder n \<and> ladder n \<le> 60000"
proof -
  have "n < 6 \<Longrightarrow> n = 0 \<or> n = 1 \<or> n = 2 \<or> n = 3 \<or> n = 4 \<or> n = 5" by arith
  then show ?thesis by (auto simp: ladder_def RECONNECT_BASE_DELAYS_MS_def RECONNECT_MAX_DELAY_MS_def numeral_eq_Suc)
qed

lemma delay_near:
  assumes "0 \<le> r" and "r < 1"
  shows "of_int (ladder n) * (85 / 100) - 1 / 2 \<le> (of_int (reconnectDelayMs (of_nat n) r) :: rat)
    \<and> of_int (reconnectDelayMs (of_nat n) r) \<le> of_int (ladder n) * (115 / 100) + (1 / 2 :: rat)"
proof -
  let ?l = "of_int (ladder n) :: rat"
  have d: "reconnectDelayMs (of_nat n) r = round_rat (?l * (85 / 100 + r * (3 / 10)))" by (simp add: reconnectDelayMs_def)
  have p: "0 \<le> ?l" using ladder_range [of n] by simp
  have "?l * (85 / 100) \<le> ?l * (85 / 100 + r * (3 / 10))" using assms p by (intro mult_left_mono) auto
  moreover have "?l * (85 / 100 + r * (3 / 10)) \<le> ?l * (115 / 100)" using assms p by (intro mult_left_mono) auto
  ultimately show ?thesis
    using round_rat_bounds [of "?l * (85 / 100 + r * (3 / 10))"] unfolding d by linarith
qed

text \<open>The reconnect ladder: when a connection of which \<open>n\<close> attempts in a row failed gives up the
  present one, everything it held is released and the next attempt is due after the \<open>n\<close>-th step of
  the ladder (3, 5, 10, 20, 40, then 60 seconds) within 15 percent, rounded to a millisecond.\<close>

theorem reconnects_follow_the_ladder:
  assumes "\<not> wh_closed w" and "wh_retry w = Off"
    and "0 \<le> we_random env (Suc (sg_reconnects (wh_stage w)))" and "we_random env (Suc (sg_reconnects (wh_stage w))) < 1"
  shows "\<exists>delay. wh_retry (scheduleReconnect env reason w) = Armed delay
    \<and> \<bar>of_int delay - (of_int (ladder (wh_attempt w)) :: rat)\<bar> \<le> 15 / 100 * of_int (ladder (wh_attempt w)) + 1 / 2
    \<and> 2549 \<le> delay \<and> delay \<le> 69001 \<and> holds_nothing (scheduleReconnect env reason w)
    \<and> wh_attempt (scheduleReconnect env reason w) = Suc (wh_attempt w)"
proof -
  let ?d = "reconnectDelayMs (of_nat (wh_attempt w)) (we_random env (Suc (sg_reconnects (wh_stage w))))"
  have r: "wh_retry (scheduleReconnect env reason w) = Armed ?d" "wh_attempt (scheduleReconnect env reason w) = Suc (wh_attempt w)"
    using assms(1,2) by (simp_all add: scheduleReconnect_def quiet_ops first_or_again_def split: option.split)
  note n = delay_near [OF assms(3,4), of "wh_attempt w"]
  have l: "3000 \<le> (of_int (ladder (wh_attempt w)) :: rat)" "of_int (ladder (wh_attempt w)) \<le> (60000 :: rat)"
    using ladder_range [of "wh_attempt w"] by simp_all
  then have "2549 < (of_int ?d :: rat)" "(of_int ?d :: rat) < 69001" using n by linarith+
  then have "2549 \<le> ?d" "?d \<le> 69001" by linarith+
  moreover have "\<bar>of_int ?d - (of_int (ladder (wh_attempt w)) :: rat)\<bar> \<le> 15 / 100 * of_int (ladder (wh_attempt w)) + 1 / 2"
    using n by linarith
  ultimately show ?thesis using r reconnected(2) [OF assms(1,2)] by blast
qed

text \<open>C40. A short loss of the network is not forgiven: when the peer connection is lost and comes back
  directly, within the three seconds of grace, the timer of the loss is not cancelled, and it
  gives up the working connection.\<close>

theorem recovered_connection_is_dropped:
  assumes "wh_peer w = Some (wh_generation w)" and "\<not> wh_closed w" and "wh_retry w = Off" and "wh_disconnected w = Off"
  shows "wh_peer (foldl (whep_step env) w [PeerChanged (wh_generation w) PeerDisconnected,
      PeerChanged (wh_generation w) PeerConnected]) = Some (wh_generation w)
    \<and> (\<exists>delay. wh_retry (foldl (whep_step env) w [PeerChanged (wh_generation w) PeerDisconnected,
        PeerChanged (wh_generation w) PeerConnected, DisconnectedFired]) = Armed delay)
    \<and> wh_peer (foldl (whep_step env) w [PeerChanged (wh_generation w) PeerDisconnected,
        PeerChanged (wh_generation w) PeerConnected, DisconnectedFired]) = None"
proof -
  define v where "v = foldl (whep_step env) w [PeerChanged (wh_generation w) PeerDisconnected,
      PeerChanged (wh_generation w) PeerConnected]"
  have v: "wh_peer v = Some (wh_generation w)" "\<not> wh_closed v" "wh_retry v = Off" "wh_disconnected v = Armed 3000"
    using assms by (simp_all add: v_def peer_changed_def gone_def report_def tell_def Let_def)
  have e: "whep_step env v DisconnectedFired = scheduleReconnect env ''ice_disconnected'' v"
    using v by (simp add: disconnected_fired_def reconnect_any_timer)
  note r = reconnected [OF v(2,3), of env "''ice_disconnected''"]
  from r(1) obtain d where "wh_retry (whep_step env v DisconnectedFired) = Armed d"
    unfolding e by (cases "wh_retry (scheduleReconnect env ''ice_disconnected'' v)") auto
  moreover have "wh_peer (whep_step env v DisconnectedFired) = None"
    unfolding e using r(2) by (simp add: holds_nothing_def)
  ultimately show ?thesis using v(1) by (simp add: v_def)
qed

section \<open>A short connection\<close>

definition demo_url :: web_url where
  "demo_url = \<lparr>u_href = ''h'', u_origin = ''o'', u_protocol = ''https:'', u_hostname = ''w'', u_username = [], u_password = [],
     u_pathname = ''/p'', u_search = [], u_hash = []\<rparr>"

definition demo_env :: whep_env where
  "demo_env = \<lparr>we_page = demo_url, we_parse = (\<lambda>v b. Some demo_url), we_validate = (\<lambda>v. UrlOk demo_url),
     we_utf8 = (\<lambda>b. None), we_random = (\<lambda>n. 1 / 2), we_options = defaultPlaybackOptimization,
     we_frameCallbacks = True, we_stats = True, we_onRejected = False\<rparr>"

definition demo_live :: whep where
  "demo_live = foldl (whep_step demo_env) connectWhep [Resolved 1 (Inr (Some ''a'')), FrameCallback 1 5]"

lemma demo_live_reachable: "whep_reachable demo_env demo_live"
proof -
  have "whep_reachable demo_env (whep_step demo_env connectWhep (Resolved 1 (Inr (Some ''a''))))"
    by (rule event [OF opened]) simp
  from event [OF this, of "FrameCallback 1 5"] show ?thesis by (simp add: demo_live_def)
qed

lemma demo_live_facts:
  "wh_state demo_live = Some Live" "\<not> wh_closed demo_live" "wh_retry demo_live = Off" "wh_disconnected demo_live = Off"
  "wh_generation demo_live = 1" "wh_peer demo_live = Some 1" "sg_reconnects (wh_stage demo_live) = 0" "wh_attempt demo_live = 0"
  by (simp_all add: demo_live_def connectWhep_def connect_def fresh_whep_def resolved_def gone_def demo_env_def go_on_def
      startFrameTracking_def frame_callback_def markFrame_def startWatchdog_def onState_def report_def tell_def Let_def
      live_stage_def new_stage_def first_or_again_def)

theorem playback_never_stuck_witness: "advancing demo_live"
  using playback_never_stuck [OF demo_live_reachable] demo_live_facts by simp

theorem closed_connection_releases_all_witness:
  "holds_nothing (whep_step demo_env (whep_close demo_live) RetryFired)"
proof -
  have "whep_reachable demo_env (whep_step demo_env demo_live Closed)"
    by (rule event [OF demo_live_reachable]) simp
  moreover have "wh_closed (whep_step demo_env demo_live Closed)"
    by (simp add: whep_close_def Let_def quiet_ops split: option.split)
  ultimately show ?thesis
    using closed_connection_releases_all [of demo_env "whep_step demo_env demo_live Closed" RetryFired] by simp
qed

theorem live_means_frames_witness: "wh_watchdog demo_live = Some 1 \<and> 0 < sg_frames (wh_stage demo_live)"
  using live_means_frames [OF demo_live_reachable] demo_live_facts by simp

theorem reconnects_follow_the_ladder_witness:
  "\<exists>delay. wh_retry (scheduleReconnect demo_env ''frame_stall'' demo_live) = Armed delay \<and> delay \<le> 69001"
  using reconnects_follow_the_ladder [of demo_live demo_env "''frame_stall''"] demo_live_facts
  by (auto simp: demo_env_def)

theorem recovered_connection_is_dropped_witness:
  "wh_peer (foldl (whep_step demo_env) demo_live [PeerChanged 1 PeerDisconnected, PeerChanged 1 PeerConnected, DisconnectedFired]) = None"
  using recovered_connection_is_dropped [of demo_live demo_env] demo_live_facts by simp

end
