(* ===== verification/AudioMixer.thy ===== *)
theory AudioMixer
  imports Scene
begin

text \<open>
  The audio mixer of a page (\<open>directAudioMixer.ts\<close>): a Web Audio graph with one chain of nodes for
  each video element, one for each separately received input track, and one merging chain for each
  source with tracks.  The nodes of a chain are created, connected and disconnected together, so a
  chain has one number; \<open>mx_live\<close> lists the chains that are connected.  A gain or delay is the target
  given to \<open>setTargetAtTime\<close>.  Streams and elements are the browser's objects, known by number;
  \<open>tk s\<close> is the number of audio tracks of stream \<open>s\<close>.  The mixer mutes every element it is given and
  never unmutes one, so what is heard goes through the nodes; the flag itself is not part of the model.
  Operations that the code runs on an audio context whose state the browser changes take that state
  from the context record.
\<close>

datatype audio_state = AudioDisabled | AudioRunning | AudioSuspended | AudioBlocked

record track_selection =
  sel_index :: int
  sel_gain :: rat
  sel_muted :: bool

type_synonym level = "(real \<times> real) option"

record chain =
  ch_id :: nat
  ch_gain :: rat
  ch_delay :: rat

record mixer_entry =
  me_element :: nat
  me_stream :: "nat option"
  me_chain :: "chain option"
  me_level :: level

record track_entry =
  te_stream :: nat
  te_chain :: "chain option"
  te_gain :: rat
  te_muted :: bool
  te_level :: level

record merge_entry =
  mg_chain :: chain
  mg_level :: level

record track_meter =
  tm_index :: int
  tm_level :: level
  tm_gain :: rat
  tm_muted :: bool
  tm_live :: bool

record source_snapshot =
  ss_source :: string
  ss_level :: level
  ss_audioTracks :: nat
  ss_streamBound :: bool
  ss_merged :: "level option"
  ss_independent :: "track_meter list"

record audio_snapshot =
  as_state :: audio_state
  as_inputCount :: nat
  as_level :: real
  as_sources :: "source_snapshot list"

record audio_context =
  cx_running :: bool
  cx_master :: rat

record mixer =
  mx_entries :: "(string \<times> mixer_entry) list"
  mx_tracks :: "((string \<times> int) \<times> track_entry) list"
  mx_merges :: "(string \<times> merge_entry) list"
  mx_configuration :: "(string \<times> scene_source) list"
  mx_selections :: "(string \<times> (int \<times> track_selection) list) list"
  mx_context :: "audio_context option"
  mx_meter :: bool
  mx_enabled :: bool
  mx_generation :: nat
  mx_blocked :: bool
  mx_level :: real
  mx_volume :: rat
  mx_output :: bool
  mx_latest :: audio_snapshot
  mx_next :: nat
  mx_live :: "nat list"

type_synonym stream_tracks = "nat \<Rightarrow> nat"

section \<open>Snapshots\<close>

definition live_stream :: "stream_tracks \<Rightarrow> nat option \<Rightarrow> nat" where
  "live_stream tk s = (case s of None \<Rightarrow> 0 | Some i \<Rightarrow> tk i)"

definition mixer_state :: "mixer \<Rightarrow> audio_state" where
  "mixer_state m = (if mx_blocked m then AudioBlocked else if \<not> mx_enabled m then AudioDisabled
     else case mx_context m of Some c \<Rightarrow> (if cx_running c then AudioRunning else AudioSuspended) | None \<Rightarrow> AudioSuspended)"

definition source_tracks :: "string \<Rightarrow> mixer \<Rightarrow> (int \<times> track_entry) list" where
  "source_tracks sid m = map (\<lambda>((s, i), t). (i, t)) (filter (\<lambda>((s, i), t). s = sid) (mx_tracks m))"

definition track_meter_of :: "stream_tracks \<Rightarrow> int \<times> track_entry \<Rightarrow> track_meter" where
  "track_meter_of tk = (\<lambda>(i, t). \<lparr>tm_index = i, tm_level = te_level t, tm_gain = te_gain t, tm_muted = te_muted t,
     tm_live = (tk (te_stream t) > 0)\<rparr>)"

definition source_snapshot_of :: "stream_tracks \<Rightarrow> mixer \<Rightarrow> string \<Rightarrow> source_snapshot" where
  "source_snapshot_of tk m sid =
     (let entry = map_of (mx_entries m) sid;
          stream = (case entry of None \<Rightarrow> None | Some e \<Rightarrow> me_stream e);
          independent = map (track_meter_of tk) (sort_key fst (source_tracks sid m))
      in \<lparr>ss_source = sid, ss_level = (case entry of None \<Rightarrow> None | Some e \<Rightarrow> me_level e),
          ss_audioTracks = live_stream tk stream + length independent,
          ss_streamBound = (stream \<noteq> None \<or> list_ex tm_live independent),
          ss_merged = (case map_of (mx_merges m) sid of None \<Rightarrow> None
             | Some g \<Rightarrow> if independent = [] then None else Some (mg_level g)),
          ss_independent = independent\<rparr>)"

definition source_ids :: "mixer \<Rightarrow> string list" where
  "source_ids m = uniq (map fst (mx_entries m) @ map (fst \<circ> fst) (mx_tracks m))"

definition counts_input :: "stream_tracks \<Rightarrow> mixer \<Rightarrow> string \<Rightarrow> bool" where
  "counts_input tk m sid = (live_stream tk (case map_of (mx_entries m) sid of None \<Rightarrow> None | Some e \<Rightarrow> me_stream e) > 0
     \<or> source_tracks sid m \<noteq> [])"

definition snapshot :: "stream_tracks \<Rightarrow> mixer \<Rightarrow> audio_snapshot" where
  "snapshot tk m = \<lparr>as_state = mixer_state m, as_inputCount = length (filter (counts_input tk m) (source_ids m)),
     as_level = mx_level m, as_sources = map (source_snapshot_of tk m) (source_ids m)\<rparr>"

definition emit :: "stream_tracks \<Rightarrow> mixer \<Rightarrow> mixer" where
  "emit tk m = m\<lparr>mx_latest := snapshot tk m\<rparr>"

section \<open>Nodes\<close>

definition new_chain :: "mixer \<Rightarrow> chain \<times> mixer" where
  "new_chain m = (\<lparr>ch_id = mx_next m, ch_gain = 1, ch_delay = 0\<rparr>,
     m\<lparr>mx_next := mx_next m + 1, mx_live := mx_live m @ [mx_next m]\<rparr>)"

definition disconnect :: "chain option \<Rightarrow> mixer \<Rightarrow> mixer" where
  "disconnect c m = (case c of None \<Rightarrow> m | Some c \<Rightarrow> m\<lparr>mx_live := removeAll (ch_id c) (mx_live m)\<rparr>)"

definition materialize :: "stream_tracks \<Rightarrow> string \<Rightarrow> mixer \<Rightarrow> mixer" where
  "materialize tk sid m =
     (case map_of (mx_entries m) sid of
        None \<Rightarrow> m
      | Some e \<Rightarrow>
          if mx_context m = None \<or> me_chain e \<noteq> None \<or> live_stream tk (me_stream e) = 0 then m
          else case new_chain m of (c, m) \<Rightarrow> m\<lparr>mx_entries := assign sid (e\<lparr>me_chain := Some c\<rparr>) (mx_entries m)\<rparr>)"

definition mergeFor :: "string \<Rightarrow> mixer \<Rightarrow> mixer" where
  "mergeFor sid m =
     (if map_of (mx_merges m) sid \<noteq> None then m
      else case new_chain m of (c, m) \<Rightarrow> m\<lparr>mx_merges := assign sid \<lparr>mg_chain = c, mg_level = None\<rparr> (mx_merges m)\<rparr>)"

definition materializeTrack :: "stream_tracks \<Rightarrow> string \<times> int \<Rightarrow> mixer \<Rightarrow> mixer" where
  "materializeTrack tk k m =
     (case map_of (mx_tracks m) k of
        None \<Rightarrow> m
      | Some t \<Rightarrow>
          if mx_context m = None \<or> te_chain t \<noteq> None \<or> tk (te_stream t) = 0 then m
          else case new_chain (mergeFor (fst k) m) of
                 (c, m) \<Rightarrow> m\<lparr>mx_tracks := assign k (t\<lparr>te_chain := Some c\<rparr>) (mx_tracks m)\<rparr>)"

definition release_merge :: "string \<Rightarrow> mixer \<Rightarrow> mixer" where
  "release_merge sid m =
     (case map_of (mx_merges m) sid of
        None \<Rightarrow> m
      | Some g \<Rightarrow> (disconnect (Some (mg_chain g)) m)\<lparr>mx_merges := erase sid (mx_merges m)\<rparr>)"

definition releaseTrack :: "string \<times> int \<Rightarrow> mixer \<Rightarrow> mixer" where
  "releaseTrack k m =
     (case map_of (mx_tracks m) k of
        None \<Rightarrow> m
      | Some t \<Rightarrow>
          let m = (disconnect (te_chain t) m)\<lparr>mx_tracks := erase k (mx_tracks m)\<rparr>
          in if list_ex (\<lambda>((s, i), t). s = fst k) (mx_tracks m) then m else release_merge (fst k) m)"

definition disconnectEntry :: "string \<Rightarrow> mixer \<Rightarrow> mixer" where
  "disconnectEntry sid m =
     (case map_of (mx_entries m) sid of
        None \<Rightarrow> m
      | Some e \<Rightarrow> (disconnect (me_chain e) m)\<lparr>mx_entries := assign sid (e\<lparr>me_chain := None, me_level := None\<rparr>) (mx_entries m)\<rparr>)"

section \<open>Configuration\<close>

definition separate_sources :: "stream_tracks \<Rightarrow> mixer \<Rightarrow> string list" where
  "separate_sources tk m = map (fst \<circ> fst) (filter (\<lambda>(k, t). tk (te_stream t) > 0) (mx_tracks m))"

definition source_gain :: "scene_source option \<Rightarrow> rat" where
  "source_gain s = (case s of None \<Rightarrow> 0
     | Some s \<Rightarrow> if \<not> src_muted s \<and> monitoring s \<noteq> MonitorOff then clamp (src_volume s) 0 (3 / 2) else 0)"

definition entry_gain :: "stream_tracks \<Rightarrow> mixer \<Rightarrow> string \<Rightarrow> rat" where
  "entry_gain tk m sid = (if sid \<in> set (separate_sources tk m) then 0 else source_gain (map_of (mx_configuration m) sid))"

definition offset_of :: "mixer \<Rightarrow> string \<Rightarrow> rat" where
  "offset_of m sid = (case map_of (mx_configuration m) sid of None \<Rightarrow> 0 | Some s \<Rightarrow> syncOffsetMs s)"

definition delay_baseline :: "stream_tracks \<Rightarrow> mixer \<Rightarrow> rat" where
  "delay_baseline tk m = foldr min (map (\<lambda>(sid, e). offset_of m sid)
     (filter (\<lambda>(sid, e). live_stream tk (me_stream e) > 0) (mx_entries m))) 0"

definition entry_delay :: "stream_tracks \<Rightarrow> mixer \<Rightarrow> string \<Rightarrow> rat" where
  "entry_delay tk m sid = clamp ((offset_of m sid - delay_baseline tk m) / 1000) 0 20"

definition selection_of :: "mixer \<Rightarrow> string \<times> int \<Rightarrow> track_selection option" where
  "selection_of m k = (case map_of (mx_selections m) (fst k) of None \<Rightarrow> None | Some sel \<Rightarrow> map_of sel (snd k))"

definition tune_track :: "mixer \<Rightarrow> string \<times> int \<Rightarrow> track_entry \<Rightarrow> track_entry" where
  "tune_track m k t =
     (let t = (case selection_of m k of None \<Rightarrow> t | Some s \<Rightarrow> t\<lparr>te_gain := sel_gain s, te_muted := sel_muted s\<rparr>)
      in t\<lparr>te_chain := map_option (\<lambda>c. c\<lparr>ch_gain := (if te_muted t then 0 else te_gain t)\<rparr>) (te_chain t)\<rparr>)"

definition tune_merge :: "mixer \<Rightarrow> string \<Rightarrow> merge_entry \<Rightarrow> merge_entry" where
  "tune_merge m sid g = g\<lparr>mg_chain := (mg_chain g)\<lparr>ch_gain := source_gain (map_of (mx_configuration m) sid)\<rparr>\<rparr>"

definition applyTrackGains :: "mixer \<Rightarrow> mixer" where
  "applyTrackGains m = m\<lparr>mx_tracks := map (\<lambda>(k, t). (k, tune_track m k t)) (mx_tracks m),
     mx_merges := map (\<lambda>(sid, g). (sid, tune_merge m sid g)) (mx_merges m)\<rparr>"

definition tune_entry :: "stream_tracks \<Rightarrow> mixer \<Rightarrow> string \<Rightarrow> mixer_entry \<Rightarrow> mixer_entry" where
  "tune_entry tk m sid e = e\<lparr>me_chain := map_option (\<lambda>c. c\<lparr>ch_gain := entry_gain tk m sid, ch_delay := entry_delay tk m sid\<rparr>) (me_chain e)\<rparr>"

definition applyConfiguration :: "stream_tracks \<Rightarrow> mixer \<Rightarrow> mixer" where
  "applyConfiguration tk m =
     emit tk (applyTrackGains (m\<lparr>mx_entries := map (\<lambda>(sid, e). (sid, tune_entry tk m sid e)) (mx_entries m)\<rparr>))"

section \<open>The meter\<close>

definition startMeter :: "mixer \<Rightarrow> mixer" where
  "startMeter m = (if mx_meter m \<or> (mx_entries m = [] \<and> mx_tracks m = []) then m else m\<lparr>mx_meter := True\<rparr>)"

definition stopMeter :: "mixer \<Rightarrow> mixer" where
  "stopMeter m = m\<lparr>mx_meter := False, mx_level := 0,
     mx_entries := map (\<lambda>(sid, e). (sid, e\<lparr>me_level := None\<rparr>)) (mx_entries m),
     mx_tracks := map (\<lambda>(k, t). (k, t\<lparr>te_level := None\<rparr>)) (mx_tracks m),
     mx_merges := map (\<lambda>(sid, g). (sid, g\<lparr>mg_level := None\<rparr>)) (mx_merges m)\<rparr>"

definition stop_if_empty :: "mixer \<Rightarrow> mixer" where
  "stop_if_empty m = (if mx_entries m = [] \<and> mx_tracks m = [] then stopMeter m else m)"

definition amplitudeToDbfs :: "real \<Rightarrow> real" where
  "amplitudeToDbfs v = (if v \<le> 1 / 1000000 then - 120 else max (- 120) (min 0 (20 * log 10 v)))"

definition rms :: "real list \<Rightarrow> real" where
  "rms xs = sqrt (sum_list (map (\<lambda>x. x * x) xs) / real (length xs))"

definition measured :: "real list \<Rightarrow> real \<times> real" where
  "measured xs = (amplitudeToDbfs (rms xs), amplitudeToDbfs (foldl (\<lambda>p x. max p \<bar>x\<bar>) 0 xs))"

text \<open>One tick of the meter; \<open>heard c\<close> are the samples the analyser of chain \<open>c\<close> gives, \<open>mixed\<close> those of
  the output.\<close>

definition meter_tick :: "stream_tracks \<Rightarrow> (nat \<Rightarrow> real list) \<Rightarrow> real list \<Rightarrow> mixer \<Rightarrow> mixer" where
  "meter_tick tk heard mixed m =
     (if \<not> mx_meter m \<or> mx_context m = None \<or> \<not> mx_enabled m then m
      else emit tk (m\<lparr>mx_level := rms mixed,
        mx_entries := map (\<lambda>(sid, e). (sid, e\<lparr>me_level := map_option (\<lambda>c. measured (heard (ch_id c))) (me_chain e)\<rparr>)) (mx_entries m),
        mx_tracks := map (\<lambda>(k, t). (k, t\<lparr>te_level := map_option (\<lambda>c. measured (heard (ch_id c))) (te_chain t)\<rparr>)) (mx_tracks m),
        mx_merges := map (\<lambda>(sid, g). (sid, g\<lparr>mg_level := Some (measured (heard (ch_id (mg_chain g))))\<rparr>)) (mx_merges m)\<rparr>))"

section \<open>Operations\<close>

definition release_tracks :: "(string \<times> int) list \<Rightarrow> mixer \<Rightarrow> mixer" where
  "release_tracks ks m = fold releaseTrack ks m"

definition tracks_of :: "string \<Rightarrow> mixer \<Rightarrow> (string \<times> int) list" where
  "tracks_of sid m = filter (\<lambda>k. fst k = sid) (map fst (mx_tracks m))"

definition detach :: "string \<Rightarrow> mixer \<Rightarrow> mixer" where
  "detach sid m =
     (let m = (disconnectEntry sid m)\<lparr>mx_entries := erase sid (mx_entries (disconnectEntry sid m))\<rparr>;
          m = release_tracks (tracks_of sid m) m
      in stop_if_empty (m\<lparr>mx_selections := erase sid (mx_selections m)\<rparr>))"

definition attach :: "stream_tracks \<Rightarrow> string \<Rightarrow> nat \<Rightarrow> mixer \<Rightarrow> mixer" where
  "attach tk sid element m =
     (let m = detach sid m;
          m = m\<lparr>mx_entries := assign sid \<lparr>me_element = element, me_stream = None, me_chain = None, me_level = None\<rparr> (mx_entries m)\<rparr>;
          m = applyConfiguration tk (materialize tk sid m)
      in emit tk (if mx_enabled m then startMeter m else m))"

text \<open>The function \<open>attach\<close> returns.\<close>

definition release_attachment :: "stream_tracks \<Rightarrow> string \<Rightarrow> nat \<Rightarrow> mixer \<Rightarrow> mixer" where
  "release_attachment tk sid element m =
     (case map_of (mx_entries m) sid of
        None \<Rightarrow> m
      | Some e \<Rightarrow> if me_element e \<noteq> element then m else emit tk (detach sid m))"

definition configure :: "stream_tracks \<Rightarrow> scene_source list \<Rightarrow> mixer \<Rightarrow> mixer" where
  "configure tk sources m =
     (let conf = map_from (map (\<lambda>s. (src_id s, s)) sources)
      in applyConfiguration tk (m\<lparr>mx_configuration := conf,
           mx_selections := filter (\<lambda>(sid, sel). map_of conf sid \<noteq> None) (mx_selections m)\<rparr>))"

definition wanted_tracks :: "track_selection list \<Rightarrow> (int \<times> track_selection) list" where
  "wanted_tracks sels = map_from (map (\<lambda>s. (sel_index s, s\<lparr>sel_gain := clamp (sel_gain s) 0 1\<rparr>)) sels)"

definition configureTracks :: "stream_tracks \<Rightarrow> string \<Rightarrow> track_selection list \<Rightarrow> mixer \<Rightarrow> mixer" where
  "configureTracks tk sid sels m =
     (let wanted = wanted_tracks sels;
          m = m\<lparr>mx_selections := assign sid wanted (mx_selections m)\<rparr>
      in applyConfiguration tk
           (release_tracks (filter (\<lambda>k. map_of wanted (snd k) = None) (tracks_of sid m)) m))"

definition new_track :: "mixer \<Rightarrow> string \<times> int \<Rightarrow> nat \<Rightarrow> track_entry" where
  "new_track m k stream =
     (case selection_of m k of
        None \<Rightarrow> \<lparr>te_stream = stream, te_chain = None, te_gain = 1, te_muted = False, te_level = None\<rparr>
      | Some s \<Rightarrow> \<lparr>te_stream = stream, te_chain = None, te_gain = sel_gain s, te_muted = sel_muted s, te_level = None\<rparr>)"

definition bindTrack :: "stream_tracks \<Rightarrow> string \<Rightarrow> int \<Rightarrow> nat \<Rightarrow> mixer \<Rightarrow> mixer" where
  "bindTrack tk sid i stream m =
     (let k = (sid, i) in
      if map_option te_stream (map_of (mx_tracks m) k) = Some stream
      then emit tk (applyTrackGains (materializeTrack tk k m))
      else let m = releaseTrack k m;
               m = m\<lparr>mx_tracks := assign k (new_track m k stream) (mx_tracks m)\<rparr>;
               m = applyConfiguration tk (materializeTrack tk k m)
           in if mx_enabled m then startMeter m else m)"

definition unbindTrack :: "stream_tracks \<Rightarrow> string \<Rightarrow> int \<Rightarrow> mixer \<Rightarrow> mixer" where
  "unbindTrack tk sid i m = stop_if_empty (applyConfiguration tk (releaseTrack (sid, i) m))"

definition unbindSourceTracks :: "stream_tracks \<Rightarrow> string \<Rightarrow> mixer \<Rightarrow> mixer" where
  "unbindSourceTracks tk sid m = stop_if_empty (applyConfiguration tk (release_tracks (tracks_of sid m) m))"

definition trackChannelCount :: "string option \<Rightarrow> mixer \<Rightarrow> nat" where
  "trackChannelCount sid m = (case sid of None \<Rightarrow> length (mx_tracks m) | Some s \<Rightarrow> length (tracks_of s m))"

definition applyMasterGain :: "mixer \<Rightarrow> mixer" where
  "applyMasterGain m = m\<lparr>mx_context := map_option (\<lambda>c. c\<lparr>cx_master := (if mx_output m then mx_volume m else 0)\<rparr>) (mx_context m)\<rparr>"

definition setMasterVolume :: "rat \<Rightarrow> mixer \<Rightarrow> mixer" where
  "setMasterVolume v m = applyMasterGain (m\<lparr>mx_volume := clamp v 0 1\<rparr>)"

definition setOutputEnabled :: "bool \<Rightarrow> mixer \<Rightarrow> mixer" where
  "setOutputEnabled b m = applyMasterGain (m\<lparr>mx_output := b\<rparr>)"

definition bindStream :: "stream_tracks \<Rightarrow> string \<Rightarrow> nat \<Rightarrow> mixer \<Rightarrow> mixer" where
  "bindStream tk sid stream m =
     (case map_of (mx_entries m) sid of
        None \<Rightarrow> m
      | Some e \<Rightarrow>
          if me_stream e = Some stream
          then (if mx_context m \<noteq> None \<and> me_chain e = None then applyConfiguration tk (materialize tk sid m) else emit tk m)
          else let m = disconnectEntry sid m;
                   m = m\<lparr>mx_entries := assign sid ((the (map_of (mx_entries m) sid))\<lparr>me_stream := Some stream\<rparr>) (mx_entries m)\<rparr>
               in applyConfiguration tk (materialize tk sid m))"

text \<open>\<open>enable\<close> up to its wait for the context, and after it; \<open>resumed\<close> is false when resuming failed or
  took longer than a second and a half.\<close>

definition enable :: "stream_tracks \<Rightarrow> mixer \<Rightarrow> mixer" where
  "enable tk m =
     (let m = m\<lparr>mx_generation := mx_generation m + 1, mx_enabled := True, mx_blocked := False,
            mx_context := (case mx_context m of Some c \<Rightarrow> Some c
              | None \<Rightarrow> Some \<lparr>cx_running = False, cx_master = (if mx_output m then mx_volume m else 0)\<rparr>)\<rparr>;
          m = fold (materialize tk) (map fst (mx_entries m)) m;
          m = fold (materializeTrack tk) (map fst (mx_tracks m)) m
      in applyTrackGains (applyConfiguration tk m))"

definition context_running :: "bool \<Rightarrow> mixer \<Rightarrow> mixer" where
  "context_running b m = m\<lparr>mx_context := map_option (\<lambda>c. c\<lparr>cx_running := b\<rparr>) (mx_context m)\<rparr>"

definition enable_settled :: "stream_tracks \<Rightarrow> nat \<Rightarrow> bool \<Rightarrow> mixer \<Rightarrow> bool \<times> mixer" where
  "enable_settled tk g resumed m =
     (if g \<noteq> mx_generation m then (False, m)
      else if resumed \<and> map_option cx_running (mx_context m) = Some True then (True, emit tk (startMeter m))
      else (False, emit tk (stopMeter (m\<lparr>mx_blocked := True, mx_enabled := False\<rparr>))))"

definition disable :: "mixer \<Rightarrow> mixer" where
  "disable m = m\<lparr>mx_generation := mx_generation m + 1, mx_enabled := False, mx_blocked := False\<rparr>"

definition disable_settled :: "stream_tracks \<Rightarrow> mixer \<Rightarrow> mixer" where
  "disable_settled tk m = emit tk (stopMeter m)"

definition clear_merges :: "mixer \<Rightarrow> mixer" where
  "clear_merges m = (fold (\<lambda>(sid, g). disconnect (Some (mg_chain g))) (mx_merges m) m)\<lparr>mx_merges := []\<rparr>"

definition destroy :: "mixer \<Rightarrow> mixer" where
  "destroy m =
     (let m = stopMeter (m\<lparr>mx_generation := mx_generation m + 1, mx_enabled := False\<rparr>);
          m = fold detach (map fst (mx_entries m)) m;
          m = release_tracks (map fst (mx_tracks m)) m
      in (clear_merges m)\<lparr>mx_context := None\<rparr>)"

definition empty_snapshot :: audio_snapshot where
  "empty_snapshot = \<lparr>as_state = AudioDisabled, as_inputCount = 0, as_level = 0, as_sources = []\<rparr>"

definition new_mixer :: mixer where
  "new_mixer = \<lparr>mx_entries = [], mx_tracks = [], mx_merges = [], mx_configuration = [], mx_selections = [], mx_context = None,
     mx_meter = False, mx_enabled = False, mx_generation = 0, mx_blocked = False, mx_level = 0, mx_volume = 1,
     mx_output = True, mx_latest = empty_snapshot, mx_next = 0, mx_live = []\<rparr>"

datatype mixer_op =
    Attach string nat
  | ReleaseAttachment string nat
  | Configure "scene_source list"
  | ConfigureTracks string "track_selection list"
  | BindTrack string int nat
  | UnbindTrack string int
  | UnbindSourceTracks string
  | SetMasterVolume rat
  | SetOutputEnabled bool
  | BindStream string nat
  | Enable
  | ContextRunning bool
  | EnableSettled nat bool
  | Disable
  | DisableSettled
  | MeterTick "nat \<Rightarrow> real list" "real list"
  | Destroy

fun mixer_step :: "stream_tracks \<Rightarrow> mixer \<Rightarrow> mixer_op \<Rightarrow> mixer" where
  "mixer_step tk m (Attach sid e) = attach tk sid e m"
| "mixer_step tk m (ReleaseAttachment sid e) = release_attachment tk sid e m"
| "mixer_step tk m (Configure ss) = configure tk ss m"
| "mixer_step tk m (ConfigureTracks sid ss) = configureTracks tk sid ss m"
| "mixer_step tk m (BindTrack sid i s) = bindTrack tk sid i s m"
| "mixer_step tk m (UnbindTrack sid i) = unbindTrack tk sid i m"
| "mixer_step tk m (UnbindSourceTracks sid) = unbindSourceTracks tk sid m"
| "mixer_step tk m (SetMasterVolume v) = setMasterVolume v m"
| "mixer_step tk m (SetOutputEnabled b) = setOutputEnabled b m"
| "mixer_step tk m (BindStream sid s) = bindStream tk sid s m"
| "mixer_step tk m Enable = enable tk m"
| "mixer_step tk m (ContextRunning b) = context_running b m"
| "mixer_step tk m (EnableSettled g b) = snd (enable_settled tk g b m)"
| "mixer_step tk m Disable = disable m"
| "mixer_step tk m DisableSettled = disable_settled tk m"
| "mixer_step tk m (MeterTick heard mixed) = meter_tick tk heard mixed m"
| "mixer_step tk m Destroy = destroy m"

end
