(* ===== verification/AudioLaws.thy ===== *)
theory AudioLaws
  imports AudioMixer
begin

text \<open>
  What the mixer guarantees: no audio node outlives the channel it was made for, and a source that is
  heard through its separate tracks is not heard a second time through its video element.
\<close>

section \<open>Who owns a chain of nodes\<close>

datatype holder = EntryOf string | TrackOf "string \<times> int" | MergeOf string

definition entry_chain :: "mixer \<Rightarrow> string \<Rightarrow> chain option" where
  "entry_chain m sid = (case map_of (mx_entries m) sid of None \<Rightarrow> None | Some e \<Rightarrow> me_chain e)"

definition track_chain :: "mixer \<Rightarrow> string \<times> int \<Rightarrow> chain option" where
  "track_chain m k = (case map_of (mx_tracks m) k of None \<Rightarrow> None | Some t \<Rightarrow> te_chain t)"

definition merge_chain :: "mixer \<Rightarrow> string \<Rightarrow> chain option" where
  "merge_chain m sid = map_option mg_chain (map_of (mx_merges m) sid)"

fun chain_at :: "mixer \<Rightarrow> holder \<Rightarrow> nat option" where
  "chain_at m (EntryOf sid) = map_option ch_id (entry_chain m sid)"
| "chain_at m (TrackOf k) = map_option ch_id (track_chain m k)"
| "chain_at m (MergeOf sid) = map_option ch_id (merge_chain m sid)"

text \<open>The connected chains are the owned ones, each with one owner.\<close>

definition nodes_ok :: "mixer \<Rightarrow> bool" where
  "nodes_ok m = (distinct (mx_live m) \<and> set (mx_live m) = ran (chain_at m) \<and> (\<forall>i \<in> set (mx_live m). i < mx_next m)
     \<and> (\<forall>h h' i. chain_at m h = Some i \<longrightarrow> chain_at m h' = Some i \<longrightarrow> h = h'))"

lemma nodes_same:
  "nodes_ok m \<Longrightarrow> chain_at m' = chain_at m \<Longrightarrow> mx_live m' = mx_live m \<Longrightarrow> mx_next m' = mx_next m \<Longrightarrow> nodes_ok m'"
  by (simp add: nodes_ok_def)

lemma nodes_add:
  assumes "nodes_ok m" and "chain_at m h = None" and "chain_at m' = (chain_at m)(h := Some (mx_next m))"
    and "mx_live m' = mx_live m @ [mx_next m]" and "mx_next m' = Suc (mx_next m)"
  shows "nodes_ok m'"
proof -
  have new: "mx_next m \<notin> set (mx_live m)" using assms(1) by (auto simp: nodes_ok_def)
  then have other: "chain_at m x \<noteq> Some (mx_next m)" for x
    using assms(1) by (auto simp: nodes_ok_def ran_def)
  have "ran (chain_at m') = insert (mx_next m) (ran (chain_at m))" by (simp add: assms(2,3))
  with assms(1) new other show ?thesis
    unfolding nodes_ok_def assms(3-5) by (auto simp: less_Suc_eq)
qed

lemma nodes_drop:
  assumes "nodes_ok m" and "chain_at m' = (chain_at m)(h := None)" and "mx_next m' = mx_next m"
    and "mx_live m' = (case chain_at m h of None \<Rightarrow> mx_live m | Some i \<Rightarrow> removeAll i (mx_live m))"
  shows "nodes_ok m'"
proof (cases "chain_at m h")
  case None
  then have "chain_at m' = chain_at m" using assms(2) by (auto simp: fun_eq_iff)
  with assms None show ?thesis by (intro nodes_same [OF assms(1)]) simp_all
next
  case (Some i)
  have uniq: "a = b" if "chain_at m a = Some j" "chain_at m b = Some j" for a b j
    using that assms(1) by (simp add: nodes_ok_def)
  have "(\<exists>x. x \<noteq> h \<and> chain_at m x = Some j) = ((\<exists>x. chain_at m x = Some j) \<and> j \<noteq> i)" for j
  proof
    assume "\<exists>x. x \<noteq> h \<and> chain_at m x = Some j"
    then obtain x where "x \<noteq> h" "chain_at m x = Some j" by auto
    with uniq [OF _ Some, of x] show "(\<exists>x. chain_at m x = Some j) \<and> j \<noteq> i" by auto
  next
    assume "(\<exists>x. chain_at m x = Some j) \<and> j \<noteq> i"
    then obtain x where "chain_at m x = Some j" "j \<noteq> i" by auto
    then show "\<exists>x. x \<noteq> h \<and> chain_at m x = Some j" using Some by (intro exI [of _ x]) auto
  qed
  then have "ran (chain_at m') = ran (chain_at m) - {i}" by (auto simp: assms(2) ran_def split: if_splits)
  moreover have "mx_live m' = removeAll i (mx_live m)" using Some assms(4) by simp
  moreover have "x = y" if "chain_at m' x = Some j" "chain_at m' y = Some j" for x y j
    using that uniq by (auto simp: assms(2) split: if_splits)
  ultimately show ?thesis
    using assms(1,3) by (simp add: nodes_ok_def distinct_removeAll)
qed

section \<open>The effect of the node operations\<close>

lemma map_of_mapped: "map_of (map (\<lambda>(k, v). (k, f k v)) m) k = map_option (f k) (map_of m k)"
  by (induction m) auto

lemma keys_mapped: "map fst (map (\<lambda>(k, v). (k, f k v)) m) = map fst m"
  by (induction m) auto

lemma chain_at_eqI:
  assumes "\<And>s. entry_chain m' s = f s (entry_chain m s)" "\<And>s c. map_option ch_id (f s c) = map_option ch_id c"
    and "\<And>k. map_option ch_id (track_chain m' k) = map_option ch_id (track_chain m k)"
    and "\<And>s. map_option ch_id (merge_chain m' s) = map_option ch_id (merge_chain m s)"
  shows "chain_at m' = chain_at m"
proof
  show "chain_at m' h = chain_at m h" for h by (cases h) (simp_all add: assms)
qed

lemma tuned_ids: "map_option ch_id (me_chain (tune_entry tk m sid e)) = map_option ch_id (me_chain e)"
  "map_option ch_id (te_chain (tune_track m k t)) = map_option ch_id (te_chain t)"
  "ch_id (mg_chain (tune_merge m sid g)) = ch_id (mg_chain g)"
  by (simp_all add: tune_entry_def tune_track_def tune_merge_def Let_def option.map_comp comp_def split: option.split)

text \<open>Operations that leave every chain where it is.\<close>

definition quiet :: "mixer \<Rightarrow> mixer \<Rightarrow> bool" where
  "quiet m m' = (chain_at m' = chain_at m \<and> mx_live m' = mx_live m \<and> mx_next m' = mx_next m
     \<and> map fst (mx_entries m') = map fst (mx_entries m) \<and> map fst (mx_tracks m') = map fst (mx_tracks m)
     \<and> map fst (mx_merges m') = map fst (mx_merges m))"

lemma quiet_refl [simp]: "quiet m m"
  by (simp add: quiet_def)

lemma quiet_trans: "quiet m m' \<Longrightarrow> quiet m' m'' \<Longrightarrow> quiet m m''"
  by (simp add: quiet_def)

lemma quiet_frame:
  "mx_entries m' = mx_entries m \<Longrightarrow> mx_tracks m' = mx_tracks m \<Longrightarrow> mx_merges m' = mx_merges m \<Longrightarrow> mx_live m' = mx_live m
   \<Longrightarrow> mx_next m' = mx_next m \<Longrightarrow> quiet m m'"
proof -
  assume a: "mx_entries m' = mx_entries m" "mx_tracks m' = mx_tracks m" "mx_merges m' = mx_merges m"
    "mx_live m' = mx_live m" "mx_next m' = mx_next m"
  have "chain_at m' h = chain_at m h" for h
    using a by (cases h) (simp_all add: entry_chain_def track_chain_def merge_chain_def)
  with a show "quiet m m'" by (simp add: quiet_def fun_eq_iff)
qed

lemma quiet_maps:
  assumes "mx_entries m' = map (\<lambda>(k, v). (k, f k v)) (mx_entries m)" and "mx_tracks m' = map (\<lambda>(k, v). (k, g k v)) (mx_tracks m)"
    and "mx_merges m' = map (\<lambda>(k, v). (k, h k v)) (mx_merges m)" and "mx_live m' = mx_live m" and "mx_next m' = mx_next m"
    and "\<And>k e. map_option ch_id (me_chain (f k e)) = map_option ch_id (me_chain e)"
    and "\<And>k t. map_option ch_id (te_chain (g k t)) = map_option ch_id (te_chain t)"
    and "\<And>k x. ch_id (mg_chain (h k x)) = ch_id (mg_chain x)"
  shows "quiet m m'"
proof -
  have "chain_at m' x = chain_at m x" for x
    using assms by (cases x) (simp_all add: entry_chain_def track_chain_def merge_chain_def map_of_mapped option.map_comp comp_def
        split: option.split)
  with assms(1-5) show ?thesis by (auto simp: quiet_def fun_eq_iff)
qed

lemma id_map: "map (\<lambda>(k, v). (k, v)) m = m"
  by (induction m) auto

lemma quiet_emit: "quiet m (emit tk m)"
  by (rule quiet_frame) (simp_all add: emit_def)

lemma quiet_gains: "quiet m (applyTrackGains m)"
  by (rule quiet_maps [where f = "\<lambda>k v. v" and g = "tune_track m" and h = "tune_merge m"])
    (simp_all add: applyTrackGains_def id_map tuned_ids)

lemma quiet_configuration: "quiet m (applyConfiguration tk m)"
proof -
  have "quiet m (m\<lparr>mx_entries := map (\<lambda>(sid, e). (sid, tune_entry tk m sid e)) (mx_entries m)\<rparr>)"
    by (rule quiet_maps [where f = "tune_entry tk m" and g = "\<lambda>k v. v" and h = "\<lambda>k v. v"]) (simp_all add: id_map tuned_ids)
  then show ?thesis
    unfolding applyConfiguration_def by (blast intro: quiet_trans quiet_gains quiet_emit)
qed

lemma quiet_stop: "quiet m (stopMeter m)"
  by (rule quiet_maps [where f = "\<lambda>k e. e\<lparr>me_level := None\<rparr>" and g = "\<lambda>k t. t\<lparr>te_level := None\<rparr>" and h = "\<lambda>k g. g\<lparr>mg_level := None\<rparr>"])
    (simp_all add: stopMeter_def)

lemma quiet_start: "quiet m (startMeter m)"
  by (rule quiet_frame) (simp_all add: startMeter_def)

lemma quiet_stop_if: "quiet m (stop_if_empty m)"
  by (simp add: stop_if_empty_def quiet_stop)

lemma quiet_tick: "quiet m (meter_tick tk heard mixed m)"
proof -
  have "quiet m (m\<lparr>mx_level := rms mixed,
        mx_entries := map (\<lambda>(sid, e). (sid, e\<lparr>me_level := map_option (\<lambda>c. measured (heard (ch_id c))) (me_chain e)\<rparr>)) (mx_entries m),
        mx_tracks := map (\<lambda>(k, t). (k, t\<lparr>te_level := map_option (\<lambda>c. measured (heard (ch_id c))) (te_chain t)\<rparr>)) (mx_tracks m),
        mx_merges := map (\<lambda>(sid, g). (sid, g\<lparr>mg_level := Some (measured (heard (ch_id (mg_chain g))))\<rparr>)) (mx_merges m)\<rparr>)"
    by (rule quiet_maps [where f = "\<lambda>k e. e\<lparr>me_level := map_option (\<lambda>c. measured (heard (ch_id c))) (me_chain e)\<rparr>"
        and g = "\<lambda>k t. t\<lparr>te_level := map_option (\<lambda>c. measured (heard (ch_id c))) (te_chain t)\<rparr>"
        and h = "\<lambda>k g. g\<lparr>mg_level := Some (measured (heard (ch_id (mg_chain g))))\<rparr>"]) simp_all
  then show ?thesis by (auto simp: meter_tick_def intro: quiet_trans quiet_emit)
qed

lemmas quiet_ops = quiet_emit quiet_gains quiet_configuration quiet_stop quiet_start quiet_stop_if quiet_tick

section \<open>The invariant\<close>

text \<open>A merging chain exists only for a source with tracks, and without a context there are no chains.\<close>

definition mixer_ok :: "mixer \<Rightarrow> bool" where
  "mixer_ok m = (nodes_ok m \<and> wf_map (mx_entries m) \<and> wf_map (mx_tracks m) \<and> wf_map (mx_merges m)
     \<and> fst ` set (mx_merges m) \<subseteq> fst ` fst ` set (mx_tracks m))"

lemma mixer_quiet: "mixer_ok m \<Longrightarrow> quiet m m' \<Longrightarrow> mixer_ok m'"
proof -
  assume ok: "mixer_ok m" and q: "quiet m m'"
  then have "fst ` set (mx_merges m') = fst ` set (mx_merges m)" "fst ` set (mx_tracks m') = fst ` set (mx_tracks m)"
    unfolding quiet_def by (metis list.set_map)+
  with ok q show "mixer_ok m'"
    unfolding mixer_ok_def quiet_def wf_map_def by (simp add: nodes_ok_def)
qed

lemma chain_at_upd:
  assumes "\<And>s. EntryOf s \<noteq> h \<Longrightarrow> entry_chain m' s = entry_chain m s" and "\<And>k. TrackOf k \<noteq> h \<Longrightarrow> track_chain m' k = track_chain m k"
    and "\<And>s. MergeOf s \<noteq> h \<Longrightarrow> merge_chain m' s = merge_chain m s" and "chain_at m' h = x"
  shows "chain_at m' = (chain_at m)(h := x)"
proof
  show "chain_at m' y = ((chain_at m)(h := x)) y" for y
    using assms by (cases "y = h"; cases y) auto
qed

lemma new_chain_eq: "new_chain m = (\<lparr>ch_id = mx_next m, ch_gain = 1, ch_delay = 0\<rparr>,
   m\<lparr>mx_next := Suc (mx_next m), mx_live := mx_live m @ [mx_next m]\<rparr>)"
  by (simp add: new_chain_def)

lemma ok_materialize:
  assumes "mixer_ok m"
  shows "mixer_ok (materialize tk sid m)"
proof (cases "\<exists>e. map_of (mx_entries m) sid = Some e \<and> mx_context m \<noteq> None \<and> me_chain e = None \<and> live_stream tk (me_stream e) \<noteq> 0")
  case False
  then have "materialize tk sid m = m" by (auto simp: materialize_def split: option.split)
  with assms show ?thesis by simp
next
  case True
  then obtain e where e: "map_of (mx_entries m) sid = Some e" "mx_context m \<noteq> None" "me_chain e = None" "live_stream tk (me_stream e) \<noteq> 0"
    by blast
  let ?c = "\<lparr>ch_id = mx_next m, ch_gain = 1, ch_delay = 0\<rparr>"
  have m': "materialize tk sid m = m\<lparr>mx_next := Suc (mx_next m), mx_live := mx_live m @ [mx_next m],
      mx_entries := assign sid (e\<lparr>me_chain := Some ?c\<rparr>) (mx_entries m)\<rparr>"
    using e by (auto simp: materialize_def new_chain_eq)
  have "nodes_ok (materialize tk sid m)"
  proof (rule nodes_add [of m "EntryOf sid"])
    show "chain_at (materialize tk sid m) = (chain_at m)(EntryOf sid \<mapsto> mx_next m)"
      unfolding m' by (rule chain_at_upd) (auto simp: entry_chain_def track_chain_def merge_chain_def)
  qed (use assms e in \<open>simp_all add: m' entry_chain_def mixer_ok_def\<close>)
  with assms show ?thesis by (simp add: mixer_ok_def m')
qed

lemma ok_mergeFor:
  assumes "mixer_ok m" and "sid \<in> fst ` fst ` set (mx_tracks m)"
  shows "mixer_ok (mergeFor sid m)"
proof (cases "map_of (mx_merges m) sid")
  case (Some g)
  with assms(1) show ?thesis by (simp add: mergeFor_def)
next
  case None
  let ?g = "\<lparr>mg_chain = \<lparr>ch_id = mx_next m, ch_gain = 1, ch_delay = 0\<rparr>, mg_level = None\<rparr>"
  have m': "mergeFor sid m = m\<lparr>mx_next := Suc (mx_next m), mx_live := mx_live m @ [mx_next m],
      mx_merges := assign sid ?g (mx_merges m)\<rparr>"
    using None by (simp add: mergeFor_def new_chain_eq)
  have "nodes_ok (mergeFor sid m)"
  proof (rule nodes_add [of m "MergeOf sid"])
    show "chain_at (mergeFor sid m) = (chain_at m)(MergeOf sid \<mapsto> mx_next m)"
      unfolding m' by (rule chain_at_upd) (auto simp: entry_chain_def track_chain_def merge_chain_def)
  qed (use assms None in \<open>simp_all add: m' merge_chain_def mixer_ok_def\<close>)
  with assms show ?thesis by (simp add: mixer_ok_def m')
qed

lemma mergeFor_frame:
  "mx_tracks (mergeFor sid m) = mx_tracks m" "mx_entries (mergeFor sid m) = mx_entries m"
  "mx_context (mergeFor sid m) = mx_context m" "mx_configuration (mergeFor sid m) = mx_configuration m"
  by (simp_all add: mergeFor_def new_chain_eq)

lemma ok_materializeTrack:
  assumes "mixer_ok m"
  shows "mixer_ok (materializeTrack tk k m)"
proof (cases "\<exists>t. map_of (mx_tracks m) k = Some t \<and> mx_context m \<noteq> None \<and> te_chain t = None \<and> tk (te_stream t) \<noteq> 0")
  case False
  then have "materializeTrack tk k m = m" by (auto simp: materializeTrack_def split: option.split)
  with assms show ?thesis by simp
next
  case True
  then obtain t where t: "map_of (mx_tracks m) k = Some t" "mx_context m \<noteq> None" "te_chain t = None" "tk (te_stream t) \<noteq> 0"
    by blast
  define n where "n = mergeFor (fst k) m"
  have "k \<in> fst ` set (mx_tracks m)" using t(1) by (metis domI dom_map_of_conv_image_fst)
  then have n: "mixer_ok n" unfolding n_def by (intro ok_mergeFor [OF assms]) blast
  have tn: "map_of (mx_tracks n) k = Some t" "mx_tracks n = mx_tracks m" using t(1) by (simp_all add: n_def mergeFor_frame)
  let ?c = "\<lparr>ch_id = mx_next n, ch_gain = 1, ch_delay = 0\<rparr>"
  have m': "materializeTrack tk k m = n\<lparr>mx_next := Suc (mx_next n), mx_live := mx_live n @ [mx_next n],
      mx_tracks := assign k (t\<lparr>te_chain := Some ?c\<rparr>) (mx_tracks n)\<rparr>"
    using t by (auto simp: materializeTrack_def new_chain_eq n_def mergeFor_frame)
  have "nodes_ok (materializeTrack tk k m)"
  proof (rule nodes_add [of n "TrackOf k"])
    show "chain_at (materializeTrack tk k m) = (chain_at n)(TrackOf k \<mapsto> mx_next n)"
      unfolding m' by (rule chain_at_upd) (auto simp: entry_chain_def track_chain_def merge_chain_def)
  qed (use n tn t(3) in \<open>simp_all add: m' track_chain_def mixer_ok_def\<close>)
  with n show ?thesis by (auto simp: mixer_ok_def m')
qed

lemma disconnect_frame [simp]:
  "mx_entries (disconnect c m) = mx_entries m" "mx_tracks (disconnect c m) = mx_tracks m" "mx_merges (disconnect c m) = mx_merges m"
  "mx_next (disconnect c m) = mx_next m" "mx_context (disconnect c m) = mx_context m"
  "mx_configuration (disconnect c m) = mx_configuration m" "mx_selections (disconnect c m) = mx_selections m"
  "mx_live (disconnect c m) = (case map_option ch_id c of None \<Rightarrow> mx_live m | Some i \<Rightarrow> removeAll i (mx_live m))"
  by (simp_all add: disconnect_def split: option.split)

lemma ok_disconnectEntry:
  assumes "mixer_ok m"
  shows "mixer_ok (disconnectEntry sid m)"
proof (cases "map_of (mx_entries m) sid")
  case None
  with assms show ?thesis by (simp add: disconnectEntry_def)
next
  case (Some e)
  have m': "disconnectEntry sid m = (disconnect (me_chain e) m)\<lparr>mx_entries :=
      assign sid (e\<lparr>me_chain := None, me_level := None\<rparr>) (mx_entries m)\<rparr>"
    using Some by (simp add: disconnectEntry_def)
  have "nodes_ok (disconnectEntry sid m)"
  proof (rule nodes_drop [of m _ "EntryOf sid"])
    show "chain_at (disconnectEntry sid m) = (chain_at m)(EntryOf sid := None)"
      unfolding m' by (rule chain_at_upd) (auto simp: entry_chain_def track_chain_def merge_chain_def)
  qed (use assms Some in \<open>simp_all add: m' entry_chain_def mixer_ok_def\<close>)
  with assms show ?thesis by (simp add: mixer_ok_def m')
qed

lemma ok_erase_entry:
  assumes "mixer_ok m" and "entry_chain m sid = None"
  shows "mixer_ok (m\<lparr>mx_entries := erase sid (mx_entries m)\<rparr>)" (is "mixer_ok ?m")
proof -
  have "chain_at ?m = (chain_at m)(EntryOf sid := None)"
    by (rule chain_at_upd) (auto simp: entry_chain_def track_chain_def merge_chain_def)
  also have "\<dots> = chain_at m" using assms(2) by (auto simp: fun_eq_iff)
  finally have c: "chain_at ?m = chain_at m" .
  have "nodes_ok ?m" by (rule nodes_same [OF _ c]) (use assms(1) in \<open>simp_all add: mixer_ok_def\<close>)
  with assms(1) show ?thesis by (simp add: mixer_ok_def)
qed

lemma ok_release_merge:
  assumes "nodes_ok m" and "wf_map (mx_merges m)"
  shows "nodes_ok (release_merge sid m) \<and> wf_map (mx_merges (release_merge sid m))
    \<and> fst ` set (mx_merges (release_merge sid m)) = fst ` set (mx_merges m) - {sid}"
proof (cases "map_of (mx_merges m) sid")
  case None
  then have "release_merge sid m = m" by (simp add: release_merge_def)
  moreover from None have "sid \<notin> fst ` set (mx_merges m)" by (simp add: map_of_eq_None_iff)
  ultimately show ?thesis using assms by simp
next
  case (Some g)
  have m': "release_merge sid m = (disconnect (Some (mg_chain g)) m)\<lparr>mx_merges := erase sid (mx_merges m)\<rparr>"
    using Some by (simp add: release_merge_def)
  have "nodes_ok (release_merge sid m)"
  proof (rule nodes_drop [of m _ "MergeOf sid"])
    show "chain_at (release_merge sid m) = (chain_at m)(MergeOf sid := None)"
      unfolding m' by (rule chain_at_upd) (auto simp: entry_chain_def track_chain_def merge_chain_def)
  qed (use assms Some in \<open>simp_all add: m' merge_chain_def\<close>)
  moreover have "fst ` set (erase sid (mx_merges m)) = fst ` set (mx_merges m) - {sid}" by (auto simp: erase_def)
  ultimately show ?thesis using assms(2) by (simp add: m')
qed

lemma ok_releaseTrack:
  assumes "mixer_ok m"
  shows "mixer_ok (releaseTrack k m)"
proof (cases "map_of (mx_tracks m) k")
  case None
  with assms show ?thesis by (simp add: releaseTrack_def)
next
  case (Some t)
  define n where "n = (disconnect (te_chain t) m)\<lparr>mx_tracks := erase k (mx_tracks m)\<rparr>"
  have "nodes_ok n"
  proof (rule nodes_drop [of m _ "TrackOf k"])
    show "chain_at n = (chain_at m)(TrackOf k := None)"
      unfolding n_def by (rule chain_at_upd) (auto simp: entry_chain_def track_chain_def merge_chain_def)
  qed (use assms Some in \<open>simp_all add: n_def track_chain_def mixer_ok_def\<close>)
  moreover have w: "wf_map (mx_entries n)" "wf_map (mx_tracks n)" "wf_map (mx_merges n)" "mx_merges n = mx_merges m"
    using assms by (simp_all add: n_def mixer_ok_def)
  ultimately have r: "nodes_ok (release_merge (fst k) n)" "wf_map (mx_merges (release_merge (fst k) n))"
    "fst ` set (mx_merges (release_merge (fst k) n)) = fst ` set (mx_merges m) - {fst k}"
    using ok_release_merge [of n "fst k"] by simp_all
  have t: "fst ` set (mx_tracks n) = fst ` set (mx_tracks m) - {k}" by (auto simp: n_def erase_def)
  have sub: "fst ` set (mx_merges m) \<subseteq> fst ` fst ` set (mx_tracks m)" using assms by (simp add: mixer_ok_def)
  have eq: "releaseTrack k m = (if list_ex (\<lambda>((s, i), t). s = fst k) (mx_tracks n) then n else release_merge (fst k) n)"
    using Some by (simp add: releaseTrack_def n_def)
  have fr: "mx_entries (release_merge (fst k) n) = mx_entries n" "mx_tracks (release_merge (fst k) n) = mx_tracks n"
    by (simp_all add: release_merge_def split: option.split)
  show ?thesis
  proof (cases "list_ex (\<lambda>((s, i), t). s = fst k) (mx_tracks n)")
    case True
    then obtain x where "x \<in> set (mx_tracks n)" "fst k = fst (fst x)" by (auto simp: list_ex_iff)
    then have "fst k \<in> fst ` fst ` set (mx_tracks n)" by (intro image_eqI [of _ _ "fst x"]) auto
    then have i: "insert (fst k) (fst ` fst ` set (mx_tracks n)) = fst ` fst ` set (mx_tracks n)" by (rule insert_absorb)
    have "fst ` fst ` set (mx_tracks m) \<subseteq> insert (fst k) (fst ` fst ` set (mx_tracks n))"
      unfolding t by (rule subsetI) (force intro: rev_image_eqI)
    then have "fst ` fst ` set (mx_tracks m) \<subseteq> fst ` fst ` set (mx_tracks n)" unfolding i .
    then have "fst ` set (mx_merges n) \<subseteq> fst ` fst ` set (mx_tracks n)"
      unfolding w(4) by (rule subset_trans [OF sub])
    with True w \<open>nodes_ok n\<close> show ?thesis by (simp add: eq mixer_ok_def)
  next
    case False
    have "fst ` set (mx_merges m) - {fst k} \<subseteq> fst ` fst ` set (mx_tracks n)" using sub t by auto
    with False r w fr show ?thesis by (simp add: eq mixer_ok_def)
  qed
qed

lemma ok_release_tracks: "mixer_ok m \<Longrightarrow> mixer_ok (release_tracks ks m)"
  unfolding release_tracks_def by (induction ks arbitrary: m) (simp_all add: ok_releaseTrack)

lemma ok_frame:
  "mixer_ok m \<Longrightarrow> mx_entries m' = mx_entries m \<Longrightarrow> mx_tracks m' = mx_tracks m \<Longrightarrow> mx_merges m' = mx_merges m
   \<Longrightarrow> mx_live m' = mx_live m \<Longrightarrow> mx_next m' = mx_next m \<Longrightarrow> mixer_ok m'"
  by (rule mixer_quiet [OF _ quiet_frame])

lemma ok_detach: "mixer_ok m \<Longrightarrow> mixer_ok (detach sid m)"
proof -
  assume "mixer_ok m"
  then have "mixer_ok (disconnectEntry sid m)" by (rule ok_disconnectEntry)
  moreover have "entry_chain (disconnectEntry sid m) sid = None"
    by (simp add: entry_chain_def disconnectEntry_def split: option.split)
  ultimately have "mixer_ok ((disconnectEntry sid m)\<lparr>mx_entries := erase sid (mx_entries (disconnectEntry sid m))\<rparr>)"
    by (rule ok_erase_entry)
  then have "mixer_ok (release_tracks ks ((disconnectEntry sid m)\<lparr>mx_entries := erase sid (mx_entries (disconnectEntry sid m))\<rparr>))" for ks
    by (rule ok_release_tracks)
  then show ?thesis
    unfolding detach_def Let_def by (intro mixer_quiet [OF _ quiet_stop_if]) (rule ok_frame, simp_all)
qed

lemma chains_of_new_entry:
  assumes "mixer_ok m" and "map_of (mx_entries m) sid = None"
  shows "mixer_ok (m\<lparr>mx_entries := assign sid \<lparr>me_element = x, me_stream = s, me_chain = None, me_level = l\<rparr> (mx_entries m)\<rparr>)"
    (is "mixer_ok ?m")
proof -
  have "chain_at ?m = (chain_at m)(EntryOf sid := None)"
    by (rule chain_at_upd) (auto simp: entry_chain_def track_chain_def merge_chain_def)
  also have "\<dots> = chain_at m" using assms(2) by (auto simp: fun_eq_iff entry_chain_def)
  finally have c: "chain_at ?m = chain_at m" .
  have "nodes_ok ?m" by (rule nodes_same [OF _ c]) (use assms(1) in \<open>simp_all add: mixer_ok_def\<close>)
  with assms(1) show ?thesis by (simp add: mixer_ok_def)
qed

lemma stop_if_entries: "map_of (mx_entries (stop_if_empty m)) sid = None \<longleftrightarrow> map_of (mx_entries m) sid = None"
  by (auto simp: stop_if_empty_def stopMeter_def)

lemma release_merge_frame: "mx_entries (release_merge sid m) = mx_entries m" "mx_tracks (release_merge sid m) = mx_tracks m"
  "mx_context (release_merge sid m) = mx_context m" "mx_configuration (release_merge sid m) = mx_configuration m"
  "mx_selections (release_merge sid m) = mx_selections m"
  by (simp_all add: release_merge_def split: option.split)

lemma releaseTrack_frame: "mx_entries (releaseTrack k m) = mx_entries m" "mx_tracks (releaseTrack k m) = erase k (mx_tracks m)"
  "mx_configuration (releaseTrack k m) = mx_configuration m" "mx_context (releaseTrack k m) = mx_context m"
proof -
  have "erase k (mx_tracks m) = mx_tracks m" if "map_of (mx_tracks m) k = None"
    using that by (auto simp: erase_def filter_id_conv map_of_eq_None_iff)
  then show "mx_entries (releaseTrack k m) = mx_entries m" "mx_tracks (releaseTrack k m) = erase k (mx_tracks m)"
    "mx_configuration (releaseTrack k m) = mx_configuration m" "mx_context (releaseTrack k m) = mx_context m"
    by (simp_all add: releaseTrack_def Let_def release_merge_frame split: option.split)
qed

lemma release_tracks_frame: "mx_entries (release_tracks ks m) = mx_entries m"
  "mx_configuration (release_tracks ks m) = mx_configuration m" "set (mx_tracks (release_tracks ks m)) = {e \<in> set (mx_tracks m). fst e \<notin> set ks}"
  unfolding release_tracks_def
  by (induction ks arbitrary: m) (auto simp: releaseTrack_frame erase_def)

lemma detach_entry: "map_of (mx_entries (detach sid m)) sid = None"
  by (simp add: detach_def Let_def stop_if_entries release_tracks_frame)

lemma ok_attach: "mixer_ok m \<Longrightarrow> mixer_ok (attach tk sid x m)"
proof -
  assume "mixer_ok m"
  from chains_of_new_entry [OF ok_detach [OF this] detach_entry]
  have "mixer_ok (applyConfiguration tk (materialize tk sid ((detach sid m)\<lparr>mx_entries :=
      assign sid \<lparr>me_element = x, me_stream = None, me_chain = None, me_level = None\<rparr> (mx_entries (detach sid m))\<rparr>)))"
    by (intro mixer_quiet [OF _ quiet_configuration] ok_materialize)
  then show ?thesis
    by (auto simp: attach_def Let_def intro: mixer_quiet [OF _ quiet_emit] mixer_quiet [OF _ quiet_start])
qed

lemma ok_configured: "mixer_ok m \<Longrightarrow> mixer_ok (applyConfiguration tk m)"
  by (rule mixer_quiet [OF _ quiet_configuration])

lemma ok_bindTrack:
  assumes "mixer_ok m"
  shows "mixer_ok (bindTrack tk sid i s m)"
proof (cases "map_option te_stream (map_of (mx_tracks m) (sid, i)) = Some s")
  case True
  with assms show ?thesis
    by (auto simp: bindTrack_def Let_def intro!: mixer_quiet [OF _ quiet_emit] mixer_quiet [OF _ quiet_gains] ok_materializeTrack)
next
  case False
  define n where "n = releaseTrack (sid, i) m"
  have n: "mixer_ok n" unfolding n_def by (rule ok_releaseTrack [OF assms])
  let ?n = "n\<lparr>mx_tracks := assign (sid, i) (new_track n (sid, i) s) (mx_tracks n)\<rparr>"
  have none: "map_of (mx_tracks n) (sid, i) = None" by (simp add: n_def releaseTrack_frame)
  have "chain_at ?n = (chain_at n)(TrackOf (sid, i) := None)"
    by (rule chain_at_upd) (auto simp: entry_chain_def track_chain_def merge_chain_def new_track_def split: option.split)
  also have "\<dots> = chain_at n" using none by (auto simp: fun_eq_iff track_chain_def)
  finally have c: "chain_at ?n = chain_at n" .
  have "nodes_ok ?n" by (rule nodes_same [OF _ c]) (use n in \<open>simp_all add: mixer_ok_def\<close>)
  with n have "mixer_ok ?n" by (auto simp: mixer_ok_def)
  then have "mixer_ok (applyConfiguration tk (materializeTrack tk (sid, i) ?n))"
    by (intro ok_configured ok_materializeTrack)
  with False show ?thesis
    by (auto simp: bindTrack_def Let_def n_def [symmetric] intro: mixer_quiet [OF _ quiet_start])
qed

lemma ok_bindStream: "mixer_ok m \<Longrightarrow> mixer_ok (bindStream tk sid s m)"
proof (cases "map_of (mx_entries m) sid")
  case None
  moreover assume "mixer_ok m"
  ultimately show ?thesis by (simp add: bindStream_def)
next
  case (Some e)
  assume ok: "mixer_ok m"
  define n where "n = disconnectEntry sid m"
  have n: "mixer_ok n" unfolding n_def by (rule ok_disconnectEntry [OF ok])
  obtain e' where e': "map_of (mx_entries n) sid = Some e'" "me_chain e' = None"
    using Some by (simp add: n_def disconnectEntry_def)
  let ?n = "n\<lparr>mx_entries := assign sid (e'\<lparr>me_stream := Some s\<rparr>) (mx_entries n)\<rparr>"
  have "chain_at ?n = (chain_at n)(EntryOf sid := None)"
    by (rule chain_at_upd) (auto simp: entry_chain_def track_chain_def merge_chain_def e'(2))
  also have "\<dots> = chain_at n" using e' by (auto simp: fun_eq_iff entry_chain_def)
  finally have c: "chain_at ?n = chain_at n" .
  have "nodes_ok ?n" by (rule nodes_same [OF _ c]) (use n in \<open>simp_all add: mixer_ok_def\<close>)
  with n have "mixer_ok ?n" by (simp add: mixer_ok_def)
  then have "mixer_ok (applyConfiguration tk (materialize tk sid ?n))" by (intro ok_configured ok_materialize)
  then show ?thesis
    using Some e'(1) ok by (simp add: bindStream_def Let_def n_def [symmetric] ok_configured ok_materialize mixer_quiet [OF _ quiet_emit])
qed

lemma ok_enable: "mixer_ok m \<Longrightarrow> mixer_ok (enable tk m)"
proof -
  assume ok: "mixer_ok m"
  have e: "mixer_ok v \<Longrightarrow> mixer_ok (fold (materialize tk) ks v)" for ks v
    by (induction ks arbitrary: v) (simp_all add: ok_materialize)
  have t: "mixer_ok v \<Longrightarrow> mixer_ok (fold (materializeTrack tk) ks v)" for ks v
    by (induction ks arbitrary: v) (simp_all add: ok_materializeTrack)
  show ?thesis
    unfolding enable_def Let_def
    by (intro mixer_quiet [OF _ quiet_gains] ok_configured e t) (rule ok_frame [OF ok], simp_all)
qed

lemma fold_detach_entries:
  "fst ` set (mx_entries (fold detach ks m)) \<subseteq> fst ` set (mx_entries m) - set ks"
proof (induction ks arbitrary: m)
  case (Cons k ks)
  have "fst ` set (mx_entries (detach k m)) \<subseteq> fst ` set (mx_entries m) - {k}"
    by (auto simp: detach_def Let_def stop_if_empty_def stopMeter_def release_tracks_frame erase_def disconnectEntry_def
        dest!: subsetD [OF set_assign_subset] split: option.splits if_splits intro: rev_image_eqI)
  with Cons.IH [of "detach k m"] show ?case by auto
qed simp

lemma destroyed:
  assumes "mixer_ok m"
  shows "mixer_ok (destroy m) \<and> mx_entries (destroy m) = [] \<and> mx_tracks (destroy m) = [] \<and> mx_merges (destroy m) = []
    \<and> mx_live (destroy m) = []"
proof -
  define a where "a = stopMeter (m\<lparr>mx_generation := mx_generation m + 1, mx_enabled := False\<rparr>)"
  define b where "b = fold detach (map fst (mx_entries a)) a"
  define c where "c = release_tracks (map fst (mx_tracks b)) b"
  have d: "mixer_ok v \<Longrightarrow> mixer_ok (fold detach ks v)" for ks v
    by (induction ks arbitrary: v) (simp_all add: ok_detach)
  have "mixer_ok a"
    unfolding a_def by (intro mixer_quiet [OF _ quiet_stop]) (rule ok_frame [OF assms], simp_all)
  then have "mixer_ok b" unfolding b_def by (rule d)
  then have c: "mixer_ok c" unfolding c_def by (rule ok_release_tracks)
  have "fst ` set (mx_entries b) \<subseteq> {}" using fold_detach_entries [of "map fst (mx_entries a)" a] by (simp add: b_def)
  then have e: "mx_entries c = []" by (simp add: c_def release_tracks_frame)
  have "set (mx_tracks c) = {}" unfolding c_def release_tracks_frame by auto
  then have t: "mx_tracks c = []" by simp
  with c have g: "mx_merges c = []" by (simp add: mixer_ok_def)
  have "chain_at c h = None" for h
    using e t g by (cases h) (simp_all add: entry_chain_def track_chain_def merge_chain_def)
  then have "ran (chain_at c) = {}" by (simp add: ran_def)
  with c have l: "mx_live c = []" by (simp add: mixer_ok_def nodes_ok_def)
  have eq: "destroy m = c\<lparr>mx_merges := [], mx_context := None\<rparr>"
    using g by (simp add: destroy_def Let_def clear_merges_def a_def b_def c_def)
  have "mixer_ok (destroy m)" by (rule ok_frame [OF c]) (simp_all add: eq g)
  with e t g l show ?thesis by (simp add: eq)
qed

lemma ok_stop_if: "mixer_ok m \<Longrightarrow> mixer_ok (stop_if_empty m)"
  by (rule mixer_quiet [OF _ quiet_stop_if])

lemma ok_step:
  assumes "mixer_ok m"
  shows "mixer_ok (mixer_step tk m p)"
proof (cases p)
  case (ReleaseAttachment sid x)
  with assms show ?thesis
    by (auto simp: release_attachment_def intro!: mixer_quiet [OF _ quiet_emit] ok_detach split: option.split)
next
  case (Configure ss)
  then show ?thesis
    by (auto simp: configure_def Let_def intro!: ok_configured ok_frame [OF assms])
next
  case (ConfigureTracks sid ss)
  then show ?thesis
    by (auto simp: configureTracks_def Let_def intro!: ok_configured ok_release_tracks ok_frame [OF assms])
next
  case (SetMasterVolume v)
  then show ?thesis by (auto simp: setMasterVolume_def applyMasterGain_def intro!: ok_frame [OF assms])
next
  case (SetOutputEnabled b)
  then show ?thesis by (auto simp: setOutputEnabled_def applyMasterGain_def intro!: ok_frame [OF assms])
next
  case (ContextRunning b)
  then show ?thesis by (auto simp: context_running_def intro!: ok_frame [OF assms])
next
  case (EnableSettled g b)
  have "mixer_ok (m\<lparr>mx_blocked := True, mx_enabled := False\<rparr>)" by (rule ok_frame [OF assms]) simp_all
  with EnableSettled assms show ?thesis
    by (auto simp: enable_settled_def intro!: mixer_quiet [OF _ quiet_emit] mixer_quiet [OF _ quiet_start] mixer_quiet [OF _ quiet_stop])
next
  case Disable
  then show ?thesis by (auto simp: disable_def intro!: ok_frame [OF assms])
qed (use assms destroyed in \<open>auto simp: unbindTrack_def unbindSourceTracks_def disable_settled_def
      intro!: ok_attach ok_bindTrack ok_bindStream ok_enable mixer_quiet [OF _ quiet_tick] mixer_quiet [OF _ quiet_emit]
        mixer_quiet [OF _ quiet_stop] ok_stop_if ok_configured ok_releaseTrack ok_release_tracks\<close>)

lemma ok_new: "mixer_ok new_mixer"
proof -
  have "chain_at new_mixer h = None" for h
    by (cases h) (simp_all add: entry_chain_def track_chain_def merge_chain_def new_mixer_def)
  then show ?thesis by (simp add: mixer_ok_def nodes_ok_def ran_def) (simp add: new_mixer_def)
qed

interpretation mixer: machine new_mixer "mixer_step tk" mixer_ok for tk
  by unfold_locales (auto intro: ok_new ok_step)

text \<open>C7. No audio node is leaked: in every state of the mixer the connected chains of nodes are exactly
  those of the attached elements, of the bound tracks and of the merges of sources that have
  tracks, each with one owner, and destroying the mixer disconnects all of them.\<close>

theorem no_audio_node_leaks:
  "distinct (mx_live (foldl (mixer_step tk) new_mixer ops))
   \<and> set (mx_live (foldl (mixer_step tk) new_mixer ops)) = ran (chain_at (foldl (mixer_step tk) new_mixer ops))
   \<and> fst ` set (mx_merges (foldl (mixer_step tk) new_mixer ops)) \<subseteq> fst ` fst ` set (mx_tracks (foldl (mixer_step tk) new_mixer ops))
   \<and> mx_live (destroy (foldl (mixer_step tk) new_mixer ops)) = []"
proof -
  have ok: "mixer_ok (foldl (mixer_step tk) new_mixer ops)" by (rule mixer.inv_run)
  from destroyed [OF ok] ok show ?thesis by (simp add: mixer_ok_def nodes_ok_def)
qed

section \<open>What is heard\<close>

definition gains_ok :: "stream_tracks \<Rightarrow> mixer \<Rightarrow> bool" where
  "gains_ok tk m = (\<forall>sid c. entry_chain m sid = Some c \<longrightarrow> ch_gain c = entry_gain tk m sid)"

lemma gains_okD: "gains_ok tk m \<Longrightarrow> entry_chain m sid = Some c \<Longrightarrow> ch_gain c = entry_gain tk m sid"
  by (simp add: gains_ok_def)

lemma gains_mono:
  assumes "gains_ok tk m" and "\<And>sid c. entry_chain m' sid = Some c \<Longrightarrow> entry_chain m sid = Some c \<and> entry_gain tk m' sid = entry_gain tk m sid"
  shows "gains_ok tk m'"
  using assms unfolding gains_ok_def by metis

lemma gains_frame:
  assumes "gains_ok tk m" and "mx_entries m' = mx_entries m" and "mx_tracks m' = mx_tracks m" and "mx_configuration m' = mx_configuration m"
  shows "gains_ok tk m'"
  by (rule gains_mono [OF assms(1)]) (use assms(2-4) in \<open>simp_all add: entry_chain_def entry_gain_def separate_sources_def\<close>)

text \<open>Changes of the levels, and of the tracks without their streams, leave the gains alone.\<close>

lemma gains_same_streams:
  assumes "gains_ok tk m" and "\<And>sid. entry_chain m' sid = entry_chain m sid" and "mx_configuration m' = mx_configuration m"
    and "map (\<lambda>(k, t). (k, te_stream t)) (mx_tracks m') = map (\<lambda>(k, t). (k, te_stream t)) (mx_tracks m)"
  shows "gains_ok tk m'"
proof (rule gains_mono [OF assms(1)])
  have "map (fst \<circ> fst) (filter (\<lambda>(k, t). tk (te_stream t) > 0) xs)
      = map (fst \<circ> fst) (filter (\<lambda>(k, s). tk s > 0) (map (\<lambda>(k, t). (k, te_stream t)) xs))" for xs :: "((string \<times> int) \<times> track_entry) list"
    by (induction xs) auto
  then have s: "separate_sources tk v = map (fst \<circ> fst) (filter (\<lambda>(k, s). tk s > 0) (map (\<lambda>(k, t). (k, te_stream t)) (mx_tracks v)))" for v
    by (simp only: separate_sources_def)
  fix sid c assume "entry_chain m' sid = Some c"
  then show "entry_chain m sid = Some c \<and> entry_gain tk m' sid = entry_gain tk m sid"
    using assms(2-4) by (simp add: entry_gain_def s)
qed

lemma tuned_stream: "te_stream (tune_track m k t) = te_stream t"
  by (simp add: tune_track_def Let_def split: option.split)

lemma gains_track_gains: "gains_ok tk m \<Longrightarrow> gains_ok tk (applyTrackGains m)"
  by (rule gains_same_streams) (auto simp: applyTrackGains_def entry_chain_def tuned_stream)

lemma gains_emit: "gains_ok tk m \<Longrightarrow> gains_ok tk (emit tk m)"
  by (rule gains_frame) (simp_all add: emit_def)

lemma gains_configured: "gains_ok tk (applyConfiguration tk m)"
proof -
  let ?m = "m\<lparr>mx_entries := map (\<lambda>(sid, e). (sid, tune_entry tk m sid e)) (mx_entries m)\<rparr>"
  have "gains_ok tk ?m"
    by (auto simp: gains_ok_def entry_chain_def map_of_mapped tune_entry_def entry_gain_def separate_sources_def
        split: option.splits)
  then show ?thesis by (simp add: applyConfiguration_def gains_emit gains_track_gains)
qed

lemma gains_stop: "gains_ok tk m \<Longrightarrow> gains_ok tk (stopMeter m)"
  by (rule gains_same_streams) (auto simp: stopMeter_def entry_chain_def map_of_mapped split: option.split)

lemma gains_start: "gains_ok tk m \<Longrightarrow> gains_ok tk (startMeter m)"
  by (auto simp: startMeter_def intro: gains_frame)

lemma gains_stop_if: "gains_ok tk m \<Longrightarrow> gains_ok tk (stop_if_empty m)"
  by (simp add: stop_if_empty_def gains_stop)

lemma gains_tick: "gains_ok tk m \<Longrightarrow> gains_ok tk (meter_tick tk heard mixed m)"
proof -
  assume g: "gains_ok tk m"
  have "gains_ok tk (m\<lparr>mx_level := rms mixed,
        mx_entries := map (\<lambda>(sid, e). (sid, e\<lparr>me_level := map_option (\<lambda>c. measured (heard (ch_id c))) (me_chain e)\<rparr>)) (mx_entries m),
        mx_tracks := map (\<lambda>(k, t). (k, t\<lparr>te_level := map_option (\<lambda>c. measured (heard (ch_id c))) (te_chain t)\<rparr>)) (mx_tracks m),
        mx_merges := map (\<lambda>(sid, g). (sid, g\<lparr>mg_level := Some (measured (heard (ch_id (mg_chain g))))\<rparr>)) (mx_merges m)\<rparr>)"
    by (rule gains_same_streams [OF g]) (auto simp: entry_chain_def map_of_mapped split: option.split)
  with g show ?thesis by (simp add: meter_tick_def gains_emit)
qed

lemma assign_same_view:
  "map_of m k = Some t \<Longrightarrow> f t' = f t \<Longrightarrow> map (\<lambda>(k, v). (k, f v)) (assign k t' m) = map (\<lambda>(k, v). (k, f v)) m"
  by (induction k t' m rule: assign.induct) (auto split: if_splits)

lemma gains_materializeTrack:
  assumes "gains_ok tk m"
  shows "gains_ok tk (materializeTrack tk k m)"
proof (cases "map_of (mx_tracks m) k")
  case None
  with assms show ?thesis by (simp add: materializeTrack_def)
next
  case (Some t)
  show ?thesis
  proof (cases "mx_context m = None \<or> te_chain t \<noteq> None \<or> tk (te_stream t) = 0")
    case True
    with assms Some show ?thesis by (auto simp: materializeTrack_def)
  next
    case False
    show ?thesis
      by (rule gains_same_streams [OF assms])
        (use False Some in \<open>simp_all add: materializeTrack_def new_chain_eq mergeFor_frame entry_chain_def
          assign_same_view [where f = te_stream]\<close>)
  qed
qed

lemma detach_parts:
  "entry_chain (detach sid m) s = (if s = sid then None else entry_chain m s)"
  "mx_configuration (detach sid m) = mx_configuration m"
  "s \<noteq> sid \<Longrightarrow> s \<in> set (separate_sources tk (detach sid m)) \<longleftrightarrow> s \<in> set (separate_sources tk m)"
proof -
  define a where "a = (disconnectEntry sid m)\<lparr>mx_entries := erase sid (mx_entries (disconnectEntry sid m))\<rparr>"
  define b where "b = (release_tracks (tracks_of sid a) a)\<lparr>mx_selections := erase sid (mx_selections (release_tracks (tracks_of sid a) a))\<rparr>"
  have d: "detach sid m = stop_if_empty b" by (simp add: detach_def Let_def a_def b_def)
  have ta: "mx_tracks a = mx_tracks m" "mx_configuration a = mx_configuration m"
    by (simp_all add: a_def disconnectEntry_def split: option.split)
  have st: "entry_chain (stop_if_empty v) s = entry_chain v s" "mx_configuration (stop_if_empty v) = mx_configuration v"
    "set (separate_sources tk (stop_if_empty v)) = set (separate_sources tk v)" for v
    by (auto simp: stop_if_empty_def stopMeter_def entry_chain_def map_of_mapped separate_sources_def split: option.split)
  have "map_of (mx_entries a) s = (if s = sid then None else map_of (mx_entries m) s)"
    by (simp add: a_def disconnectEntry_def split: option.split)
  then show "entry_chain (detach sid m) s = (if s = sid then None else entry_chain m s)"
    unfolding d st by (simp add: b_def release_tracks_frame entry_chain_def)
  show "mx_configuration (detach sid m) = mx_configuration m" by (simp add: d st b_def release_tracks_frame ta)
  assume "s \<noteq> sid"
  then show "s \<in> set (separate_sources tk (detach sid m)) \<longleftrightarrow> s \<in> set (separate_sources tk m)"
    unfolding d st by (auto simp: b_def separate_sources_def release_tracks_frame tracks_of_def ta image_iff)
qed

lemma gains_detach: "gains_ok tk m \<Longrightarrow> gains_ok tk (detach sid m)"
  by (erule gains_mono) (auto simp: detach_parts entry_gain_def split: if_splits)

lemma gains_step:
  assumes "gains_ok tk m"
  shows "gains_ok tk (mixer_step tk m p)"
proof (cases p)
  case (Attach sid x)
  then show ?thesis by (auto simp: attach_def Let_def intro: gains_emit gains_start gains_configured)
next
  case (ReleaseAttachment sid x)
  with assms show ?thesis by (auto simp: release_attachment_def intro: gains_emit gains_detach split: option.split)
next
  case (BindTrack sid i s)
  with assms show ?thesis
    by (auto simp: bindTrack_def Let_def intro!: gains_emit gains_start gains_configured gains_track_gains gains_materializeTrack)
next
  case (BindStream sid s)
  with assms show ?thesis
    by (auto simp: bindStream_def Let_def intro: gains_emit gains_configured split: option.split)
next
  case (EnableSettled g b)
  have "gains_ok tk (m\<lparr>mx_blocked := True, mx_enabled := False\<rparr>)" by (rule gains_frame [OF assms]) simp_all
  with EnableSettled assms show ?thesis
    by (auto simp: enable_settled_def intro: gains_emit gains_start gains_stop)
next
  case Destroy
  have d: "gains_ok tk v \<Longrightarrow> gains_ok tk (fold detach ks v)" for ks v
    by (induction ks arbitrary: v) (simp_all add: gains_detach)
  define a where "a = stopMeter (m\<lparr>mx_generation := mx_generation m + 1, mx_enabled := False\<rparr>)"
  have "fst ` set (mx_entries (fold detach (map fst (mx_entries a)) a)) \<subseteq> {}"
    using fold_detach_entries [of "map fst (mx_entries a)" a] by simp
  then have e: "mx_entries (fold detach (map fst (mx_entries a)) a) = []" by simp
  have c: "mx_entries (fold (\<lambda>(sid, g). disconnect (Some (mg_chain g))) gs v) = mx_entries v" for gs v
    by (induction gs arbitrary: v) auto
  have "mx_entries (destroy m) = []"
    unfolding destroy_def Let_def a_def [symmetric] by (simp add: clear_merges_def c release_tracks_frame e)
  with Destroy show ?thesis by (simp add: gains_ok_def entry_chain_def)
qed (use assms in \<open>auto simp: configure_def configureTracks_def unbindTrack_def unbindSourceTracks_def disable_settled_def Let_def
      setMasterVolume_def setOutputEnabled_def applyMasterGain_def context_running_def disable_def enable_def
      intro: gains_configured gains_emit gains_stop gains_stop_if gains_tick gains_track_gains gains_frame\<close>)

lemma gains_new: "gains_ok tk new_mixer"
  by (simp add: gains_ok_def entry_chain_def new_mixer_def)

interpretation gains: machine new_mixer "mixer_step tk" "gains_ok tk" for tk
  by unfold_locales (rule gains_new, erule gains_step)

lemma source_gain_bounds: "0 \<le> source_gain s \<and> source_gain s \<le> 3 / 2"
proof -
  have "0 \<le> clamp v 0 (3 / 2) \<and> clamp v 0 (3 / 2) \<le> 3 / 2" for v :: rat
    by (simp add: clamp_def)
  then show ?thesis unfolding source_gain_def by (auto split: option.split)
qed

text \<open>C8. No source is heard twice: as long as the audio tracks of its streams do not change, in every
  state of the mixer the video element of a source of which a separate track is received has gain
  zero, and every other element has the gain its configuration asks for, at most one and a half.\<close>

theorem no_source_is_heard_twice:
  assumes "map_of (mx_entries (foldl (mixer_step tk) new_mixer ops)) sid = Some e" and "me_chain e = Some c"
  shows "ch_gain c = (if sid \<in> set (separate_sources tk (foldl (mixer_step tk) new_mixer ops)) then 0
      else source_gain (map_of (mx_configuration (foldl (mixer_step tk) new_mixer ops)) sid))
    \<and> 0 \<le> ch_gain c \<and> ch_gain c \<le> 3 / 2"
proof -
  have "ch_gain c = entry_gain tk (foldl (mixer_step tk) new_mixer ops) sid"
    by (rule gains_okD [OF gains.inv_run]) (simp add: entry_chain_def assms)
  then show ?thesis using source_gain_bounds by (simp add: entry_gain_def)
qed

lemmas mixer_eval = attach_def detach_def enable_def bindStream_def bindTrack_def disconnectEntry_def disconnect_def release_tracks_def tracks_of_def
  stop_if_empty_def stopMeter_def startMeter_def materialize_def materializeTrack_def mergeFor_def new_chain_def releaseTrack_def release_merge_def
  applyConfiguration_def applyTrackGains_def tune_entry_def tune_track_def tune_merge_def emit_def live_stream_def new_mixer_def new_track_def
  selection_of_def erase_def Let_def

theorem no_source_is_heard_twice_witness:
  "\<exists>e c. map_of (mx_entries (foldl (mixer_step (\<lambda>_. 1)) new_mixer [Attach ''cam'' 0, Enable, BindStream ''cam'' 7, BindTrack ''cam'' 0 8])) ''cam'' = Some e
     \<and> me_chain e = Some c \<and> ch_gain c = 0"
proof -
  let ?m = "foldl (mixer_step (\<lambda>_. 1)) new_mixer [Attach ''cam'' 0, Enable, BindStream ''cam'' 7, BindTrack ''cam'' 0 8]"
  have "\<exists>e c. map_of (mx_entries ?m) ''cam'' = Some e \<and> me_chain e = Some c"
    by (simp add: mixer_eval)
  then obtain e c where e: "map_of (mx_entries ?m) ''cam'' = Some e" "me_chain e = Some c" by auto
  have "''cam'' \<in> set (separate_sources (\<lambda>_. 1) ?m)" by (simp add: mixer_eval separate_sources_def)
  with no_source_is_heard_twice [OF e] e show ?thesis by auto
qed

end
