(* ===== verification/ControlEvents.thy ===== *)
theory ControlEvents
  imports Scene
begin

text \<open>
  The control connection (\<open>sceneEvents.ts\<close>, \<open>controlConnectionStatus.ts\<close>): a WebSocket over which
  the core sends its scenes.  The state holds the variables of the closure of \<open>connectSceneEvents\<close>; an
  event is what the browser delivers, together with what the page is like at that moment.  A timer
  variable holds what its callback has captured.  A socket is known by its number, \<open>ct_open\<close> lists
  those that are not closed; \<open>JSON.parse\<close> is a parameter.
\<close>

section \<open>The status of the connections of a page\<close>

datatype control_phase = CtlConnecting | CtlOnline | CtlRetrying | CtlOffline | CtlPaused

datatype control_reason =
    NoReason | NetworkOffline | ConnectionTimeout | SnapshotTimeout | TransportError | TransportClosed
  | ConstructorFailed | Resume | Manual

record control_status =
  cs_id :: nat
  cs_phase :: control_phase
  cs_reason :: control_reason
  cs_attempts :: nat
  cs_failures :: nat
  cs_rejectedMessages :: nat
  cs_messages :: nat
  cs_connectedAt :: "int option"
  cs_lastSnapshotAt :: "int option"
  cs_nextRetryAt :: "int option"

record control_registry =
  cr_connections :: "(nat \<times> control_status) list"
  cr_snapshot :: "control_status list"
  cr_sequence :: nat

definition publish :: "control_registry \<Rightarrow> control_registry" where
  "publish r = r\<lparr>cr_snapshot := map snd (cr_connections r)\<rparr>"

definition update_status :: "control_status \<Rightarrow> control_registry \<Rightarrow> control_registry" where
  "update_status s r =
     (if map_of (cr_connections r) (cs_id s) \<noteq> None \<or> length (cr_connections r) < 32
      then publish (r\<lparr>cr_connections := assign (cs_id s) s (cr_connections r)\<rparr>) else r)"

definition remove_status :: "nat \<Rightarrow> control_registry \<Rightarrow> control_registry" where
  "remove_status i r =
     (if map_of (cr_connections r) i = None then r else publish (r\<lparr>cr_connections := erase i (cr_connections r)\<rparr>))"

definition new_status :: "nat \<Rightarrow> control_status" where
  "new_status i = \<lparr>cs_id = i, cs_phase = CtlConnecting, cs_reason = NoReason, cs_attempts = 0, cs_failures = 0,
     cs_rejectedMessages = 0, cs_messages = 0, cs_connectedAt = None, cs_lastSnapshotAt = None, cs_nextRetryAt = None\<rparr>"

definition createControlConnectionStatus :: "control_registry \<Rightarrow> control_status \<times> control_registry" where
  "createControlConnectionStatus r =
     (let i = cr_sequence r + 1 in (new_status i, update_status (new_status i) (r\<lparr>cr_sequence := i\<rparr>)))"

definition getControlConnections :: "control_registry \<Rightarrow> control_status list" where
  "getControlConnections r = cr_snapshot r"

section \<open>The events of the core\<close>

definition CONNECT_TIMEOUT_MS :: int where "CONNECT_TIMEOUT_MS = 15000"
definition SNAPSHOT_TIMEOUT_MS :: int where "SNAPSHOT_TIMEOUT_MS = 15000"
definition STABLE_CONNECTION_MS :: int where "STABLE_CONNECTION_MS = 30000"
definition MAX_MESSAGE_CHARACTERS :: nat where "MAX_MESSAGE_CHARACTERS = 1048576"

definition str_where :: "(string \<Rightarrow> bool) \<Rightarrow> jsv \<Rightarrow> bool" where
  "str_where P v = (case v of JStr s \<Rightarrow> P s | _ \<Rightarrow> False)"

definition side_ok :: "jsv \<Rightarrow> bool" where
  "side_ok v = (case v of JNum (Fin r) \<Rightarrow> 0 < r \<and> r \<le> 16384 | _ \<Rightarrow> False)"

definition event_source_ok :: "jsv \<Rightarrow> bool" where
  "event_source_ok s = (is_object s \<and> is_str (field s ''id'') \<and> is_str (field s ''kind'') \<and> is_arr (field s ''filters''))"

definition event_item_ok :: "jsv \<Rightarrow> bool" where
  "event_item_ok i = (is_object i \<and> is_str (field i ''sourceId'') \<and> truthy (field i ''crop''))"

definition bounded_array :: "nat \<Rightarrow> (jsv \<Rightarrow> bool) \<Rightarrow> jsv \<Rightarrow> bool" where
  "bounded_array n P v = (is_arr v \<and> length (items v) \<le> n \<and> list_all P (items v))"

definition sceneEvent :: "jsv \<Rightarrow> bool" where
  "sceneEvent event =
     (let scene = field event ''scene''; canvas = field scene ''canvas'' in
      is_object event \<and> field event ''type'' \<in> {JStr ''scene.snapshot'', JStr ''scene.updated''} \<and> truthy scene
      \<and> isSupportedSceneSchema (field scene ''schemaVersion'')
      \<and> (case safe_int (field scene ''revision'') of Some n \<Rightarrow> 0 \<le> n | None \<Rightarrow> False)
      \<and> str_where id64 (field scene ''id'') \<and> str_where (\<lambda>s. length s \<le> 256) (field scene ''name'') \<and> truthy canvas
      \<and> side_ok (field canvas ''width'') \<and> side_ok (field canvas ''height'') \<and> is_str (field canvas ''backgroundColor'')
      \<and> bounded_array 256 event_source_ok (field scene ''sources'') \<and> bounded_array 512 event_item_ok (field scene ''items''))"

definition checked_message :: "(string \<Rightarrow> jsv option) \<Rightarrow> string option \<Rightarrow> jsv option" where
  "checked_message parse data =
     (case data of
        None \<Rightarrow> None
      | Some s \<Rightarrow>
          if length s > MAX_MESSAGE_CHARACTERS then None
          else case parse s of None \<Rightarrow> None | Some v \<Rightarrow> if sceneEvent v then Some v else None)"

section \<open>The connection\<close>

datatype deadline = ConnectionDeadline nat | SnapshotDeadline nat

record page =
  pg_onLine :: bool
  pg_visible :: bool
  pg_now :: int
  pg_random :: rat
  pg_constructs :: bool

record control =
  ct_closed :: bool
  ct_socket :: "nat option"
  ct_deadline :: "deadline option"
  ct_retry :: "int option"
  ct_stable :: "nat option"
  ct_attempt :: nat
  ct_attempts :: nat
  ct_failures :: nat
  ct_messages :: nat
  ct_rejected :: nat
  ct_lastSnapshotAt :: "int option"
  ct_hiddenAt :: "int option"
  ct_online :: bool
  ct_reported :: "bool option"
  ct_status :: control_status
  ct_registry :: control_registry
  ct_next :: nat
  ct_open :: "nat list"
  ct_states :: "bool list"
  ct_delivered :: "jsv list"

definition status :: "(control_status \<Rightarrow> control_status) \<Rightarrow> control \<Rightarrow> control" where
  "status change c = c\<lparr>ct_status := change (ct_status c), ct_registry := update_status (change (ct_status c)) (ct_registry c)\<rparr>"

definition setOnline :: "bool \<Rightarrow> control \<Rightarrow> control" where
  "setOnline v c =
     (if ct_reported c = Some v then c\<lparr>ct_online := v\<rparr>
      else c\<lparr>ct_online := v, ct_reported := Some v, ct_states := ct_states c @ [v]\<rparr>)"

definition clear_control_timers :: "control \<Rightarrow> control" where
  "clear_control_timers c = c\<lparr>ct_deadline := None, ct_retry := None, ct_stable := None\<rparr>"

definition retire :: "control \<Rightarrow> control" where
  "retire c = (let c = clear_control_timers c in
     case ct_socket c of None \<Rightarrow> c | Some s \<Rightarrow> c\<lparr>ct_socket := None, ct_open := removeAll s (ct_open c)\<rparr>)"

definition canConnect :: "page \<Rightarrow> bool" where
  "canConnect pg = (pg_onLine pg \<and> pg_visible pg)"

definition resting :: "page \<Rightarrow> control_phase" where
  "resting pg = (if \<not> pg_onLine pg then CtlOffline else CtlPaused)"

definition retry_delay :: "rat \<Rightarrow> nat \<Rightarrow> int" where
  "retry_delay random attempt = round_rat (min 30000 (500 * 2 ^ min attempt 6 * (8 / 10 + random * (4 / 10))))"

definition wait :: "page \<Rightarrow> control_reason \<Rightarrow> control \<Rightarrow> control" where
  "wait pg reason c =
     (if ct_closed c then c
      else let c = setOnline False (retire c); c = c\<lparr>ct_failures := ct_failures c + 1\<rparr> in
        if \<not> canConnect pg
        then status (\<lambda>s. s\<lparr>cs_phase := resting pg, cs_reason := reason, cs_failures := ct_failures c, cs_nextRetryAt := None,
               cs_connectedAt := None\<rparr>) c
        else let delay = retry_delay (pg_random pg) (ct_attempt c);
                 c = status (\<lambda>s. s\<lparr>cs_phase := CtlRetrying, cs_reason := reason, cs_failures := ct_failures c,
                       cs_nextRetryAt := Some (pg_now pg + delay), cs_connectedAt := None\<rparr>) (c\<lparr>ct_attempt := ct_attempt c + 1\<rparr>)
             in c\<lparr>ct_retry := Some delay\<rparr>)"

definition connect_control :: "page \<Rightarrow> control_reason \<Rightarrow> control \<Rightarrow> control" where
  "connect_control pg reason c =
     (if ct_closed c then c
      else let c = retire c; c = (if ct_online c then setOnline False c else c) in
        if \<not> canConnect pg
        then status (\<lambda>s. s\<lparr>cs_phase := resting pg, cs_reason := (if \<not> pg_onLine pg then NetworkOffline else reason),
               cs_nextRetryAt := None, cs_connectedAt := None\<rparr>) (setOnline False c)
        else let c = c\<lparr>ct_attempts := ct_attempts c + 1\<rparr>;
                 c = status (\<lambda>s. s\<lparr>cs_phase := CtlConnecting, cs_reason := reason, cs_attempts := ct_attempts c,
                       cs_nextRetryAt := None, cs_connectedAt := None\<rparr>) c
             in if \<not> pg_constructs pg then wait pg ConstructorFailed c
                else c\<lparr>ct_socket := Some (ct_next c), ct_next := ct_next c + 1, ct_open := ct_open c @ [ct_next c],
                       ct_deadline := Some (ConnectionDeadline (ct_next c))\<rparr>)"

definition opened :: "nat \<Rightarrow> control \<Rightarrow> control" where
  "opened s c = (if ct_closed c \<or> ct_socket c \<noteq> Some s then c else c\<lparr>ct_deadline := Some (SnapshotDeadline s)\<rparr>)"

definition reject_message :: "control \<Rightarrow> control" where
  "reject_message c = status (\<lambda>s. s\<lparr>cs_rejectedMessages := ct_rejected c + 1\<rparr>) (c\<lparr>ct_rejected := ct_rejected c + 1\<rparr>)"

definition message :: "(string \<Rightarrow> jsv option) \<Rightarrow> page \<Rightarrow> nat \<Rightarrow> string option \<Rightarrow> control \<Rightarrow> control" where
  "message parse pg s data c =
     (if ct_closed c \<or> ct_socket c \<noteq> Some s then c
      else case checked_message parse data of
        None \<Rightarrow> reject_message c
      | Some event \<Rightarrow>
          let c = c\<lparr>ct_deadline := None, ct_lastSnapshotAt := Some (pg_now pg)\<rparr>;
              c = (if ct_online c then c
                   else (status (\<lambda>t. t\<lparr>cs_phase := CtlOnline, cs_reason := NoReason, cs_connectedAt := ct_lastSnapshotAt c,
                           cs_nextRetryAt := None\<rparr>) (setOnline True c))\<lparr>ct_stable := Some s\<rparr>);
              c = c\<lparr>ct_messages := ct_messages c + 1\<rparr>;
              c = status (\<lambda>t. t\<lparr>cs_messages := ct_messages c, cs_lastSnapshotAt := ct_lastSnapshotAt c\<rparr>) c
          in c\<lparr>ct_delivered := ct_delivered c @ [event]\<rparr>)"

definition transport_failed :: "page \<Rightarrow> control_reason \<Rightarrow> nat \<Rightarrow> control \<Rightarrow> control" where
  "transport_failed pg reason s c = (if \<not> ct_closed c \<and> ct_socket c = Some s then wait pg reason c else c)"

text \<open>The callbacks of the three timers.\<close>

definition deadline_fired :: "page \<Rightarrow> control \<Rightarrow> control" where
  "deadline_fired pg c =
     (case ct_deadline c of
        None \<Rightarrow> c
      | Some (ConnectionDeadline s) \<Rightarrow>
          let c = c\<lparr>ct_deadline := None\<rparr> in if ct_socket c = Some s then wait pg ConnectionTimeout c else c
      | Some (SnapshotDeadline s) \<Rightarrow>
          let c = c\<lparr>ct_deadline := None\<rparr> in if ct_socket c = Some s \<and> \<not> ct_online c then wait pg SnapshotTimeout c else c)"

definition retry_due :: "page \<Rightarrow> control \<Rightarrow> control" where
  "retry_due pg c = (if ct_retry c = None then c else connect_control pg NoReason (c\<lparr>ct_retry := None\<rparr>))"

definition stable_fired :: "control \<Rightarrow> control" where
  "stable_fired c =
     (case ct_stable c of
        None \<Rightarrow> c
      | Some s \<Rightarrow>
          let c = c\<lparr>ct_stable := None\<rparr>
          in if \<not> ct_closed c \<and> ct_socket c = Some s \<and> ct_online c then c\<lparr>ct_attempt := 0\<rparr> else c)"

text \<open>The listeners of the page.\<close>

definition offline :: "control \<Rightarrow> control" where
  "offline c =
     (if ct_closed c then c
      else status (\<lambda>s. s\<lparr>cs_phase := CtlOffline, cs_reason := NetworkOffline, cs_nextRetryAt := None, cs_connectedAt := None\<rparr>)
             (setOnline False (retire c)))"

definition wake :: "page \<Rightarrow> control_reason \<Rightarrow> control \<Rightarrow> control" where
  "wake pg reason c =
     (if \<not> ct_closed c \<and> canConnect pg \<and> (reason = Manual \<or> ct_socket c = None
         \<or> (case ct_hiddenAt c of None \<Rightarrow> False | Some t \<Rightarrow> pg_now pg - t \<ge> STABLE_CONNECTION_MS))
      then connect_control pg reason c else c)"

definition visibility :: "page \<Rightarrow> control \<Rightarrow> control" where
  "visibility pg c =
     (if \<not> pg_visible pg
      then let c = c\<lparr>ct_hiddenAt := (case ct_hiddenAt c of None \<Rightarrow> Some (pg_now pg) | Some t \<Rightarrow> Some t)\<rparr> in
        if ct_online c then c
        else status (\<lambda>s. s\<lparr>cs_phase := resting pg, cs_nextRetryAt := None\<rparr>) (retire c)
      else (wake pg Resume c)\<lparr>ct_hiddenAt := None\<rparr>)"

definition close_control :: "control \<Rightarrow> control" where
  "close_control c =
     (if ct_closed c then c
      else let c = retire (c\<lparr>ct_closed := True\<rparr>) in c\<lparr>ct_registry := remove_status (cs_id (ct_status c)) (ct_registry c)\<rparr>)"

definition fresh_control :: "page \<Rightarrow> control_registry \<Rightarrow> control" where
  "fresh_control pg r = (case createControlConnectionStatus r of (s, r) \<Rightarrow>
     \<lparr>ct_closed = False, ct_socket = None, ct_deadline = None, ct_retry = None, ct_stable = None, ct_attempt = 0,
      ct_attempts = 0, ct_failures = 0, ct_messages = 0, ct_rejected = 0, ct_lastSnapshotAt = None,
      ct_hiddenAt = (if pg_visible pg then None else Some (pg_now pg)), ct_online = False, ct_reported = None,
      ct_status = s, ct_registry = r, ct_next = 0, ct_open = [], ct_states = [], ct_delivered = []\<rparr>)"

definition connectSceneEvents :: "page \<Rightarrow> control_registry \<Rightarrow> control" where
  "connectSceneEvents pg r = connect_control pg NoReason (fresh_control pg r)"

datatype control_event =
    Opened nat
  | Message nat "string option"
  | SocketError nat
  | SocketClosed nat
  | DeadlineFired
  | RetryDue
  | StableFired
  | WentOffline
  | WentOnline
  | VisibilityChanged
  | ManualReconnect
  | CloseControl

text \<open>Closing removes the listeners of the page, so a closed connection hears nothing.\<close>

fun control_step :: "(string \<Rightarrow> jsv option) \<Rightarrow> page \<Rightarrow> control \<Rightarrow> control_event \<Rightarrow> control" where
  "control_step parse pg c (Opened s) = opened s c"
| "control_step parse pg c (Message s data) = message parse pg s data c"
| "control_step parse pg c (SocketError s) = transport_failed pg TransportError s c"
| "control_step parse pg c (SocketClosed s) = transport_failed pg TransportClosed s c"
| "control_step parse pg c DeadlineFired = deadline_fired pg c"
| "control_step parse pg c RetryDue = retry_due pg c"
| "control_step parse pg c StableFired = stable_fired c"
| "control_step parse pg c WentOffline = offline c"
| "control_step parse pg c WentOnline = wake pg Resume c"
| "control_step parse pg c VisibilityChanged = (if ct_closed c then c else visibility pg c)"
| "control_step parse pg c ManualReconnect = wake pg Manual c"
| "control_step parse pg c CloseControl = close_control c"

text \<open>The states of a connection; \<open>Math.random\<close> gives numbers from zero up to but excluding one.\<close>

definition page_ok :: "page \<Rightarrow> bool" where
  "page_ok pg = (0 \<le> pg_random pg \<and> pg_random pg < 1)"

inductive control_reachable :: "(string \<Rightarrow> jsv option) \<Rightarrow> control_registry \<Rightarrow> control \<Rightarrow> bool" for parse r where
  started: "page_ok pg \<Longrightarrow> control_reachable parse r (connectSceneEvents pg r)"
| event: "control_reachable parse r c \<Longrightarrow> page_ok pg \<Longrightarrow> control_reachable parse r (control_step parse pg c e)"

end
