(* ===== verification/ControlSafety.thy ===== *)
theory ControlSafety
  imports ControlEvents
begin

text \<open>
  What the control connection guarantees: it never gets stuck, it holds one socket at most and none
  after it is closed, it reports each change once, and only checked events reach the page.
\<close>

section \<open>The registry\<close>

definition registry_ok :: "control_registry \<Rightarrow> bool" where
  "registry_ok r = (length (cr_connections r) \<le> 32)"

lemma registry_update [simp]: "registry_ok r \<Longrightarrow> registry_ok (update_status s r)"
  by (auto simp: registry_ok_def update_status_def publish_def length_assign map_of_eq_None_iff dest: map_of_SomeD intro: rev_image_eqI)

lemma registry_remove [simp]: "registry_ok r \<Longrightarrow> registry_ok (remove_status i r)"
  by (auto simp: registry_ok_def remove_status_def publish_def erase_def intro: le_trans [OF length_filter_le])

section \<open>The invariant\<close>

fun list_of_option :: "'a option \<Rightarrow> 'a list" where
  "list_of_option None = []"
| "list_of_option (Some x) = [x]"

text \<open>The parts of the invariant are about the values of the variables, so that an operation that keeps
  these keeps the part.\<close>

fun watch :: "bool \<Rightarrow> bool \<Rightarrow> control_phase \<Rightarrow> nat option \<Rightarrow> deadline option \<Rightarrow> int option \<Rightarrow> nat option \<Rightarrow> bool" where
  "watch True online phase s d r t = (s = None \<and> d = None \<and> r = None \<and> t = None)"
| "watch False online phase None d None t = (d = None \<and> t = None \<and> \<not> online \<and> phase \<in> {CtlOffline, CtlPaused})"
| "watch False online phase None d (Some r) t = (d = None \<and> t = None \<and> \<not> online \<and> 400 \<le> r \<and> r \<le> 30000 \<and> phase = CtlRetrying)"
| "watch False online phase (Some s) d r t = (r = None \<and> d \<in> {None, Some (ConnectionDeadline s), Some (SnapshotDeadline s)}
     \<and> t \<in> {None, Some s} \<and> (if online then phase = CtlOnline else d \<noteq> None \<and> phase = CtlConnecting))"

fun reports :: "bool list \<Rightarrow> bool \<Rightarrow> bool option \<Rightarrow> bool" where
  "reports states online None = (states = [] \<and> \<not> online)"
| "reports states online (Some b) = (distinct_adj states \<and> states \<noteq> [] \<and> last states = b \<and> online = b)"

definition watched :: "control \<Rightarrow> bool" where
  "watched c = watch (ct_closed c) (ct_online c) (cs_phase (ct_status c)) (ct_socket c) (ct_deadline c) (ct_retry c) (ct_stable c)"

definition sockets_ok :: "control \<Rightarrow> bool" where
  "sockets_ok c = (ct_open c = list_of_option (ct_socket c))"

definition reports_ok :: "control \<Rightarrow> bool" where
  "reports_ok c = reports (ct_states c) (ct_online c) (ct_reported c)"

definition delivery_ok :: "control \<Rightarrow> bool" where
  "delivery_ok c = (list_all sceneEvent (ct_delivered c) \<and> ct_messages c = length (ct_delivered c)
     \<and> (ct_online c \<longrightarrow> ct_delivered c \<noteq> []))"

definition control_ok :: "control \<Rightarrow> bool" where
  "control_ok c = (watched c \<and> sockets_ok c \<and> reports_ok c \<and> delivery_ok c)"

lemma delay_bounds:
  assumes "0 \<le> r" and "r < 1"
  shows "400 \<le> retry_delay r n \<and> retry_delay r n \<le> 30000"
proof -
  let ?x = "min 30000 (500 * 2 ^ min n 6 * (8 / 10 + r * (4 / 10)))"
  have "(1::rat) * (8 / 10) \<le> 2 ^ min n 6 * (8 / 10 + r * (4 / 10))"
    by (rule mult_mono) (use assms in simp_all)
  then have "400 \<le> ?x" by simp
  moreover have "?x \<le> 30000" by simp
  ultimately have "400 \<le> \<lfloor>?x + 1 / 2\<rfloor>" "\<lfloor>?x + 1 / 2\<rfloor> < 30001" by linarith+
  then show ?thesis by (simp add: retry_delay_def round_rat_def)
qed

lemma checked_message_ok: "checked_message parse data = Some v \<Longrightarrow> sceneEvent v"
  by (auto simp: checked_message_def split: option.splits if_splits)

text \<open>What going through \<open>retire\<close> and \<open>setOnline\<close> gives.\<close>

lemmas control_simps = watched_def sockets_ok_def reports_ok_def delivery_ok_def control_ok_def
  retire_def clear_control_timers_def setOnline_def status_def Let_def

lemma retired:
  "ct_socket (retire c) = None" "ct_deadline (retire c) = None" "ct_retry (retire c) = None" "ct_stable (retire c) = None"
  "ct_closed (retire c) = ct_closed c" "ct_online (retire c) = ct_online c" "ct_reported (retire c) = ct_reported c"
  "ct_states (retire c) = ct_states c" "ct_delivered (retire c) = ct_delivered c" "ct_messages (retire c) = ct_messages c"
  "ct_status (retire c) = ct_status c" "ct_next (retire c) = ct_next c" "ct_attempt (retire c) = ct_attempt c"
  "ct_registry (retire c) = ct_registry c" "ct_hiddenAt (retire c) = ct_hiddenAt c"
  "sockets_ok c \<Longrightarrow> ct_open (retire c) = []"
  by (simp_all add: retire_def clear_control_timers_def sockets_ok_def Let_def split: option.split) (cases "ct_socket c"; simp)?

lemma online_frame:
  "ct_socket (setOnline v c) = ct_socket c" "ct_deadline (setOnline v c) = ct_deadline c" "ct_retry (setOnline v c) = ct_retry c"
  "ct_stable (setOnline v c) = ct_stable c" "ct_closed (setOnline v c) = ct_closed c" "ct_online (setOnline v c) = v"
  "ct_delivered (setOnline v c) = ct_delivered c" "ct_messages (setOnline v c) = ct_messages c"
  "ct_status (setOnline v c) = ct_status c" "ct_next (setOnline v c) = ct_next c" "ct_attempt (setOnline v c) = ct_attempt c"
  "ct_open (setOnline v c) = ct_open c" "ct_registry (setOnline v c) = ct_registry c" "ct_hiddenAt (setOnline v c) = ct_hiddenAt c"
  by (simp_all add: setOnline_def)

lemma status_frame:
  "ct_socket (status f c) = ct_socket c" "ct_deadline (status f c) = ct_deadline c" "ct_retry (status f c) = ct_retry c"
  "ct_stable (status f c) = ct_stable c" "ct_closed (status f c) = ct_closed c" "ct_online (status f c) = ct_online c"
  "ct_reported (status f c) = ct_reported c" "ct_states (status f c) = ct_states c"
  "ct_delivered (status f c) = ct_delivered c" "ct_messages (status f c) = ct_messages c"
  "ct_status (status f c) = f (ct_status c)" "ct_next (status f c) = ct_next c" "ct_attempt (status f c) = ct_attempt c"
  "ct_open (status f c) = ct_open c" "ct_hiddenAt (status f c) = ct_hiddenAt c"
  by (simp_all add: status_def)

lemmas control_frames = retired online_frame status_frame

lemma reports_online: "reports_ok c \<Longrightarrow> reports_ok (setOnline v c)"
  by (cases "ct_reported c") (auto simp: reports_ok_def setOnline_def distinct_adj_append_iff)

lemma reports_adj: "reports states online b \<Longrightarrow> distinct_adj states"
  by (cases b) auto

lemma watch_cases:
  assumes "watch cl on ph s d r t"
  shows "s = None \<and> d = None \<and> t = None \<or> (\<exists>n. s = Some n \<and> \<not> cl \<and> r = None
    \<and> d \<in> {None, Some (ConnectionDeadline n), Some (SnapshotDeadline n)} \<and> t \<in> {None, Some n})"
    "r \<noteq> None \<Longrightarrow> \<not> cl" "\<not> cl \<Longrightarrow> on \<or> d \<noteq> None \<or> (\<exists>d. r = Some d \<and> 400 \<le> d \<and> d \<le> 30000) \<or> ph \<in> {CtlOffline, CtlPaused}"
  using assms by (cases cl; cases s; cases r; auto split: if_splits)+

lemma reports_frame:
  assumes "reports_ok c" and "ct_states c' = ct_states c" and "ct_reported c' = ct_reported c" and "ct_online c' = ct_online c"
  shows "reports_ok c'"
  using assms by (simp add: reports_ok_def)

section \<open>Every step keeps the invariant\<close>

text \<open>\<open>wait\<close> and \<open>connect\<close> set everything \<open>watched\<close> speaks of, so they need less than the invariant.\<close>

definition settled :: "control \<Rightarrow> bool" where
  "settled c = (sockets_ok c \<and> reports_ok c \<and> delivery_ok c)"

lemma settled_ok: "control_ok c \<longleftrightarrow> watched c \<and> settled c"
  by (auto simp: control_ok_def settled_def)

lemma ok_wait:
  assumes "settled c" and "\<not> ct_closed c" and "page_ok pg"
  shows "control_ok (wait pg reason c)"
proof -
  note d = delay_bounds [OF conjunct1 [OF assms(3) [unfolded page_ok_def]] conjunct2 [OF assms(3) [unfolded page_ok_def]], of "ct_attempt c"]
  have "reports_ok (setOnline False (retire c))"
    by (rule reports_online, rule reports_frame [of c]) (use assms(1) in \<open>simp_all add: settled_def control_frames\<close>)
  then have r: "reports_ok (wait pg reason c)"
    by (rule reports_frame) (use assms(2) in \<open>simp_all add: wait_def Let_def control_frames\<close>)
  have w: "watched (wait pg reason c)"
    using d assms(2) by (simp add: wait_def Let_def control_frames watched_def resting_def)
  have "ct_open (retire c) = []" using assms(1) by (simp add: settled_def control_frames)
  then have "sockets_ok (wait pg reason c)" "delivery_ok (wait pg reason c)"
    using assms(1,2) by (simp_all add: wait_def Let_def control_frames settled_def sockets_ok_def delivery_ok_def)
  with r w show ?thesis by (simp add: control_ok_def)
qed

lemma settled_frame:
  assumes "settled c" and "ct_socket c' = ct_socket c" and "ct_open c' = ct_open c" and "ct_states c' = ct_states c"
    and "ct_reported c' = ct_reported c" and "ct_online c' = ct_online c" and "ct_delivered c' = ct_delivered c"
    and "ct_messages c' = ct_messages c"
  shows "settled c'"
  using assms by (simp add: settled_def sockets_ok_def reports_ok_def delivery_ok_def)

lemma settled_retire: "settled c \<Longrightarrow> settled (retire c)"
  using retired(16) [of c] by (simp add: settled_def sockets_ok_def reports_ok_def delivery_ok_def control_frames)

lemma settled_offline: "settled c \<Longrightarrow> settled (setOnline False c)"
  using reports_online by (auto simp: settled_def sockets_ok_def control_frames delivery_ok_def)

lemma settled_status: "settled c \<Longrightarrow> settled (status f c)"
  by (rule settled_frame) (simp_all add: control_frames)

lemma ok_connect:
  assumes "settled c" and "page_ok pg" and "ct_closed c \<Longrightarrow> watched c"
  shows "control_ok (connect_control pg reason c)"
proof (cases "ct_closed c")
  case True
  with assms show ?thesis by (simp add: connect_control_def settled_ok)
next
  case False
  define a where "a = (if ct_online (retire c) then setOnline False (retire c) else retire c)"
  define b where "b = a\<lparr>ct_attempts := ct_attempts a + 1\<rparr>"
  define d where "d = status (\<lambda>s. s\<lparr>cs_phase := CtlConnecting, cs_reason := reason, cs_attempts := ct_attempts b,
    cs_nextRetryAt := None, cs_connectedAt := None\<rparr>) b"
  have a: "settled a" using assms(1) by (auto simp: a_def intro: settled_retire settled_offline)
  have b: "settled b" by (rule settled_frame [OF a]) (simp_all add: b_def)
  have d: "settled d" unfolding d_def by (rule settled_status [OF b])
  have f: "ct_socket a = None" "ct_deadline a = None" "ct_retry a = None" "ct_stable a = None" "\<not> ct_online a" "\<not> ct_closed a"
    using False by (simp_all add: a_def control_frames)
  then have fd: "ct_socket d = None" "ct_deadline d = None" "ct_retry d = None" "ct_stable d = None" "\<not> ct_online d" "\<not> ct_closed d"
    "cs_phase (ct_status d) = CtlConnecting"
    by (simp_all add: d_def b_def control_frames)
  have e: "connect_control pg reason c =
     (if \<not> canConnect pg
      then status (\<lambda>s. s\<lparr>cs_phase := resting pg, cs_reason := (if \<not> pg_onLine pg then NetworkOffline else reason),
             cs_nextRetryAt := None, cs_connectedAt := None\<rparr>) (setOnline False a)
      else if \<not> pg_constructs pg then wait pg ConstructorFailed d
      else d\<lparr>ct_socket := Some (ct_next d), ct_next := ct_next d + 1, ct_open := ct_open d @ [ct_next d],
             ct_deadline := Some (ConnectionDeadline (ct_next d))\<rparr>)"
    using False unfolding connect_control_def Let_def a_def [symmetric] b_def [symmetric] d_def [symmetric] by simp
  have rest: "control_ok (status g (setOnline False a))" if "\<And>s. cs_phase (g s) = resting pg" for g
    using that f settled_status [OF settled_offline [OF a]]
    by (simp add: settled_ok watched_def control_frames resting_def)
  have open_: "control_ok (d\<lparr>ct_socket := Some (ct_next d), ct_next := ct_next d + 1, ct_open := ct_open d @ [ct_next d],
             ct_deadline := Some (ConnectionDeadline (ct_next d))\<rparr>)"
    using d fd by (simp add: settled_ok settled_def watched_def sockets_ok_def reports_ok_def delivery_ok_def)
  show ?thesis unfolding e using rest open_ ok_wait [OF d _ assms(2)] fd by simp
qed

lemma ok_message:
  assumes "control_ok c"
  shows "control_ok (message parse pg s data c)"
proof (cases "ct_closed c \<or> ct_socket c \<noteq> Some s")
  case True
  with assms show ?thesis by (simp add: message_def)
next
  case False
  show ?thesis
  proof (cases "checked_message parse data")
    case None
    have "settled (c\<lparr>ct_rejected := ct_rejected c + 1\<rparr>)"
      by (rule settled_frame) (use assms in \<open>simp_all add: settled_ok\<close>)
    with None False assms show ?thesis
      by (simp add: message_def reject_message_def settled_ok settled_status watched_def control_frames)
  next
    case (Some v)
    have p: "reports_ok (setOnline True (c\<lparr>ct_deadline := None, ct_lastSnapshotAt := Some (pg_now pg)\<rparr>))"
      by (rule reports_online, rule reports_frame [of c]) (use assms in \<open>simp_all add: control_ok_def\<close>)
    have r: "reports_ok (message parse pg s data c)"
    proof (rule reports_frame [OF p])
      have "ct_online c \<Longrightarrow> ct_reported c = Some True"
        using assms by (cases "ct_reported c") (auto simp: control_ok_def reports_ok_def)
      then show "ct_states (message parse pg s data c) = ct_states (setOnline True (c\<lparr>ct_deadline := None, ct_lastSnapshotAt := Some (pg_now pg)\<rparr>))"
        "ct_reported (message parse pg s data c) = ct_reported (setOnline True (c\<lparr>ct_deadline := None, ct_lastSnapshotAt := Some (pg_now pg)\<rparr>))"
        "ct_online (message parse pg s data c) = ct_online (setOnline True (c\<lparr>ct_deadline := None, ct_lastSnapshotAt := Some (pg_now pg)\<rparr>))"
        using Some False by (auto simp: message_def Let_def status_frame setOnline_def)
    qed
    have w: "watched (message parse pg s data c)"
      using Some False assms by (simp add: message_def Let_def control_frames control_ok_def watched_def)
    have "sockets_ok (message parse pg s data c)" "delivery_ok (message parse pg s data c)"
      using Some False assms checked_message_ok [OF Some]
      by (simp_all add: message_def Let_def control_frames control_ok_def sockets_ok_def delivery_ok_def)
    with r w show ?thesis by (simp add: control_ok_def)
  qed
qed

lemma ok_visibility:
  assumes "control_ok c" and "\<not> ct_closed c" and "page_ok pg"
  shows "control_ok (visibility pg c)"
proof -
  have h: "control_ok (v\<lparr>ct_hiddenAt := t\<rparr>)" if "control_ok v" for v t
    using that settled_frame [of v "v\<lparr>ct_hiddenAt := t\<rparr>"] by (simp add: settled_ok watched_def)
  have w: "control_ok (wake pg Resume c)"
    using assms ok_connect [of c pg Resume] by (simp add: wake_def settled_ok)
  let ?h = "c\<lparr>ct_hiddenAt := (case ct_hiddenAt c of None \<Rightarrow> Some (pg_now pg) | Some t \<Rightarrow> Some t)\<rparr>"
  have "settled (status (\<lambda>s. s\<lparr>cs_phase := resting pg, cs_nextRetryAt := None\<rparr>) (retire ?h))"
    using h [OF assms(1)] by (simp add: settled_ok settled_retire settled_status)
  with assms(2) have "\<not> ct_online c \<Longrightarrow> control_ok (status (\<lambda>s. s\<lparr>cs_phase := resting pg, cs_nextRetryAt := None\<rparr>) (retire ?h))"
    by (simp add: settled_ok watched_def control_frames resting_def)
  with h [OF assms(1)] h [OF w] show ?thesis by (simp add: visibility_def Let_def)
qed

lemma ok_close: "control_ok c \<Longrightarrow> control_ok (close_control c)"
proof -
  assume c: "control_ok c"
  have "settled (c\<lparr>ct_closed := True\<rparr>)" by (rule settled_frame) (use c in \<open>simp_all add: settled_ok\<close>)
  from settled_retire [OF this]
  have "settled (close_control c)" if "\<not> ct_closed c"
    by (rule settled_frame) (use that in \<open>simp_all add: close_control_def Let_def\<close>)
  with c show ?thesis by (cases "ct_closed c") (simp_all add: close_control_def settled_ok watched_def control_frames Let_def)
qed

lemma control_ok_step:
  assumes c: "control_ok c" and p: "page_ok pg"
  shows "control_ok (control_step parse pg c e)"
proof -
  have s: "settled c" "watched c" using c by (simp_all add: settled_ok)
  have w: "control_ok (wake pg reason c)" for reason
    using c ok_connect [OF s(1) p] s by (simp add: wake_def)
  have t: "settled (c\<lparr>ct_deadline := None\<rparr>)" "settled (c\<lparr>ct_retry := None\<rparr>)"
    by (rule settled_frame [OF s(1)]; simp)+
  show ?thesis
  proof (cases e)
    case (Opened n)
    have "settled (c\<lparr>ct_deadline := Some (SnapshotDeadline n)\<rparr>)" by (rule settled_frame [OF s(1)]) simp_all
    with Opened c s(2) show ?thesis
      by (cases "ct_closed c \<or> ct_socket c \<noteq> Some n") (auto simp: opened_def settled_ok watched_def)
  next
    case (SocketError n)
    with c p s show ?thesis by (simp add: transport_failed_def ok_wait)
  next
    case (SocketClosed n)
    with c p s show ?thesis by (simp add: transport_failed_def ok_wait)
  next
    case DeadlineFired
    have closed: "ct_deadline c \<noteq> None \<Longrightarrow> \<not> ct_closed c" using watch_cases(1) [OF s(2) [unfolded watched_def]] by auto
    have "control_ok (c\<lparr>ct_deadline := None\<rparr>)" if "ct_online c"
      using t(1) s(2) that
      by (cases "ct_closed c"; cases "ct_socket c"; cases "ct_retry c") (auto simp: settled_ok watched_def)
    moreover have "ct_deadline c = Some (SnapshotDeadline n) \<or> ct_deadline c = Some (ConnectionDeadline n) \<Longrightarrow> ct_socket c = Some n" for n
      using watch_cases(1) [OF s(2) [unfolded watched_def]] by auto
    ultimately show ?thesis
      using DeadlineFired c ok_wait [OF t(1) _ p] closed
      by (auto simp: deadline_fired_def Let_def split: option.split deadline.split)
  next
    case RetryDue
    have "ct_retry c \<noteq> None \<Longrightarrow> \<not> ct_closed c" using watch_cases(2) [OF s(2) [unfolded watched_def]] .
    with RetryDue c ok_connect [OF t(2) p, of NoReason] show ?thesis by (cases "ct_retry c") (auto simp: retry_due_def)
  next
    case StableFired
    have "settled (c\<lparr>ct_stable := None\<rparr>)" "settled (c\<lparr>ct_stable := None, ct_attempt := 0\<rparr>)"
      by (rule settled_frame [OF s(1)]; simp)+
    moreover have "watched (c\<lparr>ct_stable := None\<rparr>)" "watched (c\<lparr>ct_stable := None, ct_attempt := 0\<rparr>)"
      using s(2) by (cases "ct_closed c"; cases "ct_socket c"; cases "ct_retry c"; simp add: watched_def)+
    ultimately show ?thesis using StableFired c
      by (simp add: stable_fired_def settled_ok Let_def split: option.split)
  next
    case WentOffline
    with c s show ?thesis
      by (cases "ct_closed c") (simp_all add: offline_def settled_ok settled_status settled_offline settled_retire watched_def control_frames)
  qed (use c p w in \<open>simp_all add: ok_message ok_visibility ok_close\<close>)
qed

lemma reachable_ok: "control_reachable parse r c \<Longrightarrow> control_ok c"
proof (induction rule: control_reachable.induct)
  case (started pg)
  have "settled (fresh_control pg r)"
    by (simp add: settled_def fresh_control_def createControlConnectionStatus_def Let_def sockets_ok_def reports_ok_def delivery_ok_def)
  then show ?case unfolding connectSceneEvents_def
    by (rule ok_connect) (use started in \<open>simp_all add: fresh_control_def createControlConnectionStatus_def Let_def\<close>)
qed (rule control_ok_step)

section \<open>What it guarantees\<close>

definition demo_page :: page where
  "demo_page = \<lparr>pg_onLine = True, pg_visible = True, pg_now = 0, pg_random = 1 / 2, pg_constructs = True\<rparr>"

definition no_connections :: control_registry where
  "no_connections = \<lparr>cr_connections = [], cr_snapshot = [], cr_sequence = 0\<rparr>"



text \<open>The page hears only what was checked: every event it was given has the shape the check demands, it
  is told of each change between online and offline once, it is online only after such an event, and
  the connection holds the one socket it uses and none once it is closed.\<close>

theorem control_reports_checked:
  assumes "control_reachable parse r c"
  shows "list_all sceneEvent (ct_delivered c) \<and> distinct_adj (ct_states c) \<and> (ct_delivered c \<noteq> [] \<or> \<not> ct_online c)
    \<and> ct_open c = list_of_option (ct_socket c) \<and> (ct_open c = [] \<or> \<not> ct_closed c)"
proof -
  have c: "sockets_ok c" "delivery_ok c" "reports_ok c" "watched c" using reachable_ok [OF assms] by (simp_all add: control_ok_def)
  have "ct_closed c \<Longrightarrow> ct_socket c = None" using c(4) by (simp add: watched_def)
  with c show ?thesis by (auto simp: delivery_ok_def reports_ok_def sockets_ok_def dest: reports_adj)
qed

theorem control_reports_checked_witness:
  "control_reachable (\<lambda>_. None) no_connections (connectSceneEvents demo_page no_connections)
   \<and> ct_open (connectSceneEvents demo_page no_connections) = [0] \<and> \<not> ct_online (connectSceneEvents demo_page no_connections)"
proof -
  have p: "page_ok demo_page" by (simp add: page_ok_def demo_page_def)
  have r: "control_reachable (\<lambda>_. None) no_connections (connectSceneEvents demo_page no_connections)"
    by (rule control_reachable.started [OF p])
  have "ct_delivered (connectSceneEvents demo_page no_connections) = []" "ct_socket (connectSceneEvents demo_page no_connections) = Some 0"
    by (simp_all add: connectSceneEvents_def connect_control_def fresh_control_def createControlConnectionStatus_def
        control_frames demo_page_def canConnect_def Let_def)
  with control_reports_checked [OF r] r show ?thesis by auto
qed

end
