(* ===== verification/ShortTalk.thy ===== *)
theory ShortTalk
  imports Prelude
begin

text \<open>
  Short two-way talk (\<open>useShortTalk.ts\<close>): a clip of at most ten seconds is recorded, encoded and sent to a
  camera.  A capture object is known by its number; what still refers to it after it was released finds
  that it is not the current one.  \<open>tk_live\<close> lists the microphone streams whose tracks run, \<open>tk_sent\<close>
  the clips given to \<open>sendOnvifTalk\<close>, \<open>tk_failed\<close> what was reported.  The messages are named, not
  quoted.  An event is what the user or the browser does; a wait of \<open>withRequestTimeout\<close> ends in
  one of three ways.
\<close>

datatype talk_phase = TalkIdle | TalkRequesting | TalkRecording | TalkEncoding | TalkSending

datatype talk_message =
    NoMessage | AskingMicrophone | RecordingNow | Preparing | SendingClip | Submitted
  | StoppedWaiting | DiscardedHidden | DiscardedByUser
  | Unsupported | NoFormat | TooLarge | RecorderBroke | EmptyClip | MicrophoneLost | CannotStop
  | PermissionDenied | MicrophoneTimeout | OtherProblem
  | SendTimeout | NoTalkPermission | SignedOut | ReadFailed | SendFailed

datatype recorder = NoRecorder | Recording | Inactive

datatype reader = NoReader | Loading | Loaded

record capture =
  cap_id :: nat
  cap_stream :: bool
  cap_recorder :: recorder
  cap_stopped :: bool
  cap_reader :: reader
  cap_timer :: bool
  cap_chunks :: "nat list"
  cap_size :: nat
  cap_blob :: nat
  cap_contentType :: "string option"

record clip =
  cl_capture :: nat
  cl_size :: nat
  cl_contentType :: "string option"

record talk =
  tk_phase :: talk_phase
  tk_status :: talk_message
  tk_capture :: "capture option"
  tk_mounted :: bool
  tk_enabled :: bool
  tk_visible :: bool
  tk_next :: nat
  tk_live :: "nat list"
  tk_sent :: "clip list"
  tk_failed :: "talk_message list"

definition MAX_BYTES :: nat where "MAX_BYTES = 512 * 1024"

definition stopTracks :: "nat \<Rightarrow> talk \<Rightarrow> talk" where
  "stopTracks i s = s\<lparr>tk_live := removeAll i (tk_live s),
     tk_capture := map_option (\<lambda>v. if cap_id v = i then v\<lparr>cap_stream := False\<rparr> else v) (tk_capture s)\<rparr>"

text \<open>Releasing aborts what waits for the capture, takes the recorder's handlers away, and stops the tracks.\<close>

definition release :: "talk_message \<Rightarrow> talk \<Rightarrow> talk" where
  "release msg s =
     (let s = (case tk_capture s of None \<Rightarrow> s | Some v \<Rightarrow> (stopTracks (cap_id v) s)\<lparr>tk_capture := None\<rparr>)
      in if tk_mounted s then s\<lparr>tk_phase := TalkIdle, tk_status := msg\<rparr> else s)"

definition failure :: "talk_message \<Rightarrow> talk \<Rightarrow> talk" where
  "failure msg s = s\<lparr>tk_failed := tk_failed s @ [msg]\<rparr>"

definition give_up :: "talk_message \<Rightarrow> talk \<Rightarrow> talk" where
  "give_up msg s = failure msg (release NoMessage s)"

definition current :: "nat \<Rightarrow> talk \<Rightarrow> bool" where
  "current i s = (tk_mounted s \<and> tk_visible s \<and> map_option cap_id (tk_capture s) = Some i)"

definition with_capture :: "(capture \<Rightarrow> capture) \<Rightarrow> talk \<Rightarrow> talk" where
  "with_capture f s = s\<lparr>tk_capture := map_option f (tk_capture s)\<rparr>"

definition phase :: "talk_phase \<Rightarrow> talk_message \<Rightarrow> talk \<Rightarrow> talk" where
  "phase p msg s = s\<lparr>tk_phase := p, tk_status := msg\<rparr>"

section \<open>Recording\<close>

definition record_clip :: "bool \<Rightarrow> talk \<Rightarrow> talk" where
  "record_clip supported s =
     (if \<not> tk_enabled s \<or> tk_capture s \<noteq> None \<or> \<not> tk_mounted s \<or> \<not> tk_visible s then s
      else let v = \<lparr>cap_id = tk_next s, cap_stream = False, cap_recorder = NoRecorder, cap_stopped = False,
                 cap_reader = NoReader, cap_timer = False, cap_chunks = [], cap_size = 0, cap_blob = 0,
                 cap_contentType = None\<rparr>;
               s = phase TalkRequesting AskingMicrophone (s\<lparr>tk_capture := Some v, tk_next := tk_next s + 1\<rparr>);
               s = failure NoMessage s
           in if supported then s else give_up Unsupported s)"

text \<open>\<open>(recorder.mimeType || mimeType).split(';', 1)[0]\<close>.\<close>

definition content_type :: "string \<Rightarrow> string \<Rightarrow> string" where
  "content_type own chosen = takeWhile (\<lambda>c. c \<noteq> CHR '';'') (if own = [] then chosen else own)"

definition talk_types :: "string list" where
  "talk_types = [''audio/webm'', ''audio/ogg'', ''audio/mp4'']"

text \<open>The microphone was acquired; \<open>supports\<close> is \<open>MediaRecorder.isTypeSupported\<close>, \<open>own\<close> the type the recorder
  reports.  Tracks that come too late are stopped at once.\<close>

definition acquired :: "nat \<Rightarrow> (string \<Rightarrow> bool) \<Rightarrow> string \<Rightarrow> talk \<Rightarrow> talk" where
  "acquired i supports own s =
     (if \<not> current i s \<or> tk_phase s \<noteq> TalkRequesting then s
      else let s = with_capture (\<lambda>v. v\<lparr>cap_stream := True\<rparr>) (s\<lparr>tk_live := tk_live s @ [i]\<rparr>) in
        case filter supports talk_types of
          [] \<Rightarrow> give_up NoFormat s
        | chosen # _ \<Rightarrow>
            phase TalkRecording RecordingNow
              (with_capture (\<lambda>v. v\<lparr>cap_recorder := Recording, cap_timer := True,
                 cap_contentType := Some (content_type own chosen)\<rparr>) s))"

datatype talk_reason = NotAllowed | TimedOut | Forbidden | Unauthorized | Unreadable | OtherReason

definition microphone_message :: "talk_reason \<Rightarrow> talk_message" where
  "microphone_message r = (case r of NotAllowed \<Rightarrow> PermissionDenied | TimedOut \<Rightarrow> MicrophoneTimeout | _ \<Rightarrow> OtherProblem)"

definition not_acquired :: "nat \<Rightarrow> talk_reason \<Rightarrow> talk \<Rightarrow> talk" where
  "not_acquired i r s = (if current i s \<and> tk_phase s = TalkRequesting then give_up (microphone_message r) s else s)"

definition has_recorder :: "nat \<Rightarrow> talk \<Rightarrow> bool" where
  "has_recorder i s = (case tk_capture s of None \<Rightarrow> False | Some v \<Rightarrow> cap_id v = i \<and> cap_recorder v \<noteq> NoRecorder)"

definition data_available :: "nat \<Rightarrow> nat \<Rightarrow> talk \<Rightarrow> talk" where
  "data_available i n s =
     (if \<not> current i s \<or> \<not> has_recorder i s \<or> n = 0 then s
      else let s = with_capture (\<lambda>v. v\<lparr>cap_size := cap_size v + n\<rparr>) s in
        if cap_size (the (tk_capture s)) > MAX_BYTES then give_up TooLarge s
        else with_capture (\<lambda>v. v\<lparr>cap_chunks := cap_chunks v @ [n]\<rparr>) s)"

definition recorder_error :: "nat \<Rightarrow> talk \<Rightarrow> talk" where
  "recorder_error i s = (if current i s \<and> has_recorder i s then give_up RecorderBroke s else s)"

definition track_ended :: "nat \<Rightarrow> talk \<Rightarrow> talk" where
  "track_ended i s = (if current i s \<and> i \<in> set (tk_live s) then give_up MicrophoneLost s else s)"

text \<open>Sending ends the recording; \<open>stops\<close> is false when \<open>recorder.stop()\<close> throws.\<close>

definition send :: "bool \<Rightarrow> talk \<Rightarrow> talk" where
  "send stops s =
     (case tk_capture s of
        None \<Rightarrow> s
      | Some v \<Rightarrow>
          if cap_recorder v \<noteq> Recording \<or> \<not> current (cap_id v) s then s
          else let s = with_capture (\<lambda>v. v\<lparr>cap_timer := False\<rparr>) s in
            if stops then stopTracks (cap_id v) (with_capture (\<lambda>v. v\<lparr>cap_recorder := Inactive\<rparr>) s)
            else give_up CannotStop s)"

definition timer_fired :: "bool \<Rightarrow> talk \<Rightarrow> talk" where
  "timer_fired stops s =
     (case tk_capture s of
        None \<Rightarrow> s
      | Some v \<Rightarrow> if cap_timer v then send stops (with_capture (\<lambda>v. v\<lparr>cap_timer := False\<rparr>) s) else s)"

section \<open>Sending\<close>

definition send_clip :: "nat \<Rightarrow> talk \<Rightarrow> talk" where
  "send_clip i s = (if \<not> current i s then s else phase TalkEncoding Preparing (with_capture (\<lambda>v. v\<lparr>cap_reader := Loading\<rparr>) s))"

text \<open>The recorder's \<open>stop\<close> event, which comes once, also when the recorder ended by itself.  \<open>cap_blob\<close> is the
  size of the clip made of the chunks.\<close>

definition recorder_stopped :: "nat \<Rightarrow> talk \<Rightarrow> talk" where
  "recorder_stopped i s =
     (case tk_capture s of
        None \<Rightarrow> s
      | Some v \<Rightarrow>
          if \<not> current i s \<or> cap_recorder v = NoRecorder \<or> cap_stopped v then s
          else let s = stopTracks i (with_capture (\<lambda>v. v\<lparr>cap_timer := False, cap_recorder := Inactive, cap_stopped := True,
                     cap_blob := sum_list (cap_chunks v), cap_chunks := []\<rparr>) s)
               in if sum_list (cap_chunks v) = 0 then give_up EmptyClip s else send_clip i s)"

definition encoded :: "nat \<Rightarrow> talk \<Rightarrow> talk" where
  "encoded i s =
     (case tk_capture s of
        None \<Rightarrow> s
      | Some v \<Rightarrow>
          if cap_reader v \<noteq> Loading \<or> \<not> current i s then s
          else let s = phase TalkSending SendingClip (with_capture (\<lambda>v. v\<lparr>cap_reader := Loaded\<rparr>) s)
               in s\<lparr>tk_sent := tk_sent s @ [\<lparr>cl_capture = i, cl_size = cap_blob v, cl_contentType = cap_contentType v\<rparr>]\<rparr>)"

definition clip_sent :: "nat \<Rightarrow> talk \<Rightarrow> talk" where
  "clip_sent i s = (if current i s \<and> tk_phase s = TalkSending then release Submitted s else s)"

definition send_message :: "talk_reason \<Rightarrow> talk_message" where
  "send_message r = (case r of TimedOut \<Rightarrow> SendTimeout | Forbidden \<Rightarrow> NoTalkPermission | Unauthorized \<Rightarrow> SignedOut
     | Unreadable \<Rightarrow> ReadFailed | _ \<Rightarrow> SendFailed)"

definition not_sent :: "nat \<Rightarrow> talk_reason \<Rightarrow> talk \<Rightarrow> talk" where
  "not_sent i r s = (if current i s \<and> tk_phase s \<in> {TalkEncoding, TalkSending} then give_up (send_message r) s else s)"

section \<open>The page\<close>

definition has_reader :: "talk \<Rightarrow> bool" where
  "has_reader s = (case tk_capture s of None \<Rightarrow> False | Some v \<Rightarrow> cap_reader v \<noteq> NoReader)"

definition hidden :: "talk \<Rightarrow> talk" where
  "hidden s = (let s = s\<lparr>tk_visible := False\<rparr> in
     if tk_mounted s \<and> tk_capture s \<noteq> None then release (if has_reader s then StoppedWaiting else DiscardedHidden) s else s)"

definition discard :: "talk \<Rightarrow> talk" where
  "discard s = release (if has_reader s then StoppedWaiting else DiscardedByUser) s"

definition unmount :: "talk \<Rightarrow> talk" where
  "unmount s = release NoMessage (s\<lparr>tk_mounted := False\<rparr>)"

definition mount :: "bool \<Rightarrow> talk \<Rightarrow> talk" where
  "mount enabled s = (if tk_mounted s then s
     else s\<lparr>tk_mounted := True, tk_enabled := enabled, tk_phase := TalkIdle, tk_status := NoMessage\<rparr>)"

definition useShortTalk :: "bool \<Rightarrow> bool \<Rightarrow> talk" where
  "useShortTalk enabled visible = mount enabled
     \<lparr>tk_phase = TalkIdle, tk_status = NoMessage, tk_capture = None, tk_mounted = False, tk_enabled = enabled, tk_visible = visible,
      tk_next = 0, tk_live = [], tk_sent = [], tk_failed = []\<rparr>"

datatype talk_event =
    Record bool
  | Acquired nat "string \<Rightarrow> bool" string
  | NotAcquired nat talk_reason
  | DataAvailable nat nat
  | RecorderError nat
  | TrackEnded nat
  | Send bool
  | TimerFired bool
  | RecorderStopped nat
  | Encoded nat
  | ClipSent nat
  | NotSent nat talk_reason
  | Hidden
  | Shown
  | Discard
  | Unmount
  | Mount bool

text \<open>A change of the camera, or of whether talk is enabled, unmounts and mounts again.\<close>

fun talk_step :: "talk \<Rightarrow> talk_event \<Rightarrow> talk" where
  "talk_step s (Record supported) = record_clip supported s"
| "talk_step s (Acquired i supports own) = acquired i supports own s"
| "talk_step s (NotAcquired i r) = not_acquired i r s"
| "talk_step s (DataAvailable i n) = data_available i n s"
| "talk_step s (RecorderError i) = recorder_error i s"
| "talk_step s (TrackEnded i) = track_ended i s"
| "talk_step s (Send stops) = send stops s"
| "talk_step s (TimerFired stops) = timer_fired stops s"
| "talk_step s (RecorderStopped i) = recorder_stopped i s"
| "talk_step s (Encoded i) = encoded i s"
| "talk_step s (ClipSent i) = clip_sent i s"
| "talk_step s (NotSent i r) = not_sent i r s"
| "talk_step s Hidden = hidden s"
| "talk_step s Shown = s\<lparr>tk_visible := True\<rparr>"
| "talk_step s Discard = discard s"
| "talk_step s Unmount = unmount s"
| "talk_step s (Mount enabled) = mount enabled s"

end
