(* ===== verification/TalkSafety.thy ===== *)
theory TalkSafety
  imports ShortTalk
begin

text \<open>
  What short talk guarantees: the microphone runs only while the page is visible and says that it
  records, a clip is sent once and within its bound, and what was discarded is never sent.
\<close>

section \<open>The invariant\<close>

fun stage_ok :: "talk_phase \<Rightarrow> recorder \<Rightarrow> reader \<Rightarrow> bool \<Rightarrow> bool \<Rightarrow> nat \<Rightarrow> bool" where
  "stage_ok p NoRecorder rd stream stopped blob = (p = TalkRequesting \<and> \<not> stream \<and> rd = NoReader)"
| "stage_ok p Recording rd stream stopped blob = (p = TalkRecording \<and> rd = NoReader)"
| "stage_ok p Inactive NoReader stream stopped blob = (p = TalkRecording \<and> \<not> stream)"
| "stage_ok p Inactive Loading stream stopped blob = (p = TalkEncoding \<and> \<not> stream \<and> stopped \<and> 0 < blob)"
| "stage_ok p Inactive Loaded stream stopped blob = (p = TalkSending \<and> \<not> stream \<and> stopped \<and> 0 < blob)"

lemma stage_cases:
  assumes "stage_ok p rc rd stream stopped blob"
  shows "stream \<Longrightarrow> p = TalkRecording" "p = TalkRequesting \<Longrightarrow> rc = NoRecorder \<and> \<not> stream \<and> rd = NoReader"
    "\<not> stopped \<Longrightarrow> rc \<noteq> NoRecorder \<Longrightarrow> rd = NoReader \<and> p = TalkRecording" "rd = Loading \<Longrightarrow> rc = Inactive \<and> \<not> stream \<and> stopped \<and> 0 < blob"
    "rc = Recording \<Longrightarrow> rd = NoReader \<and> p = TalkRecording"
  using assms by (cases rc; cases rd; simp)+

definition capture_ok :: "talk_phase \<Rightarrow> capture \<Rightarrow> bool" where
  "capture_ok p v = (cap_size v \<le> MAX_BYTES \<and> sum_list (cap_chunks v) \<le> cap_size v \<and> cap_blob v \<le> MAX_BYTES
     \<and> stage_ok p (cap_recorder v) (cap_reader v) (cap_stream v) (cap_stopped v) (cap_blob v))"

fun held :: "talk_phase \<Rightarrow> bool \<Rightarrow> bool \<Rightarrow> nat list \<Rightarrow> nat \<Rightarrow> nat list \<Rightarrow> capture option \<Rightarrow> bool" where
  "held p mounted visible live next sent None = (live = [] \<and> (p = TalkIdle \<or> \<not> mounted))"
| "held p mounted visible live next sent (Some v) = (mounted \<and> visible \<and> live = (if cap_stream v then [cap_id v] else [])
     \<and> cap_id v < next \<and> (cap_reader v = Loaded \<or> cap_id v \<notin> set sent) \<and> capture_ok p v)"

definition talk_ok :: "talk \<Rightarrow> bool" where
  "talk_ok s = (held (tk_phase s) (tk_mounted s) (tk_visible s) (tk_live s) (tk_next s) (map cl_capture (tk_sent s)) (tk_capture s)
     \<and> distinct (map cl_capture (tk_sent s)) \<and> list_all (\<lambda>c. cl_capture c < tk_next s \<and> 0 < cl_size c \<and> cl_size c \<le> MAX_BYTES) (tk_sent s))"

lemmas talk_ops = current_def with_capture_def phase_def failure_def give_up_def stopTracks_def has_recorder_def Let_def

lemma capture_released:
  assumes "talk_ok s"
  shows "talk_ok (release msg s)" "tk_capture (release msg s) = None" "tk_sent (release msg s) = tk_sent s" "tk_next (release msg s) = tk_next s"
  using assms by (cases "tk_capture s"; simp add: talk_ok_def release_def stopTracks_def Let_def split: if_splits)+

lemma failed: "talk_ok (failure msg s) = talk_ok s"
  by (simp add: talk_ok_def failure_def)

lemma gave_up: "talk_ok s \<Longrightarrow> talk_ok (give_up msg s)"
  by (simp add: give_up_def failed capture_released)

lemma ok_record: "talk_ok s \<Longrightarrow> talk_ok (record_clip supported s)"
proof -
  assume s: "talk_ok s"
  show ?thesis
  proof (cases "\<not> tk_enabled s \<or> tk_capture s \<noteq> None \<or> \<not> tk_mounted s \<or> \<not> tk_visible s")
    case True
    with s show ?thesis by (auto simp: record_clip_def)
  next
    case False
    have fresh: "tk_next s \<notin> set (map cl_capture (tk_sent s))"
      using s by (auto simp: talk_ok_def list_all_iff)
    have "talk_ok (phase TalkRequesting AskingMicrophone (s\<lparr>tk_capture := Some \<lparr>cap_id = tk_next s, cap_stream = False,
        cap_recorder = NoRecorder, cap_stopped = False, cap_reader = NoReader, cap_timer = False, cap_chunks = [], cap_size = 0,
        cap_blob = 0, cap_contentType = None\<rparr>, tk_next := tk_next s + 1\<rparr>))"
      using False s fresh by (auto simp: talk_ok_def phase_def capture_ok_def list_all_iff less_Suc_eq)
    with False show ?thesis by (simp add: record_clip_def Let_def failed gave_up)
  qed
qed

lemma current_capture: "current i s \<Longrightarrow> \<exists>v. tk_capture s = Some v \<and> cap_id v = i"
  by (auto simp: current_def)

lemma ok_acquired:
  assumes "talk_ok s"
  shows "talk_ok (acquired i supports own s)"
proof (cases "\<not> current i s \<or> tk_phase s \<noteq> TalkRequesting")
  case True
  with assms show ?thesis by (auto simp: acquired_def)
next
  case False
  then obtain v where v: "tk_capture s = Some v" "cap_id v = i" using current_capture by blast
  have n: "cap_recorder v = NoRecorder" "\<not> cap_stream v" "cap_reader v = NoReader"
    using assms False v stage_cases(2) [of "tk_phase s" "cap_recorder v"] by (auto simp: talk_ok_def capture_ok_def)
  define t where "t = with_capture (\<lambda>v. v\<lparr>cap_stream := True\<rparr>) (s\<lparr>tk_live := tk_live s @ [i]\<rparr>)"
  have g: "talk_ok (give_up NoFormat t)"
    using assms v n by (simp add: t_def talk_ok_def give_up_def failure_def release_def stopTracks_def with_capture_def Let_def)
  have r: "talk_ok (phase TalkRecording RecordingNow (with_capture (\<lambda>v. v\<lparr>cap_recorder := Recording, cap_timer := True,
      cap_contentType := c\<rparr>) t))" for c
    using assms v n by (simp add: t_def talk_ok_def phase_def with_capture_def capture_ok_def)
  show ?thesis
    using False g r by (simp add: acquired_def t_def [symmetric] Let_def split: list.split)
qed

lemma ok_data:
  assumes "talk_ok s"
  shows "talk_ok (data_available i n s)"
proof (cases "\<not> current i s \<or> \<not> has_recorder i s \<or> n = 0")
  case True
  with assms show ?thesis by (auto simp: data_available_def)
next
  case False
  then obtain v where v: "tk_capture s = Some v" "cap_id v = i" using current_capture by blast
  show ?thesis
  proof (cases "cap_size v + n > MAX_BYTES")
    case True
    with False v assms show ?thesis
      by (simp add: data_available_def talk_ok_def give_up_def failure_def release_def stopTracks_def with_capture_def Let_def)
  next
    case False': False
    with False v assms show ?thesis
      by (simp add: data_available_def talk_ok_def with_capture_def capture_ok_def Let_def)
  qed
qed

lemma ok_send:
  assumes "talk_ok s"
  shows "talk_ok (send stops s)"
proof (cases "tk_capture s")
  case None
  with assms show ?thesis by (simp add: send_def)
next
  case (Some v)
  show ?thesis
  proof (cases "cap_recorder v = Recording \<and> current (cap_id v) s")
    case True
    have "cap_reader v = NoReader" "tk_phase s = TalkRecording"
      using assms Some True by (auto simp: talk_ok_def capture_ok_def)
    with Some assms True show ?thesis
      by (simp add: send_def talk_ok_def give_up_def failure_def release_def stopTracks_def with_capture_def Let_def capture_ok_def)
  next
    case False
    with Some assms show ?thesis by (auto simp: send_def)
  qed
qed

lemma ok_timer: "talk_ok s \<Longrightarrow> talk_ok (with_capture (\<lambda>v. v\<lparr>cap_timer := b\<rparr>) s)"
  by (cases "tk_capture s") (simp_all add: talk_ok_def with_capture_def capture_ok_def)

lemma ok_stopped:
  assumes "talk_ok s"
  shows "talk_ok (recorder_stopped i s)"
proof (cases "tk_capture s")
  case None
  with assms show ?thesis by (simp add: recorder_stopped_def)
next
  case (Some v)
  show ?thesis
  proof (cases "\<not> current i s \<or> cap_recorder v = NoRecorder \<or> cap_stopped v")
    case True
    with Some assms show ?thesis by (auto simp: recorder_stopped_def)
  next
    case False
    with Some have i: "cap_id v = i" by (simp add: current_def)
    have "cap_reader v = NoReader" "tk_phase s = TalkRecording" "sum_list (cap_chunks v) \<le> MAX_BYTES"
      using assms Some False stage_cases(3) [of "tk_phase s" "cap_recorder v"] by (auto simp: talk_ok_def capture_ok_def)
    with Some assms False i show ?thesis
      by (simp add: recorder_stopped_def send_clip_def talk_ok_def give_up_def failure_def release_def stopTracks_def with_capture_def
          phase_def current_def Let_def capture_ok_def del: sum_list_eq_0_iff)
  qed
qed

lemma ok_encoded:
  assumes "talk_ok s"
  shows "talk_ok (encoded i s)"
proof (cases "tk_capture s")
  case None
  with assms show ?thesis by (simp add: encoded_def)
next
  case (Some v)
  show ?thesis
  proof (cases "cap_reader v \<noteq> Loading \<or> \<not> current i s")
    case True
    with Some assms show ?thesis by (auto simp: encoded_def)
  next
    case False
    with Some have i: "cap_id v = i" by (simp add: current_def)
    have r: "cap_recorder v = Inactive"
      using assms Some False stage_cases(4) [of "tk_phase s" "cap_recorder v"] by (auto simp: talk_ok_def capture_ok_def)
    with Some assms False i show ?thesis
      by (simp add: encoded_def talk_ok_def with_capture_def phase_def Let_def capture_ok_def)
  qed
qed

lemma ok_hidden: "talk_ok s \<Longrightarrow> talk_ok (hidden s)"
  by (cases "tk_capture s") (auto simp: hidden_def talk_ok_def release_def stopTracks_def Let_def)

lemma ok_unmount: "talk_ok s \<Longrightarrow> talk_ok (unmount s)"
  by (cases "tk_capture s") (auto simp: unmount_def talk_ok_def release_def stopTracks_def Let_def)

lemma ok_mount: "talk_ok s \<Longrightarrow> talk_ok (mount enabled s)"
  by (cases "tk_capture s") (auto simp: mount_def talk_ok_def)

lemma ok_shown: "talk_ok s \<Longrightarrow> talk_ok (s\<lparr>tk_visible := True\<rparr>)"
  by (cases "tk_capture s") (auto simp: talk_ok_def)

lemma talk_ok_step: "talk_ok s \<Longrightarrow> talk_ok (talk_step s e)"
  by (cases e) (auto simp: ok_record ok_acquired not_acquired_def ok_data recorder_error_def track_ended_def ok_send timer_fired_def
      ok_timer ok_stopped ok_encoded clip_sent_def not_sent_def ok_hidden discard_def ok_unmount ok_mount ok_shown gave_up capture_released(1)
      split: option.split)

lemma talk_ok_start: "talk_ok (useShortTalk enabled visible)"
  by (simp add: useShortTalk_def mount_def talk_ok_def)

interpretation talk: machine "useShortTalk enabled visible" talk_step talk_ok for enabled visible
  by unfold_locales (rule talk_ok_start, erule talk_ok_step)

section \<open>What it guarantees\<close>

text \<open>C20. The microphone is only open while the user can see it: in every state of short talk no stream runs,
  or exactly one does, of the clip that is being recorded, on a page that is visible and mounted,
  in the phase that says so.\<close>

theorem microphone_only_while_recording:
  "tk_live (foldl talk_step (useShortTalk enabled visible) es) = []
   \<or> (tk_phase (foldl talk_step (useShortTalk enabled visible) es) = TalkRecording
      \<and> tk_visible (foldl talk_step (useShortTalk enabled visible) es) \<and> tk_mounted (foldl talk_step (useShortTalk enabled visible) es)
      \<and> length (tk_live (foldl talk_step (useShortTalk enabled visible) es)) = 1)"
proof -
  let ?s = "foldl talk_step (useShortTalk enabled visible) es"
  have "talk_ok ?s" by (rule talk.inv_run)
  then show ?thesis
    by (cases "tk_capture ?s") (auto simp: talk_ok_def capture_ok_def dest: stage_cases(1))
qed

text \<open>What was capture_released is not sent: the clips sent later are of captures made later.\<close>

definition later_only :: "nat \<Rightarrow> clip list \<Rightarrow> talk \<Rightarrow> bool" where
  "later_only n old s = (n \<le> tk_next s \<and> (\<exists>new. tk_sent s = old @ new \<and> list_all (\<lambda>c. n \<le> cl_capture c) new)
     \<and> pred_option (\<lambda>v. n \<le> cap_id v) (tk_capture s))"

lemma later_release: "later_only n old s \<Longrightarrow> later_only n old (release msg s)"
  by (cases "tk_capture s") (auto simp: later_only_def release_def stopTracks_def Let_def)

definition keeps :: "talk \<Rightarrow> talk \<Rightarrow> bool" where
  "keeps s t = (tk_next t = tk_next s \<and> tk_sent t = tk_sent s
     \<and> (tk_capture t = None \<or> map_option cap_id (tk_capture t) = map_option cap_id (tk_capture s)))"

lemma later_keeps: "later_only n old s \<Longrightarrow> keeps s t \<Longrightarrow> later_only n old t"
  by (cases "tk_capture t"; cases "tk_capture s") (auto simp: keeps_def later_only_def)

lemma kept_refl: "keeps s s"
  by (simp add: keeps_def)

lemma kept_trans: "keeps s t \<Longrightarrow> keeps t u \<Longrightarrow> keeps s u"
  by (auto simp: keeps_def)

lemma keeps_release: "keeps s t \<Longrightarrow> keeps s (release msg t)"
  by (cases "tk_capture t") (auto simp: keeps_def release_def stopTracks_def Let_def)

lemma keeps_give_up: "keeps s t \<Longrightarrow> keeps s (give_up msg t)"
  using keeps_release [of s t] by (simp add: give_up_def keeps_def failure_def)

lemma keeps_capture: "keeps s t \<Longrightarrow> (\<And>v. cap_id (f v) = cap_id v) \<Longrightarrow> keeps s (with_capture f t)"
  by (cases "tk_capture t") (auto simp: keeps_def with_capture_def)

lemma keeps_phase: "keeps s t \<Longrightarrow> keeps s (phase p msg t)"
  by (simp add: keeps_def phase_def)

lemma keeps_stop: "keeps s t \<Longrightarrow> keeps s (stopTracks i t)"
  by (cases "tk_capture t") (auto simp: keeps_def stopTracks_def)

lemma kept_frame: "keeps s t \<Longrightarrow> keeps s (t\<lparr>tk_live := l\<rparr>)" "keeps s t \<Longrightarrow> keeps s (t\<lparr>tk_visible := b\<rparr>)" "keeps s t \<Longrightarrow> keeps s (t\<lparr>tk_mounted := b\<rparr>)"
  by (simp_all add: keeps_def)

lemmas keeping_steps = kept_refl keeps_release keeps_give_up keeps_capture keeps_phase keeps_stop kept_frame

lemma keeps_ops:
  "keeps s (acquired i supports own s)" "keeps s (not_acquired i r s)" "keeps s (data_available i k s)" "keeps s (recorder_error i s)"
  "keeps s (track_ended i s)" "keeps s (send_clip i s)" "keeps s (clip_sent i s)" "keeps s (not_sent i r s)" "keeps s (hidden s)"
  "keeps s (discard s)" "keeps s (unmount s)"
  by (simp_all add: acquired_def not_acquired_def data_available_def recorder_error_def track_ended_def send_clip_def clip_sent_def
      not_sent_def hidden_def discard_def unmount_def Let_def keeping_steps split: list.split)

lemma keeps_send: "keeps s t \<Longrightarrow> keeps s (send stops t)"
  by (simp add: send_def Let_def keeping_steps split: option.split)

lemma keeps_timer: "keeps s (timer_fired stops s)"
  by (simp add: timer_fired_def keeps_send keeping_steps split: option.split)

lemma keeps_stopped: "keeps s (recorder_stopped i s)"
  by (simp add: recorder_stopped_def Let_def keeping_steps kept_trans [OF _ keeps_ops(6)] split: option.split)

lemma later_step: "later_only n old s \<Longrightarrow> later_only n old (talk_step s e)"
proof -
  assume l: "later_only n old s"
  have c: "pred_option (\<lambda>v. n \<le> cap_id v) (tk_capture s)" using l by (simp add: later_only_def)
  show ?thesis
  proof (cases e)
    case (Record b)
    then show ?thesis using l
      by (auto simp: record_clip_def give_up_def failure_def release_def stopTracks_def phase_def Let_def later_only_def)
  next
    case (Encoded i)
    then show ?thesis using l c
      by (cases "tk_capture s") (auto simp: encoded_def phase_def with_capture_def current_def Let_def later_only_def)
  next
    case (Mount b)
    then show ?thesis using l by (simp add: mount_def later_only_def)
  qed (use l in \<open>simp_all add: later_keeps keeps_ops keeps_send keeps_timer keeps_stopped keeping_steps\<close>)
qed

text \<open>C21. A clip is sent once, holds something and at most half a mebibyte; and once the page is hidden
  nothing recorded before is sent any more: every clip sent later is of a recording started later.\<close>

theorem clips_sent_once:
  "distinct (map cl_capture (tk_sent (foldl talk_step (useShortTalk enabled visible) es)))
   \<and> list_all (\<lambda>c. 0 < cl_size c \<and> cl_size c \<le> 524288) (tk_sent (foldl talk_step (useShortTalk enabled visible) es))
   \<and> (\<exists>new. tk_sent (foldl talk_step (useShortTalk enabled visible) (es @ Hidden # later))
          = tk_sent (foldl talk_step (useShortTalk enabled visible) es) @ new
        \<and> list_all (\<lambda>c. tk_next (foldl talk_step (useShortTalk enabled visible) es) \<le> cl_capture c) new)"
proof -
  let ?s = "foldl talk_step (useShortTalk enabled visible) es"
  have ok: "talk_ok ?s" by (rule talk.inv_run)
  then have a: "distinct (map cl_capture (tk_sent ?s)) \<and> list_all (\<lambda>c. 0 < cl_size c \<and> cl_size c \<le> 524288) (tk_sent ?s)"
    by (auto simp: talk_ok_def list_all_iff MAX_BYTES_def)
  have h: "later_only (tk_next ?s) (tk_sent ?s) (hidden ?s)"
    using ok by (cases "tk_capture ?s")
      (auto simp: hidden_def later_only_def release_def stopTracks_def Let_def talk_ok_def)
  have "later_only n old (foldl talk_step s ops)" if "later_only n old s" for n old s ops
    using that by (induction ops arbitrary: s) (auto intro: later_step)
  from this [OF h, of later] show ?thesis using a by (auto simp: later_only_def)
qed

end
