(* ===== verification/ArchiveDownload.thy ===== *)
theory ArchiveDownload
  imports Whep
begin

text \<open>
  Playback of an archived recording (\<open>archiveDownload.ts\<close>): a ticket is requested, checked, its address
  is fetched, the body is read into a buffer of the announced size, and the bytes are given out when
  their SHA-256 is the ticket's.  The ticket gate, the URL parser, the response and the digest are
  parameters.  The download is over as soon as it was cancelled or its deadline passed, which the code
  asks at each step: \<open>dw_active\<close> says at which moments it is still wanted.
\<close>

definition ARCHIVE_PLAYBACK_MAX_BYTES :: int where "ARCHIVE_PLAYBACK_MAX_BYTES = 32 * 1024 * 1024"
definition ARCHIVE_PLAYBACK_TIMEOUT_MS :: int where "ARCHIVE_PLAYBACK_TIMEOUT_MS = 60000"

record playback_ticket =
  pt_segmentId :: string
  pt_cameraId :: string
  pt_url :: string
  pt_sha256 :: string
  pt_sizeBytes :: jsnum
  pt_contentType :: string
  pt_expiresAt :: jsnum
  pt_credentialExposure :: string

datatype archive_error =
    Cancelled
  | TicketRefused
  | InvalidTicket
  | TooLargeForBrowser
  | RequestFailed
  | Unreadable
  | SizeMismatch
  | NotStreamable
  | ReadingFailed
  | Oversized
  | DigestMismatch

definition hex64 :: "string \<Rightarrow> bool" where
  "hex64 s = in_class is_hex_lower 64 64 s"

fun safe_size :: "jsnum \<Rightarrow> int option" where
  "safe_size n = safe_int (JNum n)"

definition expired :: "rat \<Rightarrow> jsnum \<Rightarrow> bool" where
  "expired now expiry = (case expiry of Fin t \<Rightarrow> t * 1000 \<le> now | _ \<Rightarrow> True)"

definition validateTicket :: "url_parser \<Rightarrow> rat \<Rightarrow> playback_ticket \<Rightarrow> string \<Rightarrow> string \<Rightarrow> archive_error + web_url \<times> nat" where
  "validateTicket parse now t segmentId cameraId =
     (case parse (pt_url t) None of
        None \<Rightarrow> Inl InvalidTicket
      | Some u \<Rightarrow>
          if u_protocol u \<noteq> ''https:'' \<or> u_username u \<noteq> [] \<or> u_password u \<noteq> [] \<or> u_hash u \<noteq> []
             \<or> pt_segmentId t \<noteq> segmentId \<or> pt_cameraId t \<noteq> cameraId
             \<or> pt_credentialExposure t \<noteq> ''ephemeral'' \<or> expired now (pt_expiresAt t) \<or> \<not> hex64 (pt_sha256 t)
          then Inl InvalidTicket
          else case safe_size (pt_sizeBytes t) of
                 None \<Rightarrow> Inl InvalidTicket
               | Some n \<Rightarrow>
                   if n < 1 then Inl InvalidTicket
                   else if n > ARCHIVE_PLAYBACK_MAX_BYTES then Inl TooLargeForBrowser
                   else Inr (u, nat n))"

text \<open>A response: its status, its \<open>Content-Length\<close>, and what its body delivers, chunk after chunk; a read may
  fail.\<close>

record archive_response =
  ar_ok :: bool
  ar_length :: "string option"
  ar_body :: "(unit + nat list) list option"

datatype moment = AtTicket | AtResponse | AtBody | BeforeRead nat | AfterRead nat | AfterBody | AfterDigest

record archive_world =
  dw_parse :: url_parser
  dw_now :: rat
  dw_ticket :: "playback_ticket option"
  dw_fetch :: "web_url \<Rightarrow> archive_response option"
  dw_digest :: "nat list \<Rightarrow> nat list"
  dw_active :: "moment \<Rightarrow> bool"

text \<open>\<open>/^\d+$/\<close> and \<open>Number(...)\<close> of the header.\<close>

definition length_agrees :: "nat \<Rightarrow> string option \<Rightarrow> bool" where
  "length_agrees n h = (case h of None \<Rightarrow> True
     | Some s \<Rightarrow> s \<noteq> [] \<and> list_all is_digit s \<and> string_num s = Fin (of_nat n))"

text \<open>The loop of \<open>readBoundedBody\<close>; \<open>j\<close> numbers the reads.\<close>

fun read_body :: "(moment \<Rightarrow> bool) \<Rightarrow> nat \<Rightarrow> nat \<Rightarrow> nat list \<Rightarrow> (unit + nat list) list \<Rightarrow> archive_error + nat list" where
  "read_body active j n got [] =
     (if \<not> active (BeforeRead j) \<or> \<not> active (AfterRead j) then Inl Cancelled
      else if length got \<noteq> n then Inl SizeMismatch else Inr got)"
| "read_body active j n got (c # cs) =
     (if \<not> active (BeforeRead j) then Inl Cancelled
      else case c of
        Inl _ \<Rightarrow> Inl ReadingFailed
      | Inr bytes \<Rightarrow>
          if \<not> active (AfterRead j) then Inl Cancelled
          else if length bytes > n - length got \<or> int (length bytes) > ARCHIVE_PLAYBACK_MAX_BYTES - int (length got) then Inl Oversized
          else read_body active (Suc j) n (got @ bytes) cs)"

definition readBoundedBody :: "(moment \<Rightarrow> bool) \<Rightarrow> nat \<Rightarrow> archive_response \<Rightarrow> archive_error + nat list" where
  "readBoundedBody active n r =
     (case ar_body r of
        None \<Rightarrow> Inl NotStreamable
      | Some chunks \<Rightarrow> if \<not> active AtBody then Inl Cancelled else read_body active 0 n [] chunks)"

definition hex_digit :: "nat \<Rightarrow> char" where
  "hex_digit n = char_of (if n < 10 then 48 + n else 87 + n)"

definition hex_of :: "nat list \<Rightarrow> string" where
  "hex_of bytes = concat (map (\<lambda>b. [hex_digit (b div 16), hex_digit (b mod 16)]) bytes)"

record blob =
  bl_bytes :: "nat list"
  bl_type :: string

definition blob_type :: "string \<Rightarrow> string" where
  "blob_type t = (if t = ''video/mp4'' then ''video/mp4'' else ''application/octet-stream'')"

definition checked_bytes :: "archive_world \<Rightarrow> playback_ticket \<Rightarrow> nat list \<Rightarrow> archive_error + blob" where
  "checked_bytes w t bytes =
     (if \<not> dw_active w AfterBody \<or> \<not> dw_active w AfterDigest then Inl Cancelled
      else if hex_of (dw_digest w bytes) \<noteq> pt_sha256 t then Inl DigestMismatch
      else Inr \<lparr>bl_bytes = bytes, bl_type = blob_type (pt_contentType t)\<rparr>)"

definition downloadVerifiedArchivedRecording :: "archive_world \<Rightarrow> string \<Rightarrow> string \<Rightarrow> archive_error + blob" where
  "downloadVerifiedArchivedRecording w segmentId cameraId =
     (case dw_ticket w of
        None \<Rightarrow> Inl TicketRefused
      | Some t \<Rightarrow>
          if \<not> dw_active w AtTicket then Inl Cancelled
          else case validateTicket (dw_parse w) (dw_now w) t segmentId cameraId of
            Inl e \<Rightarrow> Inl e
          | Inr (u, n) \<Rightarrow>
              (case dw_fetch w u of
                 None \<Rightarrow> Inl RequestFailed
               | Some r \<Rightarrow>
                   if \<not> dw_active w AtResponse then Inl Cancelled
                   else if \<not> ar_ok r then Inl Unreadable
                   else if \<not> length_agrees n (ar_length r) then Inl SizeMismatch
                   else case readBoundedBody (dw_active w) n r of
                          Inl e \<Rightarrow> Inl e
                        | Inr bytes \<Rightarrow> checked_bytes w t bytes))"


section \<open>What is delivered\<close>

definition reads_wanted :: "(moment \<Rightarrow> bool) \<Rightarrow> nat \<Rightarrow> nat \<Rightarrow> bool" where
  "reads_wanted active j m = (\<forall>i \<le> m. active (BeforeRead (j + i)) \<and> active (AfterRead (j + i)))"

definition wanted_throughout :: "(moment \<Rightarrow> bool) \<Rightarrow> nat \<Rightarrow> bool" where
  "wanted_throughout active m = (active AtTicket \<and> active AtResponse \<and> active AtBody \<and> active AfterBody \<and> active AfterDigest
     \<and> reads_wanted active 0 m)"

text \<open>The abstract specification: the bytes are the whole body of the response to the ticket's address, the
  ticket is one for this segment and camera that was valid, and its size and digest are the bytes'.\<close>

definition verified_recording :: "archive_world \<Rightarrow> string \<Rightarrow> string \<Rightarrow> blob \<Rightarrow> bool" where
  "verified_recording w segmentId cameraId b = (\<exists>t u r chunks expiry.
     dw_ticket w = Some t \<and> pt_segmentId t = segmentId \<and> pt_cameraId t = cameraId \<and> pt_credentialExposure t = ''ephemeral''
     \<and> dw_parse w (pt_url t) None = Some u \<and> u_protocol u = ''https:'' \<and> u_username u = [] \<and> u_password u = [] \<and> u_hash u = []
     \<and> pt_expiresAt t = Fin expiry \<and> dw_now w < expiry * 1000
     \<and> dw_fetch w u = Some r \<and> ar_ok r \<and> length_agrees (length (bl_bytes b)) (ar_length r)
     \<and> ar_body r = Some (map Inr chunks) \<and> bl_bytes b = concat chunks \<and> wanted_throughout (dw_active w) (length chunks)
     \<and> pt_sizeBytes t = Fin (of_nat (length (bl_bytes b))) \<and> 1 \<le> length (bl_bytes b) \<and> length (bl_bytes b) \<le> 33554432
     \<and> hex64 (pt_sha256 t) \<and> hex_of (dw_digest w (bl_bytes b)) = pt_sha256 t \<and> bl_type b = blob_type (pt_contentType t))"

lemma reads_wanted_0 [simp]: "reads_wanted active j 0 \<longleftrightarrow> active (BeforeRead j) \<and> active (AfterRead j)"
  by (simp add: reads_wanted_def)

lemma reads_wanted_Suc [simp]:
  "reads_wanted active j (Suc m) \<longleftrightarrow> active (BeforeRead j) \<and> active (AfterRead j) \<and> reads_wanted active (Suc j) m"
proof -
  have "(\<forall>i \<le> Suc m. P (j + i)) \<longleftrightarrow> P j \<and> (\<forall>i \<le> m. P (Suc j + i))" for P :: "nat \<Rightarrow> bool"
  proof (intro iffI conjI allI impI)
    assume a: "\<forall>i \<le> Suc m. P (j + i)"
    show "P j" using a [rule_format, of 0] by simp
    fix i assume "i \<le> m"
    then show "P (Suc j + i)" using a [rule_format, of "Suc i"] by simp
  next
    fix i assume "P j \<and> (\<forall>i \<le> m. P (Suc j + i))" and "i \<le> Suc m"
    then show "P (j + i)" by (cases i) auto
  qed
  from this [of "\<lambda>i. active (BeforeRead i) \<and> active (AfterRead i)"] show ?thesis
    unfolding reads_wanted_def by simp
qed

lemma read_body_iff:
  "length got \<le> n \<Longrightarrow> n \<le> 33554432 \<Longrightarrow> read_body active j n got cs = Inr bytes \<longleftrightarrow>
     (\<exists>chunks. cs = map Inr chunks \<and> bytes = got @ concat chunks \<and> length bytes = n \<and> reads_wanted active j (length chunks))"
proof (induction cs arbitrary: j got)
  case Nil
  then show ?case by auto
next
  case (Cons c cs)
  show ?case
  proof (cases c)
    case (Inl e)
    then show ?thesis by (auto simp: Cons_eq_map_conv)
  next
    case (Inr x)
    define R where "R = (\<exists>chunks. cs = map Inr chunks \<and> bytes = (got @ x) @ concat chunks \<and> length bytes = n
      \<and> reads_wanted active (Suc j) (length chunks))"
    have l: "(\<exists>chunks. c # cs = map Inr chunks \<and> bytes = got @ concat chunks \<and> length bytes = n \<and> reads_wanted active j (length chunks))
      \<longleftrightarrow> active (BeforeRead j) \<and> active (AfterRead j) \<and> R"
      unfolding Cons_eq_map_conv Inr R_def by auto
    have step: "read_body active j n got (c # cs) = Inr bytes \<longleftrightarrow> active (BeforeRead j) \<and> active (AfterRead j)
        \<and> length x \<le> n - length got \<and> read_body active (Suc j) n (got @ x) cs = Inr bytes"
      using Inr Cons.prems by (auto simp: ARCHIVE_PLAYBACK_MAX_BYTES_def)
    have ih: "read_body active (Suc j) n (got @ x) cs = Inr bytes \<longleftrightarrow> R" if "length x \<le> n - length got"
      using Cons.IH [of "got @ x" "Suc j"] Cons.prems that by (simp add: R_def)
    have "length x \<le> n - length got" if R using that by (auto simp: R_def)
    with l step ih show ?thesis by argo
  qed
qed

lemma safe_size_iff: "safe_size x = Some k \<longleftrightarrow> x = Fin (of_int k) \<and> \<bar>k\<bar> \<le> max_safe"
proof (cases x)
  case (Fin r)
  show ?thesis unfolding Fin safe_size.simps safe_int_Some by (auto split: if_splits)
qed (simp_all add: safe_int_def)

lemma size_iff:
  "(case safe_size x of None \<Rightarrow> Inl InvalidTicket
    | Some k \<Rightarrow> if k < 1 then Inl InvalidTicket else if k > ARCHIVE_PLAYBACK_MAX_BYTES then Inl TooLargeForBrowser else Inr (v, nat k)) = Inr (u, n)
   \<longleftrightarrow> v = u \<and> x = Fin (of_nat n) \<and> 1 \<le> n \<and> n \<le> 33554432" (is "?l \<longleftrightarrow> ?r")
proof
  assume ?l
  then obtain k where "safe_size x = Some k" "1 \<le> k" "k \<le> 33554432" "n = nat k" "v = u"
    by (auto simp: ARCHIVE_PLAYBACK_MAX_BYTES_def simp del: safe_size.simps split: option.splits if_splits)
  then show ?r unfolding safe_size_iff by auto
next
  assume r: ?r
  then have "safe_size x = Some (int n)" unfolding safe_size_iff by (simp add: max_safe_def)
  with r show ?l by (simp add: ARCHIVE_PLAYBACK_MAX_BYTES_def del: safe_size.simps)
qed

lemma not_expired: "\<not> expired now x \<longleftrightarrow> (\<exists>expiry. x = Fin expiry \<and> now < expiry * 1000)"
  by (cases x) (auto simp: expired_def)

lemma validate_iff:
  "validateTicket parse now t s c = Inr (u, n) \<longleftrightarrow>
     pt_segmentId t = s \<and> pt_cameraId t = c \<and> pt_credentialExposure t = ''ephemeral''
     \<and> parse (pt_url t) None = Some u \<and> u_protocol u = ''https:'' \<and> u_username u = [] \<and> u_password u = [] \<and> u_hash u = []
     \<and> (\<exists>expiry. pt_expiresAt t = Fin expiry \<and> now < expiry * 1000) \<and> hex64 (pt_sha256 t)
     \<and> pt_sizeBytes t = Fin (of_nat n) \<and> 1 \<le> n \<and> n \<le> 33554432"
proof (cases "parse (pt_url t) None")
  case None
  then show ?thesis by (simp add: validateTicket_def)
next
  case (Some v)
  show ?thesis
  proof (cases "u_protocol v \<noteq> ''https:'' \<or> u_username v \<noteq> [] \<or> u_password v \<noteq> [] \<or> u_hash v \<noteq> []
       \<or> pt_segmentId t \<noteq> s \<or> pt_cameraId t \<noteq> c \<or> pt_credentialExposure t \<noteq> ''ephemeral'' \<or> expired now (pt_expiresAt t) \<or> \<not> hex64 (pt_sha256 t)")
    case True
    then have "validateTicket parse now t s c = Inl InvalidTicket" by (simp add: validateTicket_def Some)
    with True Some show ?thesis unfolding not_expired [symmetric] by auto
  next
    case False
    then have "validateTicket parse now t s c = Inr (u, n) \<longleftrightarrow> v = u \<and> pt_sizeBytes t = Fin (of_nat n) \<and> 1 \<le> n \<and> n \<le> 33554432"
      unfolding validateTicket_def Some size_iff [symmetric] by (simp del: safe_size.simps)
    with False Some show ?thesis unfolding not_expired [symmetric] by auto
  qed
qed

lemma download_steps:
  "downloadVerifiedArchivedRecording w s c = Inr b \<longleftrightarrow>
     (\<exists>t u n r bytes. dw_ticket w = Some t \<and> dw_active w AtTicket \<and> validateTicket (dw_parse w) (dw_now w) t s c = Inr (u, n)
        \<and> dw_fetch w u = Some r \<and> dw_active w AtResponse \<and> ar_ok r \<and> length_agrees n (ar_length r)
        \<and> readBoundedBody (dw_active w) n r = Inr bytes \<and> checked_bytes w t bytes = Inr b)"
proof (cases "dw_ticket w")
  case None
  then show ?thesis by (simp add: downloadVerifiedArchivedRecording_def)
next
  case t: (Some t)
  show ?thesis
  proof (cases "validateTicket (dw_parse w) (dw_now w) t s c")
    case (Inl e)
    with t show ?thesis by (simp add: downloadVerifiedArchivedRecording_def)
  next
    case v: (Inr un)
    obtain u n where un: "un = (u, n)" by force
    show ?thesis
    proof (cases "dw_fetch w u")
      case None
      with t v un show ?thesis by (simp add: downloadVerifiedArchivedRecording_def)
    next
      case r: (Some r)
      with t v un show ?thesis
        by (cases "readBoundedBody (dw_active w) n r") (simp_all add: downloadVerifiedArchivedRecording_def)
    qed
  qed
qed

lemma checked_iff:
  "checked_bytes w t bytes = Inr b \<longleftrightarrow> dw_active w AfterBody \<and> dw_active w AfterDigest \<and> hex_of (dw_digest w bytes) = pt_sha256 t
      \<and> bl_bytes b = bytes \<and> bl_type b = blob_type (pt_contentType t)"
  by (cases b) (auto simp: checked_bytes_def)

lemma bounded_body_iff:
  assumes "n \<le> 33554432"
  shows "readBoundedBody active n r = Inr bytes \<longleftrightarrow> active AtBody \<and> (\<exists>chunks. ar_body r = Some (map Inr chunks)
      \<and> bytes = concat chunks \<and> length bytes = n \<and> reads_wanted active 0 (length chunks))"
proof (cases "ar_body r")
  case None
  then show ?thesis by (simp add: readBoundedBody_def)
next
  case (Some cs)
  then show ?thesis using read_body_iff [of "[]" n active 0 cs bytes] assms by (simp add: readBoundedBody_def)
qed

text \<open>C11. The archive player delivers exactly the verified recordings: bytes are given out if and only if they
  are the complete body fetched from the https address of an unexpired ticket for this segment and
  camera, as many as the ticket says and at most 32 MiB, with the ticket's SHA-256, while the request
  was wanted at every step; any other outcome is an error.\<close>

theorem archive_delivers_verified:
  "downloadVerifiedArchivedRecording w segmentId cameraId = Inr b \<longleftrightarrow> verified_recording w segmentId cameraId b"
proof
  assume "downloadVerifiedArchivedRecording w segmentId cameraId = Inr b"
  then obtain t u n r bytes where d: "dw_ticket w = Some t" "dw_active w AtTicket"
      "validateTicket (dw_parse w) (dw_now w) t segmentId cameraId = Inr (u, n)" "dw_fetch w u = Some r" "dw_active w AtResponse"
      "ar_ok r" "length_agrees n (ar_length r)" "readBoundedBody (dw_active w) n r = Inr bytes" "checked_bytes w t bytes = Inr b"
    unfolding download_steps by blast
  from d(3) have n: "n \<le> 33554432" by (simp add: validate_iff)
  show "verified_recording w segmentId cameraId b"
    using d n bounded_body_iff [OF n, of "dw_active w" r bytes]
    unfolding verified_recording_def wanted_throughout_def validate_iff checked_iff by auto
next
  assume "verified_recording w segmentId cameraId b"
  then obtain t u r chunks expiry where v: "dw_ticket w = Some t" "pt_segmentId t = segmentId" "pt_cameraId t = cameraId"
     "pt_credentialExposure t = ''ephemeral''" "dw_parse w (pt_url t) None = Some u" "u_protocol u = ''https:''" "u_username u = []"
     "u_password u = []" "u_hash u = []" "pt_expiresAt t = Fin expiry" "dw_now w < expiry * 1000" "dw_fetch w u = Some r" "ar_ok r"
     "length_agrees (length (bl_bytes b)) (ar_length r)" "ar_body r = Some (map Inr chunks)" "bl_bytes b = concat chunks"
     "wanted_throughout (dw_active w) (length chunks)" "pt_sizeBytes t = Fin (of_nat (length (bl_bytes b)))" "1 \<le> length (bl_bytes b)"
     "length (bl_bytes b) \<le> 33554432" "hex64 (pt_sha256 t)" "hex_of (dw_digest w (bl_bytes b)) = pt_sha256 t"
     "bl_type b = blob_type (pt_contentType t)"
    unfolding verified_recording_def by blast
  have ticket: "validateTicket (dw_parse w) (dw_now w) t segmentId cameraId = Inr (u, length (bl_bytes b))"
    unfolding validate_iff using v by blast
  have body: "readBoundedBody (dw_active w) (length (bl_bytes b)) r = Inr (bl_bytes b)"
    unfolding bounded_body_iff [OF v(20)] using v(15,16,17) by (auto simp: wanted_throughout_def)
  have "checked_bytes w t (bl_bytes b) = Inr b"
    unfolding checked_iff using v(17,22,23) by (simp add: wanted_throughout_def)
  with ticket body v(1,12,13,14,17) show "downloadVerifiedArchivedRecording w segmentId cameraId = Inr b"
    unfolding download_steps wanted_throughout_def by blast
qed

end
