(* ===== verification/Diagnostics.thy ===== *)
theory Diagnostics
  imports JsValue
begin

text \<open>
  The diagnostics a page keeps in memory (\<open>diagnosticsRuntime.ts\<close>) and the report made of them for support
  (\<open>supportReport.ts\<close>).  Observers accept values of any shape, and keep what is read of them through
  \<open>count_of\<close>, \<open>timestamp\<close>, \<open>flag\<close>, \<open>choice\<close> and \<open>injectedVersion\<close>.  What is kept are JavaScript objects, here property
  lists; \<open>now\<close> is \<open>Date.now()\<close>.
\<close>

definition LIMIT_CONTROLS :: nat where "LIMIT_CONTROLS = 16"
definition LIMIT_MEDIA :: nat where "LIMIT_MEDIA = 24"
definition LIMIT_ISSUES :: nat where "LIMIT_ISSUES = 24"
definition LIMIT_EVENTS :: nat where "LIMIT_EVENTS = 64"
definition LIMIT_SAMPLE :: nat where "LIMIT_SAMPLE = 256"
definition LIMIT_BYTES :: nat where "LIMIT_BYTES = 48 * 1024"

abbreviation unavailable :: string where
  "unavailable \<equiv> ''unavailable''"

type_synonym props = "(string \<times> jsv) list"

section \<open>Reading values of unknown shape\<close>

definition count_upto :: "int \<Rightarrow> jsv \<Rightarrow> jsv" where
  "count_upto m v = (case v of JNum (Fin r) \<Rightarrow> JInt (min m (max 0 \<lfloor>r\<rfloor>)) | _ \<Rightarrow> JInt 0)"

definition count_of :: "jsv \<Rightarrow> jsv" where
  "count_of v = count_upto 1000000000 v"

definition bump :: "int \<Rightarrow> int" where
  "bump n = min 1000000000 (max 0 (n + 1))"

definition timestamp :: "jsv \<Rightarrow> jsv" where
  "timestamp v = (case safe_int v of None \<Rightarrow> JNull | Some n \<Rightarrow> if 0 < n \<and> n \<le> 8640000000000000 then v else JNull)"

fun flag :: "jsv \<Rightarrow> jsv" where
  "flag (JBool b) = JBool b"
| "flag _ = JNull"

definition choice :: "jsv \<Rightarrow> string list \<Rightarrow> jsv" where
  "choice v values = (case v of JStr s \<Rightarrow> if s \<in> set values then v else JStr unavailable | _ \<Rightarrow> JStr unavailable)"

fun split_dots :: "string \<Rightarrow> string list" where
  "split_dots [] = [[]]"
| "split_dots (c # cs) = (if c = CHR ''.'' then [] # split_dots cs
     else case split_dots cs of [] \<Rightarrow> [[c]] | w # ws \<Rightarrow> (c # w) # ws)"

definition digits :: "nat \<Rightarrow> string \<Rightarrow> bool" where
  "digits n s = in_class is_digit 1 n s"

definition version_tail :: "string list \<Rightarrow> bool" where
  "version_tail ws = (case ws of [] \<Rightarrow> False
     | w # gs \<Rightarrow> w \<in> {''dev'', ''alpha'', ''beta'', ''rc''}
         \<and> (let gs = (case gs of [] \<Rightarrow> [] | g # rest \<Rightarrow> if g = ''android'' then rest else g # rest)
            in length gs \<le> 3 \<and> list_all (digits 10) gs))"

text \<open>The pattern of \<open>injectedVersion\<close>: an optional \<open>v\<close>, three groups of digits, an optional tag.\<close>

definition numeric_version :: "string \<Rightarrow> bool" where
  "numeric_version s =
     (let s' = (case s of [] \<Rightarrow> [] | c # cs \<Rightarrow> if c = CHR ''v'' then cs else s);
          base = split_dots (takeWhile (\<lambda>c. c \<noteq> CHR ''-'') s'); tag = dropWhile (\<lambda>c. c \<noteq> CHR ''-'') s'
      in length s \<le> 64 \<and> length base = 3 \<and> list_all (digits 6) base
         \<and> (case tag of [] \<Rightarrow> True | _ # t \<Rightarrow> version_tail (split_dots t)))"

definition injectedVersion :: "jsv \<Rightarrow> jsv" where
  "injectedVersion v = (case v of JStr s \<Rightarrow> if numeric_version s then v else JStr unavailable | _ \<Rightarrow> JStr unavailable)"

section \<open>The words that may be kept\<close>

definition controlPhases :: "string list" where
  "controlPhases = [''connecting'', ''online'', ''retrying'', ''offline'', ''paused'']"

definition controlReasons :: "string list" where
  "controlReasons = ['''', ''network_offline'', ''connection_timeout'', ''snapshot_timeout'', ''transport_error'', ''transport_closed'',
     ''constructor_failed'', ''resume'', ''manual'']"

definition mediaReasons :: "string list" where
  "mediaReasons = ['''', ''first_frame_timeout'', ''ice_failed'', ''ice_disconnected'', ''ice_timeout'', ''frame_stall'', ''track_ended'',
     ''connect_failed'', ''authorization_rejected'']"

definition jobStates :: "string list" where
  "jobStates = [''queued'', ''running'', ''cancelling'', ''completed'', ''failed'', ''cancelled'', ''interrupted'']"

definition exportReasons :: "string list" where
  "exportReasons = [''export_range_incomplete'', ''export_disk_full'', ''export_interrupted'', ''export_timeout'',
     ''export_conversion_failed'', ''export_duration_mismatch'', ''export_source_changed'', ''export_range_too_large'',
     ''export_scope_rejected'', ''export_queue_full'', ''permission_rejected'']"

definition issueCodes :: "string list" where
  "issueCodes = [''MEDIA_DIRECT_FALLBACK'', ''MEDIA_FIRST_FRAME_TIMEOUT'', ''MEDIA_CODEC_INCOMPATIBLE'',
     ''MEDIA_GATEWAY_ACTIVATION_FAILED'', ''MEDIA_AUTHORIZATION_REJECTED'', ''LOW_POWER_TARGET_UNMET'', ''AUDIO_TRACK_MISSING'',
     ''AUDIO_RUNTIME_UNAVAILABLE'', ''ANALYTICS_RUNTIME_UNAVAILABLE'', ''LEGACY_SOURCE_IMPORT_REQUIRED'', ''NVR_DISK_PRESSURE'',
     ''NVR_RECORDING_FAILED'']"

definition issueComponents :: "string list" where
  "issueComponents = [''browser-media'', ''browser-analytics'', ''direct-audio'', ''low-power'', ''nvr'', ''camera'', ''go2rtc'', ''core'',
     ''mediamtx'', ''obs'']"

definition transportModes :: "string list" where
  "transportModes = [''auto'', ''rtsp-tcp'', ''rtsp-udp'', ''rtsp-udp-multicast'', ''http'', ''https'']"

definition adapterNames :: "string list" where
  "adapterNames = [''onvif'', ''rtsp'', ''mjpeg'', ''snapshot'', ''hls'', ''http-flv'', ''whep'', ''srt'', ''rtp'', ''v4l2'']"

definition severities :: "string list" where "severities = [''info'', ''warning'', ''error'']"
definition issueStates :: "string list" where "issueStates = [''open'', ''acknowledged'', ''resolved'']"
definition issueTopologies :: "string list" where "issueTopologies = [''direct'', ''gateway'', ''composite'']"
definition platforms :: "string list" where "platforms = [''win32'', ''linux'', ''darwin'']"
definition architectures :: "string list" where "architectures = [''x64'', ''arm64'', ''ia32'', ''arm'']"
definition runtimePhases :: "string list" where
  "runtimePhases = [''starting'', ''ready'', ''failed'', ''stopping'', ''stopped'']"
definition updatePhases :: "string list" where
  "updatePhases = [''idle'', ''disabled'', ''checking'', ''current'', ''available'', ''downloading'', ''downloaded'', ''preparing'', ''error'']"
definition mediaTopologies :: "string list" where "mediaTopologies = [''direct'', ''composite'', ''approved'']"
definition audioStates :: "string list" where "audioStates = [''disabled'', ''running'', ''suspended'', ''blocked'']"
definition recorderStates :: "string list" where
  "recorderStates = [''ok'', ''ready'', ''running'', ''degraded'', ''stopped'', ''error'']"
definition cameraStates :: "string list" where
  "cameraStates = [''recording'', ''idle'', ''disabled'', ''stopped'', ''starting'', ''error'', ''failed'', ''backoff'', ''degraded'']"
definition exportModes :: "string list" where "exportModes = [''fast'', ''exact'']"

definition safeControl :: "jsv \<Rightarrow> props" where
  "safeControl v = [(''localOrdinal'', count_of (field v ''id'')), (''phase'', choice (field v ''phase'') controlPhases),
     (''reason'', choice (field v ''reason'') controlReasons), (''attempts'', count_of (field v ''attempts'')),
     (''failures'', count_of (field v ''failures'')), (''rejectedMessages'', count_of (field v ''rejectedMessages'')),
     (''messages'', count_of (field v ''messages'')), (''connectedAt'', timestamp (field v ''connectedAt'')),
     (''lastSnapshotAt'', timestamp (field v ''lastSnapshotAt'')), (''nextRetryAt'', timestamp (field v ''nextRetryAt''))]"

definition number_or_null :: "jsv \<Rightarrow> jsv" where
  "number_or_null v = (case v of JNum n \<Rightarrow> count_of v | _ \<Rightarrow> JNull)"

definition safeIssue :: "jsv \<Rightarrow> jsv" where
  "safeIssue v = (let detail = field v ''technicalDetails'' in
     JObj [(''code'', choice (field v ''code'') issueCodes), (''component'', choice (field v ''component'') issueComponents),
      (''severity'', choice (field v ''severity'') severities), (''state'', choice (field v ''state'') issueStates),
      (''firstSeenAt'', timestamp (field v ''firstSeenAt'')), (''lastSeenAt'', timestamp (field v ''lastSeenAt'')),
      (''occurrences'', count_of (field v ''occurrences'')), (''transportMode'', choice (field detail ''transportMode'') transportModes),
      (''adapter'', choice (field detail ''adapter'') adapterNames), (''topology'', choice (field detail ''topology'') issueTopologies),
      (''reason'', choice (field detail ''reason'') mediaReasons), (''retryCount'', number_or_null (field detail ''retryCount'')),
      (''lastFrameAgeMs'', number_or_null (field detail ''lastFrameAgeMs''))])"

definition safeNative :: "int \<Rightarrow> jsv \<Rightarrow> props" where
  "safeNative now v = (let app = field v ''app''; runtime = field v ''runtime''; update = field v ''update'' in
     [(''observedAt'', JInt now), (''version'', injectedVersion (field app ''version'')), (''platform'', choice (field app ''platform'') platforms),
      (''architecture'', choice (field app ''architecture'') architectures), (''packaged'', flag (field app ''packaged'')),
      (''runtimePhase'', choice (field runtime ''phase'') runtimePhases), (''updatePhase'', choice (field update ''phase'') updatePhases),
      (''restartCount'', JStr unavailable), (''restartReason'', JStr unavailable)])"

section \<open>What is kept\<close>

record diagnostics =
  dg_startedAt :: int
  dg_sequence :: int
  dg_droppedEvents :: int
  dg_droppedMedia :: int
  dg_droppedControls :: int
  dg_events :: "jsv list"
  dg_controls :: "(jsv \<times> props) list"
  dg_media :: "(int \<times> props) list"
  dg_localIssues :: "props option"
  dg_serverIssues :: "props option"
  dg_native :: "props option"
  dg_nativeRevision :: int
  dg_audio :: "props option"
  dg_recorder :: "props option"
  dg_jobs :: "props option"
  dg_session :: "props option"

definition push_event :: "int \<Rightarrow> string \<Rightarrow> jsv \<Rightarrow> jsv \<Rightarrow> diagnostics \<Rightarrow> diagnostics" where
  "push_event now component state ordinal d =
     (let events = dg_events d @ [JObj [(''at'', JInt now), (''component'', JStr component), (''state'', state), (''localOrdinal'', ordinal)]]
      in if length events > LIMIT_EVENTS then d\<lparr>dg_events := tl events, dg_droppedEvents := bump (dg_droppedEvents d)\<rparr>
         else d\<lparr>dg_events := events\<rparr>)"

definition prop_of :: "props \<Rightarrow> string \<Rightarrow> jsv" where
  "prop_of p k = field (JObj p) k"

definition observeControl :: "int \<Rightarrow> jsv \<Rightarrow> bool \<Rightarrow> diagnostics \<Rightarrow> diagnostics" where
  "observeControl now v active d =
     (let s = safeControl v; key = prop_of s ''localOrdinal''; old = map_of (dg_controls d) key;
          d = (if (case old of None \<Rightarrow> True | Some p \<Rightarrow> prop_of p ''phase'' \<noteq> prop_of s ''phase'' \<or> prop_of p ''reason'' \<noteq> prop_of s ''reason''
                     \<or> prop_of p ''active'' \<noteq> JBool active)
               then push_event now ''control'' (if active then prop_of s ''phase'' else JStr ''closed'') key d else d);
          d = (if old = None \<and> length (dg_controls d) \<ge> LIMIT_CONTROLS
               then d\<lparr>dg_controls := tl (dg_controls d), dg_droppedControls := bump (dg_droppedControls d)\<rparr> else d)
      in d\<lparr>dg_controls := assign key (s @ [(''active'', JBool active), (''observedAt'', JInt now)]) (dg_controls d)\<rparr>)"

definition mediaStage :: "jsv \<Rightarrow> props" where
  "mediaStage v = [(''signaling'', flag (field v ''signaling'')), (''iceConnected'', flag (field v ''iceConnected'')),
     (''mediaReceived'', flag (field v ''mediaReceived'')), (''firstFrame'', flag (field v ''firstFrame'')),
     (''playing'', flag (field v ''playing'')), (''autoplayBlocked'', flag (field v ''autoplayBlocked'')),
     (''reconnects'', count_of (field v ''reconnects'')), (''frames'', count_of (field v ''frames'')),
     (''reason'', choice (field v ''lastError'') mediaReasons)]"

definition createMediaDiagnostic :: "int \<Rightarrow> string \<Rightarrow> diagnostics \<Rightarrow> int \<times> diagnostics" where
  "createMediaDiagnostic now topology d =
     (let n = dg_sequence d + 1; d = d\<lparr>dg_sequence := n\<rparr>;
          d = (if length (dg_media d) \<ge> LIMIT_MEDIA
               then d\<lparr>dg_media := tl (dg_media d), dg_droppedMedia := bump (dg_droppedMedia d)\<rparr> else d)
      in (n, d\<lparr>dg_media := assign n (mediaStage (JObj []) @ [(''localOrdinal'', JInt n), (''topology'', choice (JStr topology) mediaTopologies),
             (''transport'', JStr ''whep''), (''active'', JBool True), (''createdAt'', JInt now), (''observedAt'', JInt now),
             (''firstFrameAt'', JNull), (''lastFrameAt'', JNull), (''nextRetryAt'', JNull), (''attempts'', JInt 0)]) (dg_media d)\<rparr>))"

text \<open>The functions \<open>createMediaDiagnostic\<close> returns; an entry that was dropped is no longer changed.\<close>

definition with_media :: "int \<Rightarrow> (props \<Rightarrow> props) \<Rightarrow> diagnostics \<Rightarrow> diagnostics" where
  "with_media n f d = (case map_of (dg_media d) n of None \<Rightarrow> d | Some v \<Rightarrow> d\<lparr>dg_media := assign n (f v) (dg_media d)\<rparr>)"

definition add_one :: "jsv \<Rightarrow> jsv" where
  "add_one v = (case v of JNum (Fin r) \<Rightarrow> count_of (JNum (Fin (r + 1))) | _ \<Rightarrow> JInt 0)"

definition media_attempt :: "int \<Rightarrow> int \<Rightarrow> diagnostics \<Rightarrow> diagnostics" where
  "media_attempt now n d =
     (if map_of (dg_media d) n = None then d
      else push_event now ''media'' (JStr ''connecting'') (JInt n)
             (with_media n (\<lambda>v. spread v [(''attempts'', add_one (prop_of v ''attempts'')), (''nextRetryAt'', JNull), (''observedAt'', JInt now)]) d))"

definition stage_word :: "props \<Rightarrow> jsv" where
  "stage_word s = (if truthy (prop_of s ''autoplayBlocked'') then JStr ''autoplay_blocked''
     else if truthy (prop_of s ''playing'') then JStr ''playing''
     else if truthy (prop_of s ''reason'') then prop_of s ''reason'' else JStr ''waiting'')"

definition media_stage :: "int \<Rightarrow> int \<Rightarrow> jsv \<Rightarrow> diagnostics \<Rightarrow> diagnostics" where
  "media_stage now n value d =
     (case map_of (dg_media d) n of
        None \<Rightarrow> d
      | Some v \<Rightarrow>
          let s = mediaStage value;
              changed = list_ex (\<lambda>k. prop_of v k \<noteq> prop_of s k) [''playing'', ''reason'', ''reconnects'', ''autoplayBlocked''];
              d = (if changed then push_event now ''media'' (stage_word s) (JInt n) d else d)
          in with_media n (\<lambda>v. spread v (s @ [(''observedAt'', JInt now)])) d)"

definition media_frame :: "int \<Rightarrow> int \<Rightarrow> diagnostics \<Rightarrow> diagnostics" where
  "media_frame now n d = with_media n (\<lambda>v. spread v [(''firstFrameAt'', or_else (prop_of v ''firstFrameAt'') (JInt now)),
     (''lastFrameAt'', JInt now), (''observedAt'', JInt now), (''frames'', add_one (prop_of v ''frames''))]) d"

definition media_retry :: "int \<Rightarrow> int \<Rightarrow> jsv \<Rightarrow> diagnostics \<Rightarrow> diagnostics" where
  "media_retry now n delay d = with_media n (\<lambda>v. spread v [(''nextRetryAt'',
     JInt (now + (case as_int (count_upto 120000 delay) of None \<Rightarrow> 0 | Some k \<Rightarrow> k)))]) d"

definition media_close :: "int \<Rightarrow> int \<Rightarrow> diagnostics \<Rightarrow> diagnostics" where
  "media_close now n d =
     (if map_of (dg_media d) n = None then d
      else push_event now ''media'' (JStr ''closed'') (JInt n)
             (with_media n (\<lambda>v. spread v [(''active'', JBool False), (''playing'', JBool False), (''nextRetryAt'', JNull), (''observedAt'', JInt now)]) d))"

definition issues_of :: "int \<Rightarrow> jsv \<Rightarrow> props" where
  "issues_of now v = (let values = items v in
     [(''observedAt'', JInt now), (''total'', count_of (JInt (int (length values)))),
      (''omitted'', count_of (JInt (int (length values) - int LIMIT_ISSUES))),
      (''items'', JArr (map safeIssue (take LIMIT_ISSUES values)))])"

definition observeIssues :: "int \<Rightarrow> jsv \<Rightarrow> bool \<Rightarrow> diagnostics \<Rightarrow> diagnostics" where
  "observeIssues now v local d = (if local then d\<lparr>dg_localIssues := Some (issues_of now v)\<rparr> else d\<lparr>dg_serverIssues := Some (issues_of now v)\<rparr>)"

definition observeNative :: "int \<Rightarrow> jsv \<Rightarrow> diagnostics \<Rightarrow> diagnostics" where
  "observeNative now v d =
     (let d = d\<lparr>dg_nativeRevision := dg_nativeRevision d + 1\<rparr>; s = safeNative now v;
          d = (if (case dg_native d of None \<Rightarrow> True | Some p \<Rightarrow> prop_of p ''runtimePhase'' \<noteq> prop_of s ''runtimePhase'')
               then push_event now ''native-runtime'' (prop_of s ''runtimePhase'') JNull d else d)
      in d\<lparr>dg_native := Some s\<rparr>)"

definition total_tracks :: "jsv list \<Rightarrow> int" where
  "total_tracks sample = sum_list (map (\<lambda>s. case as_int (count_upto 256 (field s ''audioTracks'')) of None \<Rightarrow> 0 | Some k \<Rightarrow> k) sample)"

definition observeAudio :: "int \<Rightarrow> jsv \<Rightarrow> diagnostics \<Rightarrow> diagnostics" where
  "observeAudio now v d =
     (let sources = items (field v ''sources''); sample = take LIMIT_SAMPLE sources; state = choice (field v ''state'') audioStates;
          d = (if (case dg_audio d of None \<Rightarrow> True | Some p \<Rightarrow> prop_of p ''state'' \<noteq> state) then push_event now ''audio'' state JNull d else d)
      in d\<lparr>dg_audio := Some [(''observedAt'', JInt now), (''state'', state), (''inputCount'', count_of (field v ''inputCount'')),
             (''sourcesSampled'', JInt (int (length sample))), (''sourcesOmitted'', count_of (JInt (int (length sources) - int (length sample)))),
             (''streamsBound'', JInt (int (length (filter (\<lambda>s. field s ''streamBound'' = JBool True) sample)))),
             (''audioTracks'', count_of (JInt (total_tracks sample)))]\<rparr>)"

definition counted :: "jsv list \<Rightarrow> string list \<Rightarrow> string \<Rightarrow> string \<Rightarrow> jsv" where
  "counted sample states key w = JInt (int (length (filter (\<lambda>v. choice (field v key) states = JStr w) sample)))"

definition summarize :: "jsv list \<Rightarrow> string list \<Rightarrow> string \<Rightarrow> props" where
  "summarize values states key =
     (let sample = take LIMIT_SAMPLE values in
      [(''total'', count_of (JInt (int (length values)))), (''sampled'', JInt (int (length sample))),
       (''omitted'', count_of (JInt (int (length values) - int (length sample)))),
       (''counts'', JObj (map (\<lambda>w. (w, counted sample states key w)) (states @ [unavailable])))])"

definition observeRecorder :: "int \<Rightarrow> jsv \<Rightarrow> diagnostics \<Rightarrow> diagnostics" where
  "observeRecorder now v d = d\<lparr>dg_recorder := Some [(''observedAt'', JInt now), (''status'', choice (field v ''status'') recorderStates),
     (''diskPressure'', flag (field v ''diskPressure'')),
     (''cameras'', JObj (summarize (items (field v ''cameras'')) cameraStates ''state''))]\<rparr>"

definition recent_job :: "jsv \<Rightarrow> jsv" where
  "recent_job v = JObj [(''state'', choice (field v ''state'') jobStates), (''createdAt'', timestamp (field v ''createdUtcMs'')),
     (''updatedAt'', timestamp (field v ''updatedUtcMs'')), (''mode'', choice (field (field v ''request'') ''mode'') exportModes),
     (''reason'', choice (field (field v ''error'') ''code'') exportReasons)]"

definition observeExportJobs :: "int \<Rightarrow> jsv \<Rightarrow> diagnostics \<Rightarrow> diagnostics" where
  "observeExportJobs now v d = d\<lparr>dg_jobs := Some ((''observedAt'', JInt now) # summarize (items v) jobStates ''state''
     @ [(''recent'', JArr (map recent_job (take 12 (take LIMIT_SAMPLE (items v)))))])\<rparr>"

definition observeSession :: "int \<Rightarrow> jsv \<Rightarrow> diagnostics \<Rightarrow> diagnostics" where
  "observeSession now v d = d\<lparr>dg_session := Some [(''observedAt'', JInt now), (''authenticated'', flag (field v ''authenticated'')),
     (''authenticationEnabled'', flag (field v ''authenticationEnabled'')),
     (''offline'', JBool (timestamp (field v ''offlineExpiresAt'') \<noteq> JNull)), (''unavailable'', JBool (field v ''unavailable'' = JBool True))]\<rparr>"

definition freshness :: "int \<Rightarrow> props option \<Rightarrow> jsv" where
  "freshness now p = (case p of
     None \<Rightarrow> JObj [(''availability'', JStr unavailable)]
   | Some v \<Rightarrow> JObj ((''availability'', JStr (case as_int (prop_of v ''observedAt'') of
        Some t \<Rightarrow> if now - t > 30000 then ''stale'' else ''observed'' | None \<Rightarrow> ''observed'')) # v))"

record surroundings =
  su_onLine :: bool
  su_foreground :: bool
  su_android :: jsv

definition diagnosticSnapshot :: "int \<Rightarrow> surroundings \<Rightarrow> diagnostics \<Rightarrow> jsv" where
  "diagnosticSnapshot now su d = JObj [(''startedAt'', JInt (dg_startedAt d)), (''capturedAt'', JInt now), (''networkOnline'', JBool (su_onLine su)),
     (''foreground'', JBool (su_foreground su)), (''androidForeground'', flag (su_android su)),
     (''controls'', JArr (map (JObj \<circ> snd) (dg_controls d))), (''media'', JArr (map (JObj \<circ> snd) (dg_media d))),
     (''events'', JArr (dg_events d)), (''session'', freshness now (dg_session d)), (''native'', freshness now (dg_native d)),
     (''audio'', freshness now (dg_audio d)), (''recorder'', freshness now (dg_recorder d)), (''exportJobs'', freshness now (dg_jobs d)),
     (''issues'', JObj [(''local'', freshness now (dg_localIssues d)), (''server'', freshness now (dg_serverIssues d))]),
     (''dropped'', JObj [(''events'', JInt (dg_droppedEvents d)), (''media'', JInt (dg_droppedMedia d)), (''controls'', JInt (dg_droppedControls d))])]"

definition resetDiagnostics :: "int \<Rightarrow> diagnostics \<Rightarrow> diagnostics" where
  "resetDiagnostics now d = d\<lparr>dg_startedAt := now, dg_controls := [], dg_media := [], dg_events := [], dg_droppedEvents := 0,
     dg_droppedMedia := 0, dg_droppedControls := 0, dg_nativeRevision := dg_nativeRevision d + 1, dg_localIssues := None,
     dg_serverIssues := None, dg_native := None, dg_audio := None, dg_recorder := None, dg_jobs := None, dg_session := None\<rparr>"

definition lifecycle_event :: "int \<Rightarrow> bool \<Rightarrow> diagnostics \<Rightarrow> diagnostics" where
  "lifecycle_event now visible d = push_event now ''lifecycle'' (JStr (if visible then ''foreground'' else ''background'')) JNull d"

definition network_event :: "int \<Rightarrow> bool \<Rightarrow> diagnostics \<Rightarrow> diagnostics" where
  "network_event now online d = push_event now ''network'' (JStr (if online then ''online'' else ''offline'')) JNull d"

definition new_diagnostics :: "int \<Rightarrow> bool \<Rightarrow> diagnostics" where
  "new_diagnostics now visible = lifecycle_event now visible
     \<lparr>dg_startedAt = now, dg_sequence = 0, dg_droppedEvents = 0, dg_droppedMedia = 0, dg_droppedControls = 0, dg_events = [],
      dg_controls = [], dg_media = [], dg_localIssues = None, dg_serverIssues = None, dg_native = None, dg_nativeRevision = 0,
      dg_audio = None, dg_recorder = None, dg_jobs = None, dg_session = None\<rparr>"

section \<open>The report\<close>

datatype native_read = NativeObserved | NativeUnavailable | NativeTimeout

definition native_word :: "native_read \<Rightarrow> string" where
  "native_word r = (case r of NativeObserved \<Rightarrow> ''observed'' | NativeUnavailable \<Rightarrow> unavailable | NativeTimeout \<Rightarrow> ''timeout'')"

text \<open>\<open>readNative\<close> after its race: what the bridge answered is kept only when no other observation and no reset
  came in between.\<close>

definition readNative :: "int \<Rightarrow> int \<Rightarrow> native_read \<Rightarrow> jsv \<Rightarrow> diagnostics \<Rightarrow> diagnostics" where
  "readNative now revision r value d =
     (if r = NativeObserved \<and> revision = dg_nativeRevision d then observeNative now value d else d)"

definition report_identity :: "jsv \<Rightarrow> bool \<Rightarrow> surroundings \<Rightarrow> jsv \<Rightarrow> jsv" where
  "report_identity build bridge su snapshot = JObj [(''webUI'', injectedVersion build),
     (''desktopApp'', if bridge then or_else (field (field snapshot ''native'') ''version'') (JStr unavailable) else JStr unavailable),
     (''client'', JStr (if bridge then ''desktop-bridge'' else if flag (su_android su) \<noteq> JNull then ''android-lifecycle-bridge'' else ''browser'')),
     (''sourceRevision'', JStr unavailable), (''backend'', JStr unavailable), (''apk'', JStr unavailable), (''webView'', JStr unavailable),
     (''electron'', JStr unavailable)]"

definition report_coverage :: jsv where
  "report_coverage = JObj [(''media'', JStr ''whep-connections-only''), (''audio'', JStr ''direct-mixer-only''),
     (''recorder'', JStr ''last-archive-view-query''), (''exportJobs'', JStr ''last-jobs-view-query''), (''services'', JStr unavailable),
     (''frameClock'', JStr ''page-observed-not-source-capture''), (''lifecycle'', JStr ''since-page-load-or-session-reset'')]"

definition report_limits :: jsv where
  "report_limits = JObj [(''controls'', JInt (int LIMIT_CONTROLS)), (''media'', JInt (int LIMIT_MEDIA)), (''issues'', JInt (int LIMIT_ISSUES)),
     (''events'', JInt (int LIMIT_EVENTS)), (''sample'', JInt (int LIMIT_SAMPLE)), (''bytes'', JInt (int LIMIT_BYTES))]"

definition support_report :: "int \<Rightarrow> surroundings \<Rightarrow> jsv \<Rightarrow> bool \<Rightarrow> native_read \<Rightarrow> diagnostics \<Rightarrow> jsv" where
  "support_report now su build bridge r d =
     (let snapshot = diagnosticSnapshot now su d in
      JObj (spread [(''format'', JStr ''webobs-support-report-v1''), (''scope'', JStr ''current-page-observations''),
        (''clock'', JStr ''unix-utc-milliseconds''), (''identity'', report_identity build bridge su snapshot),
        (''nativeRead'', JStr (native_word r)), (''coverage'', report_coverage), (''limits'', report_limits)] (entries snapshot)))"

text \<open>\<open>text\<close> is \<open>JSON.stringify\<close>, \<open>bytes\<close> the length in UTF-8; a report that is too long is not given out.\<close>

definition captureSupportReport :: "(jsv \<Rightarrow> string) \<Rightarrow> (string \<Rightarrow> nat) \<Rightarrow> int \<Rightarrow> surroundings \<Rightarrow> jsv \<Rightarrow> bool \<Rightarrow> native_read
    \<Rightarrow> int \<Rightarrow> jsv \<Rightarrow> diagnostics \<Rightarrow> string option \<times> diagnostics" where
  "captureSupportReport txt bytes now su build bridge r revision value d =
     (let d = readNative now revision r value d; t = txt (support_report now su build bridge r d)
      in (if bytes t > LIMIT_BYTES then None else Some t, d))"

end
