(* ===== verification/DiagnosticsSafety.thy ===== *)
theory DiagnosticsSafety
  imports Diagnostics
begin

text \<open>
  What the diagnostics guarantee: whatever the observers are given, the report holds only words of a
  fixed vocabulary and version numbers, and only so many entries.
\<close>

section \<open>The strings of a value\<close>

primrec strings_of :: "jsv \<Rightarrow> string list" where
  "strings_of JUndef = []"
| "strings_of JNull = []"
| "strings_of (JBool b) = []"
| "strings_of (JNum n) = []"
| "strings_of (JStr s) = [s]"
| "strings_of (JArr xs) = concat (map strings_of xs)"
| "strings_of (JObj es) = concat (map snd (map (map_prod id strings_of) es))"

definition extra_words :: "string list" where
  "extra_words = [unavailable, ''closed'', ''autoplay_blocked'', ''playing'', ''waiting'', ''whep'', ''stale'', ''observed'', ''timeout'',
     ''foreground'', ''background'', ''control'', ''media'', ''native-runtime'', ''audio'', ''lifecycle'', ''network'',
     ''webobs-support-report-v1'', ''current-page-observations'', ''unix-utc-milliseconds'', ''desktop-bridge'',
     ''android-lifecycle-bridge'', ''browser'', ''whep-connections-only'', ''direct-mixer-only'', ''last-archive-view-query'',
     ''last-jobs-view-query'', ''page-observed-not-source-capture'', ''since-page-load-or-session-reset'']"

definition word_lists :: "string list list" where
  "word_lists = [extra_words, controlPhases, controlReasons, mediaReasons, jobStates, exportReasons, issueCodes, issueComponents,
     transportModes, adapterNames, severities, issueStates, issueTopologies, platforms, architectures, runtimePhases, updatePhases,
     mediaTopologies, audioStates, recorderStates, cameraStates, exportModes]"

definition vocabulary :: "string set" where
  "vocabulary = set (concat word_lists) \<union> Collect numeric_version"

definition clean :: "jsv \<Rightarrow> bool" where
  "clean v = (set (strings_of v) \<subseteq> vocabulary)"

definition clean_props :: "props \<Rightarrow> bool" where
  "clean_props p = list_all (\<lambda>e. clean (snd e)) p"

lemma clean_simps [simp]:
  "clean JUndef" "clean JNull" "clean (JBool b)" "clean (JNum n)" "clean (JArr xs) = list_all clean xs" "clean (JObj es) = clean_props es"
  by (auto simp: clean_def clean_props_def list_all_iff)

lemma clean_JStr: "clean (JStr s) = (s \<in> vocabulary)"
  by (simp add: clean_def)

lemma clean_props_simps [simp]:
  "clean_props []" "clean_props ((k, v) # p) = (clean v \<and> clean_props p)" "clean_props (p @ q) = (clean_props p \<and> clean_props q)"
  by (auto simp: clean_props_def)

lemma listed: "ws \<in> set word_lists \<Longrightarrow> set ws \<subseteq> vocabulary"
  by (auto simp: vocabulary_def)

lemma extra: "s \<in> set extra_words \<Longrightarrow> clean (JStr s)"
  using listed [of extra_words] by (auto simp: clean_JStr word_lists_def)

lemma clean_words [simp]:
  "clean (JStr unavailable)" "clean (JStr ''closed'')" "clean (JStr ''autoplay_blocked'')" "clean (JStr ''playing'')" "clean (JStr ''waiting'')"
  "clean (JStr ''whep'')" "clean (JStr ''stale'')" "clean (JStr ''observed'')" "clean (JStr ''foreground'')" "clean (JStr ''background'')"
  "clean (JStr ''control'')" "clean (JStr ''media'')" "clean (JStr ''native-runtime'')" "clean (JStr ''audio'')" "clean (JStr ''lifecycle'')"
  "clean (JStr ''network'')" "clean (JStr ''timeout'')"
  by (rule extra; simp add: extra_words_def)+

lemma clean_report_words [simp]:
  "clean (JStr ''webobs-support-report-v1'')" "clean (JStr ''current-page-observations'')" "clean (JStr ''unix-utc-milliseconds'')"
  "clean (JStr ''desktop-bridge'')" "clean (JStr ''android-lifecycle-bridge'')" "clean (JStr ''browser'')" "clean (JStr ''whep-connections-only'')"
  "clean (JStr ''direct-mixer-only'')" "clean (JStr ''last-archive-view-query'')" "clean (JStr ''last-jobs-view-query'')"
  "clean (JStr ''page-observed-not-source-capture'')" "clean (JStr ''since-page-load-or-session-reset'')"
  by (rule extra; simp add: extra_words_def)+

lemma clean_phase_words [simp]: "clean (JStr ''connecting'')" "clean (JStr ''online'')" "clean (JStr ''offline'')"
  using listed [of controlPhases] by (auto simp: clean_JStr word_lists_def controlPhases_def)

lemma unavailable_known: "unavailable \<in> vocabulary"
  using clean_words(1) unfolding clean_JStr .

lemma version_known: "numeric_version s \<Longrightarrow> s \<in> vocabulary"
  by (simp add: vocabulary_def)

lemma clean_choice: "ws \<in> set word_lists \<Longrightarrow> clean (choice v ws)"
  using listed [of ws] unavailable_known by (cases v) (auto simp: choice_def clean_JStr)

lemma clean_choices [simp]:
  "clean (choice v controlPhases)" "clean (choice v controlReasons)" "clean (choice v mediaReasons)" "clean (choice v jobStates)"
  "clean (choice v exportReasons)" "clean (choice v issueCodes)" "clean (choice v issueComponents)" "clean (choice v transportModes)"
  "clean (choice v adapterNames)" "clean (choice v severities)" "clean (choice v issueStates)" "clean (choice v issueTopologies)"
  "clean (choice v platforms)" "clean (choice v architectures)" "clean (choice v runtimePhases)" "clean (choice v updatePhases)"
  "clean (choice v mediaTopologies)" "clean (choice v audioStates)" "clean (choice v recorderStates)" "clean (choice v cameraStates)"
  "clean (choice v exportModes)"
  by (rule clean_choice; simp add: word_lists_def)+

lemma clean_readers [simp]:
  "clean (count_of v)" "clean (count_upto m v)" "clean (timestamp v)" "clean (flag v)" "clean (injectedVersion v)" "clean (number_or_null v)"
  "clean (add_one v)"
proof -
  show "clean (injectedVersion v)"
    using unavailable_known version_known by (cases v) (auto simp: injectedVersion_def clean_JStr)
qed (cases v rule: flag.cases; auto simp: count_of_def count_upto_def timestamp_def safe_int_def number_or_null_def add_one_def
  split: jsnum.split option.split)+

lemma clean_assign: "clean_props m \<Longrightarrow> clean v \<Longrightarrow> clean_props (assign k v m)"
  by (induction k v m rule: assign.induct) auto

lemma clean_spread: "clean_props a \<Longrightarrow> clean_props b \<Longrightarrow> clean_props (spread a b)"
proof (induction b arbitrary: a)
  case (Cons e b)
  then show ?case by (cases e) (simp add: spread_def clean_assign)
qed (simp add: spread_def)

lemma clean_map_of: "clean_props p \<Longrightarrow> map_of p k = Some v \<Longrightarrow> clean v"
  by (induction p) (auto split: if_splits)

lemma clean_field: "clean_props p \<Longrightarrow> clean (field (JObj p) k)"
  by (auto simp: clean_map_of split: option.split)

lemma clean_prop_of [simp]: "clean_props p \<Longrightarrow> clean (prop_of p k)"
  unfolding prop_of_def by (rule clean_field)

lemma clean_shapes [simp]:
  "clean_props (safeControl v)" "clean (safeIssue v)" "clean_props (safeNative now v)" "clean_props (mediaStage v)" "clean (recent_job v)"
  by (simp_all add: safeControl_def safeIssue_def safeNative_def mediaStage_def recent_job_def Let_def)

lemma clean_summary [simp]: "clean_props (summarize values states key)"
proof -
  have "clean_props (map (\<lambda>w. (w, counted sample states key w)) ws)" for sample ws
    by (induction ws) (simp_all add: counted_def)
  moreover have "clean (counted sample states key w)" for sample w by (simp add: counted_def)
  ultimately show ?thesis by (simp add: summarize_def Let_def)
qed

lemma clean_issues [simp]: "clean_props (issues_of now v)"
  by (simp add: issues_of_def Let_def list_all_iff)

lemma clean_stage_word [simp]: "clean_props s \<Longrightarrow> clean (stage_word s)"
  by (simp add: stage_word_def)

section \<open>The invariant\<close>

definition clean_map :: "('k \<times> props) list \<Rightarrow> bool" where
  "clean_map m = list_all (\<lambda>e. clean_props (snd e)) m"

lemma clean_map_assign: "clean_map m \<Longrightarrow> clean_props p \<Longrightarrow> clean_map (assign k p m)"
  by (induction k p m rule: assign.induct) (auto simp: clean_map_def)

lemma clean_map_lookup: "clean_map m \<Longrightarrow> map_of m k = Some p \<Longrightarrow> clean_props p"
  by (induction m) (auto simp: clean_map_def split: if_splits)

lemma clean_map_tl: "clean_map m \<Longrightarrow> clean_map (tl m)"
  by (cases m) (auto simp: clean_map_def)

lemma length_assigned: "length (assign k p m) = (if map_of m k = None then length m + 1 else length m)"
  by (simp add: length_assign map_of_eq_None_iff)

definition kept_ok :: "diagnostics \<Rightarrow> bool" where
  "kept_ok d = (list_all clean (dg_events d) \<and> length (dg_events d) \<le> LIMIT_EVENTS \<and> clean_map (dg_controls d)
     \<and> length (dg_controls d) \<le> LIMIT_CONTROLS \<and> clean_map (dg_media d) \<and> length (dg_media d) \<le> LIMIT_MEDIA
     \<and> list_all (pred_option clean_props) [dg_localIssues d, dg_serverIssues d, dg_native d, dg_audio d, dg_recorder d, dg_jobs d, dg_session d])"

lemma ok_event: "kept_ok d \<Longrightarrow> clean (JStr c) \<Longrightarrow> clean s \<Longrightarrow> clean i \<Longrightarrow> kept_ok (push_event now c s i d)"
proof -
  assume d: "kept_ok d" and c: "clean (JStr c)" "clean s" "clean i"
  let ?es = "dg_events d @ [JObj [(''at'', JInt now), (''component'', JStr c), (''state'', s), (''localOrdinal'', i)]]"
  have "list_all clean ?es" using d c by (simp add: kept_ok_def)
  moreover from this have "list_all clean (tl ?es)" by (cases ?es) simp_all
  ultimately show ?thesis using d by (auto simp: kept_ok_def push_event_def Let_def)
qed

lemma event_frame [simp]:
  "dg_controls (push_event now c s i d) = dg_controls d" "dg_media (push_event now c s i d) = dg_media d"
  "dg_native (push_event now c s i d) = dg_native d" "dg_audio (push_event now c s i d) = dg_audio d"
  by (simp_all add: push_event_def Let_def)

lemma ok_with_media:
  assumes "kept_ok d" and "\<And>v. clean_props v \<Longrightarrow> clean_props (f v)"
  shows "kept_ok (with_media n f d)"
proof (cases "map_of (dg_media d) n")
  case None
  with assms show ?thesis by (simp add: with_media_def)
next
  case (Some v)
  from assms(1) Some have "clean_props v" by (auto simp: kept_ok_def dest: clean_map_lookup)
  then show ?thesis using assms Some by (simp add: with_media_def kept_ok_def clean_map_assign length_assigned)
qed

lemma ok_control: "kept_ok d \<Longrightarrow> kept_ok (observeControl now v active d)"
proof -
  assume d: "kept_ok d"
  define s where "s = safeControl v"
  define key where "key = prop_of s ''localOrdinal''"
  define old where "old = map_of (dg_controls d) key"
  define e where "e = (if (case old of None \<Rightarrow> True | Some p \<Rightarrow> prop_of p ''phase'' \<noteq> prop_of s ''phase'' \<or> prop_of p ''reason'' \<noteq> prop_of s ''reason''
                     \<or> prop_of p ''active'' \<noteq> JBool active)
               then push_event now ''control'' (if active then prop_of s ''phase'' else JStr ''closed'') key d else d)"
  define f where "f = (if old = None \<and> length (dg_controls e) \<ge> LIMIT_CONTROLS
               then e\<lparr>dg_controls := tl (dg_controls e), dg_droppedControls := bump (dg_droppedControls e)\<rparr> else e)"
  have s: "clean_props s" "clean key" by (simp_all add: s_def key_def)
  have e: "kept_ok e" "dg_controls e = dg_controls d" using d s by (auto simp: e_def intro: ok_event)
  have f: "kept_ok f" using e clean_map_tl [of "dg_controls e"] by (auto simp: f_def kept_ok_def)
  have "length (assign key p (dg_controls f)) \<le> LIMIT_CONTROLS" for p
    using f e by (auto simp: length_assigned f_def kept_ok_def old_def LIMIT_CONTROLS_def)
  then have "kept_ok (f\<lparr>dg_controls := assign key (s @ [(''active'', JBool active), (''observedAt'', JInt now)]) (dg_controls f)\<rparr>)"
    using f s by (simp add: kept_ok_def clean_map_assign)
  then show ?thesis
    unfolding observeControl_def Let_def s_def [symmetric] key_def [symmetric] old_def [symmetric] e_def [symmetric] f_def [symmetric] .
qed

lemma ok_create: "kept_ok d \<Longrightarrow> kept_ok (snd (createMediaDiagnostic now topology d))"
proof -
  assume d: "kept_ok d"
  define e where "e = d\<lparr>dg_sequence := dg_sequence d + 1\<rparr>"
  define f where "f = (if length (dg_media e) \<ge> LIMIT_MEDIA
               then e\<lparr>dg_media := tl (dg_media e), dg_droppedMedia := bump (dg_droppedMedia e)\<rparr> else e)"
  have e: "kept_ok e" using d by (simp add: e_def kept_ok_def)
  have f: "kept_ok f" "length (dg_media f) < LIMIT_MEDIA"
    using e clean_map_tl [of "dg_media e"] by (auto simp: f_def kept_ok_def LIMIT_MEDIA_def)
  then have "kept_ok (f\<lparr>dg_media := assign n p (dg_media f)\<rparr>)" if "clean_props p" for n p
    using that by (simp add: kept_ok_def clean_map_assign length_assigned)
  then show ?thesis
    unfolding createMediaDiagnostic_def Let_def e_def [symmetric] f_def [symmetric] by simp
qed

lemma ok_native: "kept_ok d \<Longrightarrow> kept_ok (observeNative now v d)"
proof -
  assume d: "kept_ok d"
  define e where "e = d\<lparr>dg_nativeRevision := dg_nativeRevision d + 1\<rparr>"
  have e: "kept_ok e" using d by (simp add: e_def kept_ok_def)
  then have "kept_ok (push_event now ''native-runtime'' (prop_of (safeNative now v) ''runtimePhase'') JNull e)" by (simp add: ok_event)
  with e show ?thesis
    unfolding observeNative_def Let_def e_def [symmetric] by (simp add: kept_ok_def)
qed

lemma ok_audio: "kept_ok d \<Longrightarrow> kept_ok (observeAudio now v d)"
proof -
  assume d: "kept_ok d"
  then have "kept_ok (push_event now ''audio'' (choice (field v ''state'') audioStates) JNull d)" by (simp add: ok_event)
  with d show ?thesis unfolding observeAudio_def Let_def by (simp add: kept_ok_def)
qed

datatype diagnostic_op =
    ObserveControl int jsv bool
  | CreateMedia int string
  | MediaAttempt int int
  | MediaStage int int jsv
  | MediaFrame int int
  | MediaRetry int int jsv
  | MediaClose int int
  | ObserveIssues int jsv bool
  | ObserveNative int jsv
  | ObserveAudio int jsv
  | ObserveRecorder int jsv
  | ObserveExportJobs int jsv
  | ObserveSession int jsv
  | ResetDiagnostics int
  | LifecycleEvent int bool
  | NetworkEvent int bool

fun diagnostic_step :: "diagnostics \<Rightarrow> diagnostic_op \<Rightarrow> diagnostics" where
  "diagnostic_step d (ObserveControl now v a) = observeControl now v a d"
| "diagnostic_step d (CreateMedia now t) = snd (createMediaDiagnostic now t d)"
| "diagnostic_step d (MediaAttempt now n) = media_attempt now n d"
| "diagnostic_step d (MediaStage now n v) = media_stage now n v d"
| "diagnostic_step d (MediaFrame now n) = media_frame now n d"
| "diagnostic_step d (MediaRetry now n v) = media_retry now n v d"
| "diagnostic_step d (MediaClose now n) = media_close now n d"
| "diagnostic_step d (ObserveIssues now v l) = observeIssues now v l d"
| "diagnostic_step d (ObserveNative now v) = observeNative now v d"
| "diagnostic_step d (ObserveAudio now v) = observeAudio now v d"
| "diagnostic_step d (ObserveRecorder now v) = observeRecorder now v d"
| "diagnostic_step d (ObserveExportJobs now v) = observeExportJobs now v d"
| "diagnostic_step d (ObserveSession now v) = observeSession now v d"
| "diagnostic_step d (ResetDiagnostics now) = resetDiagnostics now d"
| "diagnostic_step d (LifecycleEvent now b) = lifecycle_event now b d"
| "diagnostic_step d (NetworkEvent now b) = network_event now b d"

lemma kept_step: "kept_ok d \<Longrightarrow> kept_ok (diagnostic_step d e)"
proof (cases e)
  case (MediaAttempt now n)
  assume "kept_ok d"
  then have "kept_ok (with_media n (\<lambda>v. spread v [(''attempts'', add_one (prop_of v ''attempts'')), (''nextRetryAt'', JNull), (''observedAt'', JInt now)]) d)"
    by (rule ok_with_media) (rule clean_spread; simp)
  with MediaAttempt \<open>kept_ok d\<close> show ?thesis by (simp add: media_attempt_def ok_event)
next
  case (MediaStage now n v)
  assume "kept_ok d"
  then have "kept_ok (push_event now ''media'' (stage_word (mediaStage v)) (JInt n) d)" by (simp add: ok_event)
  then have "kept_ok (with_media n (\<lambda>w. spread w (mediaStage v @ [(''observedAt'', JInt now)])) e')"
    if "e' = d \<or> e' = push_event now ''media'' (stage_word (mediaStage v)) (JInt n) d" for e'
    using that \<open>kept_ok d\<close> by (intro ok_with_media clean_spread) auto
  with MediaStage \<open>kept_ok d\<close> show ?thesis by (simp add: media_stage_def Let_def split: option.split)
next
  case (MediaFrame now n)
  assume "kept_ok d"
  with MediaFrame show ?thesis
    by (simp add: media_frame_def) (rule ok_with_media, assumption, rule clean_spread, simp_all add: or_else_def)
next
  case (MediaRetry now n v)
  assume "kept_ok d"
  with MediaRetry show ?thesis
    by (simp add: media_retry_def) (rule ok_with_media, assumption, rule clean_spread, simp_all)
next
  case (MediaClose now n)
  assume "kept_ok d"
  then have "kept_ok (with_media n (\<lambda>v. spread v [(''active'', JBool False), (''playing'', JBool False), (''nextRetryAt'', JNull), (''observedAt'', JInt now)]) d)"
    by (rule ok_with_media) (rule clean_spread; simp)
  with MediaClose \<open>kept_ok d\<close> show ?thesis by (simp add: media_close_def ok_event)
next
  case (ObserveIssues now v l)
  assume "kept_ok d"
  with ObserveIssues show ?thesis by (simp add: observeIssues_def kept_ok_def)
next
  case (ObserveRecorder now v)
  assume "kept_ok d"
  with ObserveRecorder show ?thesis by (simp add: observeRecorder_def kept_ok_def)
next
  case (ObserveExportJobs now v)
  assume "kept_ok d"
  with ObserveExportJobs show ?thesis by (simp add: observeExportJobs_def kept_ok_def list_all_iff)
next
  case (ObserveSession now v)
  assume "kept_ok d"
  with ObserveSession show ?thesis by (simp add: observeSession_def kept_ok_def)
next
  case (ResetDiagnostics now)
  then show ?thesis by (simp add: resetDiagnostics_def kept_ok_def clean_map_def)
qed (simp_all add: ok_control ok_create ok_native ok_audio lifecycle_event_def network_event_def ok_event)

lemma kept_start: "kept_ok (new_diagnostics now visible)"
  unfolding new_diagnostics_def lifecycle_event_def by (rule ok_event) (simp_all add: kept_ok_def clean_map_def)

interpretation observing: machine "new_diagnostics now visible" diagnostic_step kept_ok for now visible
  by unfold_locales (rule kept_start, erule kept_step)

section \<open>What it guarantees\<close>

lemma clean_fresh: "pred_option clean_props p \<Longrightarrow> clean (freshness now p)"
  by (cases p) (simp_all add: freshness_def split: option.split)

lemma clean_diagnostics: "kept_ok d \<Longrightarrow> clean (diagnosticSnapshot now su d)"
  by (simp add: diagnosticSnapshot_def kept_ok_def clean_map_def list_all_iff clean_fresh)

lemma clean_report:
  assumes "kept_ok d"
  shows "clean (support_report now su build bridge r d)"
proof -
  define snapshot where "snapshot = diagnosticSnapshot now su d"
  have s: "clean snapshot" using clean_diagnostics [OF assms] by (simp add: snapshot_def)
  have f: "clean v \<Longrightarrow> clean (field v k)" for v k
    by (cases v) (simp_all add: field_def clean_map_of split: option.split)
  have "clean_props (entries snapshot)" using s by (cases snapshot) simp_all
  moreover have "clean (report_identity build bridge su snapshot)"
    using f [OF f [OF s]] by (simp add: report_identity_def or_else_def)
  moreover have "clean report_coverage" "clean report_limits" "clean (JStr (native_word r))"
    by (cases r; simp add: report_coverage_def report_limits_def native_word_def)+
  ultimately show ?thesis
    unfolding support_report_def snapshot_def [symmetric] Let_def by (simp add: clean_spread)
qed

text \<open>C10. The support report tells nothing it should not: after any observations whatsoever, every text in it is
  a word of the fixed vocabulary or a version number, so no address, name, identifier, message or
  credential can be in it; and it holds at most sixty-four events, sixteen control connections and
  twenty-four media connections.\<close>

theorem report_holds_known_words:
  "set (strings_of (support_report now su build bridge r (foldl diagnostic_step (new_diagnostics t visible) ops))) \<subseteq> vocabulary
   \<and> length (dg_events (foldl diagnostic_step (new_diagnostics t visible) ops)) \<le> 64
   \<and> length (dg_controls (foldl diagnostic_step (new_diagnostics t visible) ops)) \<le> 16
   \<and> length (dg_media (foldl diagnostic_step (new_diagnostics t visible) ops)) \<le> 24"
proof -
  have k: "kept_ok (foldl diagnostic_step (new_diagnostics t visible) ops)" by (rule observing.inv_run)
  from clean_report [OF this] k show ?thesis
    by (simp add: clean_def kept_ok_def LIMIT_EVENTS_def LIMIT_CONTROLS_def LIMIT_MEDIA_def)
qed

text \<open>A reset leaves nothing of what was observed before: two pages that observed different things show the same
  after it.\<close>

lemma reset_forgets:
  "diagnosticSnapshot now su (resetDiagnostics t d) = diagnosticSnapshot now su (resetDiagnostics t d')"
  by (simp add: diagnosticSnapshot_def resetDiagnostics_def)

end
