(* ===== verification/ExportJobs.thy ===== *)
theory ExportJobs
  imports JsValue
begin

text \<open>
  Evidence export (\<open>useNvrExportJobs.ts\<close>): the page polls the list of export jobs and submits requests under
  an identifier of their own, which it keeps in the tab's storage until the outcome is known, so that
  a request whose answer was lost is repeated under the same identifier.  One list request and one
  action can be under way; their ends are events.  \<open>nx_log\<close> records, newest first, what was posted
  and when the page took its outcome for known: its job was listed or answered, or it was refused
  with a status from 400 to 499.  A reload keeps the storage and nothing else.
\<close>

record export_request =
  er_cameraIds :: "string list"
  er_fromUtcMs :: int
  er_toUtcMs :: int
  er_mode :: string
  er_lock :: bool

record submission = export_request +
  su_requestId :: string

record export_job =
  ej_id :: string
  ej_requestId :: string
  ej_state :: string
  ej_createdUtcMs :: int

datatype request_error = ApiError nat string string | OtherFailure string

datatype export_notice =
    NoNotice | RangeIncomplete | DiskFull | Interrupted | ExportTimeout | ConversionFailed | DurationMismatch | SourceChanged
  | RangeTooLarge | ScopeRejected | QueueFull | PermissionRejected | Told string
  | StorageFailed | ListUnreadable export_notice | OutcomeUnknown export_notice

definition exportActive :: "export_job \<Rightarrow> bool" where
  "exportActive j = (ej_state j \<in> {''queued'', ''running'', ''cancelling''})"

definition export_messages :: "(string \<times> export_notice) list" where
  "export_messages = [(''export_range_incomplete'', RangeIncomplete), (''export_disk_full'', DiskFull), (''export_interrupted'', Interrupted),
     (''export_timeout'', ExportTimeout), (''export_conversion_failed'', ConversionFailed), (''export_duration_mismatch'', DurationMismatch),
     (''export_source_changed'', SourceChanged), (''export_range_too_large'', RangeTooLarge), (''export_scope_rejected'', ScopeRejected),
     (''export_queue_full'', QueueFull), (''permission_rejected'', PermissionRejected)]"

definition exportError :: "request_error \<Rightarrow> export_notice" where
  "exportError e = (case e of
     ApiError _ c msg \<Rightarrow> (case map_of export_messages c of Some n \<Rightarrow> n | None \<Rightarrow> Told msg)
   | OtherFailure msg \<Rightarrow> Told msg)"

datatype export_entry = Posted string submission | Settled string

datatype export_action = Submitting submission | Cancelling string

record exports =
  nx_jobs :: "export_job list"
  nx_pending :: "submission option"
  nx_error :: export_notice
  nx_busy :: bool
  nx_ready :: bool
  nx_allowed :: bool
  nx_key :: string
  nx_reading :: "nat option"
  nx_action :: "export_action option"
  nx_generation :: nat
  nx_nextPoll :: int
  nx_storageWorks :: bool
  nx_storage :: "(string \<times> string) list"
  nx_log :: "export_entry list"

text \<open>\<open>encode\<close> and \<open>decode\<close> are \<open>JSON.stringify\<close> and \<open>JSON.parse\<close> on submissions.\<close>

record export_env =
  ne_encode :: "submission \<Rightarrow> string"
  ne_decode :: "string \<Rightarrow> submission option"

definition savePending :: "export_env \<Rightarrow> submission option \<Rightarrow> exports \<Rightarrow> exports" where
  "savePending env v s =
     (let s = s\<lparr>nx_pending := v\<rparr> in
      if \<not> nx_storageWorks s then s\<lparr>nx_error := StorageFailed\<rparr>
      else case v of
             Some x \<Rightarrow> s\<lparr>nx_storage := assign (nx_key s) (ne_encode env x) (nx_storage s)\<rparr>
           | None \<Rightarrow> s\<lparr>nx_storage := erase (nx_key s) (nx_storage s)\<rparr>)"

text \<open>What the page has heard of the submission, whether or not it acts on it.\<close>

definition heard :: "exports \<Rightarrow> exports" where
  "heard s = s\<lparr>nx_log := Settled (nx_key s) # nx_log s\<rparr>"

definition outcome_known :: "request_error + export_job \<Rightarrow> bool" where
  "outcome_known r = (case r of Inr _ \<Rightarrow> True | Inl (ApiError status _ _) \<Rightarrow> status \<in> {400..<500} | Inl (OtherFailure _) \<Rightarrow> False)"

section \<open>Reading the list\<close>

definition refresh :: "exports \<Rightarrow> exports" where
  "refresh s =
     (if nx_key s = [] \<or> nx_reading s \<noteq> None \<or> nx_busy s then s
      else s\<lparr>nx_generation := nx_generation s + 1, nx_reading := Some (nx_generation s + 1)\<rparr>)"

definition confirmed :: "export_job list \<Rightarrow> submission option \<Rightarrow> bool" where
  "confirmed jobs p = (case p of None \<Rightarrow> False | Some v \<Rightarrow> list_ex (\<lambda>j. ej_requestId j = su_requestId v) jobs)"

definition jobs_read :: "export_env \<Rightarrow> int \<Rightarrow> export_job list \<Rightarrow> exports \<Rightarrow> exports" where
  "jobs_read env now jobs s =
     (let s = s\<lparr>nx_jobs := jobs, nx_allowed := True, nx_nextPoll := now + (if list_ex exportActive jobs then 5000 else 30000)\<rparr>;
          s = (if confirmed jobs (nx_pending s) then savePending env None (heard s) else s)
      in if nx_pending s = None then s\<lparr>nx_error := NoNotice\<rparr> else s)"

definition no_permission :: "request_error \<Rightarrow> bool" where
  "no_permission e = (case e of ApiError status _ _ \<Rightarrow> status = 403 | _ \<Rightarrow> False)"

definition not_read :: "int \<Rightarrow> request_error \<Rightarrow> exports \<Rightarrow> exports" where
  "not_read now e s =
     (let s = (if no_permission e then s\<lparr>nx_allowed := False, nx_jobs := []\<rparr> else s)
      in s\<lparr>nx_nextPoll := now + 30000, nx_error := ListUnreadable (exportError e)\<rparr>)"

definition refreshed :: "export_env \<Rightarrow> int \<Rightarrow> request_error + export_job list \<Rightarrow> exports \<Rightarrow> exports" where
  "refreshed env now r s =
     (case nx_reading s of
        None \<Rightarrow> s
      | Some g \<Rightarrow>
          (if g \<noteq> nx_generation s then s
           else case r of Inr jobs \<Rightarrow> jobs_read env now jobs s | Inl e \<Rightarrow> not_read now e s)\<lparr>nx_reading := None\<rparr>)"

definition poll :: "bool \<Rightarrow> int \<Rightarrow> exports \<Rightarrow> exports" where
  "poll visible now s = (if visible \<and> now \<ge> nx_nextPoll s then refresh s else s)"

section \<open>Actions\<close>

definition action :: "export_action \<Rightarrow> exports \<Rightarrow> exports" where
  "action a s =
     (if nx_busy s \<or> nx_key s = [] then s
      else let s = s\<lparr>nx_busy := True, nx_generation := nx_generation s + 1, nx_error := NoNotice, nx_action := Some a\<rparr>
           in case a of Submitting v \<Rightarrow> s\<lparr>nx_log := Posted (nx_key s) v # nx_log s\<rparr> | Cancelling _ \<Rightarrow> s)"

text \<open>\<open>[job, ...rest].sort((a, b) => b.createdUtcMs - a.createdUtcMs)\<close>.\<close>

definition with_job :: "export_job \<Rightarrow> export_job list \<Rightarrow> export_job list" where
  "with_job j js = sort_key (\<lambda>x. - ej_createdUtcMs x) (j # filter (\<lambda>x. ej_id x \<noteq> ej_id j) js)"

definition client_error :: "request_error \<Rightarrow> bool" where
  "client_error e = (case e of ApiError status _ _ \<Rightarrow> 400 \<le> status \<and> status < 500 | _ \<Rightarrow> False)"

definition acted :: "export_env \<Rightarrow> request_error + export_job \<Rightarrow> exports \<Rightarrow> exports" where
  "acted env r s =
     (case nx_action s of
        None \<Rightarrow> s
      | Some a \<Rightarrow>
          let submitting = (case a of Submitting _ \<Rightarrow> True | _ \<Rightarrow> False);
              s = (if submitting \<and> outcome_known r then heard s else s);
              s = (case r of
                     Inr j \<Rightarrow> let s = s\<lparr>nx_jobs := with_job j (nx_jobs s)\<rparr> in if submitting then savePending env None s else s
                   | Inl e \<Rightarrow>
                       let s = (if submitting \<and> client_error e then savePending env None s else s)
                       in s\<lparr>nx_error := (if submitting then OutcomeUnknown (exportError e) else exportError e)\<rparr>)
          in refresh (s\<lparr>nx_busy := False, nx_action := None\<rparr>))"

definition submission_of :: "export_request \<Rightarrow> string \<Rightarrow> submission" where
  "submission_of q uuid = \<lparr>er_cameraIds = er_cameraIds q, er_fromUtcMs = er_fromUtcMs q, er_toUtcMs = er_toUtcMs q,
     er_mode = er_mode q, er_lock = er_lock q, su_requestId = uuid\<rparr>"

definition submit :: "export_env \<Rightarrow> export_request \<Rightarrow> string \<Rightarrow> exports \<Rightarrow> exports" where
  "submit env q uuid s =
     (if nx_busy s \<or> nx_key s = [] \<or> nx_pending s \<noteq> None then s
      else action (Submitting (submission_of q uuid)) (savePending env (Some (submission_of q uuid)) s))"

definition recover :: "exports \<Rightarrow> exports" where
  "recover s = (case nx_pending s of None \<Rightarrow> s | Some v \<Rightarrow> action (Submitting v) s)"

definition cancel :: "string \<Rightarrow> exports \<Rightarrow> exports" where
  "cancel i s = action (Cancelling i) s"

section \<open>Restoring a submission\<close>

definition uuid_like :: "string \<Rightarrow> bool" where
  "uuid_like s = in_class (\<lambda>c. is_hex_lower c \<or> c = CHR ''-'') 32 36 s"

definition restorable :: "submission \<Rightarrow> bool" where
  "restorable v = (uuid_like (su_requestId v) \<and> 1 \<le> length (er_cameraIds v) \<and> length (er_cameraIds v) \<le> 4
     \<and> list_all id64 (er_cameraIds v) \<and> \<bar>er_fromUtcMs v\<bar> \<le> max_safe \<and> \<bar>er_toUtcMs v\<bar> \<le> max_safe
     \<and> er_fromUtcMs v < er_toUtcMs v \<and> er_mode v \<in> {''fast'', ''exact''})"

definition stored_submission :: "export_env \<Rightarrow> string option \<Rightarrow> submission option" where
  "stored_submission env raw =
     (case raw of
        None \<Rightarrow> None
      | Some t \<Rightarrow>
          if t = [] \<or> length t \<ge> 2048 then None
          else case ne_decode env t of None \<Rightarrow> None | Some v \<Rightarrow> if restorable v then Some v else None)"

definition storage_key :: "string option \<Rightarrow> string" where
  "storage_key user = ''webobs:nvr-submission:'' @ (case user of None \<Rightarrow> ''local-only'' | Some u \<Rightarrow> u)"

definition session_read :: "export_env \<Rightarrow> string option \<Rightarrow> exports \<Rightarrow> exports" where
  "session_read env user s =
     (if nx_ready s then s
      else let s = s\<lparr>nx_key := storage_key user\<rparr>;
               s = (if \<not> nx_storageWorks s then s
                    else case stored_submission env (map_of (nx_storage s) (nx_key s)) of None \<Rightarrow> s | Some v \<Rightarrow> savePending env (Some v) s)
           in refresh (s\<lparr>nx_ready := True\<rparr>))"

definition session_failed :: "request_error \<Rightarrow> exports \<Rightarrow> exports" where
  "session_failed e s = (if nx_ready s then s else s\<lparr>nx_error := exportError e\<rparr>)"

definition useNvrExportJobs :: "bool \<Rightarrow> (string \<times> string) list \<Rightarrow> export_entry list \<Rightarrow> exports" where
  "useNvrExportJobs works storage past = \<lparr>nx_jobs = [], nx_pending = None, nx_error = NoNotice, nx_busy = False, nx_ready = False,
     nx_allowed = True, nx_key = [], nx_reading = None, nx_action = None, nx_generation = 0, nx_nextPoll = 0, nx_storageWorks = works,
     nx_storage = storage, nx_log = past\<rparr>"

definition reload :: "exports \<Rightarrow> exports" where
  "reload s = useNvrExportJobs (nx_storageWorks s) (nx_storage s) (nx_log s)"

datatype export_event =
    SessionRead "string option"
  | SessionFailed request_error
  | Poll bool int
  | RefreshNow
  | Refreshed int "request_error + export_job list"
  | Submit export_request string
  | Recover
  | Cancel string
  | Acted "request_error + export_job"
  | StorageWorks bool
  | Reload

fun export_step :: "export_env \<Rightarrow> exports \<Rightarrow> export_event \<Rightarrow> exports" where
  "export_step env s (SessionRead user) = session_read env user s"
| "export_step env s (SessionFailed e) = session_failed e s"
| "export_step env s (Poll visible now) = poll visible now s"
| "export_step env s RefreshNow = refresh s"
| "export_step env s (Refreshed now r) = refreshed env now r s"
| "export_step env s (Submit q uuid) = submit env q uuid s"
| "export_step env s Recover = recover s"
| "export_step env s (Cancel i) = cancel i s"
| "export_step env s (Acted r) = acted env r s"
| "export_step env s (StorageWorks b) = s\<lparr>nx_storageWorks := b\<rparr>"
| "export_step env s Reload = reload s"

section \<open>What is outstanding\<close>

fun outstanding :: "string \<Rightarrow> export_entry list \<Rightarrow> submission option" where
  "outstanding k [] = None"
| "outstanding k (Posted k' v # past) = (if k = k' then Some v else outstanding k past)"
| "outstanding k (Settled k' # past) = (if k = k' then None else outstanding k past)"

text \<open>Nothing is posted for an account while another submission of it is outstanding.\<close>

fun orderly :: "export_entry list \<Rightarrow> bool" where
  "orderly [] = True"
| "orderly (Posted k v # past) = ((outstanding k past = None \<or> outstanding k past = Some v) \<and> orderly past)"
| "orderly (Settled k # past) = orderly past"

end
