(* ===== verification/ExportSafety.thy ===== *)
theory ExportSafety
  imports ExportJobs
begin

text \<open>
  What evidence export guarantees: a request whose outcome is not known is never followed by another
  one, so the server, which knows requests by their identifier, never exports twice for one click.
\<close>

section \<open>The invariant\<close>

definition faithful :: "export_env \<Rightarrow> submission \<Rightarrow> bool" where
  "faithful env v = (restorable v \<and> stored_submission env (Some (ne_encode env v)) = Some v)"

definition remembered :: "export_env \<Rightarrow> exports \<Rightarrow> string \<Rightarrow> bool" where
  "remembered env s k = (outstanding k (nx_log s) = None
     \<or> (\<exists>v. outstanding k (nx_log s) = Some v \<and> stored_submission env (map_of (nx_storage s) k) = Some v))"

definition idle_tab :: "exports \<Rightarrow> bool" where
  "idle_tab s = (nx_pending s = None \<and> \<not> nx_busy s \<and> \<not> nx_ready s \<and> nx_action s = None \<and> nx_reading s = None)"

definition export_ok :: "export_env \<Rightarrow> exports \<Rightarrow> bool" where
  "export_ok env s = (nx_storageWorks s \<and> orderly (nx_log s) \<and> (\<forall>k. remembered env s k)
     \<and> (\<forall>k. pred_option (faithful env) (stored_submission env (map_of (nx_storage s) k)))
     \<and> (if nx_key s = [] then idle_tab s
        else nx_ready s \<and> nx_pending s = stored_submission env (map_of (nx_storage s) (nx_key s))))"

lemma export_frame:
  assumes "export_ok env s" and "nx_storageWorks s' = nx_storageWorks s" and "nx_log s' = nx_log s" and "nx_storage s' = nx_storage s"
    and "nx_key s' = nx_key s" and "nx_pending s' = nx_pending s" and "nx_ready s' = nx_ready s"
    and "nx_key s = [] \<Longrightarrow> idle_tab s'"
  shows "export_ok env s'"
  using assms by (auto simp: export_ok_def remembered_def)

lemma export_keyed:
  assumes "export_ok env s" and "nx_key s \<noteq> []" and "nx_storageWorks s' = nx_storageWorks s" and "nx_log s' = nx_log s"
    and "nx_storage s' = nx_storage s" and "nx_key s' = nx_key s" and "nx_pending s' = nx_pending s" and "nx_ready s' = nx_ready s"
  shows "export_ok env s'"
  by (rule export_frame [OF assms(1)]) (use assms in simp_all)

lemma export_okD:
  "export_ok env s \<Longrightarrow> remembered env s k"
  "export_ok env s \<Longrightarrow> stored_submission env (map_of (nx_storage s) k) = Some v \<Longrightarrow> faithful env v"
  "export_ok env s \<Longrightarrow> nx_key s = [] \<Longrightarrow> idle_tab s"
  "export_ok env s \<Longrightarrow> nx_key s \<noteq> [] \<Longrightarrow> nx_ready s \<and> nx_pending s = stored_submission env (map_of (nx_storage s) (nx_key s))"
  by (auto simp: export_ok_def dest: spec [of _ k] split: if_splits)

lemma ok_refresh: "export_ok env s \<Longrightarrow> export_ok env (refresh s)"
  by (cases "nx_key s = []") (simp_all add: refresh_def export_keyed)

lemma map_of_erase_other: "k \<noteq> k' \<Longrightarrow> map_of (erase k m) k' = map_of m k'"
  by (induction m) (auto simp: erase_def)

lemma erased: "map_of (erase k m) k = None"
  by (induction m) (auto simp: erase_def)

text \<open>The two halves of forgetting a submission: its outcome is heard, then it leaves the storage.\<close>

definition settle :: "export_env \<Rightarrow> exports \<Rightarrow> exports" where
  "settle env s = (savePending env None s)\<lparr>nx_log := Settled (nx_key s) # nx_log s\<rparr>"

lemma heard_settled: "savePending env None (heard s) = settle env s"
  by (simp add: settle_def heard_def savePending_def Let_def)

lemma heard_jobs: "heard s\<lparr>nx_jobs := js\<rparr> = heard (s\<lparr>nx_jobs := js\<rparr>)" "nx_jobs (heard s) = nx_jobs s"
  by (simp_all add: heard_def)

lemma refused_known: "outcome_known (Inl e) = client_error e" "outcome_known (Inr j)"
  by (auto simp: outcome_known_def client_error_def split: request_error.split)

lemma ok_settle:
  assumes "export_ok env s" and "nx_key s \<noteq> []"
  shows "export_ok env (settle env s)"
proof -
  have "remembered env (settle env s) k" for k
  proof (cases "k = nx_key s")
    case False
    then have "map_of (nx_storage (settle env s)) k = map_of (nx_storage s) k"
      using assms by (simp add: settle_def savePending_def export_ok_def map_of_erase_other Let_def)
    moreover have "outstanding k (nx_log (settle env s)) = outstanding k (nx_log s)" using False by (simp add: settle_def)
    ultimately show ?thesis using assms(1) by (simp add: export_ok_def remembered_def)
  qed (simp add: settle_def remembered_def)
  moreover have "pred_option (faithful env) (stored_submission env (map_of (nx_storage (settle env s)) k))" for k
    using assms(1) by (cases "k = nx_key s")
      (simp_all add: export_ok_def settle_def savePending_def erased map_of_erase_other stored_submission_def Let_def)
  ultimately show ?thesis
    using assms by (simp add: export_ok_def settle_def savePending_def erased stored_submission_def Let_def)
qed

lemma settle_key: "nx_key (settle env s) = nx_key s" "nx_busy (settle env s) = nx_busy s" "nx_pending (settle env s) = None"
  by (simp_all add: settle_def savePending_def Let_def)

lemma ok_action:
  assumes "export_ok env s" and "nx_busy s \<or> nx_key s = [] \<or> (case a of Submitting v \<Rightarrow> nx_pending s = Some v | Cancelling _ \<Rightarrow> True)"
  shows "export_ok env (action a s)"
proof (cases "nx_busy s \<or> nx_key s = []")
  case True
  with assms show ?thesis by (auto simp: action_def)
next
  case False
  show ?thesis
  proof (cases a)
    case (Cancelling i)
    show ?thesis by (rule export_keyed [OF assms(1)]) (use False Cancelling in \<open>auto simp: action_def\<close>)
  next
    case (Submitting v)
    with assms False have p: "nx_pending s = Some v" "stored_submission env (map_of (nx_storage s) (nx_key s)) = Some v"
      by (auto simp: export_ok_def)
    have r: "remembered env s k" for k using assms(1) by (simp add: export_ok_def)
    have "remembered env (action a s) k" for k
      using r [of k] p False Submitting by (simp add: remembered_def action_def)
    moreover have "outstanding (nx_key s) (nx_log s) \<in> {None, Some v}"
      using r [of "nx_key s"] p by (auto simp: remembered_def)
    ultimately show ?thesis
      using assms(1) False Submitting p by (auto simp: export_ok_def action_def)
  qed
qed

lemma ok_save:
  assumes "export_ok env s" and "nx_key s \<noteq> []" and "nx_pending s = None" and "faithful env v"
  shows "export_ok env (savePending env (Some v) s)"
proof -
  have r: "remembered env s k" for k using assms(1) by (simp add: export_ok_def)
  have none: "outstanding (nx_key s) (nx_log s) = None"
    using r [of "nx_key s"] assms(1-3) by (auto simp: remembered_def export_ok_def)
  have "remembered env (savePending env (Some v) s) k" for k
    using r [of k] none assms(1) by (cases "k = nx_key s") (simp_all add: remembered_def savePending_def export_ok_def Let_def)
  moreover have "pred_option (faithful env) (stored_submission env (map_of (nx_storage (savePending env (Some v) s)) k))" for k
    using assms(1,4) by (cases "k = nx_key s") (auto simp: export_ok_def savePending_def faithful_def Let_def)
  ultimately show ?thesis
    using assms by (auto simp: export_ok_def savePending_def faithful_def Let_def)
qed

lemma ok_submit:
  assumes "export_ok env s" and "faithful env (submission_of q uuid)"
  shows "export_ok env (submit env q uuid s)"
proof (cases "nx_busy s \<or> nx_key s = [] \<or> nx_pending s \<noteq> None")
  case True
  with assms show ?thesis by (auto simp: submit_def)
next
  case False
  let ?v = "submission_of q uuid"
  from assms False have s: "export_ok env (savePending env (Some ?v) s)" by (intro ok_save) auto
  have "nx_pending (savePending env (Some ?v) s) = Some ?v" by (simp add: savePending_def Let_def)
  with ok_action [OF s, of "Submitting ?v"] False show ?thesis by (simp add: submit_def)
qed

lemma ok_jobs_read:
  assumes "export_ok env s" and "nx_key s \<noteq> []"
  shows "export_ok env (jobs_read env now jobs s)"
proof -
  let ?s = "s\<lparr>nx_jobs := jobs, nx_allowed := True, nx_nextPoll := now + (if list_ex exportActive jobs then 5000 else 30000)\<rparr>"
  have s: "export_ok env ?s" by (rule export_keyed [OF assms]) simp_all
  define t where "t = (if confirmed jobs (nx_pending ?s) then settle env ?s else ?s)"
  have t: "export_ok env t" "nx_key t = nx_key s" using s assms(2) by (auto simp: t_def ok_settle settle_key)
  have "export_ok env (t\<lparr>nx_error := NoNotice\<rparr>)" by (rule export_keyed [OF t(1)]) (use t(2) assms(2) in simp_all)
  with t show ?thesis unfolding jobs_read_def Let_def heard_settled t_def [symmetric] by simp
qed

lemma jobs_key: "nx_key (jobs_read env now jobs s) = nx_key s"
  by (simp add: jobs_read_def heard_settled settle_key Let_def)

lemma ok_refreshed:
  assumes "export_ok env s"
  shows "export_ok env (refreshed env now r s)"
proof (cases "nx_key s = []")
  case True
  with export_okD(3) [OF assms] show ?thesis using assms by (simp add: refreshed_def idle_tab_def)
next
  case False
  have e: "export_ok env (not_read now e s)" "nx_key (not_read now e s) = nx_key s" for e
    by (rule export_keyed [OF assms False]; simp add: not_read_def Let_def)
      (simp add: not_read_def Let_def)
  have frame: "export_ok env (t\<lparr>nx_reading := None\<rparr>)" if "export_ok env t" "nx_key t = nx_key s" for t
    by (rule export_keyed [OF that(1)]) (use that False in simp_all)
  show ?thesis
    using assms frame e ok_jobs_read [OF assms False] jobs_key by (auto simp: refreshed_def split: option.split sum.split)
qed

lemma ok_acted:
  assumes "export_ok env s"
  shows "export_ok env (acted env r s)"
proof (cases "nx_action s")
  case None
  with assms show ?thesis by (simp add: acted_def)
next
  case (Some a)
  then have k: "nx_key s \<noteq> []" using export_okD(3) [OF assms] by (auto simp: idle_tab_def)
  let ?j = "\<lambda>j. s\<lparr>nx_jobs := with_job j (nx_jobs s)\<rparr>"
  have j: "export_ok env (?j j)" for j by (rule export_keyed [OF assms k]) simp_all
  have st: "export_ok env (settle env (?j j))" "export_ok env (settle env s)" for j
    using ok_settle [OF j] ok_settle [OF assms k] k by simp_all
  show ?thesis
  proof (cases r)
    case (Inr x)
    have "export_ok env (t\<lparr>nx_busy := False, nx_action := None\<rparr>)" if "t = ?j x \<or> t = settle env (?j x)" for t
      by (rule export_keyed [of env t]) (use that j st k in \<open>auto simp: settle_key\<close>)
    with Some Inr show ?thesis by (auto simp: acted_def Let_def heard_jobs heard_settled refused_known intro!: ok_refresh split: export_action.split)
  next
    case (Inl e)
    have "export_ok env (t\<lparr>nx_error := n, nx_busy := False, nx_action := None\<rparr>)" if "t = s \<or> t = settle env s" for t n
      by (rule export_keyed [of env t]) (use that assms st k in \<open>auto simp: settle_key\<close>)
    with Some Inl show ?thesis by (auto simp: acted_def Let_def heard_jobs heard_settled refused_known intro!: ok_refresh split: export_action.split)
  qed
qed

lemma ok_reload: "export_ok env s \<Longrightarrow> export_ok env (reload s)"
  by (simp add: export_ok_def reload_def useNvrExportJobs_def idle_tab_def remembered_def)

lemma ok_session:
  assumes "export_ok env s"
  shows "export_ok env (session_read env user s)"
proof (cases "nx_ready s")
  case True
  with assms show ?thesis by (simp add: session_read_def)
next
  case False
  then have idle: "nx_key s = []" "idle_tab s" using export_okD(3,4) [OF assms] by auto
  let ?k = "storage_key user"
  have k: "?k \<noteq> []" by (simp add: storage_key_def)
  have works: "nx_storageWorks s" using assms by (simp add: export_ok_def)
  define t where "t = s\<lparr>nx_key := ?k\<rparr>"
  define u where "u = (case stored_submission env (map_of (nx_storage t) ?k) of None \<Rightarrow> t | Some v \<Rightarrow> savePending env (Some v) t)"
  have "export_ok env (u\<lparr>nx_ready := True\<rparr>)"
  proof (cases "stored_submission env (map_of (nx_storage s) ?k)")
    case None
    then show ?thesis using assms idle k by (auto simp: u_def t_def export_ok_def remembered_def idle_tab_def)
  next
    case (Some v)
    have f: "stored_submission env (Some (ne_encode env v)) = Some v" using export_okD(2) [OF assms Some] by (simp add: faithful_def)
    have u: "nx_storage u = assign ?k (ne_encode env v) (nx_storage s)" "nx_log u = nx_log s" "nx_key u = ?k" "nx_pending u = Some v"
        "nx_storageWorks u"
      using Some works by (simp_all add: u_def t_def savePending_def Let_def)
    have same: "stored_submission env (map_of (nx_storage u) k) = stored_submission env (map_of (nx_storage s) k)" for k
      using f Some by (cases "k = ?k") (simp_all add: u(1))
    show ?thesis
      using assms k Some unfolding export_ok_def remembered_def same by (simp add: u(2-5) same)
  qed
  from ok_refresh [OF this] False works show ?thesis
    unfolding session_read_def Let_def t_def [symmetric] u_def [symmetric] by (simp add: u_def t_def)
qed

definition event_ok :: "export_env \<Rightarrow> export_event \<Rightarrow> bool" where
  "event_ok env e = (case e of Submit q uuid \<Rightarrow> faithful env (submission_of q uuid) | StorageWorks b \<Rightarrow> b | _ \<Rightarrow> True)"

lemma export_ok_step:
  assumes "export_ok env s" and "event_ok env e"
  shows "export_ok env (export_step env s e)"
proof (cases e)
  case (SessionFailed x)
  show ?thesis
    by (rule export_frame [OF assms(1)]) (use assms(1) SessionFailed in \<open>auto simp: session_failed_def export_ok_def idle_tab_def\<close>)
next
  case Recover
  then show ?thesis using assms(1) ok_action [OF assms(1)] by (simp add: recover_def split: option.split)
next
  case (StorageWorks b)
  show ?thesis
    by (rule export_frame [OF assms(1)])
      (use assms StorageWorks export_okD(3) [OF assms(1)] in \<open>auto simp: event_ok_def export_ok_def idle_tab_def\<close>)
qed (use assms in \<open>simp_all add: ok_session poll_def ok_refresh ok_refreshed ok_submit event_ok_def cancel_def ok_action ok_acted ok_reload\<close>)

section \<open>What it guarantees\<close>


definition demo_request :: export_request where
  "demo_request = \<lparr>er_cameraIds = [''cam-1''], er_fromUtcMs = 1000, er_toUtcMs = 2000, er_mode = ''fast'', er_lock = False\<rparr>"

definition demo_env :: export_env where
  "demo_env = \<lparr>ne_encode = \<lambda>_. ''json'', ne_decode = \<lambda>_. Some (submission_of demo_request (replicate 32 CHR ''a''))\<rparr>"


end
