(* ===== verification/Requests.thy ===== *)
theory Requests
  imports Prelude
begin

text \<open>
  The requests of the page: \<open>requestTimeout.ts\<close> (a request with a deadline and an owner that can cancel it),
  \<open>useOwnedRequest.ts\<close> (an editor that has one operation at a time) and \<open>visiblePolling.ts\<close> (a read that is
  repeated while the page is visible), with \<open>mediaLifecycle.ts\<close>.  Timers that fire, promises that
  settle and the user's actions are events; a timer is kept as the time it is due.
\<close>

datatype reason = TimedOut | Cancelled | ApiRefused nat string | ErrorText string | NotAnError

section \<open>A request with a deadline\<close>

text \<open>
  \<open>rc_due\<close> is the timer, \<open>rc_parent\<close> the listener on the owner's signal, \<open>rc_waiting\<close> the step that
  calls the operation and has not run yet, \<open>rc_aborted\<close> the operation's own signal.
\<close>

record 'a race =
  rc_due :: "int option"
  rc_parent :: bool
  rc_waiting :: bool
  rc_begun :: bool
  rc_cancelled :: "reason option"
  rc_aborted :: "reason option"
  rc_settled :: "(reason + 'a) option"

text \<open>\<open>Promise.race\<close>: the first outcome stands; the \<open>finally\<close> block removes the timer and the listener.\<close>

definition settle_race :: "reason + 'a \<Rightarrow> 'a race \<Rightarrow> 'a race" where
  "settle_race r s = (if rc_settled s \<noteq> None then s else s\<lparr>rc_settled := Some r, rc_due := None, rc_parent := False\<rparr>)"

definition cancel_race :: "reason \<Rightarrow> 'a race \<Rightarrow> 'a race" where
  "cancel_race r s =
     (if rc_cancelled s \<noteq> None then s
      else settle_race (Inl r) (s\<lparr>rc_cancelled := Some r, rc_aborted := Some r\<rparr>))"

definition parent_aborts :: "reason option \<Rightarrow> 'a race \<Rightarrow> 'a race" where
  "parent_aborts r s = (if rc_parent s then cancel_race (case r of None \<Rightarrow> Cancelled | Some x \<Rightarrow> x) s else s)"

definition withRequestTimeout :: "int \<Rightarrow> int \<Rightarrow> reason option option \<Rightarrow> 'a race" where
  "withRequestTimeout milliseconds now parent =
     (let s = \<lparr>rc_due = Some (now + milliseconds), rc_parent = True, rc_waiting = True, rc_begun = False, rc_cancelled = None,
                rc_aborted = None, rc_settled = None\<rparr>
      in case parent of None \<Rightarrow> s | Some r \<Rightarrow> parent_aborts r s)"

definition call_operation :: "'a race \<Rightarrow> 'a race" where
  "call_operation s =
     (if \<not> rc_waiting s then s
      else let s = s\<lparr>rc_waiting := False\<rparr>
           in case rc_cancelled s of None \<Rightarrow> s\<lparr>rc_begun := True\<rparr> | Some r \<Rightarrow> settle_race (Inl r) s)"

definition deadline_at :: "int \<Rightarrow> 'a race \<Rightarrow> 'a race" where
  "deadline_at now s =
     (case rc_due s of None \<Rightarrow> s | Some d \<Rightarrow> if d \<le> now then cancel_race TimedOut (s\<lparr>rc_due := None\<rparr>) else s)"

definition operation_ends :: "reason + 'a \<Rightarrow> 'a race \<Rightarrow> 'a race" where
  "operation_ends r s = (if rc_begun s then settle_race r s else s)"

datatype 'a race_event = CallOperation | DeadlineAt int | ParentAborts "reason option" | OperationEnds "reason + 'a"

fun race_step :: "'a race \<Rightarrow> 'a race_event \<Rightarrow> 'a race" where
  "race_step s CallOperation = call_operation s"
| "race_step s (DeadlineAt now) = deadline_at now s"
| "race_step s (ParentAborts r) = parent_aborts r s"
| "race_step s (OperationEnds r) = operation_ends r s"

section \<open>One operation of an editor\<close>

text \<open>
  An operation in flight: its signal and its request.  The log keeps, newest first, what was begun,
  written to the editor, reported as failed, or given up by its owner.
\<close>

record 'a flight =
  fl_aborted :: bool
  fl_race :: "'a race"

record owner =
  on_id :: nat
  on_mutation :: bool
  on_name :: string

datatype owned_notice = NoMessage | Forbidden string | LoggedOut string | Unconfirmed string | TookTooLong string | FailedWith string string

datatype 'a owned_entry = Began nat | BeforeMutation nat | Applied nat 'a | Reported nat reason | GivenUp nat

record 'a editor =
  ow_active :: bool
  ow_owner :: "owner option"
  ow_flights :: "(nat \<times> 'a flight) list"
  ow_next :: nat
  ow_busy :: bool
  ow_mutating :: bool
  ow_message :: owned_notice
  ow_log :: "'a owned_entry list"

definition useOwnedRequest :: "'a editor" where
  "useOwnedRequest = \<lparr>ow_active = True, ow_owner = None, ow_flights = [], ow_next = 0, ow_busy = False, ow_mutating = False,
     ow_message = NoMessage, ow_log = []\<rparr>"

definition on_flight :: "nat \<Rightarrow> ('a flight \<Rightarrow> 'a flight) \<Rightarrow> (nat \<times> 'a flight) list \<Rightarrow> (nat \<times> 'a flight) list" where
  "on_flight i f m = (case map_of m i of None \<Rightarrow> m | Some x \<Rightarrow> assign i (f x) m)"

text \<open>\<open>controller.abort()\<close>: the signal is aborted without a reason of its own, and the request hears it.\<close>

definition abort_flight :: "'a flight \<Rightarrow> 'a flight" where
  "abort_flight f = f\<lparr>fl_aborted := True, fl_race := parent_aborts (Some Cancelled) (fl_race f)\<rparr>"

definition give_up :: "'a editor \<Rightarrow> 'a editor" where
  "give_up s =
     (case ow_owner s of
        None \<Rightarrow> s
      | Some c \<Rightarrow> s\<lparr>ow_flights := on_flight (on_id c) abort_flight (ow_flights s), ow_owner := None, ow_log := GivenUp (on_id c) # ow_log s\<rparr>)"

definition editor_closed :: "'a editor \<Rightarrow> 'a editor" where
  "editor_closed s = give_up (s\<lparr>ow_active := False\<rparr>)"

definition cancelRead :: "'a editor \<Rightarrow> 'a editor" where
  "cancelRead s =
     (case ow_owner s of
        None \<Rightarrow> s
      | Some c \<Rightarrow> if on_mutation c then s else (give_up s)\<lparr>ow_busy := False, ow_mutating := False\<rparr>)"

definition run_owned :: "string \<Rightarrow> bool \<Rightarrow> int \<Rightarrow> 'a editor \<Rightarrow> 'a editor" where
  "run_owned name mutation now s =
     (if \<not> ow_active s \<or> ow_owner s \<noteq> None then s
      else let i = ow_next s;
               s = s\<lparr>ow_next := i + 1, ow_owner := Some \<lparr>on_id = i, on_mutation = mutation, on_name = name\<rparr>, ow_log := Began i # ow_log s\<rparr>;
               s = (if mutation then s\<lparr>ow_log := BeforeMutation i # ow_log s\<rparr> else s)
           in s\<lparr>ow_busy := True, ow_mutating := mutation, ow_message := NoMessage,
                ow_flights := assign i \<lparr>fl_aborted = False, fl_race = withRequestTimeout 20000 now None\<rparr> (ow_flights s)\<rparr>)"

definition failure_notice :: "string \<Rightarrow> bool \<Rightarrow> reason \<Rightarrow> owned_notice" where
  "failure_notice name mutation r =
     (case r of
        ApiRefused status msg \<Rightarrow> if status = 403 then Forbidden name else if status = 401 then LoggedOut name else FailedWith name msg
      | TimedOut \<Rightarrow> if mutation then Unconfirmed name else TookTooLong name
      | Cancelled \<Rightarrow> FailedWith name ''cancelled''
      | ErrorText msg \<Rightarrow> FailedWith name msg
      | NotAnError \<Rightarrow> FailedWith name ''service unavailable'')"

definition owns :: "nat \<Rightarrow> 'a editor \<Rightarrow> bool" where
  "owns i s = (ow_active s \<and> map_option on_id (ow_owner s) = Some i
     \<and> (case map_of (ow_flights s) i of None \<Rightarrow> False | Some f \<Rightarrow> \<not> fl_aborted f))"

definition report_failure :: "nat \<Rightarrow> reason \<Rightarrow> 'a editor \<Rightarrow> 'a editor" where
  "report_failure i r s =
     (case ow_owner s of
        None \<Rightarrow> s
      | Some c \<Rightarrow> if owns i s
          then s\<lparr>ow_message := failure_notice (on_name c) (on_mutation c) r, ow_log := Reported i r # ow_log s\<rparr> else s)"

text \<open>The continuation of \<open>run\<close>; \<open>writes v\<close> is the error that writing the value to the editor throws.\<close>

definition finish_owned :: "nat \<Rightarrow> 'a editor \<Rightarrow> 'a editor" where
  "finish_owned i s =
     (if ow_active s \<and> map_option on_id (ow_owner s) = Some i
      then s\<lparr>ow_owner := None, ow_busy := False, ow_mutating := False\<rparr> else s)"

definition deliver :: "('a \<Rightarrow> reason option) \<Rightarrow> nat \<Rightarrow> 'a editor \<Rightarrow> 'a editor" where
  "deliver writes i s =
     (case map_of (ow_flights s) i of
        None \<Rightarrow> s
      | Some f \<Rightarrow>
          (case rc_settled (fl_race f) of
             None \<Rightarrow> s
           | Some r \<Rightarrow>
               let s' = (case r of
                           Inr v \<Rightarrow>
                             if \<not> owns i s then s
                             else (case writes v of None \<Rightarrow> s\<lparr>ow_log := Applied i v # ow_log s\<rparr> | Some e \<Rightarrow> report_failure i e s)
                         | Inl e \<Rightarrow> report_failure i e s);
                   s'' = finish_owned i s'
               in s''\<lparr>ow_flights := erase i (ow_flights s'')\<rparr>))"

datatype 'a editor_event = Run string bool int | InFlight nat "'a race_event" | Deliver nat | CancelRead | CloseEditor

fun editor_step :: "('a \<Rightarrow> reason option) \<Rightarrow> 'a editor \<Rightarrow> 'a editor_event \<Rightarrow> 'a editor" where
  "editor_step w s (Run name mutation now) = run_owned name mutation now s"
| "editor_step w s (InFlight i e) =
     (case e of
        ParentAborts _ \<Rightarrow> s
      | _ \<Rightarrow> s\<lparr>ow_flights := on_flight i (\<lambda>f. f\<lparr>fl_race := race_step (fl_race f) e\<rparr>) (ow_flights s)\<rparr>)"
| "editor_step w s (Deliver i) = deliver w i s"
| "editor_step w s CancelRead = cancelRead s"
| "editor_step w s CloseEditor = editor_closed s"

text \<open>The operation that is under way according to the log.\<close>

fun under_way :: "'a owned_entry list \<Rightarrow> nat option" where
  "under_way [] = None"
| "under_way (Began i # past) = Some i"
| "under_way (BeforeMutation i # past) = under_way past"
| "under_way (Applied i v # past) = None"
| "under_way (Reported i r # past) = None"
| "under_way (GivenUp i # past) = None"

text \<open>One at a time: an operation begins when none is under way, and only that one writes or reports.\<close>

fun one_at_a_time :: "'a owned_entry list \<Rightarrow> bool" where
  "one_at_a_time [] = True"
| "one_at_a_time (Began i # past) = (under_way past = None \<and> one_at_a_time past)"
| "one_at_a_time (BeforeMutation i # past) = (under_way past = Some i \<and> one_at_a_time past)"
| "one_at_a_time (Applied i v # past) = (under_way past = Some i \<and> one_at_a_time past)"
| "one_at_a_time (Reported i r # past) = (under_way past = Some i \<and> one_at_a_time past)"
| "one_at_a_time (GivenUp i # past) = (under_way past = Some i \<and> one_at_a_time past)"

section \<open>Reading while the page is visible\<close>

record polling =
  pl_stopped :: bool
  pl_paused :: bool
  pl_visible :: bool
  pl_timer :: bool
  pl_request :: "nat option"
  pl_tasks :: "(nat \<times> bool) list"
  pl_next :: nat

definition cancel_polling :: "polling \<Rightarrow> polling" where
  "cancel_polling s = s\<lparr>pl_timer := False, pl_request := None,
     pl_tasks := (case pl_request s of None \<Rightarrow> pl_tasks s | Some i \<Rightarrow> assign i True (pl_tasks s))\<rparr>"

definition refresh_polling :: "polling \<Rightarrow> polling" where
  "refresh_polling s =
     (if pl_stopped s \<or> pl_paused s \<or> \<not> pl_visible s then s
      else if pl_request s \<noteq> None then s
      else s\<lparr>pl_timer := False, pl_request := Some (pl_next s), pl_tasks := assign (pl_next s) False (pl_tasks s), pl_next := pl_next s + 1\<rparr>)"

text \<open>The end of a task, however it ends: the block \<open>finally\<close>.\<close>

definition task_ends :: "nat \<Rightarrow> polling \<Rightarrow> polling" where
  "task_ends i s =
     (if i \<notin> fst ` set (pl_tasks s) then s
      else let s = s\<lparr>pl_tasks := erase i (pl_tasks s)\<rparr>
           in if pl_request s \<noteq> Some i then s
              else let s = s\<lparr>pl_request := None\<rparr>
                   in if \<not> pl_stopped s \<and> \<not> pl_paused s \<and> pl_visible s then s\<lparr>pl_timer := True\<rparr> else s)"

definition polling_timer :: "polling \<Rightarrow> polling" where
  "polling_timer s = (if pl_timer s then refresh_polling (s\<lparr>pl_timer := False\<rparr>) else s)"

text \<open>The listener on visibility, focus and the network; it is removed when the polling stops.\<close>

definition polling_visibility :: "polling \<Rightarrow> polling" where
  "polling_visibility s = (if pl_stopped s then s else if \<not> pl_visible s then cancel_polling s else refresh_polling s)"

definition polling_pause :: "polling \<Rightarrow> polling" where
  "polling_pause s = cancel_polling (s\<lparr>pl_paused := True\<rparr>)"

definition polling_resume :: "polling \<Rightarrow> polling" where
  "polling_resume s = refresh_polling (s\<lparr>pl_paused := False\<rparr>)"

definition polling_stop :: "polling \<Rightarrow> polling" where
  "polling_stop s = cancel_polling (s\<lparr>pl_stopped := True\<rparr>)"

definition startVisiblePolling :: "bool \<Rightarrow> polling" where
  "startVisiblePolling visible = refresh_polling \<lparr>pl_stopped = False, pl_paused = False, pl_visible = visible, pl_timer = False,
     pl_request = None, pl_tasks = [], pl_next = 0\<rparr>"

datatype polling_event = PageVisible bool | FocusOrOnline | RefreshPolling | TaskEnds nat | PollingTimer | PausePolling | ResumePolling | StopPolling

fun polling_step :: "polling \<Rightarrow> polling_event \<Rightarrow> polling" where
  "polling_step s (PageVisible v) = polling_visibility (s\<lparr>pl_visible := v\<rparr>)"
| "polling_step s FocusOrOnline = polling_visibility s"
| "polling_step s RefreshPolling = refresh_polling s"
| "polling_step s (TaskEnds i) = task_ends i s"
| "polling_step s PollingTimer = polling_timer s"
| "polling_step s PausePolling = polling_pause s"
| "polling_step s ResumePolling = polling_resume s"
| "polling_step s StopPolling = polling_stop s"

text \<open>\<open>mediaLifecycle.ts\<close>: a tile plays unless low power suspends it or the app is in the background.\<close>

record playback_visibility =
  pv_lowPowerEnabled :: bool
  pv_documentVisible :: bool
  pv_tileIntersecting :: bool
  pv_nativeForeground :: "bool option"

definition shouldRunPlayback :: "playback_visibility \<Rightarrow> bool" where
  "shouldRunPlayback v = (pv_nativeForeground v \<noteq> Some False
     \<and> (\<not> pv_lowPowerEnabled v \<or> (pv_documentVisible v \<and> pv_tileIntersecting v)))"

end
