(* ===== verification/RequestSafety.thy ===== *)
theory RequestSafety
  imports Requests
begin

text \<open>
  What the requests of the page guarantee: a request ends by its deadline at the latest, an editor has
  one operation at a time whose late result is never written, and polling reads once at a time,
  only while the page is visible, and never stops while it is.
\<close>

section \<open>Deadlines\<close>

definition race_ok :: "'a race \<Rightarrow> bool" where
  "race_ok s = ((rc_settled s = None) = (rc_due s \<noteq> None) \<and> rc_parent s = (rc_due s \<noteq> None)
     \<and> (rc_settled s = None \<longrightarrow> rc_cancelled s = None \<and> rc_waiting s = (\<not> rc_begun s))
     \<and> rc_aborted s = rc_cancelled s
     \<and> (case rc_cancelled s of None \<Rightarrow> True | Some r \<Rightarrow> rc_settled s = Some (Inl r)))"

lemma race_cancel:
  assumes "rc_cancelled s = None" and "rc_aborted s = None" and "rc_settled s = None"
  shows "race_ok (cancel_race r s)" "rc_settled (cancel_race r s) = Some (Inl r)"
  using assms by (simp_all add: cancel_race_def settle_race_def race_ok_def)

lemma race_open:
  "race_ok s \<Longrightarrow> rc_due s \<noteq> None \<Longrightarrow> rc_cancelled s = None \<and> rc_aborted s = None \<and> rc_settled s = None"
  "race_ok s \<Longrightarrow> rc_parent s \<Longrightarrow> rc_cancelled s = None \<and> rc_aborted s = None \<and> rc_settled s = None"
  by (auto simp: race_ok_def)

lemma race_parent: "race_ok s \<Longrightarrow> race_ok (parent_aborts r s)"
  using race_open(2) [of s] race_cancel(1) [of s] by (auto simp: parent_aborts_def)

lemma race_start: "race_ok (withRequestTimeout ms now p)"
proof -
  have "race_ok \<lparr>rc_due = Some (now + ms), rc_parent = True, rc_waiting = True, rc_begun = False, rc_cancelled = None,
    rc_aborted = None, rc_settled = None\<rparr>" by (simp add: race_ok_def)
  then show ?thesis by (auto simp: withRequestTimeout_def Let_def intro: race_parent split: option.split)
qed

lemma race_call: "race_ok s \<Longrightarrow> race_ok (call_operation s)"
  by (auto simp: call_operation_def race_ok_def settle_race_def Let_def split: option.splits)

lemma race_deadline: "race_ok s \<Longrightarrow> race_ok (deadline_at now s)"
  using race_open(1) [of s] race_cancel(1) [of "s\<lparr>rc_due := None\<rparr>" TimedOut] by (auto simp: deadline_at_def split: option.split)

lemma race_ends: "race_ok s \<Longrightarrow> race_ok (operation_ends r s)"
  by (auto simp: operation_ends_def settle_race_def race_ok_def split: option.splits)

lemma race_step_ok: "race_ok s \<Longrightarrow> race_ok (race_step s e)"
  by (cases e) (simp_all add: race_call race_deadline race_parent race_ends)

interpretation request: machine "withRequestTimeout ms now p" race_step race_ok for ms now p
  by unfold_locales (rule race_start, erule race_step_ok)

text \<open>The first outcome stands.\<close>

lemma settled_stays: "rc_settled s = Some r \<Longrightarrow> race_ok s \<Longrightarrow> rc_settled (race_step s e) = Some r"
  by (cases e)
    (auto simp: call_operation_def deadline_at_def parent_aborts_def operation_ends_def cancel_race_def settle_race_def race_ok_def Let_def
      split: option.splits)

lemma due_step: "rc_due (race_step s e) = rc_due s \<or> rc_due (race_step s e) = None"
  by (cases e)
    (auto simp: call_operation_def deadline_at_def parent_aborts_def operation_ends_def cancel_race_def settle_race_def Let_def
      split: option.splits)

lemma deadline_settles:
  assumes "race_ok s" and "\<And>d. rc_due s = Some d \<Longrightarrow> d \<le> now"
  shows "rc_settled (deadline_at now s) \<noteq> None"
proof (cases "rc_due s")
  case None
  with assms(1) show ?thesis by (auto simp: race_ok_def deadline_at_def)
next
  case (Some d)
  with assms have "rc_cancelled s = None \<and> rc_settled s = None" "d \<le> now" using race_open by auto
  with Some show ?thesis by (simp add: deadline_at_def cancel_race_def settle_race_def)
qed

lemma due_run: "rc_due (foldl race_step s es) = rc_due s \<or> rc_due (foldl race_step s es) = None"
proof (induction es arbitrary: s)
  case (Cons e es)
  from Cons [of "race_step s e"] due_step [of s e] show ?case by auto
qed simp

lemma due_in_run: "rc_due (foldl race_step s es) = Some d \<Longrightarrow> rc_due s = Some d"
  using due_run [of s es] by auto

lemma request_due: "rc_due (withRequestTimeout ms now p) = Some d \<Longrightarrow> d = now + ms"
  by (auto simp: withRequestTimeout_def parent_aborts_def cancel_race_def settle_race_def Let_def split: option.splits)

text \<open>Whatever the operation does, also when it ignores its signal, the request has ended by its deadline.\<close>

theorem request_ends_in_time:
  assumes "now + ms \<le> t"
  shows "rc_settled (deadline_at t (foldl race_step (withRequestTimeout ms now p) es)) \<noteq> None"
proof (rule deadline_settles)
  show "race_ok (foldl race_step (withRequestTimeout ms now p) es)" by (rule request.inv_run)
  fix d assume "rc_due (foldl race_step (withRequestTimeout ms now p) es) = Some d"
  from request_due [OF due_in_run [OF this]] assms show "d \<le> t" by simp
qed

section \<open>One operation at a time\<close>

fun owner_flies :: "owner option \<Rightarrow> (nat \<times> 'a flight) list \<Rightarrow> bool" where
  "owner_flies None m = True"
| "owner_flies (Some c) m = (\<exists>f. map_of m (on_id c) = Some f \<and> \<not> fl_aborted f)"

definition flight_ok :: "'a flight \<Rightarrow> bool" where
  "flight_ok f = (race_ok (fl_race f) \<and> (fl_aborted f \<longrightarrow> rc_settled (fl_race f) \<noteq> None))"

definition flights_ok :: "nat \<Rightarrow> owner option \<Rightarrow> (nat \<times> 'a flight) list \<Rightarrow> bool" where
  "flights_ok n c m = (\<forall>i f. map_of m i = Some f
     \<longrightarrow> i < n \<and> flight_ok f \<and> (\<not> fl_aborted f \<longrightarrow> map_option on_id c = Some i))"

fun shown_as :: "owner option \<Rightarrow> bool \<Rightarrow> bool \<Rightarrow> bool" where
  "shown_as None busy mutating = (\<not> busy \<and> \<not> mutating)"
| "shown_as (Some c) busy mutating = (busy \<and> mutating = on_mutation c)"

definition editor_ok :: "'a editor \<Rightarrow> bool" where
  "editor_ok s = (owner_flies (ow_owner s) (ow_flights s) \<and> flights_ok (ow_next s) (ow_owner s) (ow_flights s)
     \<and> (if ow_active s then shown_as (ow_owner s) (ow_busy s) (ow_mutating s) else ow_owner s = None)
     \<and> under_way (ow_log s) = map_option on_id (ow_owner s) \<and> one_at_a_time (ow_log s))"

lemma flights_okI:
  "(\<And>i f. map_of m i = Some f \<Longrightarrow> i < n \<and> flight_ok f \<and> (\<not> fl_aborted f \<longrightarrow> map_option on_id c = Some i)) \<Longrightarrow> flights_ok n c m"
  by (simp add: flights_ok_def)

lemma flights_okD:
  "flights_ok n c m \<Longrightarrow> map_of m i = Some f \<Longrightarrow> i < n \<and> flight_ok f \<and> (\<not> fl_aborted f \<longrightarrow> map_option on_id c = Some i)"
  by (simp add: flights_ok_def)

lemma map_of_on_flight: "map_of (on_flight i g m) j = (if j = i then map_option g (map_of m i) else map_of m j)"
  by (auto simp: on_flight_def split: option.split)

lemma flight_abort: "flight_ok f \<Longrightarrow> flight_ok (abort_flight f)"
proof -
  assume "flight_ok f"
  then have r: "race_ok (fl_race f)" by (simp add: flight_ok_def)
  have "rc_settled (parent_aborts (Some Cancelled) (fl_race f)) \<noteq> None"
  proof (cases "rc_parent (fl_race f)")
    case True
    with race_open(2) [OF r] show ?thesis by (simp add: parent_aborts_def race_cancel)
  next
    case False
    with r show ?thesis by (auto simp: parent_aborts_def race_ok_def)
  qed
  with race_parent [OF r] show ?thesis by (simp add: flight_ok_def abort_flight_def)
qed

lemma editor_give_up:
  assumes "owner_flies (ow_owner s) (ow_flights s)" and "flights_ok (ow_next s) (ow_owner s) (ow_flights s)"
    and "under_way (ow_log s) = map_option on_id (ow_owner s)" and "one_at_a_time (ow_log s)"
  shows "ow_owner (give_up s) = None \<and> flights_ok (ow_next (give_up s)) None (ow_flights (give_up s))
    \<and> under_way (ow_log (give_up s)) = None \<and> one_at_a_time (ow_log (give_up s))"
proof (cases "ow_owner s")
  case None
  with assms show ?thesis by (simp add: give_up_def)
next
  case (Some c)
  have "flights_ok (ow_next s) None (on_flight (on_id c) abort_flight (ow_flights s))"
  proof (rule flights_okI)
    fix i f assume f: "map_of (on_flight (on_id c) abort_flight (ow_flights s)) i = Some f"
    then obtain g where g: "map_of (ow_flights s) i = Some g" "f = (if i = on_id c then abort_flight g else g)"
      by (auto simp: map_of_on_flight split: if_splits)
    from flights_okD [OF assms(2) g(1)] g(2) Some flight_abort
    show "i < ow_next s \<and> flight_ok f \<and> (\<not> fl_aborted f \<longrightarrow> map_option on_id None = Some i)"
      by (auto simp: abort_flight_def)
  qed
  with Some assms show ?thesis by (simp add: give_up_def)
qed

lemma give_up_frame: "ow_active (give_up s) = ow_active s" "ow_busy (give_up s) = ow_busy s"
  by (simp_all add: give_up_def split: option.split)

lemma editor_close: "editor_ok s \<Longrightarrow> editor_ok (editor_closed s)"
  using editor_give_up [of "s\<lparr>ow_active := False\<rparr>"] by (simp add: editor_ok_def editor_closed_def give_up_frame)

lemma editor_cancel: "editor_ok s \<Longrightarrow> editor_ok (cancelRead s)"
  using editor_give_up [of s] by (cases "ow_active s") (auto simp: editor_ok_def cancelRead_def give_up_frame split: option.split)

lemma editor_run:
  assumes s: "editor_ok s"
  shows "editor_ok (run_owned name mutation now s)"
proof (cases "\<not> ow_active s \<or> ow_owner s \<noteq> None")
  case True
  with s show ?thesis by (auto simp: run_owned_def)
next
  case False
  let ?n = "ow_next s" and ?c = "\<lparr>on_id = ow_next s, on_mutation = mutation, on_name = name\<rparr>"
  let ?m = "assign ?n \<lparr>fl_aborted = False, fl_race = withRequestTimeout 20000 now None\<rparr> (ow_flights s)"
  from s have f: "flights_ok ?n None (ow_flights s)" using False by (simp add: editor_ok_def)
  have "flights_ok (?n + 1) (Some ?c) ?m"
    by (rule flights_okI) (auto simp: flight_ok_def race_start split: if_splits dest!: flights_okD [OF f])
  with s False show ?thesis by (auto simp: editor_ok_def run_owned_def Let_def)
qed

lemma editor_flight:
  assumes s: "editor_ok s" and g: "\<And>f. flight_ok f \<Longrightarrow> flight_ok (g f)" "\<And>f. fl_aborted (g f) = fl_aborted f"
  shows "editor_ok (s\<lparr>ow_flights := on_flight i g (ow_flights s)\<rparr>)"
proof -
  from s have f: "flights_ok (ow_next s) (ow_owner s) (ow_flights s)" by (simp add: editor_ok_def)
  have "flights_ok (ow_next s) (ow_owner s) (on_flight i g (ow_flights s))"
  proof (rule flights_okI)
    fix j h assume "map_of (on_flight i g (ow_flights s)) j = Some h"
    then obtain k where k: "map_of (ow_flights s) j = Some k" "h = k \<or> h = g k"
      by (auto simp: map_of_on_flight split: if_splits)
    with flights_okD [OF f k(1)] g show "j < ow_next s \<and> flight_ok h \<and> (\<not> fl_aborted h \<longrightarrow> map_option on_id (ow_owner s) = Some j)"
      by auto
  qed
  moreover have "owner_flies (ow_owner s) (on_flight i g (ow_flights s))"
    using s g(2) by (cases "ow_owner s") (auto simp: editor_ok_def map_of_on_flight)
  ultimately show ?thesis using s by (simp add: editor_ok_def)
qed

lemma flight_step: "flight_ok f \<Longrightarrow> flight_ok (f\<lparr>fl_race := race_step (fl_race f) e\<rparr>)"
  using settled_stays [of "fl_race f"] by (auto simp: flight_ok_def race_step_ok)

text \<open>What is delivered while the operation is owned ends it; anything else changes nothing.\<close>

lemma deliver_owned:
  assumes "owns i s" and "map_of (ow_flights s) i = Some f" and "rc_settled (fl_race f) = Some r"
  obtains e m where "deliver w i s = s\<lparr>ow_owner := None, ow_busy := False, ow_mutating := False,
      ow_message := m, ow_log := e # ow_log s, ow_flights := erase i (ow_flights s)\<rparr>"
    and "(\<exists>v. e = Applied i v \<and> r = Inr v) \<or> (\<exists>x. e = Reported i x)"
proof -
  from assms(1) obtain c where c: "ow_owner s = Some c" "on_id c = i" "ow_active s" by (auto simp: owns_def)
  have rep: "deliver w i s = s\<lparr>ow_owner := None, ow_busy := False, ow_mutating := False,
      ow_message := failure_notice (on_name c) (on_mutation c) x, ow_log := Reported i x # ow_log s, ow_flights := erase i (ow_flights s)\<rparr>"
    if "r = Inl x \<or> (\<exists>v. r = Inr v \<and> w v = Some x)" for x
    using that assms c by (auto simp: deliver_def report_failure_def finish_owned_def)
  show thesis
  proof (cases r)
    case (Inl x)
    then show thesis by (intro that [OF rep]) auto
  next
    case (Inr v)
    show thesis
    proof (cases "w v")
      case None
      have "deliver w i s = s\<lparr>ow_owner := None, ow_busy := False, ow_mutating := False,
          ow_message := ow_message s, ow_log := Applied i v # ow_log s, ow_flights := erase i (ow_flights s)\<rparr>"
        using Inr None assms c by (simp add: deliver_def finish_owned_def)
      from that [OF this] Inr show thesis by simp
    next
      case (Some x)
      with Inr show thesis by (intro that [OF rep]) auto
    qed
  qed
qed

lemma deliver_lost:
  assumes "\<not> owns i s" and "map_of (ow_flights s) i = Some f" and "rc_settled (fl_race f) = Some r"
    and "map_option on_id (ow_owner s) \<noteq> Some i"
  shows "deliver w i s = s\<lparr>ow_flights := erase i (ow_flights s)\<rparr>"
  using assms by (auto simp: deliver_def report_failure_def finish_owned_def split: sum.split option.split)

lemma owned_iff:
  "editor_ok s \<Longrightarrow> owns i s = (map_option on_id (ow_owner s) = Some i)"
  by (auto simp: editor_ok_def owns_def split: if_splits option.split)

lemma editor_deliver:
  assumes s: "editor_ok s"
  shows "editor_ok (deliver w i s)"
proof (cases "\<exists>f r. map_of (ow_flights s) i = Some f \<and> rc_settled (fl_race f) = Some r")
  case False
  with s show ?thesis by (auto simp: deliver_def split: option.split)
next
  case True
  then obtain f r where f: "map_of (ow_flights s) i = Some f" "rc_settled (fl_race f) = Some r" by blast
  from s have fl: "flights_ok (ow_next s) (ow_owner s) (ow_flights s)" by (simp add: editor_ok_def)
  show ?thesis
  proof (cases "owns i s")
    case True
    obtain e m where e: "deliver w i s = s\<lparr>ow_owner := None, ow_busy := False, ow_mutating := False,
        ow_message := m, ow_log := e # ow_log s, ow_flights := erase i (ow_flights s)\<rparr>"
      "(\<exists>v. e = Applied i v \<and> r = Inr v) \<or> (\<exists>x. e = Reported i x)"
      by (rule deliver_owned [OF True f])
    have "flights_ok (ow_next s) None (erase i (ow_flights s))"
      by (rule flights_okI) (use True in \<open>auto simp: owned_iff [OF s] split: if_splits dest!: flights_okD [OF fl]\<close>)
    with e(2) s True show ?thesis unfolding e(1) by (auto simp: editor_ok_def owned_iff [OF s])
  next
    case False
    then have no: "map_option on_id (ow_owner s) \<noteq> Some i" by (simp add: owned_iff [OF s])
    have "flights_ok (ow_next s) (ow_owner s) (erase i (ow_flights s))"
      by (rule flights_okI) (auto split: if_splits dest!: flights_okD [OF fl])
    moreover have "owner_flies (ow_owner s) (erase i (ow_flights s))"
      using s no by (cases "ow_owner s") (auto simp: editor_ok_def)
    ultimately show ?thesis using s unfolding deliver_lost [OF False f no] by (simp add: editor_ok_def)
  qed
qed

lemma editor_step_ok: "editor_ok s \<Longrightarrow> editor_ok (editor_step w s e)"
proof (cases e)
  case (InFlight i x)
  assume s: "editor_ok s"
  have "editor_ok (s\<lparr>ow_flights := on_flight i (\<lambda>f. f\<lparr>fl_race := race_step (fl_race f) x\<rparr>) (ow_flights s)\<rparr>)"
    by (rule editor_flight [OF s flight_step]) simp_all
  with InFlight s show ?thesis by (cases x) simp_all
qed (simp_all add: editor_run editor_deliver editor_cancel editor_close)

lemma editor_start: "editor_ok useOwnedRequest"
  by (simp add: editor_ok_def useOwnedRequest_def flights_ok_def)

interpretation editor: machine useOwnedRequest "editor_step w" editor_ok for w
  by unfold_locales (rule editor_start, erule editor_step_ok)

text \<open>The editor has one operation at a time: what it writes or reports belongs to the operation that is
  under way, and it shows itself busy exactly while there is one.\<close>

theorem one_operation_at_a_time:
  "one_at_a_time (ow_log (foldl (editor_step w) useOwnedRequest es))
    \<and> (ow_active (foldl (editor_step w) useOwnedRequest es)
        \<longrightarrow> ow_busy (foldl (editor_step w) useOwnedRequest es) = (under_way (ow_log (foldl (editor_step w) useOwnedRequest es)) \<noteq> None))"
proof -
  define s where "s = foldl (editor_step w) useOwnedRequest es"
  have "editor_ok s" unfolding s_def by (rule editor.inv_run)
  then show ?thesis unfolding s_def [symmetric] by (cases "ow_owner s") (auto simp: editor_ok_def)
qed

section \<open>No editor stays busy\<close>

text \<open>Every flight is due at most 20 s after its operation began.\<close>

definition due_by :: "nat \<Rightarrow> int \<Rightarrow> 'a editor \<Rightarrow> bool" where
  "due_by i t s = (i < ow_next s \<and> (\<forall>f d. map_of (ow_flights s) i = Some f \<longrightarrow> rc_due (fl_race f) = Some d \<longrightarrow> d \<le> t))"

lemma due_by_frame:
  assumes "due_by i t s" and "ow_next s \<le> ow_next s'"
    and "\<And>f. map_of (ow_flights s') i = Some f \<Longrightarrow> \<exists>g. map_of (ow_flights s) i = Some g \<and> (rc_due (fl_race f) = rc_due (fl_race g) \<or> rc_due (fl_race f) = None)"
  shows "due_by i t s'"
  using assms by (fastforce simp: due_by_def)

lemma due_parent: "rc_due (parent_aborts r s) = rc_due s \<or> rc_due (parent_aborts r s) = None"
  by (auto simp: parent_aborts_def cancel_race_def settle_race_def)

lemma due_give_up: "due_by i t s \<Longrightarrow> due_by i t (give_up s)"
  by (rule due_by_frame) (auto simp: give_up_def map_of_on_flight abort_flight_def due_parent split: option.splits if_splits)

lemma deliver_frame:
  "ow_next (deliver w j s) = ow_next s"
  "map_of (ow_flights (deliver w j s)) i = Some f \<Longrightarrow> map_of (ow_flights s) i = Some f"
  by (auto simp: deliver_def report_failure_def finish_owned_def Let_def split: option.splits sum.splits if_splits)

lemma due_editor_step:
  assumes "due_by i t s"
  shows "due_by i t (editor_step w s e)"
proof (cases e)
  case (Run name mutation now)
  with assms show ?thesis by (auto simp: run_owned_def due_by_def Let_def split: if_splits)
next
  case (InFlight j x)
  have "due_by i t (s\<lparr>ow_flights := on_flight j (\<lambda>f. f\<lparr>fl_race := race_step (fl_race f) x\<rparr>) (ow_flights s)\<rparr>)"
    by (rule due_by_frame [OF assms]) (auto simp: map_of_on_flight due_step split: if_splits)
  with InFlight assms show ?thesis by (cases x) simp_all
next
  case (Deliver j)
  show ?thesis by (rule due_by_frame [OF assms]) (use Deliver in \<open>auto simp: deliver_frame(1) dest: deliver_frame(2)\<close>)
next
  case CancelRead
  have "due_by i t (give_up s)" by (rule due_give_up [OF assms])
  with assms CancelRead show ?thesis by (simp add: cancelRead_def due_by_def split: option.split)
next
  case CloseEditor
  have "due_by i t (s\<lparr>ow_active := False\<rparr>)" using assms by (simp add: due_by_def)
  from due_give_up [OF this] CloseEditor show ?thesis by (simp add: editor_closed_def)
qed

lemma deliver_releases:
  assumes s: "editor_ok s" and f: "\<And>f. map_of (ow_flights s) i = Some f \<Longrightarrow> rc_settled (fl_race f) \<noteq> None"
  shows "map_option on_id (ow_owner (deliver w i s)) \<noteq> Some i"
proof (cases "owns i s")
  case True
  then obtain g where g: "map_of (ow_flights s) i = Some g" by (auto simp: owns_def split: option.splits)
  with f obtain r where "rc_settled (fl_race g) = Some r" by blast
  from deliver_owned [OF True g this, where w = w] show ?thesis by (rule) simp
next
  case False
  then have no: "map_option on_id (ow_owner s) \<noteq> Some i" by (simp add: owned_iff [OF s])
  with False show ?thesis
    by (auto simp: deliver_def report_failure_def finish_owned_def Let_def split: option.splits sum.splits)
qed

text \<open>An editor that waits is released: once the request it began has passed its deadline of 20 s, the end of the
  request is delivered and the editor no longer waits for it.\<close>

theorem editor_released_in_time:
  assumes "ow_active (foldl (editor_step w) useOwnedRequest es)" and "ow_owner (foldl (editor_step w) useOwnedRequest es) = None"
    and "now + 20000 \<le> t"
  shows "map_option on_id (ow_owner (foldl (editor_step w) useOwnedRequest
      (es @ Run name mutation now # es' @ [InFlight (ow_next (foldl (editor_step w) useOwnedRequest es)) (DeadlineAt t),
         Deliver (ow_next (foldl (editor_step w) useOwnedRequest es))])))
    \<noteq> Some (ow_next (foldl (editor_step w) useOwnedRequest es))"
proof -
  define s where "s = foldl (editor_step w) useOwnedRequest es"
  define i where "i = ow_next s"
  define u where "u = foldl (editor_step w) s (Run name mutation now # es')"
  have s: "editor_ok s" unfolding s_def by (rule editor.inv_run)
  have u: "editor_ok u" unfolding u_def by (rule editor.inv_run_from [OF s])
  have "due_by i (now + 20000) (editor_step w s (Run name mutation now))"
    using assms(1,2) unfolding s_def [symmetric] by (auto simp: due_by_def run_owned_def i_def Let_def dest: request_due)
  then have d: "due_by i (now + 20000) u"
    unfolding u_def by (induction es' rule: rev_induct) (auto intro: due_editor_step)
  let ?v = "editor_step w u (InFlight i (DeadlineAt t))"
  have v: "editor_ok ?v" by (rule editor_step_ok [OF u])
  have "rc_settled (fl_race f) \<noteq> None" if f: "map_of (ow_flights ?v) i = Some f" for f
  proof -
    from f obtain g where g: "map_of (ow_flights u) i = Some g" "fl_race f = deadline_at t (fl_race g)"
      by (auto simp: map_of_on_flight)
    have "flight_ok g" using u g(1) flights_okD by (fastforce simp: editor_ok_def)
    moreover have "e \<le> t" if "rc_due (fl_race g) = Some e" for e
      using that d g(1) assms(3) by (auto simp: due_by_def)
    ultimately show ?thesis unfolding g(2) by (intro deadline_settles) (simp_all add: flight_ok_def)
  qed
  from deliver_releases [OF v this, where w = w] show ?thesis unfolding s_def [symmetric] i_def [symmetric] by (simp add: u_def s_def i_def)
qed

section \<open>Polling\<close>

definition may_read :: "polling \<Rightarrow> bool" where
  "may_read s = (\<not> pl_stopped s \<and> \<not> pl_paused s \<and> pl_visible s)"

definition only_request :: "nat \<Rightarrow> nat option \<Rightarrow> (nat \<times> bool) list \<Rightarrow> bool" where
  "only_request n r tasks = ((\<forall>i b. map_of tasks i = Some b \<longrightarrow> i < n \<and> b = (r \<noteq> Some i))
     \<and> (case r of None \<Rightarrow> True | Some i \<Rightarrow> map_of tasks i = Some False))"

definition polling_ok :: "polling \<Rightarrow> bool" where
  "polling_ok s = (only_request (pl_next s) (pl_request s) (pl_tasks s)
     \<and> (if may_read s then pl_timer s = (pl_request s = None) else \<not> pl_timer s \<and> pl_request s = None))"

lemma only_cancel: "only_request n r tasks \<Longrightarrow> only_request n None (case r of None \<Rightarrow> tasks | Some i \<Rightarrow> assign i True tasks)"
  by (auto simp: only_request_def split: option.splits)

lemma only_begin: "only_request n None tasks \<Longrightarrow> only_request (n + 1) (Some n) (assign n False tasks)"
  by (fastforce simp: only_request_def less_Suc_eq)

lemma only_end: "only_request n r tasks \<Longrightarrow> only_request n (if r = Some i then None else r) (erase i tasks)"
  by (auto simp: only_request_def split: option.splits)

lemma polling_cancelled:
  "only_request (pl_next s) (pl_request s) (pl_tasks s) \<Longrightarrow> \<not> may_read s \<Longrightarrow> polling_ok (cancel_polling s)"
  using only_cancel [of "pl_next s" "pl_request s" "pl_tasks s"] by (simp add: polling_ok_def cancel_polling_def may_read_def)

lemma polling_refreshed:
  assumes "only_request (pl_next s) (pl_request s) (pl_tasks s)" and "pl_request s \<noteq> None \<Longrightarrow> may_read s \<and> \<not> pl_timer s"
    and "\<not> may_read s \<Longrightarrow> \<not> pl_timer s"
  shows "polling_ok (refresh_polling s)"
  using assms only_begin [of "pl_next s" "pl_tasks s"] by (auto simp: polling_ok_def refresh_polling_def may_read_def)

lemma polling_task:
  assumes "polling_ok s"
  shows "polling_ok (task_ends i s)"
  using assms only_end [of "pl_next s" "pl_request s" "pl_tasks s" i]
  by (auto simp: polling_ok_def task_ends_def may_read_def Let_def split: if_splits)

lemma polling_step_ok:
  assumes "polling_ok s"
  shows "polling_ok (polling_step s e)"
proof -
  from assms have o: "only_request (pl_next s) (pl_request s) (pl_tasks s)" by (simp add: polling_ok_def)
  show ?thesis
  proof (cases e)
    case (PageVisible v)
    have "polling_ok (polling_visibility (s\<lparr>pl_visible := v\<rparr>))"
    proof (cases "pl_stopped s")
      case True
      with assms show ?thesis by (auto simp: polling_visibility_def polling_ok_def may_read_def)
    next
      case False
      show ?thesis
      proof (cases v)
        case True
        have "polling_ok (refresh_polling (s\<lparr>pl_visible := v\<rparr>))"
          by (rule polling_refreshed) (use assms True False in \<open>auto simp: polling_ok_def may_read_def split: if_splits\<close>)
        with True False show ?thesis by (simp add: polling_visibility_def)
      next
        case False
        have "polling_ok (cancel_polling (s\<lparr>pl_visible := v\<rparr>))"
          by (rule polling_cancelled) (use o False in \<open>simp_all add: may_read_def\<close>)
        with False \<open>\<not> pl_stopped s\<close> show ?thesis by (simp add: polling_visibility_def)
      qed
    qed
    with PageVisible show ?thesis by simp
  next
    case (TaskEnds i)
    with polling_task [OF assms] show ?thesis by simp
  next
    case PausePolling
    have "polling_ok (cancel_polling (s\<lparr>pl_paused := True\<rparr>))" by (rule polling_cancelled) (use o in \<open>simp_all add: may_read_def\<close>)
    with PausePolling show ?thesis by (simp add: polling_pause_def)
  next
    case StopPolling
    have "polling_ok (cancel_polling (s\<lparr>pl_stopped := True\<rparr>))" by (rule polling_cancelled) (use o in \<open>simp_all add: may_read_def\<close>)
    with StopPolling show ?thesis by (simp add: polling_stop_def)
  next
    case ResumePolling
    have "polling_ok (refresh_polling (s\<lparr>pl_paused := False\<rparr>))"
      by (rule polling_refreshed) (use assms in \<open>auto simp: polling_ok_def may_read_def split: if_splits\<close>)
    with ResumePolling show ?thesis by (simp add: polling_resume_def)
  next
    case PollingTimer
    have "polling_ok (refresh_polling (s\<lparr>pl_timer := False\<rparr>))"
      by (rule polling_refreshed) (use assms in \<open>auto simp: polling_ok_def may_read_def split: if_splits\<close>)
    with PollingTimer assms show ?thesis by (simp add: polling_timer_def)
  next
    case RefreshPolling
    have "polling_ok (refresh_polling s)"
      by (rule polling_refreshed) (use assms in \<open>auto simp: polling_ok_def may_read_def split: if_splits\<close>)
    with RefreshPolling show ?thesis by simp
  next
    case FocusOrOnline
    have "polling_ok (refresh_polling s)"
      by (rule polling_refreshed) (use assms in \<open>auto simp: polling_ok_def may_read_def split: if_splits\<close>)
    moreover have "polling_ok (cancel_polling s)" if "\<not> pl_visible s"
      by (rule polling_cancelled) (use o that in \<open>simp_all add: may_read_def\<close>)
    ultimately show ?thesis using assms FocusOrOnline by (simp add: polling_visibility_def)
  qed
qed

lemma polling_start: "polling_ok (startVisiblePolling v)"
  by (auto simp: startVisiblePolling_def refresh_polling_def polling_ok_def may_read_def only_request_def)

interpretation polling: machine "startVisiblePolling visible" polling_step polling_ok for visible
  by unfold_locales (rule polling_start, erule polling_step_ok)

text \<open>C16. Polling reads once at a time and only while it may: while the page is visible a read is under way or the
  next one is scheduled, and otherwise every read that has begun is cancelled and none is scheduled.\<close>

theorem polling_lives:
  "(if may_read (foldl polling_step (startVisiblePolling visible) es)
    then pl_timer (foldl polling_step (startVisiblePolling visible) es)
          = (pl_request (foldl polling_step (startVisiblePolling visible) es) = None)
    else \<not> pl_timer (foldl polling_step (startVisiblePolling visible) es)
       \<and> (\<forall>i. map_of (pl_tasks (foldl polling_step (startVisiblePolling visible) es)) i \<noteq> Some False))"
proof -
  define s where "s = foldl polling_step (startVisiblePolling visible) es"
  have "polling_ok s" unfolding s_def by (rule polling.inv_run)
  then show ?thesis unfolding s_def [symmetric] by (cases "may_read s") (fastforce simp: polling_ok_def only_request_def)+
qed

end
