(* ===== verification/MonitorStore.thy ===== *)
theory MonitorStore
  imports ConfigLaws PreferenceMerge
begin

text \<open>
  The monitor preferences of an account in the private store (\<open>localRuntime.ts\<close>: \<open>cacheMonitorView\<close>,
  \<open>persistMonitorView\<close>, \<open>loadMonitorView\<close>).  A save first keeps the document as pending and then asks the
  account service, so that a save that failed is found by the next load.  The chain \<open>monitorViewWrites\<close>
  makes every save wait for the one before, so saves and loads are functions of the browser; the
  save and the write to the cache that run side by side touch different parts of it.
\<close>

section \<open>The cached document\<close>

definition monitor_kinds :: "jsv list" where
  "monitor_kinds = map JStr [''monitor-view-v1'', ''monitor-view-v2'', ''monitor-view-v3'', ''monitor-view-v4'']"

definition cached_document :: "jsv \<Rightarrow> bool \<Rightarrow> jsv option \<Rightarrow> jsv" where
  "cached_document view waiting baseValue = JObj ([(''kind'', JStr ''monitor-view-v4''), (''view'', view), (''pending'', JBool waiting)]
     @ (case baseValue of None \<Rightarrow> [] | Some b \<Rightarrow> [(''baseValue'', b)]))"

text \<open>A value that cannot be sealed is not cached, and the save goes on.\<close>

definition cacheMonitorView :: "config_env \<Rightarrow> jsv \<Rightarrow> bool \<Rightarrow> bool \<Rightarrow> jsv option \<Rightarrow> browser \<Rightarrow> browser" where
  "cacheMonitorView env view waiting aborted baseValue w =
     (if aborted then w
      else case encrypt (env_num env) id (cached_document view waiting baseValue) (env_now env + LEASE_MS) of
             Inl _ \<Rightarrow> w
           | Inr r \<Rightarrow> w\<lparr>bs_store := (bs_store w)\<lparr>st_monitor := Some r\<rparr>\<rparr>)"

definition monitor_request :: "(rat \<Rightarrow> string) \<Rightarrow> jsv \<Rightarrow> jsv option \<Rightarrow> jsv" where
  "monitor_request num v baseValue =
     (case baseValue of
        Some b \<Rightarrow> if truthy b then compactMonitorPreference num v b else JObj [(''value'', v)]
      | None \<Rightarrow> JObj [(''value'', v)])"

text \<open>The promise of the saved document; \<open>None\<close> is a rejection.\<close>

definition persistMonitorView :: "config_env \<Rightarrow> jsv \<Rightarrow> bool \<Rightarrow> jsv option \<Rightarrow> browser \<Rightarrow> monitor_view option \<times> browser" where
  "persistMonitorView env snapshot aborted baseValue w =
     (if aborted then (None, w)
      else case writeAccountPreference MonitorViewPref snapshot True (cacheMonitorView env snapshot True False baseValue w) of
             (None, w) \<Rightarrow> (None, w)
           | (Some v, w) \<Rightarrow>
               let saved = normalizeMonitorView v 16 None
               in (Some saved, cacheMonitorView env (js_of_view saved) False False (Some (js_of_view saved)) w))"

definition saveMonitorView :: "config_env \<Rightarrow> jsv \<Rightarrow> jsv option \<Rightarrow> browser \<Rightarrow> monitor_view option \<times> browser" where
  "saveMonitorView env view baseValue w =
     persistMonitorView env view False (case baseValue of Some b \<Rightarrow> if truthy b then Some b else None | None \<Rightarrow> None) w"

section \<open>Loading\<close>

text \<open>\<open>lv_base\<close> is \<open>None\<close> for \<open>undefined\<close>; the document and the base may be \<open>null\<close>.\<close>

record monitor_load =
  lv_view :: jsv
  lv_base :: "jsv option"
  lv_pending :: bool

definition readable_document :: "jsv \<Rightarrow> bool" where
  "readable_document c = (field c ''kind'' \<in> set monitor_kinds \<and> is_obj (field c ''view''))"

definition cached_monitor :: "config_env \<Rightarrow> browser \<Rightarrow> jsv option" where
  "cached_monitor env w =
     (case load_sealed (env_now env) (st_monitor (bs_store w)) of
        None \<Rightarrow> None
      | Some c \<Rightarrow> if truthy c \<and> readable_document c then Some c else None)"

definition cached_base :: "jsv \<Rightarrow> jsv option" where
  "cached_base c = (if truthy (field c ''baseValue'') then Some (js_of_view (normalizeMonitorView (field c ''baseValue'') 16 None)) else None)"

definition loaded_from :: "monitor_view \<Rightarrow> monitor_load" where
  "loaded_from saved = \<lparr>lv_view = js_of_view saved, lv_base = Some (js_of_view saved), lv_pending = False\<rparr>"

definition retry_pending :: "config_env \<Rightarrow> bool \<Rightarrow> jsv \<Rightarrow> browser \<Rightarrow> monitor_load option \<times> browser" where
  "retry_pending env remoteOnly c w =
     (case saveMonitorView env (field c ''view'') (cached_base c) w of
        (Some saved, w) \<Rightarrow> (Some (loaded_from saved), w)
      | (None, w) \<Rightarrow>
          (if remoteOnly then None
           else Some \<lparr>lv_view = field c ''view'', lv_base = cached_base c, lv_pending = True\<rparr>, w))"

definition default_base :: jsv where
  "default_base = js_of_view (normalizeMonitorView JNull 16 None)"

text \<open>A document cached before accounts kept preferences is moved to the account.\<close>

definition migrate_cached :: "config_env \<Rightarrow> jsv \<Rightarrow> browser \<Rightarrow> monitor_load option \<times> browser" where
  "migrate_cached env c w =
     (case saveMonitorView env (field c ''view'') (Some default_base) w of
        (Some saved, w) \<Rightarrow> (Some (loaded_from saved), w)
      | (None, w) \<Rightarrow> (Some \<lparr>lv_view = field c ''view'', lv_base = Some default_base, lv_pending = True\<rparr>, w))"

definition nothing_stored :: monitor_load where
  "nothing_stored = \<lparr>lv_view = JNull, lv_base = Some JNull, lv_pending = False\<rparr>"

definition view_of_cache :: "jsv option \<Rightarrow> monitor_load" where
  "view_of_cache cached = (case cached of
     None \<Rightarrow> nothing_stored
   | Some c \<Rightarrow> \<lparr>lv_view = field c ''view'', lv_base = Some (field c ''view''), lv_pending = False\<rparr>)"

definition load_remote :: "config_env \<Rightarrow> bool \<Rightarrow> bool \<Rightarrow> jsv option \<Rightarrow> remote_pref \<Rightarrow> browser \<Rightarrow> monitor_load option \<times> browser" where
  "load_remote env remoteOnly requireAccount cached remote w =
     (case remote of
        RemoteValue v \<Rightarrow>
          if truthy v then (Some \<lparr>lv_view = v, lv_base = Some v, lv_pending = False\<rparr>, w)
          else if remoteOnly then (Some nothing_stored, w)
          else (Some (view_of_cache cached), w)
      | RemoteUnknown \<Rightarrow>
          if requireAccount \<and> cached = None then (None, w)
          else if remoteOnly then (None, w)
          else (Some (view_of_cache cached), w)
      | RemoteNull \<Rightarrow>
          if remoteOnly then (Some nothing_stored, w)
          else if MonitorViewPref \<in> set (bs_migrated w) then (Some nothing_stored, w)
          else case cached of None \<Rightarrow> (Some nothing_stored, w) | Some c \<Rightarrow> migrate_cached env c w)"

text \<open>\<open>None\<close> is the error that the preferences could not be read.\<close>

definition loadMonitorView :: "config_env \<Rightarrow> bool \<Rightarrow> bool \<Rightarrow> browser \<Rightarrow> monitor_load option \<times> browser" where
  "loadMonitorView env remoteOnly requireAccount w =
     (let cached = cached_monitor env w
      in case cached of
           Some c \<Rightarrow>
             if truthy (field c ''pending'') then retry_pending env remoteOnly c w
             else (case readAccountPreference w of (remote, w) \<Rightarrow> load_remote env remoteOnly requireAccount cached remote w)
         | None \<Rightarrow> (case readAccountPreference w of (remote, w) \<Rightarrow> load_remote env remoteOnly requireAccount None remote w))"

section \<open>What is not lost\<close>

definition cacheable :: "config_env \<Rightarrow> jsv \<Rightarrow> bool \<Rightarrow> jsv option \<Rightarrow> bool" where
  "cacheable env v waiting b = assertRedacted (env_num env) (cached_document v waiting b)"

lemma document_fields [simp]:
  "field (cached_document v p b) ''view'' = v" "field (cached_document v p b) ''pending'' = JBool p"
  "field (cached_document v p b) ''kind'' = JStr ''monitor-view-v4''"
  "field (cached_document v p b) ''baseValue'' = (case b of None \<Rightarrow> JUndef | Some x \<Rightarrow> x)"
  by (simp_all add: cached_document_def field_def split: option.split)

lemma readable_cached [simp]: "is_obj v \<Longrightarrow> readable_document (cached_document v p b)"
  by (simp add: readable_document_def monitor_kinds_def)

lemma truthy_document [simp]: "truthy (cached_document v p b)"
  by (simp add: cached_document_def)

lemma is_obj_view [simp]: "is_obj (js_of_view v)"
  by (simp add: js_of_view_def)

lemma cached_after:
  assumes "cacheable env v p b" and "is_obj v" and "env_now env' < env_now env + LEASE_MS"
  shows "cached_monitor env' (cacheMonitorView env v p False b w) = Some (cached_document v p b)"
  using assms by (simp add: cached_monitor_def cacheMonitorView_def cacheable_def encrypt_def load_sealed_def)

lemma write_keeps_cache: "st_monitor (bs_store (snd (writeAccountPreference k v strict w))) = st_monitor (bs_store w)"
  by simp

lemma cached_after_write: "cached_monitor env (snd (writeAccountPreference k v strict w)) = cached_monitor env w"
  by (simp add: cached_monitor_def write_keeps_cache)

lemma failed_save:
  assumes "persistMonitorView env v False b w = (None, w')"
  shows "w' = snd (writeAccountPreference MonitorViewPref v True (cacheMonitorView env v True False b w))"
  using assms by (auto simp: persistMonitorView_def Let_def split: prod.splits option.splits)

lemma pending_after_failure:
  assumes "persistMonitorView env v False b w = (None, w')" and "cacheable env v True b" and "is_obj v"
    and "env_now env' < env_now env + LEASE_MS"
  shows "cached_monitor env' w' = Some (cached_document v True b)"
  using failed_save [OF assms(1)] cached_after [OF assms(2-4)] by (simp add: cached_after_write)


lemma cache_net [simp]: "bs_net (cacheMonitorView env v p a b w) = bs_net w"
  by (simp add: cacheMonitorView_def split: sum.split)

lemma save_unreachable: "bs_net w = [] \<Longrightarrow> fst (persistMonitorView env v False b w) = None \<and> bs_net (snd (persistMonitorView env v False b w)) = []"
  by (simp add: persistMonitorView_def writeAccountPreference_def next_reply_def)

definition offline_env :: config_env where
  "offline_env = \<lparr>env_num = (\<lambda>_. ''7''), env_now = 0, env_forever = 0\<rparr>"

definition offline_browser :: browser where
  "offline_browser = \<lparr>bs_store = empty_store, bs_migrated = [], bs_net = []\<rparr>"

definition edited_view :: jsv where
  "edited_view = JObj [(''mode'', JStr ''grid'')]"


text \<open>Defaults are never taken for preferences that could not be read.\<close>

theorem unread_preferences_are_not_defaults:
  assumes "cached_monitor env w = None" and "fst (readAccountPreference w) = RemoteUnknown"
  shows "fst (loadMonitorView env remoteOnly True w) = None"
proof -
  obtain w' where "readAccountPreference w = (RemoteUnknown, w')" using assms(2) by (cases "readAccountPreference w") auto
  then show ?thesis using assms(1) by (simp add: loadMonitorView_def load_remote_def)
qed

lemma js_view_ok: "view_ok 16 None s \<Longrightarrow> normalizeMonitorView (js_of_view s) 16 None = s"
  by (rule normalize_ok_id)

text \<open>What was saved is read again when the service cannot be reached.\<close>

theorem saved_view_is_read_offline:
  assumes saved: "persistMonitorView env v False b w = (Some s, w')"
    and "cacheable env (js_of_view s) False (Some (js_of_view s))"
    and "env_now env' < env_now env + LEASE_MS" and "bs_net w' = []"
  shows "\<exists>l. fst (loadMonitorView env' False requireAccount w') = Some l \<and> \<not> lv_pending l
    \<and> normalizeMonitorView (lv_view l) 16 None = s"
proof -
  from saved have w: "w' = cacheMonitorView env (js_of_view s) False False (Some (js_of_view s))
      (snd (writeAccountPreference MonitorViewPref v True (cacheMonitorView env v True False b w)))"
    and s: "view_ok 16 None s"
    by (auto simp: persistMonitorView_def Let_def normalized_view_ok' split: prod.splits option.splits)
  have c: "cached_monitor env' w' = Some (cached_document (js_of_view s) False (Some (js_of_view s)))"
    unfolding w by (rule cached_after [OF assms(2)]) (simp_all add: assms(3))
  have r: "readAccountPreference w' = (RemoteUnknown, w')"
    using assms(4) by (simp add: readAccountPreference_def next_reply_def)
  show ?thesis using c r s by (simp add: loadMonitorView_def load_remote_def view_of_cache_def js_view_ok)
qed

end
