(* ===== verification/Preferences.thy ===== *)
theory Preferences
  imports PreferenceMerge
begin

text \<open>
  The editor of the monitor preferences (\<open>useMonitorPreferences.ts\<close>): it loads the account's document,
  keeps every edit at once, saves it 250 ms after the last one, merges the answer with newer edits,
  reads the document again every 5 s and saves what is left when the page is hidden.  The texts that
  the code compares are the documents themselves here, the empty text being \<open>None\<close>; React's effects
  run with the event that causes them.  Timers that fire and promises that settle are events; the saves
  wait in the chain \<open>monitorViewWrites\<close> and end in its order.
\<close>

record pref_save =
  ps_view :: monitor_view
  ps_generation :: nat
  ps_flush :: bool

datatype pref_notice = PrefFine | PrefSaveFailed | PrefLoadFailed

text \<open>
  \<open>mp_armed\<close> is whether the timer runs, \<open>mp_timerRef\<close> whether \<open>timer.current\<close> is set: a timer that an
  effect has cleared stays referenced.  \<open>mp_reading\<close> is the read of a refresh with the document before it
  and the number of saves it waits for.  \<open>mp_excused\<close> records, since the last load, that a refresh was
  answered while a save was under way, or that the page was hidden with an unsaved edit.
\<close>

record prefs =
  mp_latest :: monitor_view
  mp_baseline :: "monitor_view option"
  mp_lastQueued :: "monitor_view option"
  mp_lastSaved :: "monitor_view option"
  mp_generation :: nat
  mp_loaded :: bool
  mp_restored :: bool
  mp_loading :: bool
  mp_mounted :: bool
  mp_clearing :: bool
  mp_compact :: bool
  mp_skipLoad :: bool
  mp_error :: pref_notice
  mp_armed :: bool
  mp_timerRef :: bool
  mp_reading :: "(monitor_view \<times> nat) option"
  mp_saves :: "pref_save list"
  mp_excused :: bool

definition useMonitorPreferences :: "bool \<Rightarrow> bool \<Rightarrow> prefs" where
  "useMonitorPreferences narrow_page skipLoad = \<lparr>mp_latest = defaultMonitorView, mp_baseline = Some defaultMonitorView, mp_lastQueued = None,
     mp_lastSaved = None, mp_generation = 0, mp_loaded = skipLoad, mp_restored = skipLoad, mp_loading = \<not> skipLoad, mp_mounted = True,
     mp_clearing = False, mp_compact = narrow_page, mp_skipLoad = skipLoad, mp_error = PrefFine,
     mp_armed = (skipLoad \<and> \<not> narrow_page), mp_timerRef = (skipLoad \<and> \<not> narrow_page),
     mp_reading = None, mp_saves = [], mp_excused = False\<rparr>"

definition pref_writable :: "prefs \<Rightarrow> bool" where
  "pref_writable s = (mp_loaded s \<and> \<not> mp_compact s \<and> \<not> mp_skipLoad s)"

section \<open>Edits\<close>

text \<open>The effect of a new document: the timer of the last one is cleared, and a timer runs unless the document is queued.\<close>

definition view_effect :: "prefs \<Rightarrow> prefs" where
  "view_effect s =
     (let s = s\<lparr>mp_armed := False\<rparr>
      in if \<not> mp_loaded s \<or> mp_compact s \<or> mp_lastQueued s = Some (mp_latest s) then s
         else s\<lparr>mp_armed := True, mp_timerRef := True\<rparr>)"

text \<open>\<open>v\<close> is what the update gives, \<open>seed\<close> the baseline with the inherited controls of a new source.\<close>

definition setView :: "jsv \<Rightarrow> jsv option \<Rightarrow> prefs \<Rightarrow> prefs" where
  "setView v seed s =
     (if \<not> mp_loaded s \<or> mp_clearing s then s
      else let s = (case (seed, mp_baseline s) of
                      (Some b, Some _) \<Rightarrow> s\<lparr>mp_baseline := Some (normalizeMonitorView b 16 None)\<rparr> | _ \<Rightarrow> s)
           in view_effect (s\<lparr>mp_latest := normalizeMonitorView v 16 None\<rparr>))"

definition persist :: "prefs \<Rightarrow> prefs" where
  "persist s =
     (if mp_clearing s \<or> \<not> pref_writable s then s
      else let v = normalizeMonitorView (js_of_view (mp_latest s)) 16 None
           in if mp_lastQueued s = Some v then s
              else s\<lparr>mp_lastQueued := Some v, mp_generation := mp_generation s + 1,
                     mp_saves := mp_saves s @ [\<lparr>ps_view = v, ps_generation = mp_generation s + 1, ps_flush = False\<rparr>]\<rparr>)"

definition debounce_fired :: "prefs \<Rightarrow> prefs" where
  "debounce_fired s = (if mp_armed s then persist (s\<lparr>mp_armed := False, mp_timerRef := False\<rparr>) else s)"

section \<open>The end of a save\<close>

definition save_succeeded :: "(rat \<Rightarrow> string) \<Rightarrow> pref_save \<Rightarrow> monitor_view \<Rightarrow> prefs \<Rightarrow> prefs" where
  "save_succeeded num p saved s =
     (let s = s\<lparr>mp_baseline := Some saved, mp_lastQueued := Some saved, mp_lastSaved := Some saved\<rparr>;
          merged = mergeMonitorEdits num (js_of_view saved) (js_of_view (ps_view p)) (js_of_view (mp_latest s));
          s = (if merged \<noteq> mp_latest s
               then let s = s\<lparr>mp_latest := merged\<rparr> in if mp_mounted s then view_effect s else s
               else s)
      in if mp_mounted s then s\<lparr>mp_error := PrefFine\<rparr> else s)"

definition save_failed :: "pref_save \<Rightarrow> prefs \<Rightarrow> prefs" where
  "save_failed p s =
     (if mp_clearing s then s
      else let s = (if mp_lastQueued s = Some (ps_view p) then s\<lparr>mp_lastQueued := None\<rparr> else s)
           in if mp_mounted s then s\<lparr>mp_error := PrefSaveFailed\<rparr> else s)"

text \<open>The first save of the chain ends, with the document the server answered.\<close>

definition save_ended :: "(rat \<Rightarrow> string) \<Rightarrow> jsv option \<Rightarrow> prefs \<Rightarrow> prefs" where
  "save_ended num r s =
     (case mp_saves s of
        [] \<Rightarrow> s
      | p # ps \<Rightarrow>
          let s = s\<lparr>mp_saves := ps, mp_reading := map_option (\<lambda>(v, n). (v, n - 1)) (mp_reading s)\<rparr>
          in if ps_flush p \<or> ps_generation p \<noteq> mp_generation s then s
             else case r of Some v \<Rightarrow> save_succeeded num p (normalizeMonitorView v 16 None) s | None \<Rightarrow> save_failed p s)"

section \<open>Loading and refreshing\<close>

record loaded_view =
  ld_view :: jsv
  ld_base :: "jsv option"
  ld_pending :: bool

definition base_view :: "jsv option \<Rightarrow> monitor_view option" where
  "base_view b = map_option (\<lambda>v. normalizeMonitorView v 16 None) b"

definition start_load :: "prefs \<Rightarrow> prefs" where
  "start_load s =
     (if mp_skipLoad s then s\<lparr>mp_loaded := True\<rparr>
      else s\<lparr>mp_loaded := False, mp_armed := False, mp_loading := True, mp_reading := None\<rparr>)"

text \<open>A load waits for the chain, to which nothing is added while the page is loading.\<close>

definition load_ended :: "loaded_view option \<Rightarrow> prefs \<Rightarrow> prefs" where
  "load_ended r s =
     (if \<not> mp_loading s \<or> \<not> mp_mounted s \<or> mp_saves s \<noteq> [] then s
      else let s = s\<lparr>mp_loading := False\<rparr>
           in case r of
                None \<Rightarrow> s\<lparr>mp_error := PrefLoadFailed\<rparr>
              | Some l \<Rightarrow>
                  let v = normalizeMonitorView (ld_view l) 16 None
                  in view_effect (s\<lparr>mp_baseline := base_view (ld_base l), mp_latest := v,
                       mp_lastQueued := (if ld_pending l then None else Some v),
                       mp_lastSaved := (if ld_pending l then base_view (ld_base l) else Some v),
                       mp_loaded := True, mp_restored := True, mp_excused := False,
                       mp_error := (if ld_pending l then PrefSaveFailed else PrefFine)\<rparr>))"

definition pref_refresh :: "bool \<Rightarrow> prefs \<Rightarrow> prefs" where
  "pref_refresh visible s =
     (if \<not> mp_mounted s \<or> \<not> mp_loaded s \<or> mp_skipLoad s \<or> mp_clearing s \<or> mp_reading s \<noteq> None \<or> \<not> visible then s
      else if mp_lastSaved s \<noteq> Some (mp_latest s) then (if mp_lastQueued s = None then persist s else s)
      else s\<lparr>mp_reading := Some (mp_latest s, length (mp_saves s))\<rparr>)"

definition saving_now :: "prefs \<Rightarrow> bool" where
  "saving_now s = list_ex (\<lambda>p. \<not> ps_flush p \<and> ps_generation p = mp_generation s) (mp_saves s)"

definition refresh_ended :: "loaded_view option \<Rightarrow> prefs \<Rightarrow> prefs" where
  "refresh_ended r s =
     (case mp_reading s of
        None \<Rightarrow> s
      | Some (before, n) \<Rightarrow>
          if n \<noteq> 0 then s
          else let s = s\<lparr>mp_reading := None\<rparr>
               in case r of
                    None \<Rightarrow> s
                  | Some l \<Rightarrow>
                      if \<not> mp_mounted s \<or> mp_clearing s \<or> mp_latest s \<noteq> before then s
                      else let v = normalizeMonitorView (ld_view l) 16 None;
                               s = s\<lparr>mp_lastQueued := Some v, mp_lastSaved := Some v, mp_baseline := base_view (ld_base l),
                                     mp_error := PrefFine, mp_excused := (mp_excused s \<or> saving_now s)\<rparr>
                           in if v \<noteq> before then view_effect (s\<lparr>mp_latest := v\<rparr>) else s)"

text \<open>The button that tries again: what is newer than the last request is saved, then everything is read.\<close>

definition retryPreferences :: "prefs \<Rightarrow> prefs" where
  "retryPreferences s = start_load ((persist s)\<lparr>mp_error := PrefFine\<rparr>)"

section \<open>Leaving the page\<close>

definition flush_hidden :: "prefs \<Rightarrow> prefs" where
  "flush_hidden s = (if \<not> mp_timerRef s then s else persist (s\<lparr>mp_armed := False, mp_timerRef := False\<rparr>))"

text \<open>The account's saves under way are aborted, and their ends belong to an older generation.\<close>

definition pref_pagehide :: "prefs \<Rightarrow> prefs" where
  "pref_pagehide s =
     (if mp_clearing s \<or> \<not> pref_writable s \<or> mp_lastSaved s = Some (mp_latest s) then s
      else s\<lparr>mp_armed := False, mp_timerRef := False, mp_generation := mp_generation s + 1, mp_excused := True,
             mp_saves := mp_saves s @ [\<lparr>ps_view = mp_latest s, ps_generation = mp_generation s + 1, ps_flush = True\<rparr>]\<rparr>)"

definition account_clearing :: "prefs \<Rightarrow> prefs" where
  "account_clearing s = s\<lparr>mp_clearing := True, mp_armed := False, mp_timerRef := False\<rparr>"

definition pref_unmount :: "prefs \<Rightarrow> prefs" where
  "pref_unmount s = flush_hidden (s\<lparr>mp_mounted := False, mp_loading := False, mp_armed := False\<rparr>)"

datatype pref_event =
    Edit jsv "jsv option"
  | DebounceFired
  | SaveEnded "jsv option"
  | LoadEnded "loaded_view option"
  | RefreshPrefs bool
  | RefreshEnded "loaded_view option"
  | RetryPrefs
  | HiddenPage
  | PageHide
  | AccountClearing
  | UnmountPrefs

fun pref_step :: "(rat \<Rightarrow> string) \<Rightarrow> prefs \<Rightarrow> pref_event \<Rightarrow> prefs" where
  "pref_step num s (Edit v seed) = setView v seed s"
| "pref_step num s DebounceFired = debounce_fired s"
| "pref_step num s (SaveEnded r) = save_ended num r s"
| "pref_step num s (LoadEnded r) = load_ended r s"
| "pref_step num s (RefreshPrefs visible) = pref_refresh visible s"
| "pref_step num s (RefreshEnded r) = refresh_ended r s"
| "pref_step num s RetryPrefs = retryPreferences s"
| "pref_step num s HiddenPage = flush_hidden s"
| "pref_step num s PageHide = pref_pagehide s"
| "pref_step num s AccountClearing = account_clearing s"
| "pref_step num s UnmountPrefs = pref_unmount s"

end
