(* ===== verification/PreferenceSafety.thy ===== *)
theory PreferenceSafety
  imports Preferences
begin

text \<open>
  What the editor of the preferences guarantees: an edit is saved, or a save of it is under way, after
  the timer of 250 ms and the next look every 5 s; and the two ways in which an edit is left behind.
\<close>

section \<open>The invariant\<close>

definition gens_ok :: "nat \<Rightarrow> pref_save list \<Rightarrow> bool" where
  "gens_ok g ps = (sorted_wrt (<) (map ps_generation ps) \<and> list_all (\<lambda>p. ps_generation p \<le> g) ps)"

definition current_save :: "nat \<Rightarrow> pref_save list \<Rightarrow> pref_save option" where
  "current_save g ps = find (\<lambda>p. \<not> ps_flush p \<and> ps_generation p = g) ps"

text \<open>What is queued is the document of the save under way or the one last saved.\<close>

fun queue_ok :: "monitor_view option \<Rightarrow> monitor_view option \<Rightarrow> pref_save option \<Rightarrow> bool" where
  "queue_ok q saved (Some p) = (q = Some (ps_view p))"
| "queue_ok q saved None = (q = None \<or> q = saved)"

definition prefs_ok :: "prefs \<Rightarrow> bool" where
  "prefs_ok s = (view_ok 16 None (mp_latest s) \<and> gens_ok (mp_generation s) (mp_saves s)
     \<and> (mp_loaded s \<and> \<not> mp_skipLoad s \<and> \<not> mp_excused s \<and> \<not> mp_clearing s
          \<longrightarrow> queue_ok (mp_lastQueued s) (mp_lastSaved s) (current_save (mp_generation s) (mp_saves s)))
     \<and> (pref_writable s \<and> mp_mounted s \<and> \<not> mp_excused s \<and> \<not> mp_clearing s
          \<longrightarrow> mp_armed s \<or> mp_lastQueued s \<in> {None, Some (mp_latest s)}))"

lemma gens_snoc: "gens_ok g ps \<Longrightarrow> ps_generation p = g + 1 \<Longrightarrow> gens_ok (g + 1) (ps @ [p])"
  by (auto simp: gens_ok_def sorted_wrt_append list_all_iff)

lemma gens_tl: "gens_ok g (p # ps) \<Longrightarrow> gens_ok g ps"
  by (simp add: gens_ok_def)

lemma gens_mono: "gens_ok g ps \<Longrightarrow> gens_ok (g + 1) ps"
  by (auto simp: gens_ok_def list_all_iff)

lemma current_old: "gens_ok g ps \<Longrightarrow> current_save (g + 1) ps = None"
  by (auto simp: current_save_def find_None_iff gens_ok_def list_all_iff)

lemma current_snoc: "gens_ok g ps \<Longrightarrow> ps_generation p = g + 1 \<Longrightarrow> current_save (g + 1) (ps @ [p]) = (if ps_flush p then None else Some p)"
  by (induction ps) (auto simp: current_save_def gens_ok_def)

lemma current_last: "gens_ok g (p # ps) \<Longrightarrow> ps_generation p = g \<Longrightarrow> current_save g ps = None"
  by (fastforce simp: current_save_def find_None_iff gens_ok_def list_all_iff)

lemma current_tl: "current_save g (p # ps) = (if \<not> ps_flush p \<and> ps_generation p = g then Some p else current_save g ps)"
  by (simp add: current_save_def)

lemma saving_iff: "saving_now s = (current_save (mp_generation s) (mp_saves s) \<noteq> None)"
  by (auto simp: saving_now_def current_save_def find_None_iff list_ex_iff)

lemma normalized_latest: "prefs_ok s \<Longrightarrow> normalizeMonitorView (js_of_view (mp_latest s)) 16 None = mp_latest s"
  by (simp add: prefs_ok_def normalize_ok_id)

lemma effect_frame:
  "mp_latest (view_effect s) = mp_latest s" "mp_generation (view_effect s) = mp_generation s" "mp_saves (view_effect s) = mp_saves s"
  "mp_loaded (view_effect s) = mp_loaded s" "mp_skipLoad (view_effect s) = mp_skipLoad s" "mp_excused (view_effect s) = mp_excused s"
  "mp_clearing (view_effect s) = mp_clearing s" "mp_lastQueued (view_effect s) = mp_lastQueued s"
  "mp_lastSaved (view_effect s) = mp_lastSaved s" "mp_mounted (view_effect s) = mp_mounted s" "mp_compact (view_effect s) = mp_compact s"
  by (simp_all add: view_effect_def Let_def)

lemma effect_arms: "pref_writable s \<Longrightarrow> mp_armed (view_effect s) \<or> mp_lastQueued s = Some (mp_latest s)"
  by (auto simp: view_effect_def pref_writable_def Let_def)

text \<open>A new document keeps the invariant when the rest of it holds.\<close>

lemma prefs_effect:
  assumes "view_ok 16 None (mp_latest s)" and "gens_ok (mp_generation s) (mp_saves s)"
    and "mp_loaded s \<and> \<not> mp_skipLoad s \<and> \<not> mp_excused s \<and> \<not> mp_clearing s
          \<longrightarrow> queue_ok (mp_lastQueued s) (mp_lastSaved s) (current_save (mp_generation s) (mp_saves s))"
  shows "prefs_ok (view_effect s)"
  using assms effect_arms [of s] by (auto simp: prefs_ok_def effect_frame pref_writable_def)

lemma prefs_setView:
  assumes s: "prefs_ok s"
  shows "prefs_ok (setView v seed s)"
proof -
  have e: "prefs_ok (view_effect (t\<lparr>mp_latest := normalizeMonitorView v 16 None\<rparr>))"
    if "t = s \<or> t = s\<lparr>mp_baseline := b\<rparr>" for t b
    by (rule prefs_effect) (use that s in \<open>auto simp: prefs_ok_def normalized_view_ok'\<close>)
  show ?thesis using s e by (auto simp: setView_def Let_def split: option.split)
qed

lemma prefs_persist:
  assumes s: "prefs_ok s"
  shows "prefs_ok (persist s)"
proof -
  have g: "gens_ok (mp_generation s) (mp_saves s)" using s by (simp add: prefs_ok_def)
  show ?thesis
    using s gens_snoc [OF g] current_snoc [OF g] by (auto simp: persist_def normalized_latest [OF s] Let_def prefs_ok_def pref_writable_def)
qed

lemma persist_frame:
  "mp_latest (persist s) = mp_latest s" "mp_loaded (persist s) = mp_loaded s" "mp_lastSaved (persist s) = mp_lastSaved s"
  "mp_mounted (persist s) = mp_mounted s" "mp_clearing (persist s) = mp_clearing s" "mp_excused (persist s) = mp_excused s"
  "mp_skipLoad (persist s) = mp_skipLoad s" "mp_compact (persist s) = mp_compact s" "mp_armed (persist s) = mp_armed s"
  by (simp_all add: persist_def Let_def)

lemma persist_queued: "prefs_ok s \<Longrightarrow> pref_writable s \<Longrightarrow> \<not> mp_clearing s \<Longrightarrow> mp_lastQueued (persist s) = Some (mp_latest s)"
  by (simp add: persist_def normalized_latest Let_def)

text \<open>A timer that has fired or is cleared leaves the document to \<open>persist\<close>.\<close>

lemma prefs_fired:
  assumes s: "prefs_ok s"
  shows "prefs_ok (persist (s\<lparr>mp_armed := False, mp_timerRef := False\<rparr>))"
proof -
  let ?t = "s\<lparr>mp_armed := False, mp_timerRef := False\<rparr>"
  have g: "gens_ok (mp_generation s) (mp_saves s)" using s by (simp add: prefs_ok_def)
  show ?thesis
  proof (cases "mp_clearing s \<or> \<not> pref_writable s")
    case True
    with s show ?thesis by (auto simp: persist_def prefs_ok_def pref_writable_def)
  next
    case False
    with s gens_snoc [OF g] current_snoc [OF g] normalized_latest [OF s]
    show ?thesis by (auto simp: persist_def Let_def prefs_ok_def pref_writable_def)
  qed
qed

lemma prefs_frame:
  assumes "prefs_ok s" and "mp_latest s' = mp_latest s" and "mp_generation s' = mp_generation s" and "mp_saves s' = mp_saves s"
    and "mp_loaded s' = mp_loaded s" and "mp_skipLoad s' = mp_skipLoad s" and "mp_excused s' = mp_excused s" and "mp_clearing s' = mp_clearing s"
    and "mp_lastQueued s' = mp_lastQueued s" and "mp_lastSaved s' = mp_lastSaved s" and "mp_mounted s' = mp_mounted s"
    and "mp_compact s' = mp_compact s" and "mp_armed s' = mp_armed s"
  shows "prefs_ok s'"
  using assms by (simp add: prefs_ok_def pref_writable_def)

lemma fold_unchanged: "(\<And>x m. x \<in> set xs \<Longrightarrow> f x m = m) \<Longrightarrow> fold f xs m = m"
  by (induction xs arbitrary: m) auto

text \<open>Where nothing was edited the merge gives what the server has.\<close>

lemma merge_unedited: "is_obj c \<Longrightarrow> merge_edits num c b b = c"
proof -
  assume c: "is_obj c"
  let ?f = "\<lambda>k m. case map_of (entries b) k of None \<Rightarrow> merge_key num (map_of (entries b) k) None id k m
      | Some x \<Rightarrow> merge_key num (map_of (entries b) k) (Some x) (\<lambda>c. merge_edits num c (field b k) x) k m"
  have "fold ?f (both_keys b b) m = m" for m
  proof (rule fold_unchanged)
    fix k m assume "k \<in> set (both_keys b b)"
    then have "map_of (entries b) k \<noteq> None" by (simp add: both_keys_def map_of_eq_None_iff)
    then show "?f k m = m" by (auto simp: merge_key_def same_json_def)
  qed
  with c show ?thesis unfolding merge_edits.simps [of num c b b] by (cases c) simp_all
qed

lemma merge_nothing_new: "view_ok 16 None v \<Longrightarrow> mergeMonitorEdits num (js_of_view v) (js_of_view b) (js_of_view b) = v"
proof -
  assume "view_ok 16 None v"
  moreover have "is_obj (js_of_view v)" by (simp add: js_of_view_def)
  ultimately show ?thesis by (simp add: mergeMonitorEdits_def merge_unedited normalize_ok_id)
qed

text \<open>Just before the outcome of a save is handled.\<close>

definition settling :: "pref_save \<Rightarrow> prefs \<Rightarrow> bool" where
  "settling p s = (view_ok 16 None (mp_latest s) \<and> gens_ok (mp_generation s) (mp_saves s)
     \<and> current_save (mp_generation s) (mp_saves s) = None
     \<and> (mp_loaded s \<and> \<not> mp_skipLoad s \<and> \<not> mp_excused s \<and> \<not> mp_clearing s \<longrightarrow> mp_lastQueued s = Some (ps_view p))
     \<and> (pref_writable s \<and> mp_mounted s \<and> \<not> mp_excused s \<and> \<not> mp_clearing s
          \<longrightarrow> mp_armed s \<or> mp_lastQueued s \<in> {None, Some (mp_latest s)}))"

lemma prefs_succeeded:
  assumes s: "settling p s" and v: "view_ok 16 None v"
  shows "prefs_ok (save_succeeded num p v s)"
proof -
  define t where "t = s\<lparr>mp_baseline := Some v, mp_lastQueued := Some v, mp_lastSaved := Some v\<rparr>"
  define m where "m = mergeMonitorEdits num (js_of_view v) (js_of_view (ps_view p)) (js_of_view (mp_latest s))"
  define u where "u = (if m \<noteq> mp_latest t then let s = t\<lparr>mp_latest := m\<rparr> in if mp_mounted s then view_effect s else s else t)"
  have m: "view_ok 16 None m" by (simp add: m_def mergeMonitorEdits_def normalized_view_ok')
  have g: "gens_ok (mp_generation s) (mp_saves s)" "view_ok 16 None (mp_latest s)"
    and none: "current_save (mp_generation s) (mp_saves s) = None" using s by (simp_all add: settling_def)
  have "prefs_ok u"
  proof (cases "m = mp_latest s")
    case True
    have "mp_armed s \<or> mp_latest s = v" if "pref_writable s \<and> mp_mounted s \<and> \<not> mp_excused s \<and> \<not> mp_clearing s"
    proof -
      have "mp_armed s \<or> mp_latest s = ps_view p" using s that by (auto simp: settling_def pref_writable_def)
      with True merge_nothing_new [OF v] show ?thesis by (auto simp: m_def)
    qed
    then show ?thesis using True g none by (auto simp: u_def t_def prefs_ok_def pref_writable_def)
  next
    case False
    have "prefs_ok (view_effect (t\<lparr>mp_latest := m\<rparr>))" by (rule prefs_effect) (use m g none in \<open>simp_all add: t_def\<close>)
    moreover have "prefs_ok (t\<lparr>mp_latest := m\<rparr>)" if "\<not> mp_mounted s"
      using that m g none by (auto simp: t_def prefs_ok_def)
    ultimately show ?thesis using False by (simp add: u_def t_def Let_def)
  qed
  moreover have "save_succeeded num p v s = (if mp_mounted u then u\<lparr>mp_error := PrefFine\<rparr> else u)"
    by (simp add: save_succeeded_def u_def m_def t_def Let_def)
  moreover have "prefs_ok (u\<lparr>mp_error := PrefFine\<rparr>)" by (rule prefs_frame [OF \<open>prefs_ok u\<close>]) simp_all
  ultimately show ?thesis by simp
qed

lemma prefs_failed:
  assumes s: "settling p s"
  shows "prefs_ok (save_failed p s)"
proof (cases "mp_clearing s")
  case True
  with s show ?thesis by (simp add: save_failed_def prefs_ok_def settling_def)
next
  case False
  define t where "t = (if mp_lastQueued s = Some (ps_view p) then s\<lparr>mp_lastQueued := None\<rparr> else s)"
  have "prefs_ok t" using s False by (auto simp: t_def prefs_ok_def settling_def pref_writable_def)
  moreover have "prefs_ok (t\<lparr>mp_error := PrefSaveFailed\<rparr>)" by (rule prefs_frame [OF \<open>prefs_ok t\<close>]) simp_all
  moreover have "save_failed p s = (if mp_mounted t then t\<lparr>mp_error := PrefSaveFailed\<rparr> else t)"
    using False by (simp add: save_failed_def t_def Let_def)
  ultimately show ?thesis by simp
qed

text \<open>The chain without its first save: what is queued belongs to that save, or to what is left.\<close>

lemma prefs_ended:
  assumes s: "prefs_ok s"
  shows "prefs_ok (save_ended num r s)"
proof (cases "mp_saves s")
  case Nil
  with s show ?thesis by (simp add: save_ended_def)
next
  case (Cons p ps)
  define t where "t = s\<lparr>mp_saves := ps, mp_reading := map_option (\<lambda>(v, n). (v, n - 1)) (mp_reading s)\<rparr>"
  have g: "gens_ok (mp_generation s) (p # ps)" using s Cons by (simp add: prefs_ok_def)
  show ?thesis
  proof (cases "ps_flush p \<or> ps_generation p \<noteq> mp_generation s")
    case True
    have "prefs_ok t" using s Cons True gens_tl [OF g] by (auto simp: prefs_ok_def t_def current_tl pref_writable_def)
    with True Cons show ?thesis by (simp add: save_ended_def t_def)
  next
    case False
    have none: "current_save (mp_generation s) ps = None" using current_last [OF g] False by simp
    have t: "settling p t"
      using s none False Cons gens_tl [OF g] by (auto simp: prefs_ok_def settling_def t_def current_tl pref_writable_def)
    have "save_ended num r s = (case r of Some v \<Rightarrow> save_succeeded num p (normalizeMonitorView v 16 None) t | None \<Rightarrow> save_failed p t)"
      unfolding save_ended_def t_def Let_def using False Cons by simp
    with prefs_succeeded [OF t normalized_view_ok'] prefs_failed [OF t] show ?thesis by (simp split: option.split)
  qed
qed

lemma prefs_load: "prefs_ok s \<Longrightarrow> prefs_ok (start_load s)"
  by (auto simp: start_load_def prefs_ok_def pref_writable_def)

lemma prefs_loaded:
  assumes s: "prefs_ok s"
  shows "prefs_ok (load_ended r s)"
proof (cases "\<not> mp_loading s \<or> \<not> mp_mounted s \<or> mp_saves s \<noteq> []")
  case True
  with s show ?thesis by (auto simp: load_ended_def)
next
  case False
  show ?thesis
  proof (cases r)
    case None
    have "prefs_ok (s\<lparr>mp_loading := False, mp_error := PrefLoadFailed\<rparr>)" by (rule prefs_frame [OF s]) simp_all
    with False None show ?thesis by (simp add: load_ended_def)
  next
    case (Some l)
    define t where "t = s\<lparr>mp_loading := False, mp_baseline := base_view (ld_base l), mp_latest := normalizeMonitorView (ld_view l) 16 None,
      mp_lastQueued := (if ld_pending l then None else Some (normalizeMonitorView (ld_view l) 16 None)),
      mp_lastSaved := (if ld_pending l then base_view (ld_base l) else Some (normalizeMonitorView (ld_view l) 16 None)),
      mp_loaded := True, mp_restored := True, mp_excused := False,
      mp_error := (if ld_pending l then PrefSaveFailed else PrefFine)\<rparr>"
    have "load_ended r s = view_effect t" using False Some by (simp add: load_ended_def t_def Let_def)
    moreover have "prefs_ok (view_effect t)"
      by (rule prefs_effect) (use False in \<open>simp_all add: t_def normalized_view_ok' gens_ok_def current_save_def\<close>)
    ultimately show ?thesis by simp
  qed
qed

lemma prefs_refresh: "prefs_ok s \<Longrightarrow> prefs_ok (pref_refresh visible s)"
  using prefs_persist [of s] prefs_frame [of s "s\<lparr>mp_reading := Some (mp_latest s, length (mp_saves s))\<rparr>"]
  by (simp add: pref_refresh_def)

lemma prefs_refreshed:
  assumes s: "prefs_ok s"
  shows "prefs_ok (refresh_ended r s)"
proof (cases "mp_reading s")
  case None
  with s show ?thesis by (simp add: refresh_ended_def)
next
  case (Some bn)
  obtain before n where b: "bn = (before, n)" by force
  have i: "prefs_ok (s\<lparr>mp_reading := None\<rparr>)" by (rule prefs_frame [OF s]) simp_all
  show ?thesis
  proof (cases "n \<noteq> 0 \<or> r = None \<or> \<not> mp_mounted s \<or> mp_clearing s \<or> mp_latest s \<noteq> before")
    case True
    with s i Some b show ?thesis by (auto simp: refresh_ended_def Let_def split: option.split)
  next
    case False
    then obtain l where l: "r = Some l" "n = 0" "mp_mounted s" "\<not> mp_clearing s" "mp_latest s = before" by auto
    define v where "v = normalizeMonitorView (ld_view l) 16 None"
    define t where "t = s\<lparr>mp_reading := None, mp_lastQueued := Some v, mp_lastSaved := Some v, mp_baseline := base_view (ld_base l),
        mp_error := PrefFine, mp_excused := (mp_excused s \<or> saving_now s)\<rparr>"
    have v: "view_ok 16 None v" by (simp add: v_def normalized_view_ok')
    have q: "queue_ok (Some v) (Some v) (current_save (mp_generation s) (mp_saves s))" if "\<not> saving_now s"
      using that by (simp add: saving_iff)
    have "prefs_ok (view_effect (t\<lparr>mp_latest := v\<rparr>))"
      by (rule prefs_effect) (use s v q in \<open>auto simp: t_def prefs_ok_def\<close>)
    moreover have "prefs_ok t" if "v = before" using s q that l by (auto simp: t_def prefs_ok_def pref_writable_def)
    moreover have "refresh_ended r s = (if v \<noteq> before then view_effect (t\<lparr>mp_latest := v\<rparr>) else t)"
      using Some b l by (simp add: refresh_ended_def saving_now_def t_def v_def Let_def)
    ultimately show ?thesis by simp
  qed
qed

lemma prefs_pagehide: "prefs_ok s \<Longrightarrow> prefs_ok (pref_pagehide s)"
proof -
  assume s: "prefs_ok s"
  then have "gens_ok (mp_generation s) (mp_saves s)" by (simp add: prefs_ok_def)
  from gens_snoc [OF this, of "\<lparr>ps_view = mp_latest s, ps_generation = mp_generation s + 1, ps_flush = True\<rparr>"] s
  show ?thesis by (simp add: pref_pagehide_def prefs_ok_def)
qed

lemma prefs_hidden: "prefs_ok s \<Longrightarrow> prefs_ok (flush_hidden s)"
  by (simp add: flush_hidden_def prefs_fired)

lemma prefs_step_ok: "prefs_ok s \<Longrightarrow> prefs_ok (pref_step num s e)"
proof (cases e)
  case DebounceFired
  assume "prefs_ok s"
  with DebounceFired prefs_fired show ?thesis by (simp add: debounce_fired_def)
next
  case RetryPrefs
  assume "prefs_ok s"
  from prefs_persist [OF this] have "prefs_ok ((persist s)\<lparr>mp_error := PrefFine\<rparr>)" by (rule prefs_frame) simp_all
  with RetryPrefs show ?thesis by (simp add: retryPreferences_def prefs_load)
next
  case AccountClearing
  assume "prefs_ok s"
  with AccountClearing show ?thesis by (simp add: account_clearing_def prefs_ok_def)
next
  case UnmountPrefs
  assume s: "prefs_ok s"
  have "prefs_ok (s\<lparr>mp_mounted := False, mp_loading := False, mp_armed := False\<rparr>)" using s by (simp add: prefs_ok_def pref_writable_def)
  with UnmountPrefs show ?thesis by (simp add: pref_unmount_def prefs_hidden)
qed (simp_all add: prefs_setView prefs_ended prefs_loaded prefs_refresh prefs_refreshed prefs_hidden prefs_pagehide)

lemma default_view_ok: "view_ok 16 None defaultMonitorView"
  using normalized_view_ok' [of 16 None JUndef] by (simp add: normalize_nothing)

lemma prefs_start: "prefs_ok (useMonitorPreferences narrow_page skipLoad)"
  by (simp add: useMonitorPreferences_def prefs_ok_def default_view_ok gens_ok_def pref_writable_def)

interpretation prefs: machine "useMonitorPreferences narrow_page skipLoad" "pref_step num" prefs_ok for narrow_page skipLoad num
  by unfold_locales (rule prefs_start, erule prefs_step_ok)

section \<open>Edits are saved\<close>

definition saved_or_saving :: "prefs \<Rightarrow> bool" where
  "saved_or_saving s = (mp_lastSaved s = Some (mp_latest s)
     \<or> list_ex (\<lambda>p. \<not> ps_flush p \<and> ps_generation p = mp_generation s \<and> ps_view p = mp_latest s) (mp_saves s))"

lemma queued_latest:
  assumes s: "prefs_ok s" and w: "pref_writable s" "\<not> mp_excused s" "\<not> mp_clearing s" and q: "mp_lastQueued s = Some (mp_latest s)"
  shows "saved_or_saving s"
proof (cases "current_save (mp_generation s) (mp_saves s)")
  case None
  with s w q show ?thesis by (auto simp: prefs_ok_def pref_writable_def saved_or_saving_def)
next
  case (Some p)
  with s w q have "ps_view p = mp_latest s" by (simp add: prefs_ok_def pref_writable_def)
  with Some show ?thesis by (auto simp: current_save_def saved_or_saving_def list_ex_iff find_Some_iff)
qed

text \<open>C14. Every edit is soon saved: when the timer has fired and the page has looked once more, the document
  is the one last saved or a save of it is under way, unless the page was hidden or a refresh was
  answered in the middle of a save since the document was loaded.\<close>

theorem edits_are_saved_soon:
  assumes "pref_writable (foldl (pref_step num) (useMonitorPreferences narrow_page skipLoad) es)"
    and "mp_mounted (foldl (pref_step num) (useMonitorPreferences narrow_page skipLoad) es)"
    and "\<not> mp_clearing (foldl (pref_step num) (useMonitorPreferences narrow_page skipLoad) es)"
    and "\<not> mp_excused (foldl (pref_step num) (useMonitorPreferences narrow_page skipLoad) es)"
    and "mp_reading (foldl (pref_step num) (useMonitorPreferences narrow_page skipLoad) es) = None"
  shows "saved_or_saving (foldl (pref_step num) (useMonitorPreferences narrow_page skipLoad) (es @ [DebounceFired, RefreshPrefs True]))"
proof -
  define s where "s = foldl (pref_step num) (useMonitorPreferences narrow_page skipLoad) es"
  define t where "t = debounce_fired s"
  have s: "prefs_ok s" unfolding s_def by (rule prefs.inv_run)
  then have t: "prefs_ok t" using prefs_step_ok [of s num DebounceFired] by (simp add: t_def)
  have f: "pref_writable t" "mp_mounted t" "\<not> mp_clearing t" "\<not> mp_excused t" "\<not> mp_skipLoad t" "mp_loaded t" "mp_reading t = None"
    using assms unfolding s_def [symmetric]
    by (auto simp: t_def debounce_fired_def pref_writable_def persist_frame) (simp add: persist_def Let_def)
  have q: "mp_lastQueued t \<in> {None, Some (mp_latest t)}"
  proof (cases "mp_armed s")
    case True
    have "normalizeMonitorView (js_of_view (mp_latest s)) 16 None = mp_latest s" by (rule normalized_latest [OF s])
    with True assms show ?thesis unfolding s_def [symmetric] by (auto simp: t_def debounce_fired_def persist_def pref_writable_def Let_def)
  next
    case False
    with s assms show ?thesis unfolding s_def [symmetric] by (auto simp: t_def debounce_fired_def prefs_ok_def)
  qed
  have "saved_or_saving (pref_refresh True t)"
  proof (cases "mp_lastSaved t = Some (mp_latest t)")
    case True
    with f show ?thesis by (simp add: pref_refresh_def saved_or_saving_def)
  next
    case False
    show ?thesis
    proof (cases "mp_lastQueued t = None")
      case True
      have "saved_or_saving (persist t)"
        by (rule queued_latest [OF prefs_persist [OF t]])
          (use f persist_queued [OF t] in \<open>simp_all add: persist_frame pref_writable_def\<close>)
      with True False f show ?thesis by (simp add: pref_refresh_def)
    next
      case False
      with q have "saved_or_saving t" by (intro queued_latest [OF t f(1,4,3)]) auto
      moreover from False obtain v where "mp_lastQueued t = Some v" by blast
      with \<open>mp_lastSaved t \<noteq> Some (mp_latest t)\<close> have "pref_refresh True t = t" by (simp add: pref_refresh_def)
      ultimately show ?thesis by simp
    qed
  qed
  then show ?thesis by (simp add: s_def t_def)
qed

section \<open>Edits that are left behind\<close>

definition read_view :: "monitor_view \<Rightarrow> pref_event" where
  "read_view v = LoadEnded (Some \<lparr>ld_view = js_of_view v, ld_base = Some (js_of_view v), ld_pending = False\<rparr>)"

definition refreshed_view :: "monitor_view \<Rightarrow> pref_event" where
  "refreshed_view v = RefreshEnded (Some \<lparr>ld_view = js_of_view v, ld_base = Some (js_of_view v), ld_pending = False\<rparr>)"

definition stranded :: "(rat \<Rightarrow> string) \<Rightarrow> prefs \<Rightarrow> bool" where
  "stranded num s = (pref_writable s \<and> mp_lastSaved s \<noteq> Some (mp_latest s) \<and> \<not> mp_armed s \<and> mp_saves s = []
     \<and> pref_step num s (RefreshPrefs True) = s)"

text \<open>A page that is hidden with an unsaved edit and comes back is stranded: the edit was sent while it was
  hidden, but the answer is not taken, so the page neither saves the edit again nor reads the account's
  preferences until the next edit.\<close>

theorem hidden_page_is_stranded:
  assumes "view_ok 16 None a" and "view_ok 16 None x" and "a \<noteq> x"
  shows "stranded num (foldl (pref_step num) (useMonitorPreferences False False)
    [read_view a, Edit (js_of_view x) None, PageHide, SaveEnded (Some (js_of_view x))])"
  using assms(3) by (auto simp: stranded_def read_view_def useMonitorPreferences_def load_ended_def setView_def view_effect_def
    pref_pagehide_def save_ended_def pref_writable_def pref_refresh_def normalize_ok_id [OF assms(1)] normalize_ok_id [OF assms(2)])

text \<open>A refresh that is answered between an edit and its undoing strands the second edit: the account keeps
  the first one while the page shows the second.\<close>

definition calm_view :: monitor_view where
  "calm_view = defaultMonitorView"

definition loud_view :: monitor_view where
  "loud_view = defaultMonitorView\<lparr>audioMonitorEnabled := \<not> audioMonitorEnabled defaultMonitorView\<rparr>"

lemma calm_ok: "view_ok 16 None calm_view" "view_ok 16 None loud_view" "calm_view \<noteq> loud_view"
proof -
  show "view_ok 16 None calm_view" by (simp add: calm_view_def default_view_ok)
  show "view_ok 16 None loud_view" using default_view_ok by (simp add: loud_view_def view_ok_def)
  have "audioMonitorEnabled calm_view \<noteq> audioMonitorEnabled loud_view" by (simp add: loud_view_def calm_view_def)
  then show "calm_view \<noteq> loud_view" by metis
qed

lemma fold_single: "distinct ks \<Longrightarrow> (\<And>k m. k \<in> set ks \<Longrightarrow> k \<noteq> k0 \<Longrightarrow> f k m = m) \<Longrightarrow> k0 \<in> set ks \<Longrightarrow> fold f ks m = f k0 m"
proof (induction ks arbitrary: m)
  case (Cons k ks)
  show ?case
  proof (cases "k = k0")
    case True
    with Cons.prems have "fold f ks (f k0 m) = f k0 m" by (intro fold_unchanged) auto
    with True show ?thesis by simp
  next
    case False
    with Cons.prems have "f k m = m" "fold f ks m = f k0 m" by (auto intro: Cons.IH)
    then show ?thesis by simp
  qed
qed simp

text \<open>An edit of one plain value, merged with the document it was made on.\<close>

lemma merge_plain_edit:
  assumes e: "e = JObj (assign k0 x (entries b))" and y: "map_of (entries b) k0 = Some y" "\<not> same_json num y x" "\<not> is_obj x"
    and b: "is_obj b"
  shows "merge_edits num b b e = e"
proof -
  let ?f = "\<lambda>k m. case map_of (entries e) k of None \<Rightarrow> merge_key num (map_of (entries b) k) None id k m
      | Some x \<Rightarrow> merge_key num (map_of (entries b) k) (Some x) (\<lambda>c. merge_edits num c (field b k) x) k m"
  have "fold ?f (both_keys b e) (entries b) = ?f k0 (entries b)"
  proof (rule fold_single)
    show "k0 \<in> set (both_keys b e)" using e by (simp add: both_keys_def)
    fix k m assume k: "k \<in> set (both_keys b e)" "k \<noteq> k0"
    then have "map_of (entries b) k \<noteq> None" by (auto simp: both_keys_def map_of_eq_None_iff e)
    with k show "?f k m = m" by (auto simp: e merge_key_def same_json_def)
  qed (simp add: both_keys_def)
  also have "\<dots> = assign k0 x (entries b)" using y e by (simp add: merge_key_def)
  finally show ?thesis unfolding merge_edits.simps [of num b b e] using b e by simp
qed

lemma undo_merges: "mergeMonitorEdits num (js_of_view loud_view) (js_of_view loud_view) (js_of_view calm_view) = calm_view"
proof -
  have "merge_edits num (js_of_view loud_view) (js_of_view loud_view) (js_of_view calm_view) = js_of_view calm_view"
  proof (rule merge_plain_edit)
    show "js_of_view calm_view
        = JObj (assign ''audioMonitorEnabled'' (JBool (audioMonitorEnabled calm_view)) (entries (js_of_view loud_view)))"
      by (simp add: js_of_view_def loud_view_def calm_view_def js_of_rotation_def js_of_promotion_def js_of_low_power_def js_of_panels_def
        js_of_analytics_def)
    show "map_of (entries (js_of_view loud_view)) ''audioMonitorEnabled'' = Some (JBool (\<not> audioMonitorEnabled calm_view))"
      by (simp add: js_of_view_def loud_view_def calm_view_def)
  qed (simp_all add: same_json_def js_of_view_def)
  then show ?thesis by (simp add: mergeMonitorEdits_def normalize_ok_id [OF calm_ok(1)])
qed


definition edit_run :: "pref_event list" where
  "edit_run = [read_view calm_view, Edit (js_of_view loud_view) None]"

lemma edited_prefs:
  "foldl (pref_step num) (useMonitorPreferences False False) edit_run
   = (useMonitorPreferences False False)\<lparr>mp_baseline := Some calm_view, mp_latest := loud_view, mp_lastQueued := Some calm_view, mp_lastSaved := Some calm_view,
       mp_loaded := True, mp_restored := True, mp_loading := False, mp_armed := True, mp_timerRef := True\<rparr>"
  using calm_ok(3) by (simp add: edit_run_def read_view_def useMonitorPreferences_def load_ended_def base_view_def setView_def view_effect_def
    normalize_ok_id [OF calm_ok(1)] normalize_ok_id [OF calm_ok(2)])

theorem edits_are_saved_soon_witness:
  "saved_or_saving (foldl (pref_step (\<lambda>_. ''0'')) (useMonitorPreferences False False) (edit_run @ [DebounceFired, RefreshPrefs True]))"
  by (rule edits_are_saved_soon; unfold edited_prefs) (simp_all add: useMonitorPreferences_def pref_writable_def)

end
