(* ===== verification/SceneEdit.thy ===== *)
theory SceneEdit
  imports Scene "HOL-Library.Word"
begin

unbundle bit_operations_syntax

text \<open>
  The operations of the studio editor on one scene (\<open>App.tsx\<close>, and the grid of \<open>SceneCollection.tsx\<close>):
  layers, dragging with snapping, alignment, adding and removing sources, templates.  Random and
  time stamps in identifiers are arguments; positions are rational numbers.
\<close>

section \<open>Identifiers and colours\<close>

text \<open>\<open>>>> 0\<close> keeps 32 bits; identifiers are single bytes per character.\<close>

definition sourceHue :: "string \<Rightarrow> nat" where
  "sourceHue i = 185 + unat (foldl (\<lambda>h c. h * 31 + of_nat (code c)) (0 :: 32 word) i) mod 105"

text \<open>The FNV hash of a camera and its profile; \<open>BigInt.asUintN(64, ...)\<close> is multiplication of 64-bit words.\<close>

definition hex_digit :: "nat \<Rightarrow> char" where
  "hex_digit n = (if n < 10 then char_of (48 + n) else char_of (87 + n))"

definition hex16 :: "64 word \<Rightarrow> string" where
  "hex16 w = map (\<lambda>i. hex_digit (unat (drop_bit (4 * (15 - i)) w) mod 16)) [0..<16]"

definition camera_hash :: "nat list \<Rightarrow> 64 word" where
  "camera_hash bytes = foldl (\<lambda>h b. (h XOR of_nat b) * 0x100000001b3) 0xcbf29ce484222325 bytes"

definition cameraSourceId :: "string \<Rightarrow> string \<Rightarrow> string" where
  "cameraSourceId camera profile = ''source-camera-'' @ hex16 (camera_hash (map code camera @ 0 # map code profile))"

section \<open>Layers\<close>

definition with_layer :: "nat \<Rightarrow> scene_item \<Rightarrow> scene_item" where
  "with_layer z it = it\<lparr>zIndex := of_nat z\<rparr>"

definition reindexed :: "scene_item list \<Rightarrow> scene_item list" where
  "reindexed its = map2 with_layer [0..<length its] its"

definition normalizeZIndexes :: "scene_item list \<Rightarrow> scene_item list" where
  "normalizeZIndexes its = reindexed (sort_key zIndex its)"

fun findIndex :: "('a \<Rightarrow> bool) \<Rightarrow> 'a list \<Rightarrow> nat option" where
  "findIndex P [] = None"
| "findIndex P (x # xs) = (if P x then Some 0 else map_option Suc (findIndex P xs))"

definition swap :: "nat \<Rightarrow> nat \<Rightarrow> 'a list \<Rightarrow> 'a list" where
  "swap i j xs = xs[i := xs ! j, j := xs ! i]"

text \<open>One layer up or down; \<open>None\<close> when there is none.\<close>

definition neighbour :: "bool \<Rightarrow> nat \<Rightarrow> nat \<Rightarrow> nat option" where
  "neighbour up i n = (if up then (if i + 1 < n then Some (i + 1) else None) else if i = 0 then None else Some (i - 1))"

definition moveLayer :: "string \<Rightarrow> bool \<Rightarrow> scene_document \<Rightarrow> scene_document option" where
  "moveLayer source up scene =
     (let ordered = sort_key zIndex (scene_items scene)
      in case findIndex (\<lambda>it. item_source it = source) ordered of
           None \<Rightarrow> None
         | Some i \<Rightarrow> map_option (\<lambda>j. scene\<lparr>scene_items := reindexed (swap i j ordered)\<rparr>) (neighbour up i (length ordered)))"

text \<open>\<open>splice(from, 1)\<close> and \<open>splice(to, 0, moved)\<close>.\<close>

definition move_to :: "nat \<Rightarrow> nat \<Rightarrow> 'a list \<Rightarrow> 'a list" where
  "move_to i j xs = (let rest = take i xs @ drop (Suc i) xs in take j rest @ xs ! i # drop j rest)"

definition dropLayer :: "string \<Rightarrow> string \<Rightarrow> scene_document \<Rightarrow> scene_document option" where
  "dropLayer target source scene =
     (if source = [] \<or> source = target then None
      else let ordered = sort_key (\<lambda>it. - zIndex it) (scene_items scene)
           in case (findIndex (\<lambda>it. item_source it = source) ordered, findIndex (\<lambda>it. item_source it = target) ordered) of
                (Some i, Some j) \<Rightarrow> Some (scene\<lparr>scene_items := reindexed (rev (move_to i j ordered))\<rparr>)
              | _ \<Rightarrow> None)"

section \<open>Dragging\<close>

definition snap_points :: "rat \<Rightarrow> rat \<Rightarrow> rat \<Rightarrow> rat list" where
  "snap_points v ext maximum =
     [0, of_int (round_rat ((maximum - ext) / 2)), maximum - ext, of_int (round_rat (v / 10)) * 10]"

definition nearest :: "rat \<Rightarrow> rat list \<Rightarrow> rat" where
  "nearest v cs = foldl (\<lambda>best c. if \<bar>c - v\<bar> < \<bar>best - v\<bar> then c else best) (hd cs) cs"

definition snapped :: "rat \<Rightarrow> rat \<Rightarrow> rat \<Rightarrow> rat" where
  "snapped v ext maximum =
     (let n = nearest v (snap_points v ext maximum) in if \<bar>n - v\<bar> \<le> 6 then n else of_int (round_rat v))"

record pointer_operation =
  po_moving :: bool
  po_itemId :: string
  po_canvasWidth :: rat
  po_canvasHeight :: rat
  po_initial :: scene_item
  po_initialItems :: "scene_item list"

definition moved_item :: "pointer_operation \<Rightarrow> rat \<Rightarrow> rat \<Rightarrow> scene_item \<Rightarrow> rat \<times> rat" where
  "moved_item p dx dy it =
     (snapped (clamp (item_x it + dx) 0 (max 0 (po_canvasWidth p - item_width it))) (item_width it) (po_canvasWidth p),
      snapped (clamp (item_y it + dy) 0 (max 0 (po_canvasHeight p - item_height it))) (item_height it) (po_canvasHeight p))"

text \<open>The pointer has moved by \<open>dx\<close> and \<open>dy\<close> on the canvas.\<close>

definition drag :: "pointer_operation \<Rightarrow> rat \<Rightarrow> rat \<Rightarrow> scene_document \<Rightarrow> scene_document" where
  "drag p dx dy scene =
     (if po_moving p
      then let updates = map_from (map (\<lambda>it. (item_id it, moved_item p dx dy it)) (filter (\<lambda>it. \<not> item_locked it) (po_initialItems p)))
           in scene\<lparr>scene_items := map (\<lambda>it. case map_of updates (item_id it) of
                None \<Rightarrow> it | Some (x, y) \<Rightarrow> it\<lparr>item_x := x, item_y := y\<rparr>) (scene_items scene)\<rparr>
      else let i = po_initial p in
           scene\<lparr>scene_items := map (\<lambda>it. if item_id it = item_id i
             then it\<lparr>item_width := of_int (round_rat (clamp (item_width i + dx) 64 (po_canvasWidth p - item_x i))),
                     item_height := of_int (round_rat (clamp (item_height i + dy) 64 (po_canvasHeight p - item_y i)))\<rparr>
             else it) (scene_items scene)\<rparr>)"

text \<open>The sources of the group of an item, or its own.\<close>

definition group_sources :: "scene_item \<Rightarrow> scene_document \<Rightarrow> string list" where
  "group_sources it scene =
     (if groupId it \<noteq> [] then map item_source (filter (\<lambda>c. groupId c = groupId it) (scene_items scene)) else [item_source it])"

definition beginPointer :: "bool \<Rightarrow> scene_item \<Rightarrow> string list \<Rightarrow> scene_document \<Rightarrow> pointer_operation option" where
  "beginPointer moving it selected scene =
     (if item_locked it then None
      else let active = (if item_source it \<in> set selected then selected else group_sources it scene)
           in Some \<lparr>po_moving = moving, po_itemId = item_id it, po_canvasWidth = canvas_width (scene_canvas scene),
                po_canvasHeight = canvas_height (scene_canvas scene), po_initial = it,
                po_initialItems = filter (\<lambda>c. item_source c \<in> set active) (scene_items scene)\<rparr>)"

section \<open>Alignment\<close>

datatype alignment = AlignLeft | AlignHCenter | AlignRight | AlignTop | AlignVCenter | AlignBottom | HDistribute | VDistribute

definition left_edge :: "scene_item list \<Rightarrow> rat" where "left_edge its = Min (set (map item_x its))"
definition right_edge :: "scene_item list \<Rightarrow> rat" where "right_edge its = Max (set (map (\<lambda>it. item_x it + item_width it) its))"
definition top_edge :: "scene_item list \<Rightarrow> rat" where "top_edge its = Min (set (map item_y its))"
definition bottom_edge :: "scene_item list \<Rightarrow> rat" where "bottom_edge its = Max (set (map (\<lambda>it. item_y it + item_height it) its))"

text \<open>The cursor runs over the ordered items with equal gaps between them.\<close>

fun distributed :: "(scene_item \<Rightarrow> rat) \<Rightarrow> rat \<Rightarrow> rat \<Rightarrow> scene_item list \<Rightarrow> (string \<times> rat) list" where
  "distributed ext gap cursor [] = []"
| "distributed ext gap cursor (it # its) = (item_id it, of_int (round_rat cursor)) # distributed ext gap (cursor + ext it + gap) its"

definition gap_of :: "(scene_item \<Rightarrow> rat) \<Rightarrow> rat \<Rightarrow> rat \<Rightarrow> scene_item list \<Rightarrow> rat" where
  "gap_of ext low high its = (high - low - sum_list (map ext its)) / of_nat (length its - 1)"

definition x_updates :: "alignment \<Rightarrow> scene_item list \<Rightarrow> (string \<times> rat) list" where
  "x_updates a its =
     (let l = left_edge its; r = right_edge its in
      case a of
        AlignLeft \<Rightarrow> map (\<lambda>it. (item_id it, l)) its
      | AlignHCenter \<Rightarrow> map (\<lambda>it. (item_id it, of_int (round_rat ((l + r - item_width it) / 2)))) its
      | AlignRight \<Rightarrow> map (\<lambda>it. (item_id it, r - item_width it)) its
      | HDistribute \<Rightarrow> if length its \<ge> 3 then let o' = sort_key item_x its in distributed item_width (gap_of item_width l r o') l o' else []
      | _ \<Rightarrow> [])"

text \<open>With two items a distribution falls through to the last case of the code, the alignment at the bottom.\<close>

definition y_updates :: "alignment \<Rightarrow> scene_item list \<Rightarrow> (string \<times> rat) list" where
  "y_updates a its =
     (let t = top_edge its; b = bottom_edge its;
          bottoms = map (\<lambda>it. (item_id it, b - item_height it)) its in
      case a of
        AlignTop \<Rightarrow> map (\<lambda>it. (item_id it, t)) its
      | AlignVCenter \<Rightarrow> map (\<lambda>it. (item_id it, of_int (round_rat ((t + b - item_height it) / 2)))) its
      | AlignBottom \<Rightarrow> bottoms
      | VDistribute \<Rightarrow> if length its \<ge> 3 then let o' = sort_key item_y its in distributed item_height (gap_of item_height t b o') t o' else bottoms
      | HDistribute \<Rightarrow> if length its \<ge> 3 then [] else bottoms
      | _ \<Rightarrow> [])"

definition transformSelection :: "alignment \<Rightarrow> string list \<Rightarrow> scene_document \<Rightarrow> scene_document" where
  "transformSelection a selected scene =
     (let chosen = filter (\<lambda>it. item_source it \<in> set selected) (scene_items scene);
          xs = map_from (x_updates a chosen); ys = map_from (y_updates a chosen)
      in if length chosen < 2 then scene
         else scene\<lparr>scene_items := map (\<lambda>it. if item_locked it then it
                else it\<lparr>item_x := (case map_of xs (item_id it) of None \<Rightarrow> item_x it | Some x \<Rightarrow> x),
                        item_y := (case map_of ys (item_id it) of None \<Rightarrow> item_y it | Some y \<Rightarrow> y)\<rparr>) (scene_items scene)\<rparr>)"

definition groupSelection :: "string \<Rightarrow> string list \<Rightarrow> scene_document \<Rightarrow> scene_document" where
  "groupSelection gid selected scene =
     (if length selected < 2 then scene
      else scene\<lparr>scene_items := map (\<lambda>it. if item_source it \<in> set selected then it\<lparr>groupId := gid\<rparr> else it) (scene_items scene)\<rparr>)"

section \<open>Grids and templates\<close>

text \<open>\<open>Math.ceil(Math.sqrt(n))\<close>, the first number whose square is at least \<open>n\<close>.\<close>

definition ceil_sqrt :: "nat \<Rightarrow> nat" where
  "ceil_sqrt n = hd (filter (\<lambda>c. n \<le> c * c) [0..<Suc n])"

definition grid_columns :: "nat \<Rightarrow> nat" where "grid_columns n = max 1 (ceil_sqrt n)"

definition grid_rows :: "nat \<Rightarrow> nat" where "grid_rows n = max 1 ((n + grid_columns n - 1) div grid_columns n)"

definition grid_line :: "nat \<Rightarrow> rat \<Rightarrow> nat \<Rightarrow> rat" where
  "grid_line k extent n = of_int \<lfloor>of_nat k * extent / of_nat n\<rfloor>"

definition grid_item :: "nat \<Rightarrow> nat \<Rightarrow> scene_canvas \<Rightarrow> nat \<Rightarrow> scene_item \<Rightarrow> scene_item" where
  "grid_item columns rows canvas i it =
     (if item_locked it then it
      else let column = i mod columns; row = i div columns;
               x = grid_line column (canvas_width canvas) columns; y = grid_line row (canvas_height canvas) rows
           in it\<lparr>item_x := x, item_y := y, item_width := grid_line (column + 1) (canvas_width canvas) columns - x,
                 item_height := grid_line (row + 1) (canvas_height canvas) rows - y, item_rotation := 0\<rparr>)"

definition arrangeSceneGrid :: "scene_document \<Rightarrow> scene_document" where
  "arrangeSceneGrid scene =
     (let n = length (scene_items scene)
      in scene\<lparr>scene_items := map2 (grid_item (grid_columns n) (grid_rows n) (scene_canvas scene)) [0..<n] (scene_items scene)\<rparr>)"

definition half :: "rat \<Rightarrow> rat" where "half x = of_int \<lfloor>x / 2\<rfloor>"
definition quarter :: "rat \<Rightarrow> rat" where "quarter x = of_int \<lfloor>x / 4\<rfloor>"

definition template_item :: "bool \<Rightarrow> scene_canvas \<Rightarrow> nat \<Rightarrow> scene_item \<Rightarrow> scene_item" where
  "template_item grid canvas i it =
     (let w = canvas_width canvas; h = canvas_height canvas in
      if grid then it\<lparr>item_x := of_nat (i mod 2) * half w, item_y := of_nat (i div 2 mod 2) * half h, item_width := half w, item_height := half h\<rparr>
      else if i = 0 then it\<lparr>item_x := 0, item_y := 0, item_width := w, item_height := h\<rparr>
      else it\<lparr>item_x := w - quarter w - 20, item_y := 20 + (of_nat i - 1) * (quarter h + 12), item_width := quarter w, item_height := quarter h\<rparr>)"

definition template_scene :: "bool \<Rightarrow> string \<Rightarrow> string \<Rightarrow> scene_document \<Rightarrow> scene_document" where
  "template_scene grid i name scene =
     scene\<lparr>scene_id := i, scene_name := name, scene_revision := 0,
       scene_items := normalizeZIndexes (map2 (template_item grid (scene_canvas scene)) [0..<length (scene_items scene)] (scene_items scene))\<rparr>"

section \<open>Sources\<close>

datatype add_kind = AddCamera | AddRtsp | AddBrowser | AddImage | AddMedia | AddText | AddColor | AddNested

definition no_space :: "string \<Rightarrow> bool" where "no_space s = list_all (\<lambda>c. \<not> is_space c) s"

definition after_prefix :: "string list \<Rightarrow> string \<Rightarrow> string option" where
  "after_prefix ps s = (case filter (\<lambda>p. starts_with p (map lower_char s)) ps of [] \<Rightarrow> None | p # _ \<Rightarrow> Some (drop (length p) s))"

text \<open>\<open>/^rtsps?:\/\/\S+$/i\<close>, \<open>/^https?:\/\/\S+$/i\<close> and \<open>/^\/(assets|recordings)\/[^.\/][^\r\n]*$/i\<close>.\<close>

definition address_ok :: "string list \<Rightarrow> string \<Rightarrow> bool" where
  "address_ok ps s = (case after_prefix ps s of None \<Rightarrow> False | Some r \<Rightarrow> r \<noteq> [] \<and> no_space r)"

definition asset_ok :: "string \<Rightarrow> bool" where
  "asset_ok s = (case after_prefix [''/assets/'', ''/recordings/''] s of
     Some (c # r) \<Rightarrow> c \<noteq> CHR ''.'' \<and> c \<noteq> CHR ''/'' \<and> list_all (\<lambda>c. code c \<noteq> 10 \<and> code c \<noteq> 13) r | _ \<Rightarrow> False)"

definition value_ok :: "add_kind \<Rightarrow> string list \<Rightarrow> string \<Rightarrow> string \<Rightarrow> bool" where
  "value_ok k scenes current v =
     (case k of
        AddRtsp \<Rightarrow> address_ok [''rtsp://'', ''rtsps://''] v
      | AddBrowser \<Rightarrow> address_ok [''http://'', ''https://''] v
      | AddImage \<Rightarrow> asset_ok v
      | AddMedia \<Rightarrow> asset_ok v
      | AddColor \<Rightarrow> hex_colour v
      | AddNested \<Rightarrow> v \<in> set scenes \<and> v \<noteq> current
      | _ \<Rightarrow> trim v \<noteq> [])"

definition kind_name :: "add_kind \<Rightarrow> string" where
  "kind_name k = (case k of AddCamera \<Rightarrow> ''camera'' | AddRtsp \<Rightarrow> ''rtsp'' | AddBrowser \<Rightarrow> ''browser'' | AddImage \<Rightarrow> ''image''
     | AddMedia \<Rightarrow> ''media'' | AddText \<Rightarrow> ''text'' | AddColor \<Rightarrow> ''color'' | AddNested \<Rightarrow> ''nested'')"

definition new_kind :: "add_kind \<Rightarrow> string \<Rightarrow> transport \<Rightarrow> source_kind" where
  "new_kind k v tr =
     (case k of
        AddCamera \<Rightarrow> CameraSource (takeWhile (\<lambda>c. c \<noteq> CHR ''/'') v)
          (takeWhile (\<lambda>c. c \<noteq> CHR ''/'') (drop 1 (dropWhile (\<lambda>c. c \<noteq> CHR ''/'') v))) ''auto''
      | AddRtsp \<Rightarrow> RtspSource v tr
      | AddBrowser \<Rightarrow> BrowserSource v 1280 720 30 [] True True
      | AddImage \<Rightarrow> ImageSource v
      | AddMedia \<Rightarrow> MediaSource v True
      | AddText \<Rightarrow> TextSource (trim v) ''#ffffff''
      | AddColor \<Rightarrow> ColorSource (map lower_char v)
      | AddNested \<Rightarrow> NestedSource v)"

definition is_browser :: "scene_source \<Rightarrow> bool" where
  "is_browser s = (case src_kind s of BrowserSource _ _ _ _ _ _ _ \<Rightarrow> True | _ \<Rightarrow> False)"

definition new_source :: "add_kind \<Rightarrow> transport \<Rightarrow> string \<Rightarrow> string \<Rightarrow> string \<Rightarrow> scene_source" where
  "new_source k tr suffix v name = \<lparr>src_id = kind_name k @ CHR ''-'' # suffix, src_name = name, src_muted = True, src_volume = 1,
     syncOffsetMs = 0, monitoring = MonitorOff, audioTrack = 1, audioInputs = None, src_filters = [], src_kind = new_kind k v tr\<rparr>"

definition new_item :: "scene_canvas \<Rightarrow> string \<Rightarrow> string \<Rightarrow> nat \<Rightarrow> scene_item" where
  "new_item canvas suffix source i =
     (let w = max 64 (half (canvas_width canvas)); h = max 64 (half (canvas_height canvas))
      in \<lparr>item_id = ''item-'' @ suffix, item_source = source, item_x = of_nat (i mod 2) * w, item_y = of_nat (i div 2 mod 2) * h,
          item_width = w, item_height = h, scaleMode = Contain,
          item_crop = \<lparr>crop_top = 0, crop_right = 0, crop_bottom = 0, crop_left = 0\<rparr>, zIndex = of_nat i, item_visible = True,
          item_locked = False, groupId = [], item_rotation = 0, item_opacity = 1, blendMode = BlendNormal\<rparr>)"

text \<open>\<open>targets\<close> are the addresses with their names, \<open>suffixes\<close> the identifiers drawn for them; the answer is the
  scene and the source that is selected.\<close>

definition addSource ::
  "add_kind \<Rightarrow> transport \<Rightarrow> string list \<Rightarrow> (string \<times> string) list \<Rightarrow> string list \<Rightarrow> scene_document \<Rightarrow> (scene_document \<times> string) option" where
  "addSource k tr scenes targets suffixes scene =
     (if targets = [] \<or> (k \<noteq> AddCamera \<and> \<not> (value_ok k scenes (scene_id scene) (fst (hd targets)) \<and> trim (snd (hd targets)) \<noteq> []))
         \<or> length (scene_sources scene) \<ge> 64
         \<or> (k = AddBrowser \<and> length (filter is_browser (scene_sources scene)) \<ge> 8) then None
      else let taken = take (64 - length (scene_sources scene)) (if k = AddCamera then targets else [(fst (hd targets), trim (snd (hd targets)))]);
               sources = map2 (\<lambda>(v, name) suffix. new_source k tr suffix v name) taken suffixes;
               its = map2 (\<lambda>s (i, suffix). new_item (scene_canvas scene) suffix (src_id s) (length (scene_items scene) + i))
                       sources (zip [0..<length sources] suffixes)
           in if sources = [] then None
              else Some (scene\<lparr>scene_sources := scene_sources scene @ sources, scene_items := scene_items scene @ its\<rparr>, src_id (last sources)))"

definition removeSource :: "string \<Rightarrow> scene_document \<Rightarrow> scene_document" where
  "removeSource i scene = scene\<lparr>scene_sources := filter (\<lambda>s. src_id s \<noteq> i) (scene_sources scene),
     scene_items := normalizeZIndexes (filter (\<lambda>it. item_source it \<noteq> i) (scene_items scene))\<rparr>"

definition updateSource :: "string \<Rightarrow> (scene_source \<Rightarrow> scene_source) \<Rightarrow> scene_document \<Rightarrow> scene_document" where
  "updateSource i f scene = scene\<lparr>scene_sources := map (\<lambda>s. if src_id s = i then f s else s) (scene_sources scene)\<rparr>"

definition updateItem :: "string \<Rightarrow> (scene_item \<Rightarrow> scene_item) \<Rightarrow> scene_document \<Rightarrow> scene_document" where
  "updateItem i f scene = scene\<lparr>scene_items := map (\<lambda>it. if item_id it = i then f it else it) (scene_items scene)\<rparr>"

definition updateFilter :: "string \<Rightarrow> string \<Rightarrow> (scene_filter \<Rightarrow> scene_filter) \<Rightarrow> scene_document \<Rightarrow> scene_document" where
  "updateFilter i k f scene =
     updateSource i (\<lambda>s. s\<lparr>src_filters := map (\<lambda>x. if filter_id x = k then f x else x) (src_filters s)\<rparr>) scene"

definition addFilter :: "string \<Rightarrow> string \<Rightarrow> scene_document \<Rightarrow> scene_document" where
  "addFilter i fresh scene =
     updateSource i (\<lambda>s. if length (src_filters s) \<ge> 16 then s
       else s\<lparr>src_filters := src_filters s @ [\<lparr>filter_id = fresh, filter_of = OpacityFilter, filter_enabled = True, filter_amount = 1,
         filter_value = []\<rparr>]\<rparr>) scene"

text \<open>A click on a source, alone or added to the selection.\<close>

definition selectSource :: "string \<Rightarrow> bool \<Rightarrow> scene_document \<Rightarrow> string list \<Rightarrow> string list" where
  "selectSource i adding scene current =
     (let targets = (case find (\<lambda>it. item_source it = i) (scene_items scene) of
                       None \<Rightarrow> [i]
                     | Some it \<Rightarrow> if groupId it \<noteq> [] then map item_source (filter (\<lambda>c. groupId c = groupId it) (scene_items scene)) else [i])
      in if \<not> adding then targets
         else if set targets \<subseteq> set current then filter (\<lambda>j. j \<notin> set targets) current
         else uniq (current @ targets))"

end
