(* ===== verification/StudioEditor.thy ===== *)
theory StudioEditor
  imports SceneEdit
begin

text \<open>
  The studio editor (\<open>App.tsx\<close>): the document that was last read or saved, the draft of it, the scene of
  the draft that is being edited, and the requests that read and save.  Documents are records, so the
  texts that the code compares are the documents themselves; the object identity of the draft, by which
  a save recognizes that it was edited meanwhile, is \<open>se_version\<close>, which every new draft object raises.
  Requests in flight are numbered, and their ends are events.  Whether the user confirms a question and
  what other parts of the page answer are arguments of the events.
\<close>

datatype link = LinkConnecting | LinkOnline | LinkOffline

datatype flight_kind =
    SavingServer nat "string option"
  | SavingProfile nat "string option" string string
  | SavingDevice nat "string option" studio_document
  | Acting
  | Copying nat
  | Returning
  | LoadingDevice
  | Reloading

datatype editor_notice = NoNote | SaveConflict | ActionConflict | EditedMeanwhile | NotPermitted | NotStorable | NotPaired | Failed
  | Reference | Done | ProjectorClosed

record studio_editor =
  se_studio :: "studio_document option"
  se_version :: nat
  se_saved :: "studio_document option"
  se_draft :: "scene_document option"
  se_base :: "scene_document option"
  se_scene :: "string option"
  se_source :: "string option"
  se_sources :: "string list"
  se_device :: bool
  se_profile :: "(string \<times> string) option"
  se_link :: link
  se_saving :: bool
  se_conflict :: bool
  se_notice :: editor_notice
  se_flights :: "(nat \<times> flight_kind) list"
  se_next :: nat

definition new_editor :: studio_editor where
  "new_editor = \<lparr>se_studio = None, se_version = 0, se_saved = None, se_draft = None, se_base = None, se_scene = None, se_source = None,
     se_sources = [], se_device = False, se_profile = None, se_link = LinkConnecting, se_saving = False, se_conflict = False,
     se_notice = NoNote, se_flights = [], se_next = 0\<rparr>"

definition dirty :: "studio_editor \<Rightarrow> bool" where
  "dirty s = (se_saved s \<noteq> None \<and> se_studio s \<noteq> None \<and> se_saved s \<noteq> se_studio s)"

section \<open>Documents\<close>

text \<open>\<open>normalizeStudioDocument\<close> on documents of the supported schema: only the transition can change.\<close>

definition accepted_studio :: "studio_document \<Rightarrow> studio_document" where
  "accepted_studio st = st\<lparr>transition_ms := of_int (clamp (trunc_rat (transition_ms st)) 0 10000)\<rparr>"

definition scene_of :: "string \<Rightarrow> studio_document \<Rightarrow> scene_document option" where
  "scene_of i st = find (\<lambda>x. scene_id x = i) (studio_scenes st)"

text \<open>\<open>scenes.find(previewSceneId) ?? scenes[0]\<close>.\<close>

definition preview_scene :: "studio_document \<Rightarrow> scene_document option" where
  "preview_scene st = (case scene_of (previewSceneId st) st of
     Some x \<Rightarrow> Some x | None \<Rightarrow> (case studio_scenes st of [] \<Rightarrow> None | x # _ \<Rightarrow> Some x))"

definition first_source :: "scene_document \<Rightarrow> string option" where
  "first_source x = (case scene_sources x of [] \<Rightarrow> None | y # _ \<Rightarrow> Some (src_id y))"

definition select_first :: "scene_document \<Rightarrow> studio_editor \<Rightarrow> studio_editor" where
  "select_first x s = s\<lparr>se_source := first_source x, se_sources := (case first_source x of None \<Rightarrow> [] | Some i \<Rightarrow> [i])\<rparr>"

definition set_studio :: "studio_document \<Rightarrow> studio_editor \<Rightarrow> studio_editor" where
  "set_studio st s = s\<lparr>se_studio := Some st, se_version := se_version s + 1\<rparr>"

text \<open>The scene that is edited becomes one of the draft's.\<close>

definition open_scene :: "scene_document \<Rightarrow> scene_document option \<Rightarrow> studio_editor \<Rightarrow> studio_editor" where
  "open_scene x b s = select_first x (s\<lparr>se_scene := Some (scene_id x), se_draft := Some x, se_base := b\<rparr>)"

definition applyRemoteStudio :: "studio_document \<Rightarrow> studio_editor \<Rightarrow> studio_editor" where
  "applyRemoteStudio studio s =
     (let st = accepted_studio studio
      in case preview_scene st of
           None \<Rightarrow> s
         | Some x \<Rightarrow>
             let kept = (case se_source s of
                           Some i \<Rightarrow> if i \<in> src_id ` set (scene_sources x) then Some i else first_source x | None \<Rightarrow> first_source x)
             in (open_scene x (Some x) (set_studio st (s\<lparr>se_saved := Some st, se_conflict := False\<rparr>)))\<lparr>se_source := kept\<rparr>)"

text \<open>A saved document replaces the draft only when it is the draft that was submitted.\<close>

definition commitSavedStudio :: "studio_document \<Rightarrow> nat \<Rightarrow> string option \<Rightarrow> studio_editor \<Rightarrow> studio_editor" where
  "commitSavedStudio committed submitted selected s =
     (if se_version s = submitted then applyRemoteStudio committed s
      else s\<lparr>se_saved := Some committed, se_base := (case selected of None \<Rightarrow> None | Some i \<Rightarrow> scene_of i committed),
             se_studio := map_option (\<lambda>st. st\<lparr>studio_revision := studio_revision committed\<rparr>) (se_studio s),
             se_version := se_version s + 1, se_conflict := False\<rparr>)"

section \<open>Edits of a scene\<close>

datatype scene_edit =
    RenameScene string
  | SetSource string "scene_source \<Rightarrow> scene_source"
  | SetItem string "scene_item \<Rightarrow> scene_item"
  | SetFilter string string "scene_filter \<Rightarrow> scene_filter"
  | AddFilter string string
  | Drag pointer_operation rat rat
  | AddSources add_kind transport "(string \<times> string) list" "string list"
  | RemoveSource string
  | MoveLayer string bool
  | DropLayer string string
  | Align alignment
  | GroupItems string

definition scene_ids :: "studio_editor \<Rightarrow> string list" where
  "scene_ids s = (case se_studio s of None \<Rightarrow> [] | Some st \<Rightarrow> map scene_id (studio_scenes st))"

text \<open>What an edit makes of the scene, \<open>None\<close> when it does nothing.\<close>

definition edited_scene :: "scene_edit \<Rightarrow> studio_editor \<Rightarrow> scene_document \<Rightarrow> scene_document option" where
  "edited_scene e s x =
     (case e of
        RenameScene n \<Rightarrow> Some (x\<lparr>scene_name := n\<rparr>)
      | SetSource i f \<Rightarrow> Some (updateSource i f x)
      | SetItem i f \<Rightarrow> Some (updateItem i f x)
      | SetFilter i k f \<Rightarrow> Some (updateFilter i k f x)
      | AddFilter i fresh \<Rightarrow>
          if list_ex (\<lambda>y. src_id y = i \<and> length (src_filters y) \<ge> 16) (scene_sources x) then None else Some (addFilter i fresh x)
      | Drag p dx dy \<Rightarrow> Some (drag p dx dy x)
      | AddSources k tr targets suffixes \<Rightarrow> map_option fst (addSource k tr (scene_ids s) targets suffixes x)
      | RemoveSource i \<Rightarrow> Some (removeSource i x)
      | MoveLayer i up \<Rightarrow> moveLayer i up x
      | DropLayer target i \<Rightarrow> dropLayer target i x
      | Align a \<Rightarrow> Some (transformSelection a (se_sources s) x)
      | GroupItems gid \<Rightarrow> if length (se_sources s) < 2 then None else Some (groupSelection gid (se_sources s) x))"

text \<open>What is selected afterwards: the source added last, the first one left, or the one that was dropped.\<close>

definition edit_selection :: "scene_edit \<Rightarrow> scene_document \<Rightarrow> scene_document \<Rightarrow> studio_editor \<Rightarrow> studio_editor" where
  "edit_selection e x y s =
     (case e of
        AddSources _ _ _ _ \<Rightarrow> s\<lparr>se_source := Some (src_id (last (scene_sources y)))\<rparr>
      | RemoveSource i \<Rightarrow>
          let left = filter (\<lambda>z. src_id z \<noteq> i) (scene_sources x)
          in s\<lparr>se_source := (case left of [] \<Rightarrow> None | z # _ \<Rightarrow> Some (src_id z)),
               se_sources := (case left of [] \<Rightarrow> [] | z # _ \<Rightarrow> [src_id z])\<rparr>
      | DropLayer _ i \<Rightarrow> s\<lparr>se_source := Some i, se_sources := [i]\<rparr>
      | _ \<Rightarrow> s)"

definition updateDraft :: "scene_edit \<Rightarrow> studio_editor \<Rightarrow> studio_editor" where
  "updateDraft e s =
     (case se_draft s of
        None \<Rightarrow> s
      | Some x \<Rightarrow>
          (case edited_scene e s x of
             None \<Rightarrow> s
           | Some y \<Rightarrow>
               edit_selection e x y (case se_studio s of
                  None \<Rightarrow> s\<lparr>se_draft := Some y, se_notice := NoNote\<rparr>
                | Some st \<Rightarrow> (set_studio (st\<lparr>studio_scenes := map (\<lambda>z. if scene_id z = scene_id x then y else z) (studio_scenes st)\<rparr>) s)
                    \<lparr>se_draft := Some y, se_notice := NoNote\<rparr>)))"

section \<open>Scenes of the collection\<close>

definition selectScene :: "string \<Rightarrow> studio_editor \<Rightarrow> studio_editor" where
  "selectScene i s =
     (case se_studio s of
        None \<Rightarrow> s
      | Some st \<Rightarrow>
          (case scene_of i st of
             None \<Rightarrow> s
           | Some x \<Rightarrow>
               let saved = (case se_saved s of None \<Rightarrow> None | Some b \<Rightarrow> scene_of i b);
                   s = open_scene x (case saved of None \<Rightarrow> Some x | Some y \<Rightarrow> Some y) s
               in if previewSceneId st = i then s else set_studio (st\<lparr>previewSceneId := i\<rparr>) s))"

definition add_scene :: "scene_document \<Rightarrow> studio_editor \<Rightarrow> studio_editor" where
  "add_scene x s =
     (case se_studio s of
        None \<Rightarrow> s
      | Some st \<Rightarrow>
          if length (studio_scenes st) \<ge> 64 then s
          else open_scene x (Some x) (set_studio (st\<lparr>previewSceneId := scene_id x, studio_scenes := studio_scenes st @ [x]\<rparr>) s))"

definition duplicateScene :: "string \<Rightarrow> string \<Rightarrow> string \<Rightarrow> studio_editor \<Rightarrow> studio_editor" where
  "duplicateScene i fresh label s =
     (case se_studio s of
        None \<Rightarrow> s
      | Some st \<Rightarrow>
          (case scene_of i st of
             None \<Rightarrow> s
           | Some x \<Rightarrow> add_scene (x\<lparr>scene_id := fresh, scene_name := take 125 (scene_name x) @ label, scene_revision := 0\<rparr>) s))"

definition moveScene :: "bool \<Rightarrow> studio_editor \<Rightarrow> studio_editor" where
  "moveScene up s =
     (case (se_studio s, se_scene s) of
        (Some st, Some i) \<Rightarrow>
          (case findIndex (\<lambda>x. scene_id x = i) (studio_scenes st) of
             None \<Rightarrow> s
           | Some k \<Rightarrow>
               (case neighbour up k (length (studio_scenes st)) of
                  None \<Rightarrow> s
                | Some j \<Rightarrow> set_studio (st\<lparr>studio_scenes := swap k j (studio_scenes st)\<rparr>) s))
      | _ \<Rightarrow> s)"

definition nested_in :: "string \<Rightarrow> studio_document \<Rightarrow> bool" where
  "nested_in i st = list_ex (\<lambda>x. scene_id x \<noteq> i \<and> list_ex (\<lambda>y. src_kind y = NestedSource i) (scene_sources x)) (studio_scenes st)"

definition saved_scene :: "scene_document \<Rightarrow> studio_editor \<Rightarrow> scene_document option" where
  "saved_scene x s = (case se_saved s of None \<Rightarrow> Some x | Some b \<Rightarrow> (case scene_of (scene_id x) b of None \<Rightarrow> Some x | Some y \<Rightarrow> Some y))"

text \<open>Removing the scene that is selected; nothing is left only if every scene had its identifier, where the code throws.\<close>

definition removeScene :: "bool \<Rightarrow> studio_editor \<Rightarrow> studio_editor" where
  "removeScene confirmed s =
     (case (se_studio s, se_scene s) of
        (Some st, Some i) \<Rightarrow>
          if length (studio_scenes st) \<le> 1 \<or> (\<not> se_device s \<and> programSceneId st = i) then s
          else if nested_in i st then s\<lparr>se_notice := Reference\<rparr>
          else (case filter (\<lambda>x. scene_id x \<noteq> i) (studio_scenes st) of
                  [] \<Rightarrow> s
                | x # xs \<Rightarrow>
                    if \<not> confirmed then s
                    else open_scene x (saved_scene x s)
                      (set_studio (st\<lparr>previewSceneId := scene_id x,
                          programSceneId := (if programSceneId st = i then scene_id x else programSceneId st), studio_scenes := x # xs\<rparr>) s))
      | _ \<Rightarrow> s)"

definition updateCollectionScene :: "scene_document \<Rightarrow> studio_editor \<Rightarrow> studio_editor" where
  "updateCollectionScene x s =
     (case se_studio s of
        None \<Rightarrow> s
      | Some st \<Rightarrow>
          let s = set_studio (st\<lparr>studio_scenes := map (\<lambda>z. if scene_id z = scene_id x then x else z) (studio_scenes st)\<rparr>) s
          in if se_scene s = Some (scene_id x) then s\<lparr>se_draft := Some x\<rparr> else s)"

definition createCollectionScene :: "scene_document \<Rightarrow> studio_editor \<Rightarrow> studio_editor" where
  "createCollectionScene x s = add_scene x s"

datatype scene_operation = Duplicate string string | Delete | Up | Down | Top | Bottom | Lock | Unlock | Grid | Projector

definition lock_items :: "bool \<Rightarrow> scene_document \<Rightarrow> scene_document" where
  "lock_items b x = x\<lparr>scene_items := map (\<lambda>it. it\<lparr>item_locked := b\<rparr>) (scene_items x)\<rparr>"

definition delete_scene :: "string \<Rightarrow> studio_document \<Rightarrow> studio_editor \<Rightarrow> studio_editor" where
  "delete_scene i st s =
     (if length (studio_scenes st) \<le> 1 \<or> (\<not> se_device s \<and> programSceneId st = i) \<or> nested_in i st then s
      else case filter (\<lambda>x. scene_id x \<noteq> i) (studio_scenes st) of
             [] \<Rightarrow> s
           | x # xs \<Rightarrow>
               let s = set_studio (st\<lparr>studio_scenes := x # xs,
                     previewSceneId := (if previewSceneId st = i then scene_id x else previewSceneId st),
                     programSceneId := (if programSceneId st = i then scene_id x else programSceneId st)\<rparr>) s
               in if se_scene s = Some i then open_scene x (saved_scene x s) s else s)"

text \<open>The place a scene moves to: the neighbours, the first or the last.\<close>

definition target_place :: "scene_operation \<Rightarrow> nat \<Rightarrow> nat \<Rightarrow> nat option" where
  "target_place o' k n = (case o' of Top \<Rightarrow> if k = 0 then None else Some 0
     | Bottom \<Rightarrow> if k = n - 1 then None else Some (n - 1)
     | Up \<Rightarrow> if k = 0 then None else Some (k - 1)
     | _ \<Rightarrow> if k + 1 < n then Some (k + 1) else None)"

definition operateCollectionScene :: "scene_operation \<Rightarrow> string \<Rightarrow> studio_editor \<Rightarrow> studio_editor" where
  "operateCollectionScene o' i s =
     (case se_studio s of
        None \<Rightarrow> s
      | Some st \<Rightarrow>
          (case scene_of i st of
             None \<Rightarrow> s
           | Some x \<Rightarrow>
               (case o' of
                  Duplicate fresh label \<Rightarrow> duplicateScene i fresh label s
                | Delete \<Rightarrow> delete_scene i st s
                | Lock \<Rightarrow> updateCollectionScene (lock_items True x) s
                | Unlock \<Rightarrow> updateCollectionScene (lock_items False x) s
                | Grid \<Rightarrow> updateCollectionScene (arrangeSceneGrid x) s
                | Projector \<Rightarrow>
                    if se_device s \<or> (case se_saved s of None \<Rightarrow> True | Some b \<Rightarrow> scene_of i b \<noteq> Some x) then s\<lparr>se_notice := ProjectorClosed\<rparr> else s
                | _ \<Rightarrow>
                    (case findIndex (\<lambda>z. scene_id z = i) (studio_scenes st) of
                       None \<Rightarrow> s
                     | Some k \<Rightarrow>
                         (case target_place o' k (length (studio_scenes st)) of
                            None \<Rightarrow> s
                          | Some j \<Rightarrow> set_studio (st\<lparr>studio_scenes := move_to k j (studio_scenes st)\<rparr>) s)))))"

definition addTemplate :: "bool \<Rightarrow> string \<Rightarrow> string \<Rightarrow> studio_editor \<Rightarrow> studio_editor" where
  "addTemplate grid fresh name s =
     (case (se_studio s, se_draft s) of
        (Some st, Some d) \<Rightarrow>
          if length (studio_scenes st) \<ge> 64 then s
          else let x = template_scene grid fresh name d
               in (set_studio (st\<lparr>previewSceneId := fresh, studio_scenes := studio_scenes st @ [x]\<rparr>) s)
                    \<lparr>se_scene := Some fresh, se_draft := Some x, se_base := Some x\<rparr>
      | _ \<Rightarrow> s)"

text \<open>The document of an imported file; \<open>None\<close> when it is not JSON.\<close>

definition importStudio :: "studio_document option \<Rightarrow> studio_editor \<Rightarrow> studio_editor" where
  "importStudio file s =
     (case (se_studio s, file) of
        (Some cur, Some st) \<Rightarrow>
          (case preview_scene st of
             Some x \<Rightarrow>
               if studio_schema st \<noteq> 1 \<or> length (studio_scenes st) > 64 then s\<lparr>se_notice := Failed\<rparr>
               else (set_studio (st\<lparr>studio_revision := studio_revision cur\<rparr>) s)
                      \<lparr>se_scene := Some (scene_id x), se_draft := Some x, se_base := saved_scene x s, se_notice := Done\<rparr>
           | None \<Rightarrow> s\<lparr>se_notice := Failed\<rparr>)
      | (None, _) \<Rightarrow> s
      | (_, None) \<Rightarrow> s\<lparr>se_notice := Failed\<rparr>)"

definition setTransition :: "transition_kind option \<Rightarrow> rat option \<Rightarrow> studio_editor \<Rightarrow> studio_editor" where
  "setTransition k ms s = (case se_studio s of
     None \<Rightarrow> s
   | Some st \<Rightarrow> set_studio (st\<lparr>transition_of := (case k of None \<Rightarrow> transition_of st | Some x \<Rightarrow> x),
       transition_ms := (case ms of None \<Rightarrow> transition_ms st | Some x \<Rightarrow> clamp x 0 10000)\<rparr>) s)"

definition discard :: "studio_editor \<Rightarrow> studio_editor" where
  "discard s = (case se_saved s of None \<Rightarrow> s | Some b \<Rightarrow> (applyRemoteStudio b s)\<lparr>se_notice := Done\<rparr>)"

section \<open>Requests\<close>

definition launch :: "flight_kind \<Rightarrow> studio_editor \<Rightarrow> studio_editor" where
  "launch k s = s\<lparr>se_flights := assign (se_next s) k (se_flights s), se_next := se_next s + 1\<rparr>"

definition begin_saving :: "flight_kind \<Rightarrow> studio_editor \<Rightarrow> studio_editor" where
  "begin_saving k s = launch k (s\<lparr>se_saving := True, se_notice := NoNote\<rparr>)"

definition save :: "studio_editor \<Rightarrow> studio_editor" where
  "save s =
     (case se_studio s of
        None \<Rightarrow> s
      | Some st \<Rightarrow>
          if \<not> dirty s \<or> se_saving s \<or> se_conflict s then s
          else begin_saving (case se_profile s of
                 Some (i, n) \<Rightarrow> SavingProfile (se_version s) (se_scene s) i n
               | None \<Rightarrow> if se_device s \<or> se_link s = LinkOffline then SavingDevice (se_version s) (se_scene s) st
                         else SavingServer (se_version s) (se_scene s)) s)"

definition runStudioAction :: "studio_editor \<Rightarrow> studio_editor" where
  "runStudioAction s =
     (if se_studio s = None \<or> se_device s \<or> se_link s \<noteq> LinkOnline \<or> dirty s \<or> se_saving s then s else begin_saving Acting s)"

definition copyDeviceToServer :: "bool \<Rightarrow> studio_editor \<Rightarrow> studio_editor" where
  "copyDeviceToServer synced s =
     (if se_studio s = None \<or> dirty s \<or> se_saving s \<or> \<not> synced then s
      else launch (Copying (se_version s)) (s\<lparr>se_saving := True\<rparr>))"

definition loadDeviceLayout :: "bool \<Rightarrow> studio_editor \<Rightarrow> studio_editor" where
  "loadDeviceLayout confirmed s = (if se_saving s \<or> (dirty s \<and> \<not> confirmed) then s else launch LoadingDevice s)"

definition returnToServer :: "bool \<Rightarrow> studio_editor \<Rightarrow> studio_editor" where
  "returnToServer confirmed s = (if se_saving s \<or> (dirty s \<and> \<not> confirmed) then s else launch Returning s)"

definition reload_studio :: "studio_editor \<Rightarrow> studio_editor" where
  "reload_studio s = launch Reloading s"

text \<open>\<open>Granted\<close> carries the cameras and profiles of the device's grant and whether the queue took the save.\<close>

datatype flight_answer =
    Committed studio_document
  | RejectedWith nat
  | Granted "(string \<times> string) list option" bool
  | FromDevice studio_document
  | FromProfile string string studio_document
  | Nothing

definition device_kind :: "(string \<times> string) list \<Rightarrow> source_kind \<Rightarrow> editor_notice" where
  "device_kind granted k = (case k of
     CameraSource c p _ \<Rightarrow> if (c, p) \<in> set granted then Done else NotPermitted
   | TextSource _ _ \<Rightarrow> Done | ColorSource _ \<Rightarrow> Done | NestedSource _ \<Rightarrow> Done | _ \<Rightarrow> NotStorable)"

definition device_check :: "(string \<times> string) list option \<Rightarrow> studio_document \<Rightarrow> editor_notice" where
  "device_check granted st =
     (case granted of
        None \<Rightarrow> NotPaired
      | Some g \<Rightarrow>
          let kinds = map (\<lambda>x. device_kind g (src_kind x)) (concat (map scene_sources (studio_scenes st)))
          in if NotPermitted \<in> set kinds then NotPermitted else if NotStorable \<in> set kinds then NotStorable else Done)"

definition failed_with :: "flight_answer \<Rightarrow> editor_notice \<Rightarrow> studio_editor \<Rightarrow> studio_editor" where
  "failed_with a n s = (if a = RejectedWith 412 then s\<lparr>se_conflict := True, se_notice := n\<rparr> else s\<lparr>se_notice := Failed\<rparr>)"

definition take_local_profile :: "string \<Rightarrow> string \<Rightarrow> studio_document \<Rightarrow> studio_editor \<Rightarrow> studio_editor" where
  "take_local_profile i n st s = (applyRemoteStudio st (s\<lparr>se_device := False\<rparr>))\<lparr>se_profile := Some (i, n), se_notice := Done\<rparr>"

definition save_ended :: "flight_kind \<Rightarrow> flight_answer \<Rightarrow> studio_editor \<Rightarrow> studio_editor" where
  "save_ended k a s =
     (case (k, a) of
        (SavingServer v sel, Committed st) \<Rightarrow> (commitSavedStudio st v sel s)\<lparr>se_notice := Done\<rparr>
      | (SavingProfile v sel i n, Committed st) \<Rightarrow> (commitSavedStudio st v sel (s\<lparr>se_profile := Some (i, n)\<rparr>))\<lparr>se_notice := Done\<rparr>
      | (SavingDevice v sel st, Granted g queued) \<Rightarrow>
          if device_check g st \<noteq> Done then s\<lparr>se_notice := device_check g st\<rparr>
          else if \<not> queued then s\<lparr>se_notice := Failed\<rparr>
          else (commitSavedStudio st v sel (s\<lparr>se_device := True\<rparr>))\<lparr>se_notice := Done\<rparr>
      | _ \<Rightarrow> failed_with a SaveConflict s)"

definition action_ended :: "flight_answer \<Rightarrow> studio_editor \<Rightarrow> studio_editor" where
  "action_ended a s = (case a of Committed st \<Rightarrow> (applyRemoteStudio st s)\<lparr>se_notice := Done\<rparr> | _ \<Rightarrow> failed_with a ActionConflict s)"

definition copy_ended :: "nat \<Rightarrow> flight_answer \<Rightarrow> studio_editor \<Rightarrow> studio_editor" where
  "copy_ended v a s = (case a of
     Committed st \<Rightarrow>
       if se_version s \<noteq> v then s\<lparr>se_notice := EditedMeanwhile\<rparr>
       else (applyRemoteStudio st (s\<lparr>se_device := False\<rparr>))\<lparr>se_notice := Done\<rparr>
   | _ \<Rightarrow> s\<lparr>se_notice := Failed\<rparr>)"

definition load_ended :: "flight_kind \<Rightarrow> flight_answer \<Rightarrow> studio_editor \<Rightarrow> studio_editor" where
  "load_ended k a s =
     (case (k, a) of
        (LoadingDevice, FromDevice st) \<Rightarrow> (applyRemoteStudio st (s\<lparr>se_device := True, se_profile := None\<rparr>))\<lparr>se_notice := Done\<rparr>
      | (Returning, Committed st) \<Rightarrow> (applyRemoteStudio st (s\<lparr>se_device := False, se_profile := None\<rparr>))\<lparr>se_notice := Done\<rparr>
      | (Reloading, Committed st) \<Rightarrow> applyRemoteStudio st (s\<lparr>se_device := False, se_profile := None\<rparr>)
      | (Reloading, FromDevice st) \<Rightarrow> applyRemoteStudio st (s\<lparr>se_device := True, se_profile := None\<rparr>)
      | (Reloading, FromProfile i n st) \<Rightarrow> take_local_profile i n st s
      | _ \<Rightarrow> s\<lparr>se_notice := Failed\<rparr>)"

fun saves :: "flight_kind \<Rightarrow> bool" where
  "saves (SavingServer _ _) = True"
| "saves (SavingProfile _ _ _ _) = True"
| "saves (SavingDevice _ _ _) = True"
| "saves _ = False"

definition flight_ended :: "nat \<Rightarrow> flight_answer \<Rightarrow> studio_editor \<Rightarrow> studio_editor" where
  "flight_ended i a s =
     (case map_of (se_flights s) i of
        None \<Rightarrow> s
      | Some k \<Rightarrow>
          let s = s\<lparr>se_flights := erase i (se_flights s)\<rparr>
          in case k of
               Acting \<Rightarrow> (action_ended a s)\<lparr>se_saving := False\<rparr>
             | Copying v \<Rightarrow> (copy_ended v a s)\<lparr>se_saving := False\<rparr>
             | _ \<Rightarrow> if saves k then (save_ended k a s)\<lparr>se_saving := False\<rparr> else load_ended k a s)"

datatype editor_event =
    EditScene scene_edit
  | SelectSource string bool
  | SelectScene string
  | DuplicateScene string string string
  | MoveScene bool
  | RemoveScene bool
  | UpdateScene scene_document
  | CreateScene scene_document
  | OperateScene scene_operation string
  | AddTemplate bool string string
  | ImportStudio "studio_document option"
  | SetTransition "transition_kind option" "rat option"
  | Discard
  | Save
  | StudioAction
  | CopyDevice bool
  | LoadDevice bool
  | ReturnToServer bool
  | Reload
  | ProfileSelected string string studio_document
  | LinkChanged link
  | FlightEnded nat flight_answer

definition chooseSource :: "string \<Rightarrow> bool \<Rightarrow> studio_editor \<Rightarrow> studio_editor" where
  "chooseSource i adding s = (case se_draft s of
     None \<Rightarrow> s | Some x \<Rightarrow> s\<lparr>se_source := Some i, se_sources := selectSource i adding x (se_sources s)\<rparr>)"

fun studio_step :: "studio_editor \<Rightarrow> editor_event \<Rightarrow> studio_editor" where
  "studio_step s (EditScene e) = updateDraft e s"
| "studio_step s (SelectSource i adding) = chooseSource i adding s"
| "studio_step s (SelectScene i) = selectScene i s"
| "studio_step s (DuplicateScene i fresh label) = duplicateScene i fresh label s"
| "studio_step s (MoveScene up) = moveScene up s"
| "studio_step s (RemoveScene confirmed) = removeScene confirmed s"
| "studio_step s (UpdateScene x) = updateCollectionScene x s"
| "studio_step s (CreateScene x) = createCollectionScene x s"
| "studio_step s (OperateScene o' i) = operateCollectionScene o' i s"
| "studio_step s (AddTemplate grid fresh name) = addTemplate grid fresh name s"
| "studio_step s (ImportStudio file) = importStudio file s"
| "studio_step s (SetTransition k ms) = setTransition k ms s"
| "studio_step s Discard = discard s"
| "studio_step s Save = save s"
| "studio_step s StudioAction = runStudioAction s"
| "studio_step s (CopyDevice synced) = copyDeviceToServer synced s"
| "studio_step s (LoadDevice confirmed) = loadDeviceLayout confirmed s"
| "studio_step s (ReturnToServer confirmed) = returnToServer confirmed s"
| "studio_step s Reload = reload_studio s"
| "studio_step s (ProfileSelected i n st) = take_local_profile i n st s"
| "studio_step s (LinkChanged l) = s\<lparr>se_link := l\<rparr>"
| "studio_step s (FlightEnded i a) = flight_ended i a s"

end
