(* ===== verification/SceneEditLaws.thy ===== *)
theory SceneEditLaws
  imports SceneEdit
begin

text \<open>
  What the editor's operations on a scene guarantee: layers are numbered without gaps and nothing is
  lost when they move, what is dragged stays on the canvas, a grid divides the canvas, identifiers have
  the form the server accepts, and removing a source leaves nothing that shows it.
\<close>

section \<open>Identifiers\<close>

theorem hue_in_range: "185 \<le> sourceHue i \<and> sourceHue i < 290"
  by (simp add: sourceHue_def)

lemma hex_digit_lower: "is_hex_lower (hex_digit (n mod 16))"
  by (auto simp: hex_digit_def is_hex_lower_def is_digit_def code_def)

lemma is_id_hex: "is_hex_lower c \<Longrightarrow> is_id_char c"
  by (auto simp: is_hex_lower_def is_id_char_def is_alnum_def is_digit_def is_lower_def)

theorem camera_source_id_valid: "id64 (cameraSourceId camera profile) \<and> length (cameraSourceId camera profile) = 30"
proof -
  have "list_all is_id_char (hex16 w)" for w
    by (auto simp: list_all_iff hex16_def intro!: is_id_hex hex_digit_lower)
  moreover have "list_all is_id_char ''source-camera-''" by code_simp
  ultimately show ?thesis by (simp add: id64_def in_class_def cameraSourceId_def hex16_def)
qed

section \<open>Layers\<close>

definition unlayered :: "scene_item \<Rightarrow> scene_item" where
  "unlayered it = it\<lparr>zIndex := 0\<rparr>"

lemma length_reindexed [simp]: "length (reindexed its) = length its"
  by (simp add: reindexed_def)

lemma reindexed_layers: "map zIndex (reindexed its) = map of_nat [0..<length its]"
  by (rule nth_equalityI) (simp_all add: reindexed_def with_layer_def)

lemma reindexed_items: "map unlayered (reindexed its) = map unlayered its"
  by (rule nth_equalityI) (simp_all add: reindexed_def with_layer_def unlayered_def)

lemma mset_reindexed: "image_mset unlayered (mset (reindexed its)) = image_mset unlayered (mset its)"
  by (metis mset_map reindexed_items)

lemma mset_move_to: "i < length xs \<Longrightarrow> mset (move_to i j xs) = mset xs"
proof -
  assume i: "i < length xs"
  let ?r = "take i xs @ drop (Suc i) xs"
  have "mset (take j ?r @ xs ! i # drop j ?r) = add_mset (xs ! i) (mset (take j ?r @ drop j ?r))" by (simp add: ac_simps)
  also have "\<dots> = add_mset (xs ! i) (mset ?r)" by (simp only: append_take_drop_id)
  also have "\<dots> = mset (take i xs @ xs ! i # drop (Suc i) xs)" by simp
  also have "\<dots> = mset xs" using i by (simp only: id_take_nth_drop [symmetric])
  finally show ?thesis by (simp add: move_to_def Let_def)
qed

lemma findIndex_Some: "findIndex P xs = Some i \<Longrightarrow> i < length xs \<and> P (xs ! i) \<and> (\<forall>j < i. \<not> P (xs ! j))"
proof (induction xs arbitrary: i)
  case (Cons x xs)
  show ?case
  proof (cases "P x")
    case False
    with Cons.prems obtain k where k: "findIndex P xs = Some k" "i = Suc k" by auto
    with Cons.IH [OF k(1)] False show ?thesis by (auto simp: less_Suc_eq_0_disj)
  qed (use Cons.prems in auto)
qed simp

lemma mset_swapped: "i < length xs \<Longrightarrow> j < length xs \<Longrightarrow> mset (swap i j xs) = mset xs"
  by (simp add: swap_def mset_swap)

lemma neighbour_less: "i < n \<Longrightarrow> neighbour up i n = Some j \<Longrightarrow> j < n"
  by (auto simp: neighbour_def split: if_splits)

definition layers_ok :: "scene_document \<Rightarrow> bool" where
  "layers_ok s = (map zIndex (scene_items s) = map of_nat [0..<length (scene_items s)])"

text \<open>Moving a layer changes nothing but the order: the same items, numbered from the bottom without gaps.\<close>

theorem layers_only_move:
  assumes "moveLayer source up s = Some s' \<or> dropLayer target source s = Some s'"
  shows "layers_ok s' \<and> image_mset unlayered (mset (scene_items s')) = image_mset unlayered (mset (scene_items s))
    \<and> s'\<lparr>scene_items := []\<rparr> = s\<lparr>scene_items := []\<rparr>"
proof -
  have "\<exists>its. s' = s\<lparr>scene_items := reindexed its\<rparr> \<and> mset its = mset (scene_items s)"
    using assms
  proof
    assume "moveLayer source up s = Some s'"
    then obtain i j where "findIndex (\<lambda>it. item_source it = source) (sort_key zIndex (scene_items s)) = Some i"
      "neighbour up i (length (scene_items s)) = Some j" "s' = s\<lparr>scene_items := reindexed (swap i j (sort_key zIndex (scene_items s)))\<rparr>"
      by (auto simp: moveLayer_def Let_def split: option.splits)
    moreover from this have "i < length (scene_items s)" using findIndex_Some by fastforce
    moreover from calculation have "j < length (scene_items s)" using neighbour_less by blast
    ultimately show ?thesis
      by (intro exI [of _ "swap i j (sort_key zIndex (scene_items s))"]) (simp add: mset_swapped)
  next
    assume "dropLayer target source s = Some s'"
    then obtain i j where "findIndex (\<lambda>it. item_source it = source) (sort_key (\<lambda>it. - zIndex it) (scene_items s)) = Some i"
      "s' = s\<lparr>scene_items := reindexed (rev (move_to i j (sort_key (\<lambda>it. - zIndex it) (scene_items s))))\<rparr>"
      by (auto simp: dropLayer_def Let_def split: option.splits if_splits)
    moreover from this have "i < length (sort_key (\<lambda>it. - zIndex it) (scene_items s))" using findIndex_Some by fastforce
    ultimately show ?thesis
      by (intro exI [of _ "rev (move_to i j (sort_key (\<lambda>it. - zIndex it) (scene_items s)))"]) (simp add: mset_move_to)
  qed
  then show ?thesis by (auto simp: layers_ok_def reindexed_layers mset_reindexed)
qed

section \<open>Dragging\<close>

lemma foldl_nearest:
  "foldl (\<lambda>best c. if \<bar>c - v\<bar> < \<bar>best - v\<bar> then c else best) b cs \<in> insert b (set cs)
   \<and> (\<forall>c \<in> insert b (set cs). \<bar>foldl (\<lambda>best c. if \<bar>c - v\<bar> < \<bar>best - v\<bar> then c else best) b cs - v\<bar> \<le> \<bar>c - v\<bar>)"
  for v :: rat
proof (induction cs arbitrary: b)
  case (Cons c cs)
  let ?b = "if \<bar>c - v\<bar> < \<bar>b - v\<bar> then c else b"
  have "\<bar>?b - v\<bar> \<le> \<bar>c - v\<bar>" "\<bar>?b - v\<bar> \<le> \<bar>b - v\<bar>" by auto
  with Cons [of ?b] show ?case by (force intro: order_trans)
qed simp

lemma nearest_in: "cs \<noteq> [] \<Longrightarrow> nearest v cs \<in> set cs"
  using foldl_nearest [of v "hd cs" cs] by (auto simp: nearest_def)

lemma nearest_least: "c \<in> set cs \<Longrightarrow> \<bar>nearest v cs - v\<bar> \<le> \<bar>c - v\<bar>"
  using foldl_nearest [of v "hd cs" cs] by (auto simp: nearest_def)

lemma snapped_bounds:
  assumes "0 \<le> v" and "v \<le> maximum - ext"
  shows "0 \<le> snapped v ext maximum" and "snapped v ext maximum \<le> maximum - ext"
proof -
  define m where "m = maximum - ext"
  define n where "n = nearest v (snap_points v ext maximum)"
  have c: "n \<in> {0, of_int (round_rat (m / 2)), m, of_int (round_rat (v / 10)) * 10}"
    using nearest_in [of "snap_points v ext maximum" v] by (auto simp: n_def snap_points_def m_def)
  have near: "\<bar>n - v\<bar> \<le> \<bar>m - v\<bar>" unfolding n_def by (rule nearest_least) (simp add: snap_points_def m_def)
  have mid: "0 \<le> (of_int (round_rat (m / 2)) :: rat)" "of_int (round_rat (m / 2)) \<le> m"
  proof -
    have "0 \<le> m" using assms by (simp add: m_def)
    then have "0 \<le> \<lfloor>m / 2 + 1 / 2\<rfloor>" by simp
    then show "0 \<le> (of_int (round_rat (m / 2)) :: rat)" by (simp add: round_rat_def)
    show "of_int (round_rat (m / 2)) \<le> m"
    proof (cases "1 \<le> m")
      case True
      with round_rat_bounds [of "m / 2"] show ?thesis by linarith
    next
      case False
      with \<open>0 \<le> m\<close> have "\<lfloor>m / 2 + 1 / 2\<rfloor> = 0" by (simp add: floor_eq_iff)
      with \<open>0 \<le> m\<close> show ?thesis by (simp add: round_rat_def)
    qed
  qed
  have ten: "0 \<le> of_int (round_rat (v / 10)) * (10 :: rat)"
  proof -
    have "0 \<le> \<lfloor>v / 10 + 1 / 2\<rfloor>" using assms by simp
    then show ?thesis by (simp add: round_rat_def)
  qed
  have n: "0 \<le> n \<and> n \<le> m"
  proof -
    have "0 \<le> n" using c mid ten assms by (auto simp: m_def)
    moreover have "n \<le> m" using near assms(2) by (auto simp: m_def abs_if split: if_splits)
    ultimately show ?thesis by simp
  qed
  have r: "0 \<le> (of_int (round_rat v) :: rat) \<and> of_int (round_rat v) \<le> m" if "6 < \<bar>n - v\<bar>"
  proof -
    from that near assms have "v + 6 < m" by (auto simp: m_def abs_if split: if_splits)
    moreover have "0 \<le> round_rat v" using assms by (simp add: round_rat_def)
    moreover have "of_int (round_rat v) \<le> v + 1 / 2" using round_rat_bounds [of v] by blast
    ultimately show ?thesis by simp
  qed
  show "0 \<le> snapped v ext maximum" "snapped v ext maximum \<le> maximum - ext"
    using n r by (simp_all add: snapped_def n_def [symmetric] m_def [symmetric])
qed

lemma snap_clamped:
  assumes "e \<le> m"
  shows "0 \<le> snapped (clamp v 0 (max 0 (m - e))) e m \<and> snapped (clamp v 0 (max 0 (m - e))) e m + e \<le> m"
proof -
  let ?v = "clamp v 0 (max 0 (m - e))"
  have "0 \<le> ?v" "?v \<le> m - e" using assms by (auto simp: clamp_def)
  note snapped_bounds [OF this]
  then show ?thesis unfolding le_diff_eq by blast
qed

text \<open>What is dragged stays on the canvas: an item that fits is placed inside it, wherever the pointer goes.\<close>

theorem dragged_items_stay_on_canvas:
  assumes "item_width it \<le> po_canvasWidth p" and "item_height it \<le> po_canvasHeight p"
  shows "0 \<le> fst (moved_item p dx dy it) \<and> fst (moved_item p dx dy it) + item_width it \<le> po_canvasWidth p
    \<and> 0 \<le> snd (moved_item p dx dy it) \<and> snd (moved_item p dx dy it) + item_height it \<le> po_canvasHeight p"
  using assms snap_clamped by (simp add: moved_item_def)

section \<open>Alignment\<close>

text \<open>Distributing two items horizontally aligns their lower edges instead.\<close>

theorem distributing_two_items_aligns_bottoms:
  assumes "filter (\<lambda>it. item_source it \<in> set selected) (scene_items s) = [a, b]"
  shows "transformSelection HDistribute selected s = transformSelection AlignBottom selected s"
  using assms by (simp add: transformSelection_def x_updates_def y_updates_def Let_def)

text \<open>A locked item is never moved.\<close>

theorem locked_items_stay:
  assumes "it \<in> set (scene_items s)" and "item_locked it"
  shows "it \<in> set (scene_items (transformSelection a selected s)) \<and> it \<in> set (scene_items (arrangeSceneGrid s))"
proof
  show "it \<in> set (scene_items (transformSelection a selected s))"
    using assms by (force simp: transformSelection_def Let_def)
  from assms(1) obtain i where "i < length (scene_items s)" "scene_items s ! i = it" by (auto simp: in_set_conv_nth)
  with assms(2) show "it \<in> set (scene_items (arrangeSceneGrid s))"
    by (force simp: arrangeSceneGrid_def in_set_conv_nth grid_item_def Let_def)
qed

section \<open>The grid\<close>

lemma grid_mono:
  assumes "0 \<le> w" and "i \<le> j"
  shows "grid_line i w n \<le> grid_line j w n"
proof -
  have "of_nat i * w / of_nat n \<le> of_nat j * w / of_nat n" using assms by (intro divide_right_mono mult_right_mono) auto
  then show ?thesis unfolding grid_line_def of_int_le_iff by (rule floor_mono)
qed

lemma grid_ends: "0 < n \<Longrightarrow> grid_line 0 w n = 0 \<and> grid_line n w n \<le> w"
  by (simp add: grid_line_def)

definition rect_disjoint :: "scene_item \<Rightarrow> scene_item \<Rightarrow> bool" where
  "rect_disjoint a b = (item_x a + item_width a \<le> item_x b \<or> item_x b + item_width b \<le> item_x a
     \<or> item_y a + item_height a \<le> item_y b \<or> item_y b + item_height b \<le> item_y a)"

definition on_canvas :: "scene_canvas \<Rightarrow> scene_item \<Rightarrow> bool" where
  "on_canvas c it = (0 \<le> item_x it \<and> 0 \<le> item_y it \<and> 0 \<le> item_width it \<and> 0 \<le> item_height it
     \<and> item_x it + item_width it \<le> canvas_width c \<and> item_y it + item_height it \<le> canvas_height c)"

lemma rows_enough: "i < n \<Longrightarrow> i div grid_columns n < grid_rows n"
proof -
  assume i: "i < n"
  have c: "0 < grid_columns n" by (simp add: grid_columns_def)
  have "i + grid_columns n \<le> n + grid_columns n - 1" using i by simp
  then have "(i + grid_columns n) div grid_columns n \<le> (n + grid_columns n - 1) div grid_columns n" by (rule div_le_mono)
  with c have "i div grid_columns n + 1 \<le> (n + grid_columns n - 1) div grid_columns n" by simp
  then show ?thesis by (simp add: grid_rows_def)
qed

text \<open>The grid divides the canvas: unlocked items lie on it and do not overlap each other.\<close>

theorem grid_divides_canvas:
  assumes "0 \<le> canvas_width (scene_canvas s)" and "0 \<le> canvas_height (scene_canvas s)"
    and "list_all (\<lambda>it. \<not> item_locked it) (scene_items s)"
  shows "list_all (on_canvas (scene_canvas s)) (scene_items (arrangeSceneGrid s))
    \<and> sorted_wrt rect_disjoint (scene_items (arrangeSceneGrid s))"
proof -
  define n where "n = length (scene_items s)"
  define C where "C = grid_columns n"
  define R where "R = grid_rows n"
  define W where "W = canvas_width (scene_canvas s)"
  define H where "H = canvas_height (scene_canvas s)"
  let ?its = "scene_items (arrangeSceneGrid s)"
  have pos: "0 < C" "0 < R" "0 \<le> W" "0 \<le> H" using assms by (simp_all add: C_def R_def grid_columns_def grid_rows_def W_def H_def)
  have len: "length ?its = n" by (simp add: arrangeSceneGrid_def n_def Let_def)
  have it: "item_x (?its ! i) = grid_line (i mod C) W C" "item_x (?its ! i) + item_width (?its ! i) = grid_line (i mod C + 1) W C"
    "item_y (?its ! i) = grid_line (i div C) H R" "item_y (?its ! i) + item_height (?its ! i) = grid_line (i div C + 1) H R" if "i < n" for i
    using that assms(3) by (simp_all add: arrangeSceneGrid_def grid_item_def n_def C_def R_def W_def H_def list_all_length Let_def)
  have "on_canvas (scene_canvas s) (?its ! i)" if i: "i < n" for i
  proof -
    have "i mod C + 1 \<le> C" "i div C + 1 \<le> R" using pos rows_enough [of i n] i by (simp_all add: C_def R_def Suc_leI)
    then have "grid_line (i mod C + 1) W C \<le> W" "grid_line (i div C + 1) H R \<le> H"
      using grid_mono pos grid_ends by (meson order_trans)+
    moreover have "0 \<le> grid_line (i mod C) W C" "0 \<le> grid_line (i div C) H R"
      using grid_mono [of W 0 "i mod C" C] grid_mono [of H 0 "i div C" R] grid_ends pos by auto
    moreover have "grid_line (i mod C) W C \<le> grid_line (i mod C + 1) W C" "grid_line (i div C) H R \<le> grid_line (i div C + 1) H R"
      using grid_mono pos by simp_all
    ultimately show ?thesis using it [OF i] by (auto simp: on_canvas_def W_def H_def)
  qed
  moreover have "rect_disjoint (?its ! i) (?its ! j)" if ij: "i < j" "j < n" for i j
  proof (cases "i div C = j div C")
    case True
    with ij have "i mod C < j mod C" by (metis div_mult_mod_eq nat_add_left_cancel_less)
    then have "grid_line (i mod C + 1) W C \<le> grid_line (j mod C) W C" using grid_mono pos by simp
    with it [of i] it [of j] ij show ?thesis by (simp add: rect_disjoint_def)
  next
    case False
    with ij have "i div C < j div C" using div_le_mono [of i j C] by simp
    then have "grid_line (i div C + 1) H R \<le> grid_line (j div C) H R" using grid_mono pos by simp
    with it [of i] it [of j] ij show ?thesis by (simp add: rect_disjoint_def)
  qed
  ultimately show ?thesis using len by (auto simp: list_all_length sorted_wrt_iff_nth_less)
qed

section \<open>Sources\<close>

definition items_shown :: "scene_document \<Rightarrow> bool" where
  "items_shown s = (item_source ` set (scene_items s) \<subseteq> src_id ` set (scene_sources s))"

lemma item_source_with_layer [simp]: "item_source (with_layer z it) = item_source it"
  by (simp add: with_layer_def)

lemma sources_reindexed: "map item_source (reindexed its) = map item_source its"
  by (rule nth_equalityI) (simp_all add: reindexed_def)

lemma source_set_normalized: "item_source ` set (normalizeZIndexes its) = item_source ` set its"
  by (metis list.set_map normalizeZIndexes_def set_sort sources_reindexed)

text \<open>Adding and removing keep every item on a source of its scene; at most 64 sources are kept, and a
  removed source is gone with everything that showed it.\<close>

theorem sources_and_items_agree:
  assumes "items_shown s"
  shows "items_shown (removeSource i s) \<and> i \<notin> src_id ` set (scene_sources (removeSource i s))
      \<and> i \<notin> item_source ` set (scene_items (removeSource i s))
    \<and> (case addSource k tr scenes targets suffixes s of None \<Rightarrow> True
       | Some (s', j) \<Rightarrow> items_shown s' \<and> length (scene_sources s') \<le> 64 \<and> j \<in> src_id ` set (scene_sources s'))"
proof -
  have r: "items_shown (removeSource i s) \<and> i \<notin> src_id ` set (scene_sources (removeSource i s))
      \<and> i \<notin> item_source ` set (scene_items (removeSource i s))"
    using assms by (auto simp: removeSource_def items_shown_def source_set_normalized)
  have "items_shown s' \<and> length (scene_sources s') \<le> 64 \<and> j \<in> src_id ` set (scene_sources s')"
    if "addSource k tr scenes targets suffixes s = Some (s', j)" for s' j
  proof -
    define srcs where "srcs = map2 (\<lambda>(v, name) suffix. new_source k tr suffix v name)
      (take (64 - length (scene_sources s)) (if k = AddCamera then targets else [(fst (hd targets), trim (snd (hd targets)))])) suffixes"
    define its where "its = map2 (\<lambda>x (i, suffix). new_item (scene_canvas s) suffix (src_id x) (length (scene_items s) + i))
      srcs (zip [0..<length srcs] suffixes)"
    from that have *: "s' = s\<lparr>scene_sources := scene_sources s @ srcs, scene_items := scene_items s @ its\<rparr>" "j = src_id (last srcs)"
        "srcs \<noteq> []" "length (scene_sources s) < 64"
      unfolding addSource_def Let_def srcs_def [symmetric] its_def [symmetric] by (auto split: if_splits)
    have "item_source ` set its \<subseteq> src_id ` set srcs"
      by (auto simp: its_def new_item_def Let_def dest: set_zip_leftD)
    moreover have "length srcs \<le> 64 - length (scene_sources s)" by (simp add: srcs_def)
    ultimately show ?thesis using * assms by (auto simp: items_shown_def)
  qed
  with r show ?thesis by (auto split: option.split)
qed

end
