(* ===== verification/StudioEditorSafety.thy ===== *)
theory StudioEditorSafety
  imports StudioEditor SceneEditLaws
begin

text \<open>
  What the studio editor guarantees: the scene the user sees is part of the document that a save sends,
  at most one request changes the server's studio at a time, and an edit made while a save is under
  way survives it; and where it does not guarantee that, with an action or a load under way.
\<close>

section \<open>What is shown is what is saved\<close>

fun shown_in :: "scene_document option \<Rightarrow> string option \<Rightarrow> studio_document option \<Rightarrow> bool" where
  "shown_in None i st = (i = None)"
| "shown_in (Some x) i None = False"
| "shown_in (Some x) i (Some st) = (i = Some (scene_id x) \<and> x \<in> set (studio_scenes st))"

abbreviation shown :: "studio_editor \<Rightarrow> bool" where
  "shown s \<equiv> shown_in (se_draft s) (se_scene s) (se_studio s)"

text \<open>The requests that change the server's studio; \<open>saving\<close> is up while one of them is under way.\<close>

fun exclusive :: "flight_kind \<Rightarrow> bool" where
  "exclusive Acting = True"
| "exclusive (Copying _) = True"
| "exclusive k = saves k"

definition changes_under_way :: "studio_editor \<Rightarrow> nat" where
  "changes_under_way s = length (filter (\<lambda>e. exclusive (snd e)) (se_flights s))"

definition flights_known :: "nat \<Rightarrow> (nat \<times> flight_kind) list \<Rightarrow> bool" where
  "flights_known n m = (wf_map m \<and> list_all (\<lambda>(i, k). i < n) m)"

definition studio_ok :: "studio_editor \<Rightarrow> bool" where
  "studio_ok s = (shown s \<and> flights_known (se_next s) (se_flights s)
     \<and> changes_under_way s = (if se_saving s then 1 else 0))"

text \<open>The parts that the operations on documents leave alone.\<close>

definition same_requests :: "studio_editor \<Rightarrow> studio_editor \<Rightarrow> bool" where
  "same_requests s s' = (se_flights s' = se_flights s \<and> se_saving s' = se_saving s \<and> se_next s' = se_next s)"

lemma requests_refl [simp]: "same_requests s s"
  by (simp add: same_requests_def)

lemma set_studio_simps [simp]:
  "se_studio (set_studio st s) = Some st" "se_draft (set_studio st s) = se_draft s" "se_scene (set_studio st s) = se_scene s"
  "se_flights (set_studio st s) = se_flights s" "se_saving (set_studio st s) = se_saving s" "se_next (set_studio st s) = se_next s"
  "se_saved (set_studio st s) = se_saved s" "se_version (set_studio st s) = se_version s + 1" "se_source (set_studio st s) = se_source s"
  "se_device (set_studio st s) = se_device s"
  by (simp_all add: set_studio_def)

lemma open_scene_simps [simp]:
  "se_studio (open_scene x b s) = se_studio s" "se_draft (open_scene x b s) = Some x" "se_scene (open_scene x b s) = Some (scene_id x)"
  "se_flights (open_scene x b s) = se_flights s" "se_saving (open_scene x b s) = se_saving s" "se_next (open_scene x b s) = se_next s"
  "se_saved (open_scene x b s) = se_saved s" "se_version (open_scene x b s) = se_version s"
  by (simp_all add: open_scene_def select_first_def)

lemma scene_of_Some: "scene_of i st = Some x \<Longrightarrow> x \<in> set (studio_scenes st) \<and> scene_id x = i"
  by (auto simp: scene_of_def find_Some_iff)

lemma preview_in: "preview_scene st = Some x \<Longrightarrow> x \<in> set (studio_scenes st)"
  by (auto simp: preview_scene_def dest: scene_of_Some split: option.splits list.splits)

lemma apply_requests [simp]:
  "se_flights (applyRemoteStudio st s) = se_flights s" "se_saving (applyRemoteStudio st s) = se_saving s"
  "se_next (applyRemoteStudio st s) = se_next s"
  by (auto simp: applyRemoteStudio_def Let_def split: option.split)

lemma apply_shown:
  "shown s
   \<Longrightarrow> shown (applyRemoteStudio st s)"
  by (auto simp: applyRemoteStudio_def Let_def dest: preview_in split: option.split)

lemma commit_requests [simp]:
  "se_flights (commitSavedStudio st v sel s) = se_flights s" "se_saving (commitSavedStudio st v sel s) = se_saving s"
  "se_next (commitSavedStudio st v sel s) = se_next s"
  by (simp_all add: commitSavedStudio_def)

lemma shown_revision: "shown_in d i st \<Longrightarrow> shown_in d i (map_option (\<lambda>x. x\<lparr>studio_revision := n\<rparr>) st)"
  by (cases d; cases st) auto

lemma commit_shown:
  "shown s
   \<Longrightarrow> shown (commitSavedStudio st v sel s)"
  by (simp add: commitSavedStudio_def apply_shown shown_revision)

lemma edited_id:
  "edited_scene e s x = Some y \<Longrightarrow> scene_id y = scene_id x"
proof -
  have l: "moveLayer i up x = Some y \<Longrightarrow> scene_id y = scene_id x" for i up
    by (auto simp: moveLayer_def Let_def split: option.splits)
  have d: "dropLayer t i x = Some y \<Longrightarrow> scene_id y = scene_id x" for t i
    by (auto simp: dropLayer_def Let_def split: option.splits if_splits)
  have a: "addSource k tr scs ts sf x = Some (y, j) \<Longrightarrow> scene_id y = scene_id x" for k tr scs ts sf j
    by (auto simp: addSource_def Let_def split: if_splits)
  show "edited_scene e s x = Some y \<Longrightarrow> scene_id y = scene_id x"
    using l d a by (cases e) (auto simp: edited_scene_def updateSource_def updateItem_def updateFilter_def addFilter_def drag_def
      removeSource_def transformSelection_def groupSelection_def Let_def split: if_splits option.splits)
qed

lemma selection_simps [simp]:
  "se_studio (edit_selection e x y s) = se_studio s" "se_draft (edit_selection e x y s) = se_draft s"
  "se_scene (edit_selection e x y s) = se_scene s" "se_flights (edit_selection e x y s) = se_flights s"
  "se_saving (edit_selection e x y s) = se_saving s" "se_next (edit_selection e x y s) = se_next s"
  "se_version (edit_selection e x y s) = se_version s"
  by (cases e; simp add: edit_selection_def Let_def)+

lemma shown_replace:
  assumes "x \<in> set xs" and "scene_id x = scene_id y"
  shows "y \<in> set (map (\<lambda>z. if scene_id z = scene_id x then y else z) xs)"
  using assms by force

lemma shown_update:
  assumes "shown s"
  shows "shown (updateDraft e s)"
proof (cases "se_draft s")
  case None
  with assms show ?thesis by (simp add: updateDraft_def)
next
  case (Some x)
  show ?thesis
  proof (cases "edited_scene e s x")
    case None
    with Some assms show ?thesis by (simp add: updateDraft_def)
  next
    case e: (Some y)
    from assms Some obtain st where st: "se_studio s = Some st" "x \<in> set (studio_scenes st)" "se_scene s = Some (scene_id x)"
      by (cases "se_studio s") auto
    have "y \<in> set (map (\<lambda>z. if scene_id z = scene_id x then y else z) (studio_scenes st))"
      by (rule shown_replace [OF st(2)]) (simp add: edited_id [OF e])
    with Some e st edited_id [OF e] show ?thesis by (simp add: updateDraft_def)
  qed
qed

lemma update_requests [simp]:
  "se_flights (updateDraft e s) = se_flights s" "se_saving (updateDraft e s) = se_saving s" "se_next (updateDraft e s) = se_next s"
  by (simp_all add: updateDraft_def split: option.split)

lemma shown_Some: "shown_in (Some x) i st = (i = Some (scene_id x) \<and> (\<exists>d. st = Some d \<and> x \<in> set (studio_scenes d)))"
  by (cases st) auto

lemma set_swapped: "i < length xs \<Longrightarrow> j < length xs \<Longrightarrow> set (swap i j xs) = set xs"
  using mset_swapped by (metis set_mset_mset)

lemma set_neighbour_swap:
  "findIndex p xs = Some k \<Longrightarrow> neighbour up k (length xs) = Some j \<Longrightarrow> set (swap k j xs) = set xs"
  using findIndex_Some neighbour_less set_swapped by blast

lemma set_moved_to: "i < length xs \<Longrightarrow> set (move_to i j xs) = set xs"
  using mset_move_to by (metis set_mset_mset)

lemma shown_document_steps:
  assumes s: "shown s"
  shows "shown (selectScene i s)"
    and "shown (add_scene x s)"
    and "shown (moveScene up s)"
    and "shown (removeScene c s)"
    and "shown (addTemplate g f n s)"
    and "shown (importStudio file s)"
    and "shown (setTransition k ms s)"
    and "shown (updateCollectionScene y s)"
proof -
  show "shown (selectScene i s)"
    using s by (auto simp: selectScene_def Let_def dest: scene_of_Some split: option.splits)
  show "shown (add_scene x s)"
    using s by (auto simp: add_scene_def split: option.splits)
  show "shown (moveScene up s)"
    using s by (cases "se_draft s") (auto simp: moveScene_def shown_Some set_neighbour_swap split: option.splits)
  show "shown (removeScene c s)"
    using s by (auto simp: removeScene_def split: option.splits list.splits)
  show "shown (addTemplate g f n s)"
    using s by (auto simp: addTemplate_def template_scene_def Let_def split: option.splits)
  show "shown (importStudio file s)"
    using s by (auto simp: importStudio_def dest: preview_in split: option.splits)
  show "shown (setTransition k ms s)"
    using s by (cases "se_draft s") (auto simp: setTransition_def shown_Some split: option.splits)
  show "shown (updateCollectionScene y s)"
    using s by (cases "se_draft s") (auto simp: updateCollectionScene_def shown_Some image_iff Let_def split: option.splits)
qed

lemma shown_delete: "shown s \<Longrightarrow> se_studio s = Some st \<Longrightarrow> shown (delete_scene i st s)"
proof (cases "filter (\<lambda>x. scene_id x \<noteq> i) (studio_scenes st)")
  case Nil
  then show "shown s \<Longrightarrow> se_studio s = Some st \<Longrightarrow> ?thesis" by (simp add: delete_scene_def)
next
  case (Cons x xs)
  from arg_cong [OF this, of set] have "set (x # xs) = {y \<in> set (studio_scenes st). scene_id y \<noteq> i}" by simp
  with Cons show "shown s \<Longrightarrow> se_studio s = Some st \<Longrightarrow> ?thesis"
    by (cases "se_draft s") (auto simp: delete_scene_def Let_def shown_Some)
qed

lemma shown_operate:
  assumes s: "shown s"
  shows "shown (operateCollectionScene o' i s)"
proof (cases "se_studio s")
  case None
  then show ?thesis using s by (simp add: operateCollectionScene_def)
next
  case st: (Some st)
  have m: "shown (set_studio (st\<lparr>studio_scenes := move_to k j (studio_scenes st)\<rparr>) s)" if "findIndex p (studio_scenes st) = Some k" for p k j
    using s st findIndex_Some [OF that] by (cases "se_draft s") (auto simp: set_moved_to)
  show ?thesis
    using s m shown_delete [OF s st] shown_document_steps [OF s] st
    by (cases o'; auto simp: operateCollectionScene_def duplicateScene_def split: option.split)
qed

lemma shown_others:
  assumes s: "shown s"
  shows "shown (duplicateScene i fresh label s)" and "shown (discard s)" and "shown (take_local_profile i n st s)"
    and "shown (chooseSource i adding s)" and "shown (save_ended k a s)" and "shown (action_ended a s)"
    and "shown (copy_ended v a s)" and "shown (load_ended k a s)"
proof -
  show "shown (duplicateScene i fresh label s)"
    using s shown_document_steps(2) [OF s] by (cases "se_studio s") (simp_all add: duplicateScene_def split: option.split)
  show d: "shown (discard s)" using apply_shown [OF s] s by (simp add: discard_def split: option.split)
  show p: "shown (take_local_profile i n st s)" for i n st
    using apply_shown [of "s\<lparr>se_device := False\<rparr>"] s by (simp add: take_local_profile_def)
  show "shown (chooseSource i adding s)" using s by (cases "se_draft s") (simp_all add: chooseSource_def)
  show "shown (save_ended k a s)"
    using commit_shown [OF s] commit_shown [of "s\<lparr>se_profile := x\<rparr>" for x] commit_shown [of "s\<lparr>se_device := True\<rparr>"] s
    by (cases k; cases a) (simp_all add: save_ended_def failed_with_def)
  show "shown (action_ended a s)" using apply_shown [OF s] s by (cases a) (simp_all add: action_ended_def failed_with_def)
  show "shown (copy_ended v a s)"
    using apply_shown [of "s\<lparr>se_device := False\<rparr>"] s by (cases a) (simp_all add: copy_ended_def)
  show "shown (load_ended k a s)"
    using apply_shown [of "s\<lparr>se_device := x, se_profile := None\<rparr>" for x] s p
    by (cases k; cases a) (simp_all add: load_ended_def)
qed

text \<open>The operations on documents start and end no request.\<close>

lemmas requests_defs = same_requests_def Let_def

lemma requests_kept:
  "same_requests s (selectScene i s)" "same_requests s (add_scene x s)" "same_requests s (moveScene up s)"
  "same_requests s (removeScene c s)" "same_requests s (addTemplate g f n s)" "same_requests s (importStudio file s)"
  "same_requests s (setTransition t ms s)" "same_requests s (updateCollectionScene y s)" "same_requests s (delete_scene i st s)"
  "same_requests s (discard s)" "same_requests s (take_local_profile i n st s)" "same_requests s (chooseSource i adding s)"
  "same_requests s (save_ended k a s)" "same_requests s (action_ended a s)" "same_requests s (copy_ended v a s)"
  "same_requests s (load_ended k a s)" "same_requests s (updateDraft e s)"
  subgoal by (simp add: requests_defs selectScene_def split: option.split)
  subgoal by (simp add: requests_defs add_scene_def split: option.split)
  subgoal by (simp add: requests_defs moveScene_def split: option.split)
  subgoal by (simp add: requests_defs removeScene_def split: option.split list.split)
  subgoal by (simp add: requests_defs addTemplate_def split: option.split)
  subgoal by (simp add: requests_defs importStudio_def split: option.split)
  subgoal by (simp add: requests_defs setTransition_def split: option.split)
  subgoal by (simp add: requests_defs updateCollectionScene_def split: option.split)
  subgoal by (simp add: requests_defs delete_scene_def split: list.split)
  subgoal by (simp add: requests_defs discard_def split: option.split)
  subgoal by (simp add: requests_defs take_local_profile_def)
  subgoal by (simp add: requests_defs chooseSource_def split: option.split)
  subgoal by (cases k; cases a) (simp_all add: requests_defs save_ended_def failed_with_def)
  subgoal by (cases a) (simp_all add: requests_defs action_ended_def failed_with_def)
  subgoal by (cases a) (simp_all add: requests_defs copy_ended_def)
  subgoal by (cases k; cases a) (simp_all add: requests_defs load_ended_def take_local_profile_def)
  subgoal by (simp add: requests_defs)
  done

lemma requests_operate: "same_requests s (duplicateScene i fresh label s)" "same_requests s (operateCollectionScene o' i s)"
proof -
  show d: "same_requests s (duplicateScene i fresh label s)" for i fresh label
    using requests_kept(2) by (simp add: duplicateScene_def split: option.split)
  have u: "same_requests s (s\<lparr>se_notice := n\<rparr>)" "same_requests s (set_studio st s)" for n st by (simp_all add: same_requests_def)
  show "same_requests s (operateCollectionScene o' i s)"
    using d u requests_kept(8,9) by (cases o'; simp add: operateCollectionScene_def split: option.split)
qed

lemma studio_kept: "studio_ok s \<Longrightarrow> same_requests s s' \<Longrightarrow> shown s' \<Longrightarrow> studio_ok s'"
  by (simp add: studio_ok_def same_requests_def changes_under_way_def)

section \<open>Requests\<close>

lemma assign_next: "flights_known n m \<Longrightarrow> assign n k m = m @ [(n, k)]"
  using fold_assign_new [of "[(n, k)]" m] by (fastforce simp: flights_known_def list_all_iff)

lemma known_launch: "flights_known n m \<Longrightarrow> flights_known (Suc n) (m @ [(n, k)])"
  by (fastforce simp: flights_known_def list_all_iff wf_map_def)

lemma known_erase: "flights_known n m \<Longrightarrow> flights_known n (erase i m)"
  by (auto simp: flights_known_def list_all_iff erase_def distinct_map_filter wf_map_def)

lemma counted_erase:
  "wf_map m \<Longrightarrow> map_of m i = Some k
   \<Longrightarrow> length (filter (\<lambda>e. P (snd e)) m) = length (filter (\<lambda>e. P (snd e)) (erase i m)) + (if P k then 1 else 0)"
proof (induction m)
  case (Cons e m)
  obtain j v where e: "e = (j, v)" by force
  show ?case
  proof (cases "j = i")
    case True
    with Cons.prems e have "erase i (e # m) = m" by (auto simp: erase_def wf_map_def intro: filter_True)
    with True Cons.prems e show ?thesis by simp
  next
    case False
    with Cons e show ?thesis by (auto simp: erase_def wf_map_def)
  qed
qed simp

lemma ok_launch: "studio_ok s \<Longrightarrow> \<not> exclusive k \<Longrightarrow> studio_ok (launch k s)"
  by (simp add: studio_ok_def launch_def changes_under_way_def assign_next known_launch del: assign.simps)

lemma ok_launch_exclusive: "studio_ok s \<Longrightarrow> \<not> se_saving s \<Longrightarrow> exclusive k \<Longrightarrow> studio_ok (launch k (s\<lparr>se_saving := True, se_notice := n\<rparr>))"
  by (simp add: studio_ok_def launch_def changes_under_way_def assign_next known_launch del: assign.simps)

lemma ok_begin: "studio_ok s \<Longrightarrow> \<not> se_saving s \<Longrightarrow> exclusive k \<Longrightarrow> studio_ok (begin_saving k s)"
  unfolding begin_saving_def by (rule ok_launch_exclusive)

lemma ok_flight_ended:
  assumes s: "studio_ok s"
  shows "studio_ok (flight_ended i a s)"
proof (cases "map_of (se_flights s) i")
  case None
  with s show ?thesis by (simp add: flight_ended_def)
next
  case (Some k)
  define t where "t = s\<lparr>se_flights := erase i (se_flights s)\<rparr>"
  have sh: "shown t" using s by (simp add: t_def studio_ok_def)
  have kn: "flights_known (se_next t) (se_flights t)" using s by (simp add: t_def studio_ok_def known_erase)
  have ct: "changes_under_way s = changes_under_way t + (if exclusive k then 1 else 0)"
    using counted_erase [of "se_flights s" i k exclusive] s Some by (simp add: t_def studio_ok_def changes_under_way_def flights_known_def)
  have settled: "studio_ok (t'\<lparr>se_saving := False\<rparr>)" if "exclusive k" "same_requests t t'" "shown t'" for t'
    using s ct kn that by (auto simp: studio_ok_def same_requests_def changes_under_way_def t_def split: if_splits)
  have other: "studio_ok t" if "\<not> exclusive k"
    using s sh kn ct that by (simp add: studio_ok_def t_def)
  note [simp] = Some flight_ended_def t_def [symmetric]
  show ?thesis
    using settled other shown_others(5-8) [OF sh] requests_kept(13-16) [of t] studio_kept [of t]
    by (cases k) simp_all
qed

lemma ok_link: "studio_ok s \<Longrightarrow> studio_ok (s\<lparr>se_link := l\<rparr>)"
  by (simp add: studio_ok_def changes_under_way_def)

lemma ok_operation:
  assumes s: "studio_ok s"
  shows "studio_ok (studio_step s e)"
proof -
  have sh: "shown s" using s by (simp add: studio_ok_def)
  note kept = studio_kept [OF s]
  note docs = kept [OF requests_kept(1) shown_document_steps(1) [OF sh]] kept [OF requests_kept(2) shown_document_steps(2) [OF sh]]
    kept [OF requests_kept(3) shown_document_steps(3) [OF sh]] kept [OF requests_kept(4) shown_document_steps(4) [OF sh]]
    kept [OF requests_kept(5) shown_document_steps(5) [OF sh]] kept [OF requests_kept(6) shown_document_steps(6) [OF sh]]
    kept [OF requests_kept(7) shown_document_steps(7) [OF sh]] kept [OF requests_kept(8) shown_document_steps(8) [OF sh]]
    kept [OF requests_kept(10) shown_others(2) [OF sh]] kept [OF requests_kept(11) shown_others(3) [OF sh]]
    kept [OF requests_kept(12) shown_others(4) [OF sh]] kept [OF requests_kept(17) shown_update [OF sh]]
    kept [OF requests_operate(1) shown_others(1) [OF sh]] kept [OF requests_operate(2) shown_operate [OF sh]]
  have sv: "studio_ok (save s)"
    using s by (auto simp: save_def intro: ok_begin split: option.split)
  show ?thesis
    using docs sv s ok_flight_ended [OF s] ok_begin [OF s] ok_launch [OF s] ok_launch_exclusive [OF s, where n = "se_notice s", simplified]
    by (cases e) (simp_all add: createCollectionScene_def runStudioAction_def copyDeviceToServer_def loadDeviceLayout_def
      returnToServer_def reload_studio_def ok_link)
qed

interpretation studio: machine new_editor studio_step studio_ok
  by unfold_locales (simp add: studio_ok_def new_editor_def flights_known_def wf_map_def changes_under_way_def, rule ok_operation)

section \<open>Versions of the draft\<close>

text \<open>Every operation that changes the draft makes a new object of it.\<close>

definition newer :: "studio_editor \<Rightarrow> studio_editor \<Rightarrow> bool" where
  "newer s t = (se_version s < se_version t \<or> (se_version s = se_version t \<and> se_studio s = se_studio t))"

lemma newer_refl [simp]: "newer s s"
  by (simp add: newer_def)

lemma newer_trans: "newer s t \<Longrightarrow> newer t u \<Longrightarrow> newer s u"
  by (auto simp: newer_def)

lemma newer_version: "newer s t \<Longrightarrow> se_studio s \<noteq> se_studio t \<Longrightarrow> se_version s \<noteq> se_version t"
  by (auto simp: newer_def)

lemma newer_apply: "newer s (applyRemoteStudio st s)"
  by (simp add: newer_def applyRemoteStudio_def Let_def split: option.split)

lemma newer_commit: "newer s (commitSavedStudio st v sel s)"
  using newer_apply by (simp add: commitSavedStudio_def) (simp add: newer_def)

lemma newer_frame:
  assumes "newer s t" and "se_version s' = se_version s" and "se_studio s' = se_studio s" and "se_version t' = se_version t" and "se_studio t' = se_studio t"
  shows "newer s' t'"
  using assms by (simp add: newer_def)

lemma newer_documents:
  "newer s (selectScene i s)" "newer s (add_scene x s)" "newer s (moveScene up s)" "newer s (removeScene c s)"
  "newer s (addTemplate g f n s)" "newer s (importStudio file s)" "newer s (setTransition t ms s)"
  "newer s (updateCollectionScene y s)" "newer s (delete_scene i st s)" "newer s (updateDraft e s)" "newer s (chooseSource i adding s)"
  subgoal by (simp add: newer_def selectScene_def Let_def split: option.split)
  subgoal by (simp add: newer_def add_scene_def split: option.split)
  subgoal by (simp add: newer_def moveScene_def split: option.split)
  subgoal by (simp add: newer_def removeScene_def split: option.split list.split)
  subgoal by (simp add: newer_def addTemplate_def Let_def split: option.split)
  subgoal by (simp add: newer_def importStudio_def split: option.split)
  subgoal by (simp add: newer_def setTransition_def split: option.split)
  subgoal by (simp add: newer_def updateCollectionScene_def Let_def split: option.split)
  subgoal by (simp add: newer_def delete_scene_def Let_def split: list.split)
  subgoal by (simp add: newer_def updateDraft_def split: option.split)
  subgoal by (simp add: newer_def chooseSource_def split: option.split)
  done

lemma newer_operate: "newer s (duplicateScene i fresh label s)" "newer s (operateCollectionScene o' i s)"
proof -
  show d: "newer s (duplicateScene i fresh label s)" for i fresh label
    using newer_documents(2) by (simp add: duplicateScene_def split: option.split)
  have u: "newer s (s\<lparr>se_notice := n\<rparr>)" "newer s (set_studio st s)" for n st by (simp_all add: newer_def)
  show "newer s (operateCollectionScene o' i s)"
    using d u newer_documents(8,9) by (cases o'; simp add: operateCollectionScene_def split: option.split)
qed

lemma newer_loaded:
  "newer s (discard s)" "newer s (take_local_profile i n st s)" "newer s (save_ended k a s)" "newer s (action_ended a s)"
  "newer s (copy_ended v a s)" "newer s (load_ended k a s)"
proof -
  have f: "newer s ((applyRemoteStudio st s')\<lparr>se_notice := n\<rparr>)" "newer s ((commitSavedStudio st v sel s')\<lparr>se_notice := n\<rparr>)"
      "newer s (applyRemoteStudio st s')" "newer s ((applyRemoteStudio st s')\<lparr>se_profile := pr, se_notice := n\<rparr>)"
    if "se_version s' = se_version s" "se_studio s' = se_studio s" for st s' n v sel pr
    by (rule newer_frame [OF newer_apply [of s'] _ _ _ _] newer_frame [OF newer_commit [of s'] _ _ _ _]; simp add: that)+
  note g = f [of s] f [of "s\<lparr>se_device := x\<rparr>" for x] f [of "s\<lparr>se_profile := x\<rparr>" for x] f [of "s\<lparr>se_device := x, se_profile := y\<rparr>" for x y]
  have u: "newer s (s\<lparr>se_notice := n\<rparr>)" "newer s (s\<lparr>se_conflict := c, se_notice := n\<rparr>)" for n c by (simp_all add: newer_def)
  show "newer s (discard s)" using g by (simp add: discard_def split: option.split)
  show p: "newer s (take_local_profile i n st s)" for i n st using g by (simp add: take_local_profile_def)
  show "newer s (save_ended k a s)" using g u by (cases k; cases a) (simp_all add: save_ended_def failed_with_def)
  show "newer s (action_ended a s)" using g u by (cases a) (simp_all add: action_ended_def failed_with_def)
  show "newer s (copy_ended v a s)" using g u by (cases a) (simp_all add: copy_ended_def)
  show "newer s (load_ended k a s)" using g u p by (cases k; cases a) (simp_all add: load_ended_def)
qed

lemma newer_flight: "newer s (flight_ended i a s)"
proof (cases "map_of (se_flights s) i")
  case (Some k)
  define t where "t = s\<lparr>se_flights := erase i (se_flights s)\<rparr>"
  have l: "newer s u" if "newer t u" for u using that by (simp add: newer_def t_def)
  have e: "newer s (u\<lparr>se_saving := False\<rparr>)" if "newer t u" for u using that by (simp add: newer_def t_def)
  note [simp] = Some flight_ended_def t_def [symmetric]
  show ?thesis using l e newer_loaded [of t] by (cases k) simp_all
qed (simp add: flight_ended_def)

lemma newer_step: "newer s (studio_step s e)"
proof -
  have r: "newer s (launch k s)" "newer s (begin_saving k s)" "newer s (launch k (s\<lparr>se_saving := b\<rparr>))" "newer s (s\<lparr>se_link := l\<rparr>)" for k b l
    by (simp_all add: newer_def launch_def begin_saving_def)
  have sv: "newer s (save s)" using r(2) by (simp add: save_def split: option.split)
  show ?thesis
    using r sv newer_documents newer_operate newer_loaded(1,2) newer_flight
    by (cases e) (simp_all add: createCollectionScene_def runStudioAction_def copyDeviceToServer_def loadDeviceLayout_def
      returnToServer_def reload_studio_def)
qed

lemma newer_run: "newer s (foldl studio_step s es)"
  by (induction es arbitrary: s) (auto intro: newer_trans newer_step)

text \<open>A request keeps its number: what is under way later under an old number is that request.\<close>

definition keeps_flights :: "studio_editor \<Rightarrow> studio_editor \<Rightarrow> bool" where
  "keeps_flights s t = (se_next s \<le> se_next t \<and> (\<forall>i < se_next s. map_of (se_flights t) i \<in> {None, map_of (se_flights s) i}))"

lemma flights_trans: "keeps_flights s t \<Longrightarrow> keeps_flights t u \<Longrightarrow> keeps_flights s u"
  unfolding keeps_flights_def by (metis insert_iff order.strict_trans2 order.trans singletonD)

lemma flights_same: "same_requests s t \<Longrightarrow> keeps_flights s t"
  by (simp add: keeps_flights_def same_requests_def)

lemma flights_ended: "keeps_flights s (flight_ended i a s)"
proof (cases "map_of (se_flights s) i")
  case (Some k)
  define t where "t = s\<lparr>se_flights := erase i (se_flights s)\<rparr>"
  have l: "keeps_flights s u" "keeps_flights s (u\<lparr>se_saving := False\<rparr>)" if "same_requests t u" for u
    using that by (simp_all add: keeps_flights_def same_requests_def t_def)
  note [simp] = Some flight_ended_def t_def [symmetric]
  show ?thesis using l requests_kept(13-16) [of t] by (cases k) simp_all
qed (simp add: flight_ended_def keeps_flights_def)

lemma flights_step: "keeps_flights s (studio_step s e)"
proof -
  note d = requests_kept [THEN flights_same] requests_operate [THEN flights_same]
  have r: "keeps_flights s (launch k s)" "keeps_flights s (begin_saving k s)" "keeps_flights s (launch k (s\<lparr>se_saving := b\<rparr>))"
      "keeps_flights s (s\<lparr>se_link := l\<rparr>)" "keeps_flights s s" for k b l
    by (simp_all add: keeps_flights_def launch_def begin_saving_def)
  have sv: "keeps_flights s (save s)" using r(2,5) by (simp add: save_def split: option.split)
  show ?thesis
    using r sv d flights_ended
    by (cases e) (simp_all add: createCollectionScene_def runStudioAction_def copyDeviceToServer_def loadDeviceLayout_def
      returnToServer_def reload_studio_def)
qed

lemma flights_run: "keeps_flights s (foldl studio_step s es)"
proof (induction es arbitrary: s)
  case (Cons e es)
  then show ?case using flights_trans [OF flights_step [of s e]] by (metis foldl_Cons)
qed (simp add: keeps_flights_def)

section \<open>Edits and saves\<close>

fun save_version :: "flight_kind \<Rightarrow> nat option" where
  "save_version (SavingServer v _) = Some v"
| "save_version (SavingProfile v _ _ _) = Some v"
| "save_version (SavingDevice v _ _) = Some v"
| "save_version _ = None"

lemma save_version_saves: "save_version k = Some v \<Longrightarrow> saves k"
  by (cases k) simp_all

lemma save_starts: "save s \<noteq> s \<Longrightarrow> \<exists>k. map_of (se_flights (save s)) (se_next s) = Some k \<and> save_version k = Some (se_version s)
    \<and> se_next s < se_next (save s) \<and> se_version (save s) = se_version s \<and> se_studio (save s) = se_studio s"
  by (auto simp: save_def begin_saving_def launch_def split: option.splits)

definition same_content :: "studio_editor \<Rightarrow> studio_editor \<Rightarrow> bool" where
  "same_content s t = (se_draft t = se_draft s \<and> se_scene t = se_scene s
     \<and> map_option studio_scenes (se_studio t) = map_option studio_scenes (se_studio s))"

lemma commit_edited: "se_version s \<noteq> v \<Longrightarrow> same_content s (commitSavedStudio st v sel s)"
  by (simp add: same_content_def commitSavedStudio_def option.map_comp comp_def)

lemma save_ended_edited:
  assumes "save_version k = Some v" and "se_version s \<noteq> v"
  shows "same_content s (save_ended k a s)"
proof -
  have c: "same_content s ((commitSavedStudio st v sel s')\<lparr>se_notice := n\<rparr>)" if "se_version s' = se_version s" "same_content s s'" for st sel n s'
    using commit_edited [of s' v st sel] assms(2) that by (simp add: same_content_def)
  show ?thesis
    using assms c [of s] c [of "s\<lparr>se_device := True\<rparr>"] c [of "s\<lparr>se_profile := x\<rparr>" for x]
    by (cases k; cases a) (auto simp: save_ended_def failed_with_def same_content_def)
qed

lemma flight_ended_edited:
  assumes "map_of (se_flights s) i \<in> {None, Some k}" and k: "save_version k = Some v" and v: "se_version s \<noteq> v"
  shows "same_content s (flight_ended i a s)"
proof (cases "map_of (se_flights s) i")
  case None
  then show ?thesis by (simp add: flight_ended_def same_content_def)
next
  case (Some k')
  with assms have i: "map_of (se_flights s) i = Some k" by simp
  define t where "t = s\<lparr>se_flights := erase i (se_flights s)\<rparr>"
  have "same_content t (save_ended k a t)" by (rule save_ended_edited [OF k]) (simp add: t_def v)
  moreover have "flight_ended i a s = (save_ended k a t)\<lparr>se_saving := False\<rparr>"
    using i k by (cases k) (simp_all add: flight_ended_def t_def)
  ultimately show ?thesis by (simp add: same_content_def t_def)
qed

text \<open>C13. An edit made while a save is under way survives it: however the save ends, the draft and the
  scenes of the studio are those the user sees.\<close>

theorem newer_edits_survive_save:
  assumes "save s \<noteq> s" and t: "t = foldl studio_step (save s) es" and "se_studio t \<noteq> se_studio s"
  shows "same_content t (flight_ended (se_next s) a t)"
proof -
  obtain k where k: "map_of (se_flights (save s)) (se_next s) = Some k" "save_version k = Some (se_version s)"
      "se_next s < se_next (save s)" "se_version (save s) = se_version s" "se_studio (save s) = se_studio s"
    using save_starts [OF assms(1)] by blast
  have "map_of (se_flights t) (se_next s) \<in> {None, Some k}"
    using flights_run [of "save s" es] k by (auto simp: t keeps_flights_def)
  moreover have "se_version t \<noteq> se_version s"
    using newer_run [of "save s" es] k assms(3) by (auto simp: t newer_def)
  ultimately show ?thesis using flight_ended_edited k(2) by blast
qed

text \<open>A save that ends on the draft it submitted leaves nothing unsaved.\<close>

lemma apply_clean: "preview_scene (accepted_studio st) = Some x \<Longrightarrow> \<not> dirty (applyRemoteStudio st s)"
  by (simp add: applyRemoteStudio_def dirty_def open_scene_def select_first_def set_studio_def Let_def)

lemma committed_save_is_clean:
  assumes "map_of (se_flights s) i = Some (SavingServer (se_version s) sel)" and "studio_scenes st \<noteq> []"
  shows "\<not> dirty (flight_ended i (Committed st) s)"
proof -
  from assms(2) have "preview_scene (accepted_studio st) \<noteq> None"
    by (cases "studio_scenes st") (simp_all add: preview_scene_def accepted_studio_def split: option.split)
  then obtain x where x: "preview_scene (accepted_studio st) = Some x" by blast
  from apply_clean [OF x] assms(1) show ?thesis
    by (simp add: flight_ended_def save_ended_def commitSavedStudio_def dirty_def)
qed

section \<open>Removing a scene\<close>

text \<open>The scenes that the studio names are there: the program's, and every nested one.\<close>

definition studio_refs_ok :: "studio_document \<Rightarrow> bool" where
  "studio_refs_ok st = (let ids = scene_id ` set (studio_scenes st)
     in programSceneId st \<in> ids \<and> (\<forall>x \<in> set (studio_scenes st). scene_refs_ok ids x))"

lemma refs_removed:
  assumes r: "studio_refs_ok st" and n: "\<not> nested_in i st" and f: "filter (\<lambda>x. scene_id x \<noteq> i) (studio_scenes st) = x # xs"
  shows "studio_refs_ok (st\<lparr>previewSceneId := p, programSceneId := (if programSceneId st = i then scene_id x else programSceneId st),
    studio_scenes := x # xs\<rparr>)"
proof -
  have s: "set (x # xs) = {z \<in> set (studio_scenes st). scene_id z \<noteq> i}" using arg_cong [OF f, of set] by simp
  then have ids: "scene_id ` set (x # xs) = scene_id ` set (studio_scenes st) - {i}" by auto
  have "scene_refs_ok (scene_id ` set (x # xs)) z" if "z \<in> set (x # xs)" for z
  proof -
    from that s have z: "z \<in> set (studio_scenes st)" "scene_id z \<noteq> i" by auto
    with r have "scene_refs_ok (scene_id ` set (studio_scenes st)) z" by (simp add: studio_refs_ok_def Let_def)
    moreover from n z have "\<forall>y \<in> set (scene_sources z). src_kind y \<noteq> NestedSource i" by (auto simp: nested_in_def list_ex_iff)
    ultimately show ?thesis unfolding ids scene_refs_ok_def by blast
  qed
  moreover have "(if programSceneId st = i then scene_id x else programSceneId st) \<in> scene_id ` set (x # xs)"
    using r ids by (auto simp: studio_refs_ok_def Let_def)
  ultimately show ?thesis by (simp add: studio_refs_ok_def Let_def del: set_simps)
qed

text \<open>A removal takes the scene out, or changes nothing of the document.\<close>

definition removed :: "bool \<Rightarrow> string \<Rightarrow> studio_document \<Rightarrow> studio_document \<Rightarrow> bool" where
  "removed device i st st' = (\<not> nested_in i st \<and> (device \<or> programSceneId st \<noteq> i)
     \<and> (\<exists>x xs p. filter (\<lambda>z. scene_id z \<noteq> i) (studio_scenes st) = x # xs
         \<and> st' = st\<lparr>previewSceneId := p, programSceneId := (if programSceneId st = i then scene_id x else programSceneId st), studio_scenes := x # xs\<rparr>))"

lemma removedI:
  assumes "\<not> nested_in i st" and "d \<or> programSceneId st \<noteq> i" and "filter (\<lambda>z. scene_id z \<noteq> i) (studio_scenes st) = x # xs"
    and "st' = st\<lparr>previewSceneId := p, programSceneId := (if programSceneId st = i then scene_id x else programSceneId st), studio_scenes := x # xs\<rparr>"
  shows "removed d i st st'"
  unfolding removed_def using assms by blast

lemma removeScene_result:
  assumes st: "se_studio s = Some st"
  shows "se_studio (removeScene c s) = Some st \<or> (\<exists>i st'. se_studio (removeScene c s) = Some st' \<and> removed (se_device s) i st st')"
proof (cases "se_scene s")
  case (Some i)
  show ?thesis
  proof (cases "filter (\<lambda>x. scene_id x \<noteq> i) (studio_scenes st)")
    case (Cons x xs)
    show ?thesis
    proof (cases "length (studio_scenes st) \<le> 1 \<or> (\<not> se_device s \<and> programSceneId st = i) \<or> nested_in i st \<or> \<not> c")
      case True
      with st Some Cons show ?thesis by (auto simp: removeScene_def)
    next
      case False
      with Cons have "removed (se_device s) i st (st\<lparr>previewSceneId := scene_id x,
          programSceneId := (if programSceneId st = i then scene_id x else programSceneId st), studio_scenes := x # xs\<rparr>)"
        by (auto simp: removed_def)
      with False st Some Cons show ?thesis by (intro disjI2) (auto simp: removeScene_def)
    qed
  qed (simp add: removeScene_def st Some)
qed (simp add: removeScene_def st)

lemma delete_result:
  assumes st: "se_studio s = Some st"
  shows "se_studio (operateCollectionScene Delete i s) = Some st
     \<or> (\<exists>st'. se_studio (operateCollectionScene Delete i s) = Some st' \<and> removed (se_device s) i st st')"
proof (cases "scene_of i st = None \<or> length (studio_scenes st) \<le> 1 \<or> (\<not> se_device s \<and> programSceneId st = i) \<or> nested_in i st")
  case True
  with st show ?thesis by (auto simp: operateCollectionScene_def delete_scene_def split: option.split)
next
  case False
  then obtain y where y: "scene_of i st = Some y" by auto
  show ?thesis
  proof (cases "filter (\<lambda>x. scene_id x \<noteq> i) (studio_scenes st)")
    case Nil
    with False y st show ?thesis by (simp add: operateCollectionScene_def delete_scene_def)
  next
    case (Cons x xs)
    define st' where "st' = st\<lparr>studio_scenes := x # xs, previewSceneId := (if previewSceneId st = i then scene_id x else previewSceneId st),
                     programSceneId := (if programSceneId st = i then scene_id x else programSceneId st)\<rparr>"
    have "st' = st\<lparr>previewSceneId := (if previewSceneId st = i then scene_id x else previewSceneId st),
        programSceneId := (if programSceneId st = i then scene_id x else programSceneId st), studio_scenes := x # xs\<rparr>"
      by (simp add: st'_def)
    with False Cons have "removed (se_device s) i st st'" by (intro removedI [where x = x]) auto
    moreover have "se_studio (operateCollectionScene Delete i s) = Some st'"
      using False y st Cons by (auto simp: operateCollectionScene_def delete_scene_def Let_def st'_def)
    ultimately show ?thesis by blast
  qed
qed

lemma removed_refs: "studio_refs_ok st \<Longrightarrow> removed d i st st' \<Longrightarrow> studio_refs_ok st'"
  by (auto simp: removed_def dest: refs_removed)

lemma removed_program: "removed d i st st' \<Longrightarrow> \<not> d \<Longrightarrow> programSceneId st' = programSceneId st"
  by (auto simp: removed_def)

text \<open>C17. Removing a scene leaves no dangling reference: the program scene and every nested scene are still
  there, and away from the device the program scene is never removed.\<close>

theorem removing_keeps_references:
  assumes "se_studio s = Some st" and "studio_refs_ok st" and "t \<in> {removeScene c s, operateCollectionScene Delete i s}"
  shows "\<exists>st'. se_studio t = Some st' \<and> studio_refs_ok st' \<and> (\<not> se_device s \<longrightarrow> programSceneId st' = programSceneId st)"
proof -
  have "se_studio t = Some st \<or> (\<exists>j st'. se_studio t = Some st' \<and> removed (se_device s) j st st')"
    using assms(3) removeScene_result [OF assms(1), of c] delete_result [OF assms(1), of i] by blast
  then show ?thesis using assms(2) removed_refs removed_program by blast
qed

section \<open>Runs of the editor\<close>

definition two_scenes :: studio_document where
  "two_scenes = \<lparr>studio_schema = 1, studio_revision = 1, programSceneId = ''a'', previewSceneId = ''a'',
        transition_of = Cut, transition_ms = 0, studio_scenes = [plain_scene ''a'' [] [], plain_scene ''b'' [] []]\<rparr>"

definition edited_events :: "editor_event list" where
  "edited_events = [Reload, FlightEnded 0 (Committed two_scenes), LinkChanged LinkOnline]"

definition loaded :: studio_editor where
  "loaded = foldl studio_step new_editor edited_events"

definition renamed :: studio_editor where
  "renamed = foldl studio_step new_editor (edited_events @ [EditScene (RenameScene ''x'')])"

definition renamed_twice :: studio_editor where
  "renamed_twice = foldl studio_step (save renamed) [EditScene (RenameScene ''y'')]"

definition acting :: studio_editor where
  "acting = foldl studio_step new_editor (edited_events @ [StudioAction, EditScene (RenameScene ''x'')])"

theorem one_change_at_a_time:
  "(let s = foldl studio_step new_editor es
    in if se_saving s
       then changes_under_way s = 1 \<and> save s = s \<and> runStudioAction s = s \<and> copyDeviceToServer b s = s
         \<and> loadDeviceLayout b s = s \<and> returnToServer b s = s
       else changes_under_way s = 0)"
  using studio.inv_run [of es]
  by (simp add: studio_ok_def save_def runStudioAction_def copyDeviceToServer_def loadDeviceLayout_def returnToServer_def Let_def
      split: option.split)

theorem shown_scene_is_saved:
  assumes "se_draft (foldl studio_step new_editor es) = Some x"
  shows "\<exists>st. se_studio (foldl studio_step new_editor es) = Some st \<and> x \<in> set (studio_scenes st)
     \<and> se_scene (foldl studio_step new_editor es) = Some (scene_id x)"
  using studio.inv_run [of es] assms by (auto simp: studio_ok_def shown_Some)

text \<open>The sample runs, evaluated.\<close>

lemma sample_runs:
  "se_draft loaded = Some (plain_scene ''a'' [] []) \<and> se_studio loaded = Some two_scenes
   \<and> se_next renamed = 1 \<and> se_next (save renamed) = 2 \<and> se_studio renamed_twice \<noteq> se_studio renamed
   \<and> dirty (flight_ended 1 (Committed two_scenes) renamed_twice)
   \<and> dirty acting \<and> map_of (se_flights acting) 1 = Some Acting \<and> studio_scenes two_scenes \<noteq> []"
  by code_simp

theorem shown_scene_is_saved_witness:
  "\<exists>st. se_studio (foldl studio_step new_editor edited_events) = Some st \<and> plain_scene ''a'' [] [] \<in> set (studio_scenes st)
     \<and> se_scene (foldl studio_step new_editor edited_events) = Some (scene_id (plain_scene ''a'' [] []))"
  by (rule shown_scene_is_saved) (use sample_runs in \<open>simp add: loaded_def\<close>)

theorem newer_edits_survive_save_witness:
  "same_content renamed_twice (flight_ended 1 (Committed two_scenes) renamed_twice) \<and> dirty (flight_ended 1 (Committed two_scenes) renamed_twice)"
proof -
  have n: "se_next renamed = 1" "save renamed \<noteq> renamed" using sample_runs by auto
  have "same_content renamed_twice (flight_ended (se_next renamed) (Committed two_scenes) renamed_twice)"
    by (rule newer_edits_survive_save [OF n(2) renamed_twice_def]) (use sample_runs in simp)
  with n(1) sample_runs show ?thesis by simp
qed

theorem removing_keeps_references_witness:
  "\<exists>st'. se_studio (operateCollectionScene Delete ''b'' loaded) = Some st' \<and> studio_refs_ok st'
     \<and> (\<not> se_device loaded \<longrightarrow> programSceneId st' = programSceneId two_scenes)"
proof (rule removing_keeps_references [where c = True and i = "''b''"])
  show "se_studio loaded = Some two_scenes" using sample_runs by simp
  show "studio_refs_ok two_scenes" by (simp add: studio_refs_ok_def two_scenes_def plain_scene_def scene_refs_ok_def)
qed simp

text \<open>C18. The answer of a take, an undo or a redo replaces the whole draft, also what was edited since it was
  requested: the page then reports success and nothing unsaved.\<close>

theorem edits_during_action_are_lost:
  assumes "map_of (se_flights s) i = Some Acting" and "studio_scenes st \<noteq> []"
  shows "(let t = flight_ended i (Committed st) s in se_studio t = Some (accepted_studio st) \<and> \<not> dirty t \<and> se_notice t = Done)"
proof -
  from assms(2) have "preview_scene (accepted_studio st) \<noteq> None"
    by (cases "studio_scenes st") (simp_all add: preview_scene_def accepted_studio_def split: option.split)
  then obtain x where "preview_scene (accepted_studio st) = Some x" by blast
  with assms(1) show ?thesis
    by (simp add: flight_ended_def action_ended_def applyRemoteStudio_def dirty_def Let_def open_scene_def select_first_def set_studio_def)
qed

theorem edits_during_action_are_lost_witness:
  "dirty acting \<and> (let t = flight_ended 1 (Committed two_scenes) acting in se_studio t = Some (accepted_studio two_scenes) \<and> \<not> dirty t \<and> se_notice t = Done)"
  using edits_during_action_are_lost [of acting 1 two_scenes] sample_runs by simp

end
