(* ===== verification/Spec2Isabelle.thy ===== *)
theory Spec2Isabelle
  imports Playback Treemap WallLayout AutoLayout ViewNormal ViewOps Promotion Rotation AnalyticsBudget
    MotionEngine PersonDetector AnalyticsRuntime Cbor Grant SyncLaws Redaction LocalStore StudioCompat
    ConfigLaws PreferenceMerge SyncSafety WhepSafety AudioLaws ControlSafety TalkSafety
    ArchiveDownload DiagnosticsSafety ExportSafety RequestSafety MonitorStore PreferenceSafety
    StudioEditorSafety
begin

text \<open>
  Web Camera Monitor Wall: the control plane in the browser.

  The repository is a camera wall: services in Python and C++ bring the cameras in, and a web client
  (\<open>src/web/src\<close>, TypeScript) shows them, lets an operator arrange scenes, keeps an encrypted copy of
  the studio for offline use, synchronizes the edits made meanwhile and analyses the pictures in the
  browser.  This development models the logic of that client, module by module, and proves what its
  users and the other parts rely on.

  Parts and theories.  A definition carries the name of the function or type it models.

  \<^item> Foundations: \<open>Prelude\<close> (numbers, order of strings, maps as association lists, clamping),
    \<open>JsValue\<close> (values of unknown shape and the tests the code makes on them).
  \<^item> Scenes (\<open>types.ts\<close>, \<open>sceneSchema.ts\<close>, \<open>studioCompat.ts\<close>, \<open>deviceWorkspace.ts\<close>): \<open>Scene\<close>,
    \<open>SceneJson\<close>, \<open>StudioCompat\<close>.
  \<^item> The monitor wall (\<open>monitorView.ts\<close>): \<open>WallLayout\<close>, \<open>Treemap\<close>, \<open>AutoLayout\<close> compute geometry,
    \<open>MonitorView\<close>, \<open>ViewNormal\<close>, \<open>ViewOps\<close> the preference document and its operations, \<open>Promotion\<close>
    and \<open>Rotation\<close> decide what is shown when something is detected and when time passes.
  \<^item> Media: \<open>Playback\<close> (\<open>playbackOptimization.ts\<close>, \<open>pageVisibility.ts\<close>), \<open>Whep\<close>, \<open>WhepSession\<close>,
    \<open>WhepSafety\<close> (\<open>whep.ts\<close>), \<open>AudioMixer\<close>, \<open>AudioLaws\<close> (\<open>directAudioMixer.ts\<close>),
    \<open>ShortTalk\<close>, \<open>TalkSafety\<close> (\<open>useShortTalk.ts\<close>), \<open>ArchiveDownload\<close> (\<open>archiveDownload.ts\<close>).
  \<^item> Analytics: \<open>AnalyticsBudget\<close> (\<open>analyticsScheduler.ts\<close>), \<open>MotionEngine\<close> (\<open>analyticsEngine.ts\<close>),
    \<open>PersonDetector\<close> (\<open>personDetector.ts\<close>), \<open>AnalyticsRuntime\<close> (\<open>analyticsRuntime.ts\<close>), which asks
    the budget before it hands a frame to the detectors.
  \<^item> Enrollment: \<open>Cbor\<close>, \<open>Grant\<close> (\<open>browserEnrollment.ts\<close>).
  \<^item> The private store (\<open>localRuntime.ts\<close>): \<open>Redaction\<close> (what may be kept), \<open>LocalStore\<close> (records with
    leases, the offline studio, the queues), \<open>LocalConfig\<close>, \<open>ConfigLaws\<close> (account preferences,
    profiles, bundles), \<open>PreferenceMerge\<close> (\<open>monitorPreferenceMerge.ts\<close>).
  \<^item> Synchronization (\<open>syncRuntime.ts\<close>): \<open>Sync\<close>, \<open>SyncLaws\<close> the data, \<open>SyncRun\<close>, \<open>SyncSafety\<close> a whole
    run over the private store, with the grant of \<open>Grant\<close> as its authorization.
  \<^item> The page and its server: \<open>ControlEvents\<close>, \<open>ControlSafety\<close> (\<open>sceneEvents.ts\<close>,
    \<open>controlConnectionStatus.ts\<close>), \<open>ExportJobs\<close>, \<open>ExportSafety\<close> (\<open>useNvrExportJobs.ts\<close>), \<open>Diagnostics\<close>,
    \<open>DiagnosticsSafety\<close> (\<open>diagnosticsRuntime.ts\<close>, \<open>supportReport.ts\<close>).  \<open>Requests\<close>, \<open>RequestSafety\<close>: a request with
    its deadline, one operation of an editor, polling (\<open>requestTimeout.ts\<close>, \<open>useOwnedRequest.ts\<close>,
    \<open>visiblePolling.ts\<close>).
  \<^item> The editors: \<open>SceneEdit\<close>, \<open>SceneEditLaws\<close>, \<open>StudioEditor\<close>, \<open>StudioEditorSafety\<close> (\<open>App.tsx\<close>,
    \<open>SceneCollection.tsx\<close>) edit, save and load the studio; \<open>Preferences\<close>, \<open>PreferenceSafety\<close>
    (\<open>useMonitorPreferences.ts\<close>) edit the preferences, which \<open>MonitorStore\<close> (\<open>localRuntime.ts\<close>) keeps.

  State.  Module variables, closures and class fields are records (\<open>store\<close>, \<open>whep\<close>, \<open>mixer\<close>,
  \<open>runtime\<close>); an operation takes the record and gives the changed one.  An asynchronous function is
  cut at its waits: one definition up to the wait and one for each way the wait can end, so that other
  events may come between; the connections are closed under all their events by an inductive relation
  or a fold over a list of events.  What the server answers, the browser reports, and other windows do
  is an argument (a world record or an event).  A \<open>throw\<close>, a rejected promise and an early return are
  branches: \<open>None\<close>, \<open>Inl\<close> of an error or the unchanged state.

  Numbers.  Where the code tests for NaN, infinities or integers, a number is a \<open>jsnum\<close>; otherwise it
  is a rational or, where roots and logarithms occur, a real: rounding of doubles is not modelled.
  Bytes of CBOR are 8-bit words.  A string is a list of 8-bit characters.

  Bounds and fuel.  The lists the code limits keep its limits (sixteen cells, 512 queued edits, the
  eight analytics slots, bounded buffers).  The treemap recurses on a measure; the CBOR decoder
  has the length of its input as fuel, and more never changes a result (\<open>read_fuel\<close>).  The draw loop of the random rotation need not end, so it is a partial function; it is
  proved that it ends unless a source has the empty name.

  What the lemmas show.  Locale \<open>machine\<close> (an invariant kept by every step holds in every run) and
  the other locales are interpreted on the model's own functions in the theory that provides them.
  The properties, marked by C and a number, come in groups: safety of synchronization and of the
  stored studio (no edit is lost, nothing but what was acknowledged leaves the queue, a studio is
  shown only while it is authorized, nothing private is stored or exported); of grants (signed, not
  replayed, on allowed endpoints); liveness and cleanliness of connections and of the audio graph;
  layouts that cover the wall exactly; preferences that stay in their ranges and merge without loss;
  detection and rotation policies with their spacing and their fairness; codecs that round-trip.

  Not modelled.  React components as far as they only place markup, the service
  worker, the Electron bridge and the REST calls are glue around browser interfaces.  WebCrypto,
  libsodium, IndexedDB's transactions, ONNX inference, WebRTC and Web Audio are parameters, events or
  worlds.  The services in Python, C++, Java and JavaScript outside \<open>src/web/src\<close> are other programs.
\<close>

end
